(* ===== verification/Prelude.thy ===== *)
theory Prelude
  imports Complex_Main "HOL-Library.Word" "HOL-Library.Sublist"
begin

text \<open>
  Shared vocabulary of the development: faults as values, the composition of fallible steps,
  the recorded conversation with a driver library, the ROS parameter server, decimal rendering
  and the integer/float conversions that the drivers perform implicitly.
\<close>

section \<open>Automation shared by the components\<close>

named_theorems step_defs \<open>definitions of the operations of a component\<close>
named_theorems frame_simps \<open>fields and history that an operation leaves alone\<close>

section \<open>Faults and fallible steps\<close>

text \<open>
  The ways in which the C++ code leaves its normal control flow: a failed \<open>CHECK\<close> calls
  \<open>std::abort\<close>, a \<open>throw\<close> unwinds, \<open>exit\<close> ends the process, a dereferenced null pointer
  or an access outside a buffer is undefined behaviour, and the thread that locks a mutex that
  nobody will release waits forever.
\<close>

datatype fault =
    CheckFailed string
  | Thrown string
  | Exited int
  | NullDeref string
  | OutOfBounds string
  | Blocked string

text \<open>
  A fallible step returns the state in both cases: the code that catches an exception goes on
  with whatever the step had already changed.
\<close>

type_synonym 's outcome = "(fault \<times> 's) + 's"

definition and_then :: "'e + 'a \<Rightarrow> ('a \<Rightarrow> 'e + 'b) \<Rightarrow> 'e + 'b" where
  "and_then r f = (case r of Inl e \<Rightarrow> Inl e | Inr a \<Rightarrow> f a)"

lemma and_then_Inl [simp]: "and_then (Inl e) f = Inl e"
  by (simp add: and_then_def)

lemma and_then_Inr [simp]: "and_then (Inr a) f = f a"
  by (simp add: and_then_def)

lemma and_then_eq_Inr: "and_then r f = Inr b \<longleftrightarrow> (\<exists>a. r = Inr a \<and> f a = Inr b)"
  by (cases r) auto

lemma and_then_assoc: "and_then (and_then r f) g = and_then r (\<lambda>a. and_then (f a) g)"
  by (cases r) auto

fun fold_outcome :: "('a \<Rightarrow> 's \<Rightarrow> 's outcome) \<Rightarrow> 'a list \<Rightarrow> 's \<Rightarrow> 's outcome" where
  "fold_outcome f [] s = Inr s"
| "fold_outcome f (x # xs) s = and_then (f x s) (fold_outcome f xs)"

fun outcome_state :: "'s outcome \<Rightarrow> 's" where
  "outcome_state (Inl (_, s)) = s"
| "outcome_state (Inr s) = s"

fun faulted :: "'s outcome \<Rightarrow> bool" where
  "faulted (Inl _) = True"
| "faulted (Inr _) = False"

lemma fold_outcome_append:
  "fold_outcome f (xs @ ys) s = and_then (fold_outcome f xs s) (fold_outcome f ys)"
proof (induction xs arbitrary: s)
  case Nil
  show ?case by simp
next
  case (Cons x xs)
  then show ?case by (cases "f x s") simp_all
qed

lemma fold_outcome_single: "fold_outcome f [x] = f x"
proof
  show "fold_outcome f [x] s = f x s" for s by (cases "f x s") simp_all
qed

text \<open>An invariant that every step keeps on both exits holds after the whole loop.\<close>

lemma fold_outcome_invariant:
  assumes "I s" and "\<And>x s. x \<in> set xs \<Longrightarrow> I s \<Longrightarrow> I (outcome_state (f x s))"
  shows "I (outcome_state (fold_outcome f xs s))"
  using assms
proof (induction xs arbitrary: s)
  case Nil
  then show ?case by simp
next
  case (Cons x xs)
  have step: "I (outcome_state (f x s))"
    by (rule Cons.prems) (use Cons.prems in auto)
  show ?case
  proof (cases "f x s")
    case (Inl e)
    then show ?thesis using step by (cases e) simp
  next
    case (Inr t)
    then have "I t" using step by simp
    then have "I (outcome_state (fold_outcome f xs t))"
      by (rule Cons.IH) (use Cons.prems in auto)
    with Inr show ?thesis by simp
  qed
qed

text \<open>What no step changes, the loop does not change.\<close>

lemma fold_outcome_keeps:
  assumes "\<And>x s t. f x s = Inr t \<Longrightarrow> v t = v s" "fold_outcome f xs s = Inr t"
  shows "v t = v s"
  using assms(2)
proof (induction xs arbitrary: s)
  case (Cons x xs)
  then obtain s' where "f x s = Inr s'" "fold_outcome f xs s' = Inr t" by (auto simp: and_then_eq_Inr)
  then show ?case using Cons.IH assms(1) by metis
qed simp

lemma fold_keeps: "(\<And>x s. v (f x s) = v s) \<Longrightarrow> v (fold f xs s) = v s"
  by (induction xs arbitrary: s) simp_all

lemma fold_outcome_total:
  assumes "\<And>x s. x \<in> set xs \<Longrightarrow> \<not> faulted (f x s)"
  shows "\<not> faulted (fold_outcome f xs s)"
  using assms
proof (induction xs arbitrary: s)
  case Nil
  then show ?case by simp
next
  case (Cons x xs)
  then have "\<not> faulted (f x s)" by simp
  then obtain t where "f x s = Inr t" by (cases "f x s") auto
  with Cons show ?case by simp
qed

section \<open>Counted retry loops\<close>

text \<open>
  \<open>for (int i = 0; i < n; i++) { err = attempt(); if (err == SUCCESS) break; }\<close>: the drivers
  retry a library call a bounded number of times and keep the last status.  \<open>retry f n rs\<close>
  runs at most \<open>n\<close> attempts from the status and state \<open>rs\<close>.
\<close>

fun retry :: "('s \<Rightarrow> int \<times> 's) \<Rightarrow> nat \<Rightarrow> int \<times> 's \<Rightarrow> int \<times> 's" where
  "retry f 0 rs = rs"
| "retry f (Suc n) rs = (let rs' = f (snd rs) in if fst rs' = 0 then rs' else retry f n rs')"

lemma retry_invariant:
  assumes "I (snd rs)" and "\<And>s. I s \<Longrightarrow> I (snd (f s))"
  shows "I (snd (retry f n rs))"
  using assms by (induction n arbitrary: rs) (auto simp: Let_def)

text \<open>A failing retry made every attempt: the number of steps is exactly the bound.\<close>

lemma retry_count_le:
  assumes m: "\<And>s. m (snd (f s)) = Suc (m s)"
  shows "m (snd (retry f n rs)) \<le> m (snd rs) + n"
proof (induction n arbitrary: rs)
  case 0
  then show ?case by simp
next
  case (Suc n)
  have "m (snd (retry f n (f (snd rs)))) \<le> Suc (m (snd rs)) + n"
    using Suc.IH [of "f (snd rs)"] m by simp
  then show ?case by (simp add: Let_def m)
qed

lemma retry_count_failed:
  assumes m: "\<And>s. m (snd (f s)) = Suc (m s)" and "fst (retry f n rs) \<noteq> 0"
  shows "m (snd (retry f n rs)) = m (snd rs) + n"
  using assms(2)
proof (induction n arbitrary: rs)
  case 0
  then show ?case by simp
next
  case (Suc n)
  from Suc.prems have nz: "fst (f (snd rs)) \<noteq> 0"
    and "fst (retry f n (f (snd rs))) \<noteq> 0"
    by (auto simp: Let_def split: if_splits)
  then have "m (snd (retry f n (f (snd rs)))) = m (snd (f (snd rs))) + n" by (intro Suc.IH)
  with nz show ?case by (simp add: Let_def m)
qed

section \<open>The ROS parameter server\<close>

text \<open>
  \<open>nh.param(name, default)\<close> returns the value stored under \<open>name\<close>, or the default.  The server
  is a library outside the repository, so it is a parameter of every model that reads it.
\<close>

record ros_params =
  p_int :: "string \<Rightarrow> int \<Rightarrow> int"
  p_bool :: "string \<Rightarrow> bool \<Rightarrow> bool"
  p_float :: "string \<Rightarrow> rat \<Rightarrow> rat"
  p_str :: "string \<Rightarrow> string \<Rightarrow> string"

definition empty_params :: ros_params where
  "empty_params = \<lparr>p_int = (\<lambda>_ d. d), p_bool = (\<lambda>_ d. d), p_float = (\<lambda>_ d. d), p_str = (\<lambda>_ d. d)\<rparr>"

lemma empty_params_simps [simp]:
  "p_int empty_params n i = i" "p_bool empty_params n b = b"
  "p_float empty_params n r = r" "p_str empty_params n s = s"
  by (simp_all add: empty_params_def)

section \<open>Decimal rendering (\<open>%d\<close>, \<open>std::to_string\<close>, \<open>operator<<\<close>)\<close>

definition digit_char :: "nat \<Rightarrow> char" where
  "digit_char d = char_of (48 + d)"

lemma digit_char_numeral [simp]:
  "digit_char 0 = CHR ''0''" "digit_char 1 = CHR ''1''" "digit_char (Suc 0) = CHR ''1''"
  "digit_char 2 = CHR ''2''" "digit_char 3 = CHR ''3''" "digit_char 4 = CHR ''4''"
  "digit_char 5 = CHR ''5''" "digit_char 6 = CHR ''6''" "digit_char 7 = CHR ''7''"
  "digit_char 8 = CHR ''8''" "digit_char 9 = CHR ''9''"
  by code_simp+

fun show_nat :: "nat \<Rightarrow> string" where
  "show_nat n = (if n < 10 then [digit_char n] else show_nat (n div 10) @ [digit_char (n mod 10)])"

declare show_nat.simps [simp del]

definition show_int :: "int \<Rightarrow> string" where
  "show_int i = (if i < 0 then CHR ''-'' # show_nat (nat (- i)) else show_nat (nat i))"

fun read_nat :: "string \<Rightarrow> nat \<Rightarrow> nat" where
  "read_nat [] acc = acc"
| "read_nat (c # cs) acc = read_nat cs (10 * acc + (of_char c - 48))"

lemma of_char_digit [simp]: "d < 10 \<Longrightarrow> of_char (digit_char d) = 48 + d"
  by (simp add: digit_char_def)

lemma read_nat_append: "read_nat (xs @ ys) acc = read_nat ys (read_nat xs acc)"
  by (induction xs arbitrary: acc) auto

lemma read_show_nat: "read_nat (show_nat n) 0 = n"
proof (induction n rule: show_nat.induct)
  case (1 n)
  then show ?case
    by (subst show_nat.simps) (simp add: read_nat_append)
qed

lemma show_nat_inject [simp]: "show_nat m = show_nat n \<longleftrightarrow> m = n"
  by (metis read_show_nat)

lemma show_nat_digits: "c \<in> set (show_nat n) \<Longrightarrow> \<exists>d < 10. c = digit_char d"
proof (induction n rule: show_nat.induct)
  case (1 n)
  show ?case
  proof (cases "n < 10")
    case True
    with 1 show ?thesis by (auto simp: show_nat.simps [of n])
  next
    case False
    with 1 show ?thesis
      by (auto simp: show_nat.simps [of n] intro: exI [of _ "n mod 10"])
  qed
qed

lemma show_nat_nonempty [simp]: "show_nat n \<noteq> []"
  by (subst show_nat.simps) simp

lemma length_show_nat: "n < 10 ^ k \<Longrightarrow> 0 < k \<Longrightarrow> length (show_nat n) \<le> k"
proof (induction k arbitrary: n)
  case 0
  then show ?case by simp
next
  case (Suc k)
  show ?case
  proof (cases "n < 10")
    case True
    then show ?thesis by (simp add: show_nat.simps [of n])
  next
    case False
    then have "k \<noteq> 0" using Suc.prems(1) by (cases k) auto
    moreover have "n div 10 < 10 ^ k" using Suc.prems(1) by (simp add: less_mult_imp_div_less)
    ultimately have "length (show_nat (n div 10)) \<le> k" by (intro Suc.IH) auto
    with False show ?thesis by (simp add: show_nat.simps [of n])
  qed
qed

lemma append_sep_eq:
  "x \<notin> set as \<Longrightarrow> x \<notin> set bs \<Longrightarrow> as @ x # us = bs @ x # vs \<longleftrightarrow> as = bs \<and> us = vs"
proof (induction as arbitrary: bs)
  case Nil
  then show ?case by (cases bs) auto
next
  case (Cons a as)
  then show ?case by (cases bs) auto
qed

lemma show_nat_no_sep: "of_char c < (48::nat) \<Longrightarrow> c \<notin> set (show_nat n)"
  using show_nat_digits by fastforce

section \<open>Implicit numeric conversions\<close>

text \<open>
  \<open>int\<close> to \<open>float\<close>: binary32 keeps 24 significant bits and rounds to nearest, ties to even.
  \<open>bit_len\<close> is the position of the highest set bit plus one.
\<close>

fun bit_len :: "nat \<Rightarrow> nat" where
  "bit_len n = (if n = 0 then 0 else Suc (bit_len (n div 2)))"

declare bit_len.simps [simp del]

definition round_f32 :: "int \<Rightarrow> int" where
  "round_f32 i =
     (let a = nat \<bar>i\<bar>; e = bit_len a - 24; q = a div 2 ^ e; r = a mod 2 ^ e;
          q' = (if 2 * r > 2 ^ e \<or> (2 * r = 2 ^ e \<and> odd q) then Suc q else q)
      in sgn i * int (q' * 2 ^ e))"

definition float_of_int :: "int \<Rightarrow> rat" where
  "float_of_int i = of_int (round_f32 i)"

definition float_of_bool :: "bool \<Rightarrow> rat" where
  "float_of_bool b = (if b then 1 else 0)"

text \<open>\<open>float\<close> to an integer type truncates towards zero; \<open>float\<close> to \<open>bool\<close> tests for non-zero.\<close>

definition int_of_float :: "rat \<Rightarrow> int" where
  "int_of_float x = (if x < 0 then - \<lfloor>- x\<rfloor> else \<lfloor>x\<rfloor>)"

definition bool_of_float :: "rat \<Rightarrow> bool" where
  "bool_of_float x \<longleftrightarrow> x \<noteq> 0"

lemma bit_len_bound: "n < 2 ^ k \<Longrightarrow> bit_len n \<le> k"
proof (induction n arbitrary: k rule: bit_len.induct)
  case (1 n)
  show ?case
  proof (cases "n = 0")
    case True
    then show ?thesis by (simp add: bit_len.simps [of 0])
  next
    case False
    then obtain k' where k: "k = Suc k'" using "1.prems" by (cases k) auto
    have "n div 2 < 2 ^ k'" using "1.prems" k by (simp add: less_mult_imp_div_less mult.commute)
    with False 1 have "bit_len (n div 2) \<le> k'" by blast
    with False k show ?thesis by (simp add: bit_len.simps [of n])
  qed
qed

lemma round_f32_exact: "\<bar>i\<bar> < 2 ^ 24 \<Longrightarrow> round_f32 i = i"
proof -
  assume "\<bar>i\<bar> < 2 ^ 24"
  then have "nat \<bar>i\<bar> < 2 ^ 24" by simp
  then have "bit_len (nat \<bar>i\<bar>) \<le> 24" by (rule bit_len_bound)
  then show ?thesis by (simp add: round_f32_def Let_def mult_sgn_abs)
qed

lemma int_of_float_of_int [simp]: "int_of_float (of_int i) = i"
  by (simp add: int_of_float_def)

lemma float_roundtrip: "\<bar>i\<bar> < 2 ^ 24 \<Longrightarrow> int_of_float (float_of_int i) = i"
  by (simp add: float_of_int_def round_f32_exact)

lemma bool_of_float_of_bool [simp]: "bool_of_float (float_of_bool b) = b"
  by (simp add: bool_of_float_def float_of_bool_def)

end
