(* ===== verification/Hik_Camera.thy ===== *)
theory Hik_Camera
  imports Prelude
begin

text \<open>
  The HIKROBOT camera node (\<open>hikrobot_camera/include/hikrobot_camera.hpp\<close> and
  \<open>hikrobot_camera/src/hikrobot_camera.cpp\<close>): the \<open>Camera\<close> class that configures the device
  through the MVS SDK, the grabbing thread and the publishing loop that exchange one frame
  under a mutex.  The SDK and the thread library are the parameter \<open>mvs_env\<close>: the status they
  answer may depend on every call made before.
\<close>

section \<open>Data\<close>

datatype CamerProperties =
    CAP_PROP_FRAMERATE_ENABLE
  | CAP_PROP_FRAMERATE
  | CAP_PROP_BURSTFRAMECOUNT
  | CAP_PROP_HEIGHT
  | CAP_PROP_WIDTH
  | CAP_PROP_EXPOSURE_TIME
  | CAP_PROP_GAMMA_ENABLE
  | CAP_PROP_GAMMA
  | CAP_PROP_GAIN
  | CAP_PROP_SATURATION_ENABLE
  | CAP_PROP_SATURATION
  | CAP_PROP_OFFSETX
  | CAP_PROP_OFFSETY
  | CAP_PROP_TRIGGER_MODE
  | CAP_PROP_TRIGGER_SOURCE
  | CAP_PROP_LINE_SELECTOR

datatype tlayer = MV_GIGE_DEVICE | MV_USB_DEVICE | MV_OTHER_DEVICE

record device_info =
  nTLayerType :: tlayer
  nCurrentIp :: "32 word"

text \<open>The calls of the SDK and of pthreads, with the arguments after the implicit conversions.\<close>

datatype mvs_call =
    MV_CC_EnumDevices
  | MV_CC_CreateHandle nat
  | MV_CC_OpenDevice
  | MV_CC_SetEnumValue string int
  | MV_CC_SetBoolValue string bool
  | MV_CC_SetIntValue string int
  | MV_CC_SetFloatValue string rat
  | MV_CC_GetEnumValue string
  | MV_CC_StartGrabbing
  | MV_CC_StopGrabbing
  | MV_CC_CloseDevice
  | MV_CC_DestroyHandle
  | Pthread_mutex_init
  | Pthread_create
  | Pthread_join
  | Pthread_mutex_destroy

record mvs_env =
  mvs_rc :: "mvs_call list \<Rightarrow> mvs_call \<Rightarrow> int"
  mvs_devices :: "device_info option list"

definition MV_OK :: int where
  "MV_OK = 0"

record Camera =
  cam_handle :: "nat option"
  cam_nRet :: int
  cam_width :: int
  cam_height :: int
  cam_Offset_x :: int
  cam_Offset_y :: int
  cam_FrameRateEnable :: bool
  cam_FrameRate :: int
  cam_BurstFrameCount :: int
  cam_ExposureTime :: int
  cam_GammaEnable :: bool
  cam_Gamma :: rat
  cam_Gain :: rat
  cam_SaturationEnable :: bool
  cam_Saturation :: int
  cam_TriggerMode :: int
  cam_TriggerSource :: int
  cam_LineSelector :: int
  mvs_log :: "mvs_call list"

section \<open>Calling the SDK\<close>

definition mv :: "mvs_env \<Rightarrow> mvs_call \<Rightarrow> Camera \<Rightarrow> Camera" where
  "mv E call c = c\<lparr>cam_nRet := mvs_rc E (mvs_log c) call, mvs_log := mvs_log c @ [call]\<rparr>"

definition mv_or_exit :: "mvs_env \<Rightarrow> mvs_call \<Rightarrow> Camera \<Rightarrow> Camera outcome" where
  "mv_or_exit E call c =
     (let c' = mv E call c in if cam_nRet c' \<noteq> MV_OK then Inl (Exited (-1), c') else Inr c')"

lemma mv_log [frame_simps]: "mvs_log (mv E call c) = mvs_log c @ [call]"
  by (simp add: mv_def)

lemma mv_nRet [frame_simps]: "cam_nRet (mv E call c) = mvs_rc E (mvs_log c) call"
  by (simp add: mv_def)

lemma mv_config [frame_simps]:
  "cam_width (mv E k c) = cam_width c" "cam_height (mv E k c) = cam_height c"
  "cam_Offset_x (mv E k c) = cam_Offset_x c" "cam_Offset_y (mv E k c) = cam_Offset_y c"
  "cam_FrameRateEnable (mv E k c) = cam_FrameRateEnable c" "cam_FrameRate (mv E k c) = cam_FrameRate c"
  "cam_ExposureTime (mv E k c) = cam_ExposureTime c" "cam_GammaEnable (mv E k c) = cam_GammaEnable c"
  "cam_Gamma (mv E k c) = cam_Gamma c" "cam_Gain (mv E k c) = cam_Gain c"
  "cam_SaturationEnable (mv E k c) = cam_SaturationEnable c"
  "cam_Saturation (mv E k c) = cam_Saturation c" "cam_TriggerMode (mv E k c) = cam_TriggerMode c"
  "cam_TriggerSource (mv E k c) = cam_TriggerSource c"
  "cam_LineSelector (mv E k c) = cam_LineSelector c" "cam_handle (mv E k c) = cam_handle c"
  by (simp_all add: mv_def)

section \<open>\<open>Camera::set\<close>\<close>

text \<open>
  \<open>set(type, value)\<close> takes a \<open>float\<close>; each property passes it to the SDK as the parameter type
  of the function it calls.
\<close>

fun prop_call :: "CamerProperties \<Rightarrow> rat \<Rightarrow> mvs_call" where
  "prop_call CAP_PROP_FRAMERATE_ENABLE v =
     MV_CC_SetBoolValue ''AcquisitionFrameRateEnable'' (bool_of_float v)"
| "prop_call CAP_PROP_FRAMERATE v = MV_CC_SetFloatValue ''AcquisitionFrameRate'' v"
| "prop_call CAP_PROP_BURSTFRAMECOUNT v =
     MV_CC_SetIntValue ''AcquisitionBurstFrameCount'' (int_of_float v)"
| "prop_call CAP_PROP_HEIGHT v = MV_CC_SetIntValue ''Height'' (int_of_float v)"
| "prop_call CAP_PROP_WIDTH v = MV_CC_SetIntValue ''Width'' (int_of_float v)"
| "prop_call CAP_PROP_OFFSETX v = MV_CC_SetIntValue ''OffsetX'' (int_of_float v)"
| "prop_call CAP_PROP_OFFSETY v = MV_CC_SetIntValue ''OffsetY'' (int_of_float v)"
| "prop_call CAP_PROP_EXPOSURE_TIME v = MV_CC_SetFloatValue ''ExposureTime'' v"
| "prop_call CAP_PROP_GAMMA_ENABLE v = MV_CC_SetBoolValue ''GammaEnable'' (bool_of_float v)"
| "prop_call CAP_PROP_GAMMA v = MV_CC_SetFloatValue ''Gamma'' v"
| "prop_call CAP_PROP_GAIN v = MV_CC_SetFloatValue ''Gain'' v"
| "prop_call CAP_PROP_SATURATION_ENABLE v =
     MV_CC_SetBoolValue ''SaturationEnable'' (bool_of_float v)"
| "prop_call CAP_PROP_SATURATION v = MV_CC_SetIntValue ''Saturation'' (int_of_float v)"
| "prop_call CAP_PROP_TRIGGER_MODE v = MV_CC_SetEnumValue ''TriggerMode'' (int_of_float v)"
| "prop_call CAP_PROP_TRIGGER_SOURCE v = MV_CC_SetEnumValue ''TriggerSource'' (int_of_float v)"
| "prop_call CAP_PROP_LINE_SELECTOR v = MV_CC_SetEnumValue ''LineSelector'' (int_of_float v)"

text \<open>\<open>return nRet\<close> converts the SDK status to \<open>bool\<close>: true means that the call failed.\<close>

definition Camera_set :: "mvs_env \<Rightarrow> CamerProperties \<Rightarrow> rat \<Rightarrow> Camera \<Rightarrow> bool \<times> Camera" where
  "Camera_set E ty v c = (let c' = mv E (prop_call ty v) c in (cam_nRet c' \<noteq> 0, c'))"

lemma Camera_set_simps [frame_simps]:
  "snd (Camera_set E ty v c) = mv E (prop_call ty v) c"
  "fst (Camera_set E ty v c) \<longleftrightarrow> mvs_rc E (mvs_log c) (prop_call ty v) \<noteq> 0"
  by (simp_all add: Camera_set_def Let_def frame_simps)

section \<open>\<open>Camera::reset\<close>\<close>

definition bool_int :: "bool \<Rightarrow> int" where
  "bool_int b = (if b then 1 else 0)"

text \<open>
  \<open>nRet = this->set(ty, v) || nRet\<close>: the left operand runs first and stores its own status in
  the member \<open>nRet\<close>, which the right operand then reads.
\<close>

definition set_or :: "mvs_env \<Rightarrow> CamerProperties \<Rightarrow> rat \<Rightarrow> Camera \<Rightarrow> Camera" where
  "set_or E ty v c =
     (let (b, c') = Camera_set E ty v c in c'\<lparr>cam_nRet := bool_int (b \<or> cam_nRet c' \<noteq> 0)\<rparr>)"

definition Camera_reset :: "mvs_env \<Rightarrow> Camera \<Rightarrow> bool \<times> Camera" where
  "Camera_reset E c0 =
     (let c = (let (b, c) = Camera_set E CAP_PROP_FRAMERATE_ENABLE
                              (float_of_bool (cam_FrameRateEnable c0)) c0
               in c\<lparr>cam_nRet := bool_int b\<rparr>);
          c = set_or E CAP_PROP_FRAMERATE (float_of_int (cam_FrameRate c)) c;
          c = set_or E CAP_PROP_HEIGHT (float_of_int (cam_height c)) c;
          c = set_or E CAP_PROP_WIDTH (float_of_int (cam_width c)) c;
          c = set_or E CAP_PROP_OFFSETX (float_of_int (cam_Offset_x c)) c;
          c = set_or E CAP_PROP_OFFSETY (float_of_int (cam_Offset_y c)) c;
          c = set_or E CAP_PROP_EXPOSURE_TIME (float_of_int (cam_ExposureTime c)) c;
          c = set_or E CAP_PROP_GAMMA_ENABLE (float_of_bool (cam_GammaEnable c)) c;
          c = (if cam_GammaEnable c then set_or E CAP_PROP_GAMMA (cam_Gamma c) c else c);
          c = set_or E CAP_PROP_GAIN (cam_Gain c) c;
          c = (if cam_SaturationEnable c
               then set_or E CAP_PROP_SATURATION (float_of_int (cam_Saturation c))
                      (set_or E CAP_PROP_SATURATION_ENABLE (float_of_bool (cam_SaturationEnable c)) c)
               else c);
          c = set_or E CAP_PROP_TRIGGER_MODE (float_of_int (cam_TriggerMode c)) c;
          c = set_or E CAP_PROP_TRIGGER_SOURCE (float_of_int (cam_TriggerSource c)) c;
          c = set_or E CAP_PROP_LINE_SELECTOR (float_of_int (cam_LineSelector c)) c
      in (cam_nRet c \<noteq> 0, c))"

text \<open>The calls \<open>reset\<close> makes, in order.\<close>

definition reset_script :: "Camera \<Rightarrow> mvs_call list" where
  "reset_script c =
     [prop_call CAP_PROP_FRAMERATE_ENABLE (float_of_bool (cam_FrameRateEnable c)),
      prop_call CAP_PROP_FRAMERATE (float_of_int (cam_FrameRate c)),
      prop_call CAP_PROP_HEIGHT (float_of_int (cam_height c)),
      prop_call CAP_PROP_WIDTH (float_of_int (cam_width c)),
      prop_call CAP_PROP_OFFSETX (float_of_int (cam_Offset_x c)),
      prop_call CAP_PROP_OFFSETY (float_of_int (cam_Offset_y c)),
      prop_call CAP_PROP_EXPOSURE_TIME (float_of_int (cam_ExposureTime c)),
      prop_call CAP_PROP_GAMMA_ENABLE (float_of_bool (cam_GammaEnable c))]
     @ (if cam_GammaEnable c then [prop_call CAP_PROP_GAMMA (cam_Gamma c)] else [])
     @ [prop_call CAP_PROP_GAIN (cam_Gain c)]
     @ (if cam_SaturationEnable c
        then [prop_call CAP_PROP_SATURATION_ENABLE (float_of_bool True),
              prop_call CAP_PROP_SATURATION (float_of_int (cam_Saturation c))] else [])
     @ [prop_call CAP_PROP_TRIGGER_MODE (float_of_int (cam_TriggerMode c)),
        prop_call CAP_PROP_TRIGGER_SOURCE (float_of_int (cam_TriggerSource c)),
        prop_call CAP_PROP_LINE_SELECTOR (float_of_int (cam_LineSelector c))]"

lemma set_or_eq:
  "set_or E ty v c =
     (mv E (prop_call ty v) c)\<lparr>cam_nRet := bool_int (mvs_rc E (mvs_log c) (prop_call ty v) \<noteq> 0)\<rparr>"
  by (simp add: set_or_def Camera_set_def Let_def frame_simps)

lemma set_or_frame [frame_simps]:
  "cam_width (set_or E ty v c) = cam_width c" "cam_height (set_or E ty v c) = cam_height c"
  "cam_Offset_x (set_or E ty v c) = cam_Offset_x c" "cam_Offset_y (set_or E ty v c) = cam_Offset_y c"
  "cam_FrameRate (set_or E ty v c) = cam_FrameRate c"
  "cam_ExposureTime (set_or E ty v c) = cam_ExposureTime c"
  "cam_GammaEnable (set_or E ty v c) = cam_GammaEnable c" "cam_Gamma (set_or E ty v c) = cam_Gamma c"
  "cam_Gain (set_or E ty v c) = cam_Gain c"
  "cam_SaturationEnable (set_or E ty v c) = cam_SaturationEnable c"
  "cam_Saturation (set_or E ty v c) = cam_Saturation c"
  "cam_TriggerMode (set_or E ty v c) = cam_TriggerMode c"
  "cam_TriggerSource (set_or E ty v c) = cam_TriggerSource c"
  "cam_LineSelector (set_or E ty v c) = cam_LineSelector c"
  by (simp_all add: set_or_eq frame_simps)

lemma set_or_log [frame_simps]: "mvs_log (set_or E ty v c) = mvs_log c @ [prop_call ty v]"
  by (simp add: set_or_eq frame_simps)

lemma set_or_nRet [frame_simps]:
  "cam_nRet (set_or E ty v c) = bool_int (mvs_rc E (mvs_log c) (prop_call ty v) \<noteq> 0)"
  by (simp add: set_or_eq)

lemma bool_int_nonzero [simp]: "bool_int b \<noteq> 0 \<longleftrightarrow> b" "bool_int b = 0 \<longleftrightarrow> \<not> b"
  by (simp_all add: bool_int_def)

lemma reset_log: "mvs_log (snd (Camera_reset E c)) = mvs_log c @ reset_script c"
  by (simp add: Camera_reset_def reset_script_def Let_def split_def frame_simps del: prop_call.simps)


text \<open>
  \<open>reset\<close> is written to report whether any of its settings failed, but every
  \<open>set\<close> overwrites the member \<open>nRet\<close> before the accumulated value is read: the result is the
  status of the last call (the line selector) alone, whatever happened before it.
\<close>

theorem reset_reports_last_status:
  "fst (Camera_reset E c) \<longleftrightarrow>
     mvs_rc E (mvs_log c @ butlast (reset_script c)) (last (reset_script c)) \<noteq> 0"
  by (simp add: Camera_reset_def reset_script_def Let_def split_def frame_simps butlast_append
      del: prop_call.simps)

text \<open>
  \<open>reset\<close> sends every configured property to the device, once, in the order of the
  source, the optional ones under their enable flags, and integer settings below \<open>2^24\<close> arrive
  unchanged in spite of the detour through \<open>float\<close>.
\<close>

theorem reset_sends_configuration:
  assumes "\<bar>cam_height c\<bar> < 2 ^ 24" "\<bar>cam_width c\<bar> < 2 ^ 24" "\<bar>cam_TriggerMode c\<bar> < 2 ^ 24"
  shows "mvs_log (snd (Camera_reset E c)) = mvs_log c @ reset_script c \<and>
    {MV_CC_SetIntValue ''Height'' (cam_height c), MV_CC_SetIntValue ''Width'' (cam_width c),
     MV_CC_SetEnumValue ''TriggerMode'' (cam_TriggerMode c)} \<subseteq> set (reset_script c)"
  using assms by (simp add: reset_log reset_script_def float_roundtrip)

definition quiet_mvs :: mvs_env where
  "quiet_mvs = \<lparr>mvs_rc = (\<lambda>_ _. 0), mvs_devices = [Some \<lparr>nTLayerType = MV_USB_DEVICE, nCurrentIp = 0\<rparr>]\<rparr>"

theorem reset_sends_configuration_witness:
  "\<exists>c. cam_width c = 3200 \<and> MV_CC_SetIntValue ''Width'' 3200 \<in> set (reset_script c)"
proof -
  define c where "c = \<lparr>cam_handle = None, cam_nRet = 0, cam_width = 3200, cam_height = 1944,
     cam_Offset_x = 0, cam_Offset_y = 0, cam_FrameRateEnable = True, cam_FrameRate = 7,
     cam_BurstFrameCount = 10, cam_ExposureTime = 35000, cam_GammaEnable = True, cam_Gamma = 1,
     cam_Gain = 9, cam_SaturationEnable = True, cam_Saturation = 150, cam_TriggerMode = 0,
     cam_TriggerSource = 2, cam_LineSelector = 2, mvs_log = []\<rparr>"
  have w: "cam_width c = 3200" "cam_height c = 1944" "cam_TriggerMode c = 0"
    by (simp_all add: c_def)
  have "MV_CC_SetIntValue ''Width'' (cam_width c) \<in> set (reset_script c)"
    using reset_sends_configuration [of c quiet_mvs] by (simp add: w)
  with w show ?thesis by metis
qed

section \<open>Device selection by IP address\<close>

text \<open>\<open>sprintf(ip_str, "%d.%d.%d.%d", ...)\<close> into a buffer of 16 bytes.\<close>

definition ip_octet :: "nat \<Rightarrow> 32 word \<Rightarrow> nat" where
  "ip_octet k ip = unat (and (drop_bit k ip) 0xFF)"

definition dotted_ip :: "32 word \<Rightarrow> string" where
  "dotted_ip ip =
     show_nat (ip_octet 24 ip) @ CHR ''.'' # show_nat (ip_octet 16 ip) @ CHR ''.'' #
     show_nat (ip_octet 8 ip) @ CHR ''.'' # show_nat (ip_octet 0 ip)"

lemma ip_octet_eq: "ip_octet k ip = unat ip div 2 ^ k mod 256"
proof -
  have "and (drop_bit k ip) 0xFF = take_bit 8 (drop_bit k ip)"
    by (simp add: take_bit_eq_mask mask_eq_exp_minus_1)
  moreover have "take_bit 32 (unat ip) = unat ip"
    by (rule take_bit_nat_eq_self) (use unsigned_less [of ip] in simp)
  ultimately have "ip_octet k ip = take_bit 8 (drop_bit k (unat ip))"
    by (simp only: ip_octet_def unsigned_take_bit_eq) (simp add: unsigned_drop_bit_eq)
  then show ?thesis by (simp add: take_bit_eq_mod drop_bit_eq_div)
qed

lemma ip_octet_less: "ip_octet k ip < 256"
  by (simp add: ip_octet_eq)

lemma octet_text: "length (show_nat (ip_octet k ip)) \<le> 3"
  using ip_octet_less [of k ip] by (intro length_show_nat) simp_all

lemma next_octet: "(a::nat) div 2 ^ k = 256 * (a div 2 ^ (k + 8)) + a div 2 ^ k mod 256"
  using mult_div_mod_eq [of 256 "a div 2 ^ k"] by (simp add: div_mult2_eq power_add)

lemma octets_determine:
  fixes a b :: nat
  assumes "a < 2 ^ 32" "b < 2 ^ 32"
    and "\<And>k. k \<in> {0, 8, 16, 24} \<Longrightarrow> a div 2 ^ k mod 256 = b div 2 ^ k mod 256"
  shows "a = b"
proof -
  have "a div 2 ^ 32 = b div 2 ^ 32" using assms(1,2) by simp
  then have "a div 2 ^ 24 = b div 2 ^ 24"
    using next_octet [of a 24] next_octet [of b 24] assms(3) [of 24] by simp
  then have "a div 2 ^ 16 = b div 2 ^ 16"
    using next_octet [of a 16] next_octet [of b 16] assms(3) [of 16] by simp
  then have "a div 2 ^ 8 = b div 2 ^ 8"
    using next_octet [of a 8] next_octet [of b 8] assms(3) [of 8] by simp
  then show ?thesis
    using next_octet [of a 0] next_octet [of b 0] assms(3) [of 0] by simp
qed

lemma dot_split:
  "show_nat m @ CHR ''.'' # xs = show_nat n @ CHR ''.'' # ys \<longleftrightarrow> m = n \<and> xs = ys"
  by (subst append_sep_eq) (simp_all add: show_nat_no_sep)

text \<open>
  Claim C5.  The textual address identifies the device address: two devices compare equal to
  the same \<open>camera_ip\<close> only if they have the same 32-bit address, and the text together with its
  terminating NUL always fits the 16-byte buffer it is printed into.
\<close>

theorem dotted_ip_faithful:
  "(dotted_ip a = dotted_ip b \<longleftrightarrow> a = b) \<and> length (dotted_ip a) + 1 \<le> 16"
proof -
  have "a = b" if "dotted_ip a = dotted_ip b"
    by (rule unsigned_word_eqI [where 'a = nat], rule octets_determine)
       (use that unsigned_less [of a] unsigned_less [of b] in
         \<open>auto simp: dotted_ip_def dot_split ip_octet_eq\<close>)
  moreover have "length (dotted_ip a) + 1 \<le> 16"
    using octet_text [of 24 a] octet_text [of 16 a] octet_text [of 8 a] octet_text [of 0 a]
    by (simp add: dotted_ip_def)
  ultimately show ?thesis by blast
qed

text \<open>
  The selection loop: the first GigE device whose address reads \<open>camera_ip\<close>; an entry that is
  a null pointer is dereferenced.  Without a match, or with no address configured, device 0.
\<close>

fun find_ip :: "string \<Rightarrow> device_info option list \<Rightarrow> nat \<Rightarrow> fault + nat option" where
  "find_ip ip [] i = Inr None"
| "find_ip ip (None # ds) i = Inl (NullDeref ''pDeviceInfo'')"
| "find_ip ip (Some d # ds) i =
     (if nTLayerType d = MV_GIGE_DEVICE \<and> ip = dotted_ip (nCurrentIp d) then Inr (Some i)
      else find_ip ip ds (Suc i))"

definition select_device :: "string \<Rightarrow> device_info option list \<Rightarrow> fault + nat" where
  "select_device ip ds =
     (if ip = [] then Inr 0
      else and_then (find_ip ip ds 0) (\<lambda>r. Inr (case r of None \<Rightarrow> 0 | Some i \<Rightarrow> i)))"

definition matches_ip :: "string \<Rightarrow> device_info option \<Rightarrow> bool" where
  "matches_ip ip d \<longleftrightarrow>
     (\<exists>d'. d = Some d' \<and> nTLayerType d' = MV_GIGE_DEVICE \<and> ip = dotted_ip (nCurrentIp d'))"

lemma find_ip_spec:
  assumes "None \<notin> set ds"
  shows "find_ip ip ds i =
    Inr (if \<exists>d \<in> set ds. matches_ip ip d
         then Some (i + length (takeWhile (\<lambda>d. \<not> matches_ip ip d) ds)) else None)"
  using assms
proof (induction ds arbitrary: i)
  case Nil
  then show ?case by simp
next
  case (Cons d ds)
  then obtain d' where "d = Some d'" by (cases d) auto
  with Cons show ?case by (auto simp: matches_ip_def)
qed

text \<open>
  With a device list free of null entries and an address configured, the selected
  device is the first one with that address; if no device has it, the first device is taken.
\<close>

theorem select_device_first_match:
  assumes "None \<notin> set ds" and "ip \<noteq> []"
  shows "select_device ip ds =
    Inr (if \<exists>d \<in> set ds. matches_ip ip d
         then length (takeWhile (\<lambda>d. \<not> matches_ip ip d) ds) else 0)"
  using assms by (simp add: select_device_def find_ip_spec)

theorem select_device_first_match_witness:
  "select_device ''1.2.3.4''
     [Some \<lparr>nTLayerType = MV_USB_DEVICE, nCurrentIp = 0\<rparr>,
      Some \<lparr>nTLayerType = MV_GIGE_DEVICE, nCurrentIp = 0x01020304\<rparr>] = Inr 1"
proof -
  have ip: "dotted_ip 0x01020304 = ''1.2.3.4''"
    by (simp add: dotted_ip_def ip_octet_eq show_nat.simps)
  show ?thesis
    by (subst select_device_first_match) (simp_all add: matches_ip_def ip)
qed

end
