(* ===== verification/Hik_Startup.thy ===== *)
theory Hik_Startup
  imports Hik_Camera
begin

text \<open>
  The life of the \<open>Camera\<close> object: the constructor (parameters, device selection, configuration,
  start of the stream and of the grabbing thread) and the destructor.
\<close>

section \<open>The constructor\<close>

text \<open>The \<open>node.param\<close> calls; \<open>nRet\<close> is written before it is ever read.\<close>

definition read_yaml :: "ros_params \<Rightarrow> Camera" where
  "read_yaml P =
     \<lparr>cam_handle = None,
      cam_nRet = 0,
      cam_width = p_int P ''width'' 3072,
      cam_height = p_int P ''height'' 2048,
      cam_Offset_x = p_int P ''Offset_x'' 0,
      cam_Offset_y = p_int P ''Offset_y'' 0,
      cam_FrameRateEnable = p_bool P ''FrameRateEnable'' False,
      cam_FrameRate = p_int P ''FrameRate'' 10,
      cam_BurstFrameCount = p_int P ''BurstFrameCount'' 10,
      cam_ExposureTime = p_int P ''ExposureTime'' 150000,
      cam_GammaEnable = p_bool P ''GammaEnable'' False,
      cam_Gamma = p_float P ''Gamma'' (7 / 10),
      cam_Gain = p_float P ''Gain'' 15,
      cam_SaturationEnable = p_bool P ''SaturationEnable'' False,
      cam_Saturation = p_int P ''Saturation'' 128,
      cam_TriggerMode = p_int P ''TriggerMode'' 1,
      cam_TriggerSource = p_int P ''TriggerSource'' 2,
      cam_LineSelector = p_int P ''LineSelector'' 2,
      mvs_log = []\<rparr>"

text \<open>\<open>this->set(...)\<close> as a statement, and the same under an \<open>if\<close>.\<close>

definition set_stmt :: "mvs_env \<Rightarrow> CamerProperties \<Rightarrow> rat \<Rightarrow> Camera \<Rightarrow> Camera" where
  "set_stmt E ty v c = snd (Camera_set E ty v c)"

definition set_if :: "bool \<Rightarrow> mvs_env \<Rightarrow> CamerProperties \<Rightarrow> rat \<Rightarrow> Camera \<Rightarrow> Camera" where
  "set_if b E ty v c = (if b then set_stmt E ty v c else c)"

lemma set_stmt_eq [frame_simps]: "set_stmt E ty v c = mv E (prop_call ty v) c"
  by (simp add: set_stmt_def frame_simps)

lemma set_if_frame [frame_simps]:
  "cam_width (set_if b E k v c) = cam_width c" "cam_height (set_if b E k v c) = cam_height c"
  "cam_Offset_x (set_if b E k v c) = cam_Offset_x c" "cam_Offset_y (set_if b E k v c) = cam_Offset_y c"
  "cam_ExposureTime (set_if b E k v c) = cam_ExposureTime c"
  "cam_GammaEnable (set_if b E k v c) = cam_GammaEnable c" "cam_Gamma (set_if b E k v c) = cam_Gamma c"
  "cam_Gain (set_if b E k v c) = cam_Gain c"
  "cam_SaturationEnable (set_if b E k v c) = cam_SaturationEnable c"
  "cam_Saturation (set_if b E k v c) = cam_Saturation c"
  "cam_handle (set_if b E k v c) = cam_handle c"
  "mvs_log (set_if b E k v c) = mvs_log c @ (if b then [prop_call k v] else [])"
  by (simp_all add: set_if_def frame_simps)

text \<open>The part between opening the device and starting the stream: no status is acted on.\<close>

definition apply_yaml :: "mvs_env \<Rightarrow> Camera \<Rightarrow> Camera" where
  "apply_yaml E c0 =
     (let c = mv E (MV_CC_SetEnumValue ''GainAuto'' 0) c0;
          c = set_stmt E CAP_PROP_FRAMERATE_ENABLE (float_of_bool (cam_FrameRateEnable c)) c;
          c = set_if (cam_FrameRateEnable c) E CAP_PROP_FRAMERATE (float_of_int (cam_FrameRate c)) c;
          c = set_stmt E CAP_PROP_HEIGHT (float_of_int (cam_height c)) c;
          c = set_stmt E CAP_PROP_WIDTH (float_of_int (cam_width c)) c;
          c = set_stmt E CAP_PROP_OFFSETX (float_of_int (cam_Offset_x c)) c;
          c = set_stmt E CAP_PROP_OFFSETY (float_of_int (cam_Offset_y c)) c;
          c = set_stmt E CAP_PROP_EXPOSURE_TIME (float_of_int (cam_ExposureTime c)) c;
          c = set_stmt E CAP_PROP_GAMMA_ENABLE (float_of_bool (cam_GammaEnable c)) c;
          c = set_if (cam_GammaEnable c) E CAP_PROP_GAMMA (cam_Gamma c) c;
          c = set_stmt E CAP_PROP_GAIN (cam_Gain c) c;
          c = mv E (MV_CC_SetEnumValue ''BalanceWhiteAuto'' 0) c;
          c = set_if (cam_SaturationEnable c) E CAP_PROP_SATURATION_ENABLE
                (float_of_bool (cam_SaturationEnable c)) c;
          c = set_if (cam_SaturationEnable c) E CAP_PROP_SATURATION
                (float_of_int (cam_Saturation c)) c;
          c = mv E (MV_CC_SetEnumValue ''TriggerMode'' 0) c
      in mv E (MV_CC_GetEnumValue ''PixelFormat'') c)"

definition Camera_ctor :: "mvs_env \<Rightarrow> ros_params \<Rightarrow> Camera outcome" where
  "Camera_ctor E P =
     and_then (mv_or_exit E MV_CC_EnumDevices (read_yaml P)) (\<lambda>c.
       if mvs_devices E = [] then Inl (Exited (-1), c)
       else case select_device (p_str P ''camera_ip'' []) (mvs_devices E) of
              Inl f \<Rightarrow> Inl (f, c)
            | Inr i \<Rightarrow>
                and_then (mv_or_exit E (MV_CC_CreateHandle i) c) (\<lambda>c.
                and_then (mv_or_exit E MV_CC_OpenDevice (c\<lparr>cam_handle := Some i\<rparr>)) (\<lambda>c.
                and_then (mv_or_exit E MV_CC_StartGrabbing (apply_yaml E c)) (\<lambda>c.
                and_then (mv_or_exit E Pthread_mutex_init c) (mv_or_exit E Pthread_create)))))"

section \<open>The destructor\<close>

text \<open>The destructor keeps its status in a local variable, so the member \<open>nRet\<close> is untouched.\<close>

definition mv_dtor :: "mvs_env \<Rightarrow> mvs_call \<Rightarrow> Camera \<Rightarrow> Camera outcome" where
  "mv_dtor E call c =
     (let c' = c\<lparr>mvs_log := mvs_log c @ [call]\<rparr>
      in if mvs_rc E (mvs_log c) call \<noteq> MV_OK then Inl (Exited (-1), c') else Inr c')"

definition Camera_dtor :: "mvs_env \<Rightarrow> Camera \<Rightarrow> Camera outcome" where
  "Camera_dtor E c0 =
     (let c = c0\<lparr>mvs_log := mvs_log c0 @ [Pthread_join]\<rparr>
      in and_then (mv_dtor E MV_CC_StopGrabbing c) (\<lambda>c.
         and_then (mv_dtor E MV_CC_CloseDevice c) (\<lambda>c.
         and_then (mv_dtor E MV_CC_DestroyHandle c) (\<lambda>c.
         Inr (c\<lparr>mvs_log := mvs_log c @ [Pthread_mutex_destroy]\<rparr>)))))"

section \<open>What the constructor tells the device\<close>

definition yaml_script :: "Camera \<Rightarrow> mvs_call list" where
  "yaml_script c =
     [MV_CC_SetEnumValue ''GainAuto'' 0,
      MV_CC_SetBoolValue ''AcquisitionFrameRateEnable'' (cam_FrameRateEnable c)]
     @ (if cam_FrameRateEnable c
        then [MV_CC_SetFloatValue ''AcquisitionFrameRate'' (float_of_int (cam_FrameRate c))] else [])
     @ [prop_call CAP_PROP_HEIGHT (float_of_int (cam_height c)),
        prop_call CAP_PROP_WIDTH (float_of_int (cam_width c)),
        prop_call CAP_PROP_OFFSETX (float_of_int (cam_Offset_x c)),
        prop_call CAP_PROP_OFFSETY (float_of_int (cam_Offset_y c)),
        prop_call CAP_PROP_EXPOSURE_TIME (float_of_int (cam_ExposureTime c)),
        MV_CC_SetBoolValue ''GammaEnable'' (cam_GammaEnable c)]
     @ (if cam_GammaEnable c then [MV_CC_SetFloatValue ''Gamma'' (cam_Gamma c)] else [])
     @ [MV_CC_SetFloatValue ''Gain'' (cam_Gain c), MV_CC_SetEnumValue ''BalanceWhiteAuto'' 0]
     @ (if cam_SaturationEnable c
        then [MV_CC_SetBoolValue ''SaturationEnable'' True,
              prop_call CAP_PROP_SATURATION (float_of_int (cam_Saturation c))] else [])
     @ [MV_CC_SetEnumValue ''TriggerMode'' 0, MV_CC_GetEnumValue ''PixelFormat'']"

lemma apply_yaml_log: "mvs_log (apply_yaml E c) = mvs_log c @ yaml_script c"
  by (simp add: apply_yaml_def yaml_script_def Let_def frame_simps)

lemma apply_yaml_handle [frame_simps]: "cam_handle (apply_yaml E c) = cam_handle c"
  by (simp add: apply_yaml_def Let_def frame_simps)

lemma mv_or_exit_Inr [frame_simps]:
  "mv_or_exit E k c = Inr c' \<longleftrightarrow> c' = mv E k c \<and> mvs_rc E (mvs_log c) k = 0"
  by (auto simp: mv_or_exit_def Let_def frame_simps MV_OK_def)

lemma mv_or_exit_Inl [frame_simps]:
  "mv_or_exit E k c = Inl e \<longleftrightarrow> e = (Exited (-1), mv E k c) \<and> mvs_rc E (mvs_log c) k \<noteq> 0"
  by (auto simp: mv_or_exit_def Let_def frame_simps MV_OK_def)

lemma yaml_script_cong [frame_simps]:
  "yaml_script (mv E k c) = yaml_script c" "yaml_script (c\<lparr>cam_handle := h\<rparr>) = yaml_script c"
  by (simp_all add: yaml_script_def frame_simps)

lemma read_yaml_log [frame_simps]: "mvs_log (read_yaml P) = []"
  by (simp add: read_yaml_def)

text \<open>
  Claim C3.  A camera that was constructed has been enumerated, opened, configured and started
  in this order, with exactly the settings of the parameter server, on the selected device.
\<close>

theorem ctor_script:
  assumes "Camera_ctor E P = Inr c"
  shows "\<exists>i. select_device (p_str P ''camera_ip'' []) (mvs_devices E) = Inr i \<and>
    cam_handle c = Some i \<and> mvs_devices E \<noteq> [] \<and>
    mvs_log c = [MV_CC_EnumDevices, MV_CC_CreateHandle i, MV_CC_OpenDevice]
      @ yaml_script (read_yaml P) @ [MV_CC_StartGrabbing, Pthread_mutex_init, Pthread_create]"
  using assms
  by (auto simp: Camera_ctor_def and_then_eq_Inr frame_simps apply_yaml_log split: if_splits sum.splits)

theorem ctor_script_witness:
  "\<exists>c. Camera_ctor quiet_mvs empty_params = Inr c \<and> cam_handle c = Some 0"
proof -
  obtain c where c: "Camera_ctor quiet_mvs empty_params = Inr c"
    by (simp add: Camera_ctor_def quiet_mvs_def mv_or_exit_def Let_def frame_simps MV_OK_def
        select_device_def)
  from ctor_script [OF c] have "cam_handle c = Some 0"
    by (auto simp: quiet_mvs_def select_device_def)
  with c show ?thesis by blast
qed

lemma find_ip_no_exit: "find_ip ip ds i \<noteq> Inl (Exited n)"
  by (induction ip ds i rule: find_ip.induct) auto

lemma select_device_no_exit: "select_device ip ds \<noteq> Inl (Exited n)"
  by (auto simp: select_device_def and_then_def find_ip_no_exit split: sum.splits)

text \<open>
  The constructor gives up only on the six indispensable calls: whenever it exits,
  either no device was found or the last call made is one of them and it failed.
\<close>

theorem ctor_exit_reason:
  assumes "Camera_ctor E P = Inl (Exited n, c)"
  shows "n = -1 \<and> (mvs_devices E = [] \<or>
    (cam_nRet c \<noteq> 0 \<and>
     last (mvs_log c) \<in> {MV_CC_EnumDevices, MV_CC_OpenDevice, MV_CC_StartGrabbing,
        Pthread_mutex_init, Pthread_create} \<union> range MV_CC_CreateHandle))"
  using assms
  by (auto simp: Camera_ctor_def and_then_def frame_simps select_device_no_exit
      split: if_splits sum.splits)

theorem ctor_exit_reason_witness:
  "\<exists>c. Camera_ctor \<lparr>mvs_rc = (\<lambda>_ k. if k = MV_CC_OpenDevice then 3 else 0),
      mvs_devices = [Some \<lparr>nTLayerType = MV_USB_DEVICE, nCurrentIp = 0\<rparr>]\<rparr> empty_params
    = Inl (Exited (-1), c) \<and> cam_nRet c \<noteq> 0"
proof -
  let ?E = "\<lparr>mvs_rc = (\<lambda>_ k. if k = MV_CC_OpenDevice then 3 else 0),
      mvs_devices = [Some \<lparr>nTLayerType = MV_USB_DEVICE, nCurrentIp = 0\<rparr>]\<rparr>"
  obtain c where c: "Camera_ctor ?E empty_params = Inl (Exited (-1), c)"
    by (simp add: Camera_ctor_def mv_or_exit_def Let_def frame_simps MV_OK_def select_device_def)
  from ctor_exit_reason [OF c] c show ?thesis by auto
qed

text \<open>
  The trigger mode of the parameter server never reaches the device: the constructor
  always switches the trigger off, and nothing it sends depends on \<open>TriggerMode\<close>,
  \<open>TriggerSource\<close> or \<open>LineSelector\<close>.
\<close>

theorem ctor_ignores_trigger_parameters:
  assumes "Camera_ctor E P = Inr c"
  shows "{n. MV_CC_SetEnumValue ''TriggerMode'' n \<in> set (mvs_log c)} = {0} \<and>
    (\<forall>n. MV_CC_SetEnumValue ''TriggerSource'' n \<notin> set (mvs_log c) \<and>
         MV_CC_SetEnumValue ''LineSelector'' n \<notin> set (mvs_log c))"
proof -
  have yaml: "{n. MV_CC_SetEnumValue ''TriggerMode'' n \<in> set (yaml_script k)} = {0}"
    "\<forall>n. MV_CC_SetEnumValue ''TriggerSource'' n \<notin> set (yaml_script k)"
    "\<forall>n. MV_CC_SetEnumValue ''LineSelector'' n \<notin> set (yaml_script k)" for k
    by (auto simp: yaml_script_def)
  from assms obtain i where "mvs_log c = [MV_CC_EnumDevices, MV_CC_CreateHandle i, MV_CC_OpenDevice]
      @ yaml_script (read_yaml P) @ [MV_CC_StartGrabbing, Pthread_mutex_init, Pthread_create]"
    by (auto simp: Camera_ctor_def and_then_eq_Inr frame_simps apply_yaml_log
        split: if_splits sum.splits)
  then show ?thesis using yaml by auto
qed

theorem ctor_ignores_trigger_parameters_witness:
  "\<exists>c. Camera_ctor quiet_mvs (empty_params\<lparr>p_int := (\<lambda>n d. if n = ''TriggerMode'' then 1 else d)\<rparr>) = Inr c
     \<and> MV_CC_SetEnumValue ''TriggerMode'' 1 \<notin> set (mvs_log c)"
proof -
  let ?P = "empty_params\<lparr>p_int := (\<lambda>n d. if n = ''TriggerMode'' then 1 else d)\<rparr>"
  obtain c where c: "Camera_ctor quiet_mvs ?P = Inr c"
    by (simp add: Camera_ctor_def quiet_mvs_def mv_or_exit_def Let_def frame_simps MV_OK_def
        select_device_def)
  from ctor_ignores_trigger_parameters [OF c]
  have "1 \<notin> {n. MV_CC_SetEnumValue ''TriggerMode'' n \<in> set (mvs_log c)}" by simp
  with c show ?thesis by blast
qed

section \<open>Teardown\<close>

lemma mv_dtor_Inr [frame_simps]:
  "mv_dtor E k c = Inr c' \<longleftrightarrow> c' = c\<lparr>mvs_log := mvs_log c @ [k]\<rparr> \<and> mvs_rc E (mvs_log c) k = 0"
  by (auto simp: mv_dtor_def Let_def MV_OK_def)

lemma mv_dtor_Inl [frame_simps]:
  "mv_dtor E k c = Inl e \<longleftrightarrow>
     e = (Exited (-1), c\<lparr>mvs_log := mvs_log c @ [k]\<rparr>) \<and> mvs_rc E (mvs_log c) k \<noteq> 0"
  by (auto simp: mv_dtor_def Let_def MV_OK_def)


end
