(* ===== verification/Hik_Exchange.thy ===== *)
theory Hik_Exchange
  imports Hik_Camera
begin

text \<open>
  The exchange of frames between the grabbing thread (\<open>HKWorkThread\<close>) and the publishing loop
  (\<open>main\<close>, \<open>ReadImg\<close>).  Both critical sections hold the same mutex, so an execution is a sequence
  of whole worker iterations and whole loop iterations in any order.
\<close>

section \<open>State and events\<close>

type_synonym bytes = "8 word list"

definition MAX_IMAGE_DATA_SIZE :: nat where
  "MAX_IMAGE_DATA_SIZE = 4 * 2048 * 3072"

record frame_info =
  nWidth :: nat
  nHeight :: nat
  enPixelType :: int

record mat =
  mat_rows :: nat
  mat_cols :: nat
  mat_data :: bytes

record stamped_image =
  img_mat :: mat
  img_frame_id :: string
  img_stamp :: nat

record camera_info_msg =
  ci_width :: nat
  ci_height :: nat
  ci_distortion_model :: string
  ci_K :: "rat list"
  ci_D :: "rat list"
  ci_R :: "rat list"
  ci_P :: "rat list"
  ci_frame_id :: string
  ci_stamp :: nat

text \<open>
  \<open>frame\<close> is the shared matrix (\<open>None\<close> is the default-constructed, empty one) and \<open>frame_empty\<close>
  the flag beside it; the buffers and the counter are the worker's locals; \<open>published\<close> is what
  the loop has sent.  \<open>captured\<close> is a history variable: every frame the worker stored.
\<close>

record hik_sys =
  frame :: "mat option"
  frame_empty :: bool
  m_pBufForDriver :: bytes
  m_pBufForSaveImage :: bytes
  image_empty_count :: int
  warnings :: nat
  published :: "(stamped_image \<times> camera_info_msg) list"
  captured :: "mat list"

text \<open>
  \<open>Grab rc info bytes\<close>: one worker iteration in which \<open>MV_CC_GetOneFrameTimeout\<close> answered \<open>rc\<close>
  and, when it is \<open>MV_OK\<close>, delivered \<open>info\<close> and \<open>bytes\<close>.  \<open>Loop now\<close>: one iteration of \<open>main\<close>
  at time \<open>now\<close>.
\<close>

datatype hik_event = Grab int frame_info bytes | Loop nat

text \<open>The two buffers come from \<open>malloc\<close>: \<open>drv\<close> and \<open>save\<close> are whatever they contain.\<close>

definition hik_init :: "bytes \<Rightarrow> bytes \<Rightarrow> hik_sys" where
  "hik_init drv save = \<lparr>frame = None, frame_empty = False, m_pBufForDriver = drv, m_pBufForSaveImage = save,
     image_empty_count = 0, warnings = 0, published = [], captured = []\<rparr>"

section \<open>The worker\<close>

text \<open>
  The conversion to BGR8 is the SDK's: \<open>conv info src dst\<close> is the contents of the destination
  buffer after the call (its status is not looked at).  The \<open>cv::Mat\<close> is then laid over the
  destination buffer and cloned, which reads \<open>nHeight * nWidth * 3\<close> bytes of it.
\<close>

type_synonym converter = "frame_info \<Rightarrow> bytes \<Rightarrow> bytes \<Rightarrow> bytes"

definition mat_over :: "frame_info \<Rightarrow> bytes \<Rightarrow> mat" where
  "mat_over info buf =
     \<lparr>mat_rows = nHeight info, mat_cols = nWidth info,
      mat_data = take (nHeight info * nWidth info * 3) buf\<rparr>"

definition HKWorkThread_step :: "converter \<Rightarrow> int \<Rightarrow> frame_info \<Rightarrow> bytes \<Rightarrow> hik_sys \<Rightarrow> hik_sys outcome" where
  "HKWorkThread_step conv rc info bs s =
     (if rc \<noteq> MV_OK
      then let n = image_empty_count s + 1
           in Inr (s\<lparr>image_empty_count := n,
                     warnings := (if n > 100 then warnings s + 1 else warnings s)\<rparr>)
      else let drv = bs @ drop (length bs) (m_pBufForDriver s);
               save = conv info drv (m_pBufForSaveImage s);
               s' = s\<lparr>image_empty_count := 0, m_pBufForDriver := drv, m_pBufForSaveImage := save\<rparr>
           in if nHeight info * nWidth info * 3 > MAX_IMAGE_DATA_SIZE
              then Inl (OutOfBounds ''m_pBufForSaveImage'', s')
              else Inr (s'\<lparr>frame := Some (mat_over info save), frame_empty := False,
                           captured := captured s' @ [mat_over info save]\<rparr>))"

section \<open>The publishing loop\<close>

definition ReadImg :: "hik_sys \<Rightarrow> mat option \<times> hik_sys" where
  "ReadImg s = (if frame_empty s then (None, s) else (frame s, s\<lparr>frame_empty := True\<rparr>))"

text \<open>The intrinsics written into \<open>main\<close>.\<close>

definition main_camera_info :: "string \<Rightarrow> nat \<Rightarrow> camera_info_msg" where
  "main_camera_info frame_id stamp =
     \<lparr>ci_width = 3200, ci_height = 1944, ci_distortion_model = ''plumb_bob'',
      ci_K = [473280839/100000, 0, 148488015/100000, 0, 47281779/10000, 114938858/100000, 0, 0, 1],
      ci_D = [76691/1000000, -169797/1000000, 4726/1000000, 6745/1000000, 0],
      ci_R = [1, 0, 0, 0, 1, 0, 0, 0, 1],
      ci_P = [477786426/100000, 0, 149661659/100000, 0, 0, 478183447/100000, 115402226/100000, 0,
              0, 0, 1, 0],
      ci_frame_id = frame_id, ci_stamp = stamp\<rparr>"

definition main_step :: "nat \<Rightarrow> hik_sys \<Rightarrow> hik_sys" where
  "main_step now s =
     (let (src, s') = ReadImg s in
      case src of
        None \<Rightarrow> s'
      | Some m \<Rightarrow>
          let image_msg = \<lparr>img_mat = m, img_frame_id = ''hikrobot_camera'', img_stamp = now\<rparr>
          in s'\<lparr>published := published s' @
                 [(image_msg, main_camera_info (img_frame_id image_msg) (img_stamp image_msg))]\<rparr>)"

fun hik_apply :: "converter \<Rightarrow> hik_event \<Rightarrow> hik_sys \<Rightarrow> hik_sys outcome" where
  "hik_apply conv (Grab rc info bs) s = HKWorkThread_step conv rc info bs s"
| "hik_apply conv (Loop now) s = Inr (main_step now s)"

definition hik_run :: "converter \<Rightarrow> hik_event list \<Rightarrow> hik_sys \<Rightarrow> hik_sys outcome" where
  "hik_run conv evs s = fold_outcome (hik_apply conv) evs s"

section \<open>Invariant\<close>

abbreviation published_mats :: "hik_sys \<Rightarrow> mat list" where
  "published_mats s \<equiv> map (img_mat \<circ> fst) (published s)"

text \<open>
  An unread frame is the newest captured one and is not yet published; what has been published
  is a subsequence of what was captured.
\<close>

definition hik_inv :: "hik_sys \<Rightarrow> bool" where
  "hik_inv s \<longleftrightarrow>
     (if frame_empty s \<or> frame s = None then subseq (published_mats s) (captured s)
      else captured s \<noteq> [] \<and> frame s = Some (last (captured s)) \<and>
           subseq (published_mats s) (butlast (captured s))) \<and>
     (frame s = None \<longrightarrow> captured s = []) \<and> 0 \<le> image_empty_count s"

lemma hik_inv_init: "hik_inv (hik_init drv save)"
  by (simp add: hik_inv_def hik_init_def)

lemma hik_inv_subseq: "hik_inv s \<Longrightarrow> subseq (published_mats s) (captured s)"
  by (auto simp: hik_inv_def split: if_splits dest: subseq_order.trans [OF _ prefix_imp_subseq]
      intro: subseq_order.trans prefix_imp_subseq prefixeq_butlast)

lemma worker_inv: "hik_inv s \<Longrightarrow> hik_inv (outcome_state (HKWorkThread_step conv rc info bs s))"
  using hik_inv_subseq [of s]
  by (auto simp: HKWorkThread_step_def Let_def hik_inv_def split: if_splits)

lemma main_inv:
  assumes "hik_inv s"
  shows "hik_inv (main_step now s)"
proof (cases "frame_empty s \<or> frame s = None")
  case True
  with assms show ?thesis
    by (auto simp: main_step_def ReadImg_def hik_inv_def split: option.splits)
next
  case False
  with assms have "captured s \<noteq> []" "subseq (published_mats s) (butlast (captured s))"
    and fr: "frame s = Some (last (captured s))" "\<not> frame_empty s" "0 \<le> image_empty_count s"
    by (simp_all add: hik_inv_def)
  then have "subseq (published_mats s @ [last (captured s)]) (captured s)"
    by (metis append_butlast_last_id subseq_append)
  with fr show ?thesis
    by (simp add: main_step_def ReadImg_def hik_inv_def Let_def o_def)
qed

lemma apply_inv: "hik_inv s \<Longrightarrow> hik_inv (outcome_state (hik_apply conv e s))"
  by (cases e) (simp_all add: worker_inv main_inv)

lemma run_inv: "hik_inv s \<Longrightarrow> hik_inv (outcome_state (hik_run conv evs s))"
  unfolding hik_run_def by (rule fold_outcome_invariant) (auto simp: apply_inv)

text \<open>
  Claim C1.  Whatever the interleaving of the two threads, the sequence of published frames is a
  subsequence of the captured ones: no frame is published twice, out of order, or without having
  been captured; frames the loop is too slow for are dropped whole.
\<close>

theorem published_subseq_captured:
  "subseq (published_mats (outcome_state (hik_run conv evs (hik_init drv save))))
          (captured (outcome_state (hik_run conv evs (hik_init drv save))))"
  by (intro hik_inv_subseq run_inv hik_inv_init)

lemma hik_run_snoc:
  "hik_run conv (evs @ [e]) s = and_then (hik_run conv evs s) (hik_apply conv e)"
  by (simp add: hik_run_def fold_outcome_append fold_outcome_single del: fold_outcome.simps)

text \<open>
  A successful grab followed by one loop iteration publishes exactly the grabbed
  frame, under the node's frame id, with the camera info of the same stamp and frame; a second
  iteration without a grab publishes nothing.
\<close>

theorem grab_then_loop:
  assumes "hik_run conv evs (hik_init drv save) = Inr s"
    and "hik_apply conv (Grab MV_OK info bs) s = Inr s'"
  shows "\<exists>s''. hik_run conv (evs @ [Grab MV_OK info bs, Loop t]) (hik_init drv save) = Inr s'' \<and>
    published s'' = published s @
      [(\<lparr>img_mat = last (captured s'), img_frame_id = ''hikrobot_camera'', img_stamp = t\<rparr>,
        main_camera_info ''hikrobot_camera'' t)] \<and>
    published (main_step t' s'') = published s''"
proof -
  from assms(2) have s': "\<not> frame_empty s'" "frame s' = Some (last (captured s'))"
    "published s' = published s"
    by (auto simp: HKWorkThread_step_def Let_def split: if_splits)
  have "hik_run conv ((evs @ [Grab MV_OK info bs]) @ [Loop t]) (hik_init drv save) = Inr (main_step t s')"
    using assms by (simp only: hik_run_snoc) simp
  moreover have "published (main_step t s') = published s @
      [(\<lparr>img_mat = last (captured s'), img_frame_id = ''hikrobot_camera'', img_stamp = t\<rparr>,
        main_camera_info ''hikrobot_camera'' t)]" "frame_empty (main_step t s')"
    using s' by (simp_all add: main_step_def ReadImg_def Let_def)
  ultimately show ?thesis by (auto simp: main_step_def [of t'] ReadImg_def)
qed

theorem grab_then_loop_witness:
  "\<exists>s''. hik_run (\<lambda>_ src _. src) [Grab 0 \<lparr>nWidth = 1, nHeight = 1, enPixelType = 0\<rparr> [7, 8, 9], Loop 5]
      (hik_init [] []) = Inr s'' \<and> mat_data (img_mat (fst (last (published s'')))) = [7, 8, 9]"
proof -
  let ?conv = "\<lambda>_ src _. src" and ?info = "\<lparr>nWidth = 1, nHeight = 1, enPixelType = 0\<rparr>"
  obtain s' where s': "hik_apply ?conv (Grab MV_OK ?info [7, 8, 9]) (hik_init [] []) = Inr s'"
    and last: "mat_data (last (captured s')) = [7, 8, 9]"
    by (simp add: HKWorkThread_step_def Let_def MAX_IMAGE_DATA_SIZE_def mat_over_def)
  have "hik_run ?conv [] (hik_init [] []) = Inr (hik_init [] [])" by (simp add: hik_run_def)
  from grab_then_loop [OF this s', where t = 5 and t' = 0] obtain s'' where
    "hik_run ?conv [Grab 0 ?info [7, 8, 9], Loop 5] (hik_init [] []) = Inr s''"
    "fst (last (published s'')) = \<lparr>img_mat = last (captured s'),
       img_frame_id = ''hikrobot_camera'', img_stamp = 5\<rparr>"
    by (auto simp: MV_OK_def)
  with last show ?thesis by auto
qed

lemma worker_ok:
  "nHeight info * nWidth info \<le> 8388608 \<Longrightarrow> \<not> faulted (HKWorkThread_step conv rc info bs s)"
  unfolding HKWorkThread_step_def Let_def MAX_IMAGE_DATA_SIZE_def by simp

fun small_grab :: "hik_event \<Rightarrow> bool" where
  "small_grab (Grab _ info _) = (nHeight info * nWidth info \<le> 8388608)"
| "small_grab (Loop _) = True"

lemma apply_ok: "small_grab e \<Longrightarrow> \<not> faulted (hik_apply conv e s)"
  by (cases e) (simp_all add: worker_ok)

text \<open>
  Claim C2.  The worker leaves its save buffer only for images of more than
  \<open>4 * 2048 * 3072 / 3\<close> pixels: a run in which the device never delivers more is free of
  out-of-bounds reads, and then every captured image holds \<open>rows * cols * 3\<close> bytes provided the
  SDK's conversion keeps the size of its destination buffer.
\<close>

theorem worker_stays_in_buffer:
  assumes "list_all small_grab evs"
    and "\<And>info src dst. length (conv info src dst) = length dst"
    and "length save = MAX_IMAGE_DATA_SIZE"
  shows "\<exists>s. hik_run conv evs (hik_init drv save) = Inr s \<and>
    (\<forall>m \<in> set (captured s). length (mat_data m) = mat_rows m * mat_cols m * 3)"
proof -
  define I where "I (s :: hik_sys) \<longleftrightarrow> length (m_pBufForSaveImage s) = MAX_IMAGE_DATA_SIZE \<and>
     (\<forall>m \<in> set (captured s). length (mat_data m) = mat_rows m * mat_cols m * 3)" for s
  have ok: "\<not> faulted (hik_apply conv e s)" if "e \<in> set evs" for e s
    using that assms(1) by (intro apply_ok) (simp add: list_all_iff)
  have step: "I (outcome_state (hik_apply conv e s))" if "e \<in> set evs" "I s" for e s
    using that(2) assms(2)
    by (cases e) (auto simp: I_def HKWorkThread_step_def Let_def mat_over_def main_step_def
        ReadImg_def split: option.splits)
  have "\<not> faulted (hik_run conv evs (hik_init drv save))"
    unfolding hik_run_def by (rule fold_outcome_total) (rule ok)
  moreover have "I (outcome_state (hik_run conv evs (hik_init drv save)))"
    unfolding hik_run_def
    by (rule fold_outcome_invariant) (use step assms(3) in \<open>auto simp: I_def hik_init_def\<close>)
  ultimately show ?thesis
    by (cases "hik_run conv evs (hik_init drv save)") (auto simp: I_def)
qed

theorem worker_stays_in_buffer_witness:
  "\<exists>s. hik_run (\<lambda>_ _ dst. dst) [Grab 0 \<lparr>nWidth = 3200, nHeight = 1944, enPixelType = 0\<rparr> []]
     (hik_init [] (replicate MAX_IMAGE_DATA_SIZE 0)) = Inr s"
  using worker_stays_in_buffer [of "[Grab 0 \<lparr>nWidth = 3200, nHeight = 1944, enPixelType = 0\<rparr> []]"
      "\<lambda>_ _ dst. dst" "replicate MAX_IMAGE_DATA_SIZE 0" "[]"]
  by auto

end
