(* ===== verification/Astra_Types.thy ===== *)
theory Astra_Types
  imports Prelude
begin

text \<open>
  The vocabulary of \<open>ros_astra_camera\<close>: stream indices, video modes, product ids
  (\<open>types.h\<close>, \<open>constants.h\<close>) and the pure helpers of \<open>utils.cpp\<close>.
\<close>

section \<open>Streams (\<open>types.h\<close>)\<close>

datatype sensor_type = SENSOR_IR | SENSOR_COLOR | SENSOR_DEPTH

type_synonym stream_index_pair = "sensor_type \<times> nat"

definition COLOR :: stream_index_pair where "COLOR = (SENSOR_COLOR, 0)"
definition DEPTH :: stream_index_pair where "DEPTH = (SENSOR_DEPTH, 0)"
definition INFRA1 :: stream_index_pair where "INFRA1 = (SENSOR_IR, 0)"
definition INFRA2 :: stream_index_pair where "INFRA2 = (SENSOR_IR, 1)"

definition IMAGE_STREAMS :: "stream_index_pair list" where
  "IMAGE_STREAMS = [DEPTH, INFRA1, COLOR]"

lemma stream_distinct [simp]:
  "COLOR \<noteq> DEPTH" "COLOR \<noteq> INFRA1" "COLOR \<noteq> INFRA2" "DEPTH \<noteq> COLOR" "DEPTH \<noteq> INFRA1"
  "DEPTH \<noteq> INFRA2" "INFRA1 \<noteq> COLOR" "INFRA1 \<noteq> DEPTH" "INFRA1 \<noteq> INFRA2" "INFRA2 \<noteq> COLOR"
  "INFRA2 \<noteq> DEPTH" "INFRA2 \<noteq> INFRA1"
  by (simp_all add: COLOR_def DEPTH_def INFRA1_def INFRA2_def)

lemma fst_stream [simp]:
  "fst COLOR = SENSOR_COLOR" "fst DEPTH = SENSOR_DEPTH" "fst INFRA1 = SENSOR_IR"
  "fst INFRA2 = SENSOR_IR"
  by (simp_all add: COLOR_def DEPTH_def INFRA1_def INFRA2_def)

lemma set_IMAGE_STREAMS: "set IMAGE_STREAMS = {DEPTH, INFRA1, COLOR}"
  by (simp add: IMAGE_STREAMS_def)

lemma IMAGE_STREAMS_props: "distinct IMAGE_STREAMS" "length IMAGE_STREAMS = 3"
  by (simp_all add: IMAGE_STREAMS_def)

datatype RgbResolution = RGBResolution4_3 | RGBResolution16_9

fun rgb_resolution_value :: "RgbResolution \<Rightarrow> int" where
  "rgb_resolution_value RGBResolution4_3 = 0"
| "rgb_resolution_value RGBResolution16_9 = 1"

record ImageROI =
  roi_x :: int
  roi_y :: int
  roi_width :: int
  roi_height :: int

datatype MultiDeviceSyncMode = SyncNone | SyncMaster | SyncSlave

section \<open>Product ids and defaults (\<open>constants.h\<close>)\<close>

definition DABAI_DCW_DEPTH_PID :: int where "DABAI_DCW_DEPTH_PID = 0x0659"
definition DABAI_DW_PID :: int where "DABAI_DW_PID = 0x065a"
definition GEMINI_E_DEPTH_PID :: int where "GEMINI_E_DEPTH_PID = 0x065c"
definition GEMINI_E_LITE_DEPTH_PID :: int where "GEMINI_E_LITE_DEPTH_PID = 0x065d"
definition DABAI_MAX_PID :: int where "DABAI_MAX_PID = 0x069a"
definition DABAI_MAX_PRO_PID :: int where "DABAI_MAX_PRO_PID = 0x069e"
definition GEMINI_UW_PID :: int where "GEMINI_UW_PID = 0x06aa"
definition ASTRA_PRO_DEPTH_PID :: int where "ASTRA_PRO_DEPTH_PID = 0x0403"
definition DABAI_DCW2_DEPTH_PID :: int where "DABAI_DCW2_DEPTH_PID = 0x06a0"
definition DABAI_DW2_DEPTH_PID :: int where "DABAI_DW2_DEPTH_PID = 0x069f"

lemmas pid_defs = DABAI_DCW_DEPTH_PID_def DABAI_DW_PID_def GEMINI_E_DEPTH_PID_def
  GEMINI_E_LITE_DEPTH_PID_def DABAI_MAX_PID_def DABAI_MAX_PRO_PID_def GEMINI_UW_PID_def
  ASTRA_PRO_DEPTH_PID_def DABAI_DCW2_DEPTH_PID_def DABAI_DW2_DEPTH_PID_def

definition IMAGE_WIDTH :: int where "IMAGE_WIDTH = 640"
definition IMAGE_HEIGHT :: int where "IMAGE_HEIGHT = 480"
definition IMAGE_FPS :: int where "IMAGE_FPS = 30"

section \<open>Video modes\<close>

datatype PixelFormat =
    PIXEL_FORMAT_DEPTH_1_MM
  | PIXEL_FORMAT_DEPTH_100_UM
  | PIXEL_FORMAT_SHIFT_9_2
  | PIXEL_FORMAT_SHIFT_9_3
  | PIXEL_FORMAT_RGB888
  | PIXEL_FORMAT_YUV422
  | PIXEL_FORMAT_GRAY8
  | PIXEL_FORMAT_GRAY16
  | PIXEL_FORMAT_JPEG
  | PIXEL_FORMAT_YUYV
  | PIXEL_FORMAT_LOG
  | PIXEL_FORMAT_OTHER int

record VideoMode =
  getResolutionX :: int
  getResolutionY :: int
  getFps :: int
  getPixelFormat :: PixelFormat

text \<open>\<open>operator==\<close> of \<open>utils.cpp\<close>: field by field.\<close>

definition vm_eq :: "VideoMode \<Rightarrow> VideoMode \<Rightarrow> bool" where
  "vm_eq lhs rhs \<longleftrightarrow>
     getResolutionY lhs = getResolutionY rhs \<and> getResolutionX lhs = getResolutionX rhs \<and>
     getFps lhs = getFps rhs \<and> getPixelFormat lhs = getPixelFormat rhs"

lemma vm_eq_iff [simp]: "vm_eq a b \<longleftrightarrow> a = b"
  by (cases a; cases b) (auto simp: vm_eq_def)

fun PixelFormatToString :: "PixelFormat \<Rightarrow> string" where
  "PixelFormatToString PIXEL_FORMAT_DEPTH_1_MM = ''PIXEL_FORMAT_DEPTH_1_MM''"
| "PixelFormatToString PIXEL_FORMAT_DEPTH_100_UM = ''PIXEL_FORMAT_DEPTH_100_UM''"
| "PixelFormatToString PIXEL_FORMAT_SHIFT_9_2 = ''PIXEL_FORMAT_SHIFT_9_2''"
| "PixelFormatToString PIXEL_FORMAT_SHIFT_9_3 = ''PIXEL_FORMAT_SHIFT_9_3''"
| "PixelFormatToString PIXEL_FORMAT_RGB888 = ''PIXEL_FORMAT_RGB888''"
| "PixelFormatToString PIXEL_FORMAT_YUV422 = ''PIXEL_FORMAT_YUV422''"
| "PixelFormatToString PIXEL_FORMAT_GRAY8 = ''PIXEL_FORMAT_GRAY8''"
| "PixelFormatToString PIXEL_FORMAT_GRAY16 = ''PIXEL_FORMAT_GRAY16''"
| "PixelFormatToString PIXEL_FORMAT_JPEG = ''PIXEL_FORMAT_JPEG''"
| "PixelFormatToString PIXEL_FORMAT_YUYV = ''PIXEL_FORMAT_YUYV''"
| "PixelFormatToString PIXEL_FORMAT_LOG = ''PIXEL_FORMAT_LOG''"
| "PixelFormatToString (PIXEL_FORMAT_OTHER _) = ''Unknown''"

definition show_video_mode :: "VideoMode \<Rightarrow> string" where
  "show_video_mode vm =
     ''Resolution :'' @ show_int (getResolutionX vm) @ ''x'' @ show_int (getResolutionY vm) @ ''@'' @
     show_int (getFps vm) @ ''Hz'' @ [CHR 0x0A] @ ''format '' @ PixelFormatToString (getPixelFormat vm)"

lemma PixelFormatToString_inject:
  "PixelFormatToString a = PixelFormatToString b \<Longrightarrow>
     a = b \<or> (\<exists>i j. a = PIXEL_FORMAT_OTHER i \<and> b = PIXEL_FORMAT_OTHER j)"
  by (cases a; cases b) simp_all

section \<open>Synchronisation mode\<close>

definition getMultiDeviceSyncMode :: "string \<Rightarrow> MultiDeviceSyncMode" where
  "getMultiDeviceSyncMode mode =
     (if mode = ''none'' then SyncNone
      else if mode = ''master'' \<or> mode = ''main'' then SyncMaster
      else if mode = ''slave'' \<or> mode = ''sub'' then SyncSlave
      else SyncNone)"

section \<open>Extrinsics message\<close>

record Extrinsics =
  ex_rotation :: "rat list"
  ex_translation :: "rat list"
  ex_frame_id :: string

text \<open>
  \<open>obExtrinsicsToMsg\<close>: the two \<open>CHECK_EQ\<close>s, then the copying loop, whose index runs over both
  arrays at once.  A failed check aborts.
\<close>

fun copy_extrinsics :: "nat \<Rightarrow> nat \<Rightarrow> rat list \<Rightarrow> rat list \<Rightarrow> Extrinsics \<Rightarrow> Extrinsics" where
  "copy_extrinsics 0 i rot tr msg = msg"
| "copy_extrinsics (Suc k) i rot tr msg =
     (let msg = msg\<lparr>ex_rotation := (ex_rotation msg)[i := rot ! i]\<rparr>;
          msg = (if i < 3 then msg\<lparr>ex_translation := (ex_translation msg)[i := tr ! i]\<rparr> else msg)
      in copy_extrinsics k (Suc i) rot tr msg)"

definition obExtrinsicsToMsg :: "rat list \<Rightarrow> rat list \<Rightarrow> string \<Rightarrow> fault + Extrinsics" where
  "obExtrinsicsToMsg rotation transition frame_id =
     (if length rotation \<noteq> 9 then Inl (CheckFailed ''rotation.size() == 9u'')
      else if length transition \<noteq> 3 then Inl (CheckFailed ''transition.size() == 3u'')
      else let msg = copy_extrinsics 9 0 rotation transition
                 \<lparr>ex_rotation = replicate 9 0, ex_translation = replicate 3 0, ex_frame_id = []\<rparr>
           in Inr (msg\<lparr>ex_frame_id := frame_id\<rparr>))"

lemma length_9_split:
  "length xs = 9 \<Longrightarrow> \<exists>a b c d e f g h i. xs = [a, b, c, d, e, f, g, h, i]"
  by (auto simp: numeral_eq_Suc length_Suc_conv)

lemma length_3_split: "length xs = 3 \<Longrightarrow> \<exists>a b c. xs = [a, b, c]"
  by (auto simp: numeral_eq_Suc length_Suc_conv)

lemma obExtrinsicsToMsg_spec:
  "obExtrinsicsToMsg rot tr fid =
     (if length rot = 9 \<and> length tr = 3
      then Inr \<lparr>ex_rotation = rot, ex_translation = tr, ex_frame_id = fid\<rparr>
      else Inl (CheckFailed (if length rot \<noteq> 9 then ''rotation.size() == 9u''
                             else ''transition.size() == 3u'')))"
proof (cases "length rot = 9 \<and> length tr = 3")
  case True
  then obtain a b c d e f g h i t u v
    where "rot = [a, b, c, d, e, f, g, h, i]" "tr = [t, u, v]"
    using length_9_split length_3_split by metis
  then show ?thesis
    by (simp add: obExtrinsicsToMsg_def numeral_eq_Suc Let_def)
next
  case False
  then show ?thesis by (simp add: obExtrinsicsToMsg_def)
qed

end
