(* ===== verification/Std_Map.thy ===== *)
theory Std_Map
  imports Prelude "HOL-Library.List_Lexorder" "HOL-Library.Char_ord"
begin

text \<open>
  \<open>std::map\<close>: an ordered associative container.  The locale states what the drivers rely on
  (lookup after assignment and erasure, iteration in key order without duplicates); the
  interpretation discharges it for association lists kept in key order, on which the
  components' models run.
\<close>

section \<open>The interface\<close>

locale std_map =
  fixes empty :: "'m"
    and assign :: "'k::linorder \<Rightarrow> 'v \<Rightarrow> 'm \<Rightarrow> 'm"
    and erase :: "'k \<Rightarrow> 'm \<Rightarrow> 'm"
    and find :: "'m \<Rightarrow> 'k \<Rightarrow> 'v option"
    and entries :: "'m \<Rightarrow> ('k \<times> 'v) list"
    and invar :: "'m \<Rightarrow> bool"
  assumes find_empty: "find empty = (\<lambda>_. None)"
    and find_assign: "invar m \<Longrightarrow> find (assign k v m) = (find m)(k := Some v)"
    and find_erase: "invar m \<Longrightarrow> find (erase k m) = (find m)(k := None)"
    and entries_find: "invar m \<Longrightarrow> map_of (entries m) = find m"
    and entries_sorted: "invar m \<Longrightarrow> sorted_wrt (<) (map fst (entries m))"
    and invar_empty: "invar empty"
    and invar_assign: "invar m \<Longrightarrow> invar (assign k v m)"
    and invar_erase: "invar m \<Longrightarrow> invar (erase k m)"
begin

lemmas laws = find_empty find_assign find_erase invar_empty invar_assign invar_erase

lemma entries_distinct: "invar m \<Longrightarrow> distinct (map fst (entries m))"
  using entries_sorted strict_sorted_iff by blast

lemma entry_iff: "invar m \<Longrightarrow> (k, v) \<in> set (entries m) \<longleftrightarrow> find m k = Some v"
  by (simp add: entries_find [symmetric] entries_distinct)

lemma keys_assign: "invar m \<Longrightarrow> fst ` set (entries (assign k v m)) = insert k (fst ` set (entries m))"
  by (simp add: dom_map_of_conv_image_fst [symmetric] entries_find laws)

lemma keys_erase: "invar m \<Longrightarrow> fst ` set (entries (erase k m)) = fst ` set (entries m) - {k}"
  by (simp add: dom_map_of_conv_image_fst [symmetric] entries_find laws)

text \<open>A loop that assigns one key after the other: the last assignment to a key wins.\<close>

lemma fold_assign:
  "invar m \<Longrightarrow> invar (fold (\<lambda>x. assign (f x) (g x)) xs m) \<and>
     find (fold (\<lambda>x. assign (f x) (g x)) xs m) =
       find m ++ map_of (rev (map (\<lambda>x. (f x, g x)) xs))"
  by (induction xs arbitrary: m) (simp_all add: laws map_add_upd_left fun_eq_iff map_add_def
      split: option.split)

text \<open>Two maps with the same contents iterate in the same way.\<close>

lemma entries_from_keys:
  assumes "invar m"
  shows "entries m = map (\<lambda>k. (k, the (find m k))) (map fst (entries m))"
proof -
  have "map (\<lambda>e. (fst e, the (find m (fst e)))) (entries m) = map (\<lambda>e. e) (entries m)"
    by (rule map_cong) (use assms entry_iff in auto)
  then show ?thesis by (simp add: o_def)
qed

lemma entries_unique:
  assumes "invar m" "invar m'" "find m = find m'"
  shows "entries m = entries m'"
proof -
  have "fst ` set (entries m) = fst ` set (entries m')"
    using assms by (simp add: dom_map_of_conv_image_fst [symmetric] entries_find)
  then have "map fst (entries m) = map fst (entries m')"
    using assms by (intro strict_sorted_equal) (simp_all add: entries_sorted)
  then show ?thesis
    using assms entries_from_keys by metis
qed

end

section \<open>Association lists in key order\<close>

fun map_put :: "'k::linorder \<Rightarrow> 'v \<Rightarrow> ('k \<times> 'v) list \<Rightarrow> ('k \<times> 'v) list" where
  "map_put k v [] = [(k, v)]"
| "map_put k v ((k', v') # m) =
     (if k < k' then (k, v) # (k', v') # m
      else if k = k' then (k, v) # m
      else (k', v') # map_put k v m)"

fun map_del :: "'k::linorder \<Rightarrow> ('k \<times> 'v) list \<Rightarrow> ('k \<times> 'v) list" where
  "map_del k [] = []"
| "map_del k ((k', v') # m) = (if k = k' then m else (k', v') # map_del k m)"

definition map_ok :: "('k::linorder \<times> 'v) list \<Rightarrow> bool" where
  "map_ok m \<longleftrightarrow> sorted_wrt (<) (map fst m)"

lemma set_fst_map_put: "fst ` set (map_put k v m) = insert k (fst ` set m)"
  by (induction k v m rule: map_put.induct) auto

lemma set_fst_map_del: "fst ` set (map_del k m) \<subseteq> fst ` set m"
  by (induction k m rule: map_del.induct) auto

lemma map_of_put: "map_ok m \<Longrightarrow> map_of (map_put k v m) = (map_of m)(k := Some v)"
  by (induction k v m rule: map_put.induct) (auto simp: map_ok_def fun_eq_iff)

lemma map_ok_put: "map_ok m \<Longrightarrow> map_ok (map_put k v m)"
  by (induction k v m rule: map_put.induct)
     (auto simp: map_ok_def set_fst_map_put simp flip: image_set)

lemma map_of_del: "map_ok m \<Longrightarrow> map_of (map_del k m) = (map_of m)(k := None)"
proof (induction k m rule: map_del.induct)
  case (2 k k' v' m)
  have "k = k' \<Longrightarrow> map_of m k = None"
    using "2.prems" by (auto simp: map_ok_def map_of_eq_None_iff)
  with 2 show ?case by (auto simp: map_ok_def fun_eq_iff)
qed simp

lemma map_ok_del: "map_ok m \<Longrightarrow> map_ok (map_del k m)"
  by (induction k m rule: map_del.induct)
     (use set_fst_map_del in \<open>fastforce simp: map_ok_def simp flip: image_set\<close>)+

interpretation alist: std_map "[]" map_put map_del map_of "\<lambda>m. m" map_ok
  by unfold_locales (simp_all add: map_of_put map_of_del map_ok_put map_ok_del,
      simp_all add: map_ok_def)

end
