(* ===== verification/Ob_Context.thy ===== *)
theory Ob_Context
  imports Astra_Types Std_Map
begin

text \<open>
  \<open>Context\<close> (\<open>ob_context.cpp\<close>): the list of connected devices, kept from the enumeration of the
  first query and from the connection events of OpenNI.
\<close>

section \<open>State and operations\<close>

record DeviceInfo =
  getUri :: string
  getName :: string
  getUsbVendorId :: int
  getUsbProductId :: int

record Context =
  first_time_query :: bool
  device_info_list :: "(string \<times> DeviceInfo) list"

definition Context_ctor :: Context where
  "Context_ctor = \<lparr>first_time_query = True, device_info_list = []\<rparr>"

definition remember :: "DeviceInfo \<Rightarrow> (string \<times> DeviceInfo) list \<Rightarrow> (string \<times> DeviceInfo) list" where
  "remember d = map_put (getUri d) d"

lemma remember_apply: "map_of (remember d m) = map_of (map_put (getUri d) d m)"
  by (simp add: remember_def)

text \<open>\<open>queryDeviceList\<close>: \<open>found\<close> is what \<open>OpenNI::enumerateDevices\<close> delivers.\<close>

definition queryDeviceList :: "DeviceInfo list \<Rightarrow> Context \<Rightarrow> DeviceInfo list \<times> Context" where
  "queryDeviceList found c =
     (if first_time_query c
      then (found, c\<lparr>device_info_list := fold remember found (device_info_list c),
                     first_time_query := False\<rparr>)
      else (map snd (device_info_list c), c))"

definition Context_onDeviceConnected :: "DeviceInfo \<Rightarrow> Context \<Rightarrow> Context" where
  "Context_onDeviceConnected d c = c\<lparr>device_info_list := remember d (device_info_list c)\<rparr>"

text \<open>
  \<open>onDeviceDisconnected\<close>: the callback of the owner runs first (\<open>cb\<close> acts on the owner's state
  \<open>f\<close>), then the entry is erased.
\<close>

definition Context_onDeviceDisconnected ::
    "(DeviceInfo \<Rightarrow> 'f \<Rightarrow> 'f) \<Rightarrow> DeviceInfo \<Rightarrow> Context \<times> 'f \<Rightarrow> Context \<times> 'f" where
  "Context_onDeviceDisconnected cb d cf =
     (let f = cb d (snd cf); c = fst cf
      in (c\<lparr>device_info_list := map_del (getUri d) (device_info_list c)\<rparr>, f))"

section \<open>Histories and the abstract device set\<close>

datatype ctx_event = Query "DeviceInfo list" | Connected DeviceInfo | Disconnected DeviceInfo

fun ctx_apply :: "ctx_event \<Rightarrow> Context \<Rightarrow> Context" where
  "ctx_apply (Query found) c = snd (queryDeviceList found c)"
| "ctx_apply (Connected d) c = Context_onDeviceConnected d c"
| "ctx_apply (Disconnected d) c = fst (Context_onDeviceDisconnected (\<lambda>_ u. u) d (c, ()))"

definition ctx_run :: "ctx_event list \<Rightarrow> Context \<Rightarrow> Context" where
  "ctx_run = fold ctx_apply"

text \<open>
  The specification keeps a finite map from URI to device and whether the bus was enumerated.
\<close>

type_synonym ctx_spec = "bool \<times> (string \<Rightarrow> DeviceInfo option)"

fun spec_apply :: "ctx_event \<Rightarrow> ctx_spec \<Rightarrow> ctx_spec" where
  "spec_apply (Query found) (fresh, m) =
     (False, if fresh then m ++ map_of (rev (map (\<lambda>d. (getUri d, d)) found)) else m)"
| "spec_apply (Connected d) (fresh, m) = (fresh, m(getUri d \<mapsto> d))"
| "spec_apply (Disconnected d) (fresh, m) = (fresh, m(getUri d := None))"

definition ctx_abs :: "Context \<Rightarrow> ctx_spec" where
  "ctx_abs c = (first_time_query c, map_of (device_info_list c))"

definition ctx_inv :: "Context \<Rightarrow> bool" where
  "ctx_inv c \<longleftrightarrow> map_ok (device_info_list c) \<and>
     (\<forall>(k, d) \<in> set (device_info_list c). getUri d = k)"

lemma fold_remember:
  "map_ok m \<Longrightarrow> map_ok (fold remember ds m) \<and>
     map_of (fold remember ds m) = map_of m ++ map_of (rev (map (\<lambda>d. (getUri d, d)) ds))"
  unfolding remember_def by (rule alist.fold_assign)

lemma remember_keyed:
  "\<forall>(k, d) \<in> set m. getUri d = k \<Longrightarrow> \<forall>(k, d) \<in> set (remember x m). getUri d = k"
  unfolding remember_def by (induction "getUri x" x m rule: map_put.induct) auto

lemma fold_remember_keyed:
  "\<forall>(k, d) \<in> set m. getUri d = k \<Longrightarrow> \<forall>(k, d) \<in> set (fold remember ds m). getUri d = k"
proof (induction ds arbitrary: m)
  case (Cons x ds)
  from Cons.IH [OF remember_keyed [OF Cons.prems]] show ?case by simp
qed simp

lemma set_map_del: "set (map_del k m) \<subseteq> set m"
  by (induction k m rule: map_del.induct) auto

lemma ctx_apply_inv: "ctx_inv c \<Longrightarrow> ctx_inv (ctx_apply e c)"
proof (cases e)
  case (Query found)
  assume "ctx_inv c"
  then show ?thesis
    using fold_remember [of "device_info_list c" found]
      fold_remember_keyed [of "device_info_list c" found]
    by (simp add: Query ctx_inv_def queryDeviceList_def)
next
  case (Connected d)
  assume "ctx_inv c"
  then show ?thesis
    using remember_keyed [of "device_info_list c" d]
    by (simp add: Connected ctx_inv_def Context_onDeviceConnected_def remember_def
        alist.invar_assign)
next
  case (Disconnected d)
  assume "ctx_inv c"
  then show ?thesis
    using set_map_del [of "getUri d" "device_info_list c"]
    by (auto simp: Disconnected ctx_inv_def Context_onDeviceDisconnected_def Let_def
        alist.invar_erase)
qed

lemma ctx_apply_refines: "ctx_inv c \<Longrightarrow> ctx_abs (ctx_apply e c) = spec_apply e (ctx_abs c)"
  by (cases e) (auto simp: ctx_inv_def ctx_abs_def queryDeviceList_def Let_def remember_apply
      Context_onDeviceConnected_def Context_onDeviceDisconnected_def alist.laws
      fold_remember)

lemma ctx_run_refines:
  "ctx_inv c \<Longrightarrow> ctx_inv (ctx_run evs c) \<and> ctx_abs (ctx_run evs c) = fold spec_apply evs (ctx_abs c)"
  unfolding ctx_run_def
  by (induction evs arbitrary: c) (simp_all add: ctx_apply_inv ctx_apply_refines)

lemma ctx_inv_ctor: "ctx_inv Context_ctor"
  by (simp add: ctx_inv_def Context_ctor_def map_ok_def)

text \<open>
  Claim C8.  Refinement: after any sequence of queries, connections and disconnections the
  context holds exactly the devices of the abstract device map, one entry per URI, in URI order,
  each stored under its own URI.
\<close>

theorem context_refines_device_map:
  "ctx_abs (ctx_run evs Context_ctor) = fold spec_apply evs (True, Map.empty) \<and>
   sorted_wrt (<) (map fst (device_info_list (ctx_run evs Context_ctor))) \<and>
   list_all (\<lambda>(k, d). getUri d = k) (device_info_list (ctx_run evs Context_ctor))"
  using ctx_run_refines [OF ctx_inv_ctor, of evs]
  by (simp add: ctx_inv_def map_ok_def list_all_iff) (simp add: ctx_abs_def Context_ctor_def)

text \<open>
  From the second query on, the answer is a snapshot of the currently connected
  devices: a device that was disconnected, and not connected again, is not offered any more, and
  one that was connected last is.
\<close>

theorem later_query_is_current:
  assumes "Query found0 \<in> set evs"
  shows "set (fst (queryDeviceList found (ctx_run evs Context_ctor))) =
    ran (snd (fold spec_apply evs (True, Map.empty)))"
proof -
  let ?c = "ctx_run evs Context_ctor"
  have inv: "ctx_inv ?c" and abs: "ctx_abs ?c = fold spec_apply evs (True, Map.empty)"
    using ctx_run_refines [OF ctx_inv_ctor, of evs] by (simp_all add: ctx_abs_def Context_ctor_def)
  have once: "\<not> fst (fold spec_apply es s)" if "Query f \<in> set es \<or> \<not> fst s" for es f s
    using that
  proof (induction es arbitrary: s)
    case (Cons e es)
    then show ?case by (cases e; cases s) (auto intro!: Cons.IH)
  qed simp
  have "fst (ctx_abs ?c) = first_time_query ?c" by (simp add: ctx_abs_def)
  then have "\<not> first_time_query ?c" using once [of found0 evs "(True, Map.empty)"] assms abs by simp
  moreover have "ran (map_of (device_info_list ?c)) = snd ` set (device_info_list ?c)"
    using inv by (intro ran_distinct alist.entries_distinct) (simp add: ctx_inv_def)
  ultimately show ?thesis
    using abs by (simp add: queryDeviceList_def ctx_abs_def flip: abs)
qed

theorem later_query_is_current_witness:
  "fst (queryDeviceList [] (ctx_run
     [Query [\<lparr>getUri = ''a'', getName = [], getUsbVendorId = 0, getUsbProductId = 0\<rparr>],
      Connected \<lparr>getUri = ''b'', getName = [], getUsbVendorId = 0, getUsbProductId = 1\<rparr>,
      Disconnected \<lparr>getUri = ''a'', getName = [], getUsbVendorId = 0, getUsbProductId = 0\<rparr>] Context_ctor))
   = [\<lparr>getUri = ''b'', getName = [], getUsbVendorId = 0, getUsbProductId = 1\<rparr>] \<and>
   set (fst (queryDeviceList [] (ctx_run [Query []] Context_ctor))) = {}"
proof
  show "set (fst (queryDeviceList [] (ctx_run [Query []] Context_ctor))) = {}"
    by (subst later_query_is_current [of "[]"]) simp_all
qed (simp add: ctx_run_def queryDeviceList_def Context_ctor_def remember_def
      Context_onDeviceConnected_def Context_onDeviceDisconnected_def)

end
