(* ===== verification/Node_Factory.thy ===== *)
theory Node_Factory
  imports Ob_Context
begin

text \<open>
  \<open>OBCameraNodeFactory\<close> (\<open>ob_camera_node_factory.cpp\<close>): initialisation, the query loop that
  opens a matching device under the inter-process lock, start and loss of a device, destruction.
  The camera node itself is opaque here: all that matters is whether its constructor returns.
\<close>

section \<open>Log level\<close>

datatype OniLogSeverity =
    ONI_LOG_VERBOSE | ONI_LOG_INFO | ONI_LOG_WARNING | ONI_LOG_ERROR | ONI_LOG_SEVERITY_NONE

definition getLogLevelFromString :: "string \<Rightarrow> OniLogSeverity" where
  "getLogLevelFromString level =
     (if level = ''verbose'' then ONI_LOG_VERBOSE
      else if level = ''info'' then ONI_LOG_INFO
      else if level = ''warning'' then ONI_LOG_WARNING
      else if level = ''error'' then ONI_LOG_ERROR
      else if level = ''none'' then ONI_LOG_SEVERITY_NONE
      else ONI_LOG_SEVERITY_NONE)"

section \<open>State\<close>

text \<open>
  A device object is a number; \<open>dev_open\<close> holds the objects whose \<open>isValid\<close> is true.
  \<open>ob_camera_node\<close> is the object the running node was built on, \<open>device\<close> the factory's
  \<open>device_\<close>.  \<open>fac_log\<close> records the externally visible actions.
\<close>

datatype fac_act =
    TryLock
  | Unlock
  | SleepMs int
  | OpenDev string nat
  | CloseDev nat
  | NodeCtor nat
  | NodeDtor nat
  | Shutdown

record Factory =
  is_alive :: bool
  ob_camera_node :: "nat option"
  device :: "nat option"
  use_uvc_camera :: bool
  serial_number :: string
  device_uri :: string
  device_connected :: bool
  has_exception :: bool
  device_num :: int
  connection_delay :: int
  oni_log_level :: OniLogSeverity
  oni_log_to_console :: bool
  oni_log_to_file :: bool
  dev_open :: "nat list"
  next_dev :: nat
  lock_held :: bool
  fac_log :: "fac_act list"

definition note_act :: "fac_act \<Rightarrow> Factory \<Rightarrow> Factory" where
  "note_act a f = f\<lparr>fac_log := fac_log f @ [a]\<rparr>"

definition is_valid :: "nat \<Rightarrow> Factory \<Rightarrow> bool" where
  "is_valid d f \<longleftrightarrow> d \<in> set (dev_open f)"

definition close_dev :: "nat \<Rightarrow> Factory \<Rightarrow> Factory" where
  "close_dev d f = note_act (CloseDev d) (f\<lparr>dev_open := removeAll d (dev_open f)\<rparr>)"

text \<open>\<open>ob_camera_node_.reset()\<close>.\<close>

definition reset_node :: "Factory \<Rightarrow> Factory" where
  "reset_node f =
     (case ob_camera_node f of
        None \<Rightarrow> f
      | Some d \<Rightarrow> note_act (NodeDtor d) (f\<lparr>ob_camera_node := None\<rparr>))"

text \<open>
  The end of a scope: a device object that neither \<open>device_\<close> nor the node refers to is
  destroyed, and \<open>~Device\<close> closes it.
\<close>

definition drop_unreferenced :: "Factory \<Rightarrow> Factory" where
  "drop_unreferenced f =
     f\<lparr>dev_open := filter (\<lambda>d. device f = Some d \<or> ob_camera_node f = Some d) (dev_open f)\<rparr>"

section \<open>Initialisation\<close>

text \<open>The answers of the operating system and of OpenNI that \<open>init\<close> acts on.\<close>

record init_env =
  shm_open_rc :: int
  ftruncate_rc :: int
  openni_initialize_rc :: int

definition fresh_factory :: Factory where
  "fresh_factory = \<lparr>is_alive = False, ob_camera_node = None, device = None, use_uvc_camera = False,
     serial_number = [], device_uri = [], device_connected = False, has_exception = False,
     device_num = 1, connection_delay = 100, oni_log_level = ONI_LOG_SEVERITY_NONE,
     oni_log_to_console = False, oni_log_to_file = False, dev_open = [], next_dev = 0,
     lock_held = False, fac_log = []\<rparr>"

definition Factory_init :: "init_env \<Rightarrow> ros_params \<Rightarrow> Factory \<Rightarrow> Factory outcome" where
  "Factory_init E P f =
     (if shm_open_rc E = -1 then Inl (Exited (-1), f)
      else if ftruncate_rc E = -1 then Inl (Exited (-1), f)
      else let f = f\<lparr>is_alive := True,
                     oni_log_level := getLogLevelFromString (p_str P ''oni_log_level'' ''info''),
                     oni_log_to_console := p_bool P ''oni_log_to_console'' False,
                     oni_log_to_file := p_bool P ''oni_log_to_file'' False\<rparr>
           in if openni_initialize_rc E \<noteq> 0 then Inl (Exited (-1), f)
              else Inr (f\<lparr>use_uvc_camera := p_bool P ''use_uvc_camera'' False,
                         serial_number := p_str P ''serial_number'' [],
                         device_num := p_int P ''device_num'' 1,
                         connection_delay := p_int P ''connection_delay'' 100\<rparr>))"

section \<open>Start and loss of a device\<close>

text \<open>
  \<open>startDevice\<close>: \<open>node_ok\<close> says whether the constructor of \<open>OBCameraNode\<close> returns; both
  \<open>catch\<close> clauses leave the same state.  Once \<open>device_\<close> is reassigned and the old node is gone,
  nothing refers to the previous device object any more.
\<close>

definition startDevice :: "bool \<Rightarrow> nat \<Rightarrow> DeviceInfo \<Rightarrow> Factory \<Rightarrow> Factory" where
  "startDevice node_ok d info f =
     (let f = f\<lparr>device_uri := getUri info, device := Some d\<rparr>;
          f = drop_unreferenced (reset_node f)
      in if node_ok
         then note_act (NodeCtor d) (f\<lparr>ob_camera_node := Some d, device_connected := True\<rparr>)
         else (reset_node f)\<lparr>has_exception := True, device_uri := [], device_connected := False\<rparr>)"

record conn_env =
  trylock_rc :: int
  open_rc :: int
  serial_rc :: int
  dev_serial :: string
  node_ctor_ok :: bool

text \<open>
  \<open>onDeviceConnected\<close>.  The lock is released by the deleter of \<open>unlock_guard\<close> on every path
  after the lock was taken.  (The test for a null URI cannot succeed: \<open>getUri\<close> returns the address
  of an array inside \<open>DeviceInfo\<close>.)
\<close>

definition try_device :: "conn_env \<Rightarrow> nat \<Rightarrow> DeviceInfo \<Rightarrow> Factory \<Rightarrow> Factory" where
  "try_device E d info f =
     (if open_rc E \<noteq> 0 then f
      else if serial_rc E \<noteq> 0 then f
      else if serial_number f = [] \<or> dev_serial E = serial_number f
           then startDevice (node_ctor_ok E) d info f
      else f)"

definition open_device :: "conn_env \<Rightarrow> nat \<Rightarrow> DeviceInfo \<Rightarrow> Factory \<Rightarrow> Factory" where
  "open_device E d info f =
     note_act (OpenDev (getUri info) d)
       (if open_rc E = 0 then f\<lparr>dev_open := d # dev_open f\<rparr> else f)"

definition close_unused :: "nat \<Rightarrow> Factory \<Rightarrow> Factory" where
  "close_unused d f =
     (if \<not> device_connected f \<and> is_valid d f
      then (if has_exception f then f else close_dev d f)\<lparr>has_exception := False\<rparr>
      else f)"

definition onDeviceConnected :: "conn_env \<Rightarrow> DeviceInfo \<Rightarrow> Factory \<Rightarrow> Factory" where
  "onDeviceConnected E info f =
     (let f = note_act TryLock f in
      if trylock_rc E \<noteq> 0 then f
      else
        let f = f\<lparr>lock_held := True\<rparr>;
            d = next_dev f;
            f = f\<lparr>next_dev := Suc d\<rparr>;
            f = note_act (SleepMs (connection_delay f)) f;
            f = open_device E d info f;
            f = try_device E d info f;
            f = close_unused d f;
            f = drop_unreferenced f
        in note_act Unlock (f\<lparr>lock_held := False\<rparr>))"

definition onDeviceDisconnected :: "DeviceInfo \<Rightarrow> Factory \<Rightarrow> Factory" where
  "onDeviceDisconnected info f =
     (if device_uri f = getUri info
      then let f = reset_node (f\<lparr>device_uri := []\<rparr>);
               f = (case device f of
                      Some d \<Rightarrow> if is_valid d f then (close_dev d f)\<lparr>device := None\<rparr> else f
                    | None \<Rightarrow> f)
           in f\<lparr>device_connected := False\<rparr>
      else f)"

section \<open>The query loop and destruction\<close>

text \<open>One round of \<open>queryDevice\<close> over the devices that \<open>Context::queryDeviceList\<close> returned.\<close>

definition query_round :: "(DeviceInfo \<Rightarrow> conn_env) \<Rightarrow> DeviceInfo list \<Rightarrow> Factory \<Rightarrow> Factory" where
  "query_round E infos f =
     (if \<not> device_connected f
      then fold (\<lambda>info. onDeviceConnected (E info) info) infos (note_act (SleepMs 100) f)
      else note_act (SleepMs 1000) f)"

definition Factory_dtor :: "Factory \<Rightarrow> Factory" where
  "Factory_dtor f =
     (let f = f\<lparr>is_alive := False, device_connected := False\<rparr>;
          f = (case device f of
                 Some d \<Rightarrow> if is_valid d f then close_dev d f else f
               | None \<Rightarrow> f)
      in note_act Shutdown f)"

text \<open>The events that reach the factory, and its runs.\<close>

datatype fac_event = Round "DeviceInfo \<Rightarrow> conn_env" "DeviceInfo list" | Lost DeviceInfo

fun fac_apply :: "fac_event \<Rightarrow> Factory \<Rightarrow> Factory" where
  "fac_apply (Round E infos) f = query_round E infos f"
| "fac_apply (Lost info) f = onDeviceDisconnected info f"

section \<open>Invariant\<close>

text \<open>
  Between events: the factory is connected exactly when a node runs, the node runs on the
  factory's own open device, no other device object is open, no device is connected under an
  empty URI, the lock is free and no exception is pending.
\<close>

definition fac_inv :: "Factory \<Rightarrow> bool" where
  "fac_inv f \<longleftrightarrow>
     (device_connected f \<longleftrightarrow> ob_camera_node f \<noteq> None) \<and>
     (\<forall>d. ob_camera_node f = Some d \<longrightarrow> device f = Some d \<and> is_valid d f \<and> device_uri f \<noteq> []) \<and>
     (ob_camera_node f = None \<longrightarrow> device_uri f = []) \<and>
     (\<forall>d. is_valid d f \<longrightarrow> device f = Some d \<and> d < next_dev f) \<and>
     \<not> lock_held f \<and> \<not> has_exception f"

lemmas fac_op_defs = note_act_def is_valid_def close_dev_def reset_node_def drop_unreferenced_def
  startDevice_def try_device_def open_device_def

lemma fac_inv_init: "Factory_init E P fresh_factory = Inr f \<Longrightarrow> fac_inv f"
  by (auto simp: Factory_init_def fresh_factory_def fac_inv_def is_valid_def Let_def split: if_splits)

lemma note_act_inv [simp]: "fac_inv (note_act a f) \<longleftrightarrow> fac_inv f"
  by (simp add: fac_inv_def note_act_def is_valid_def)

text \<open>While a connection attempt runs on the object \<open>d\<close>, \<open>d\<close> may be open as well.\<close>

definition attempt_inv :: "nat \<Rightarrow> Factory \<Rightarrow> bool" where
  "attempt_inv d f \<longleftrightarrow>
     (device_connected f \<longleftrightarrow> ob_camera_node f \<noteq> None) \<and>
     (\<forall>x. ob_camera_node f = Some x \<longrightarrow> device f = Some x \<and> is_valid x f \<and> device_uri f \<noteq> []) \<and>
     (ob_camera_node f = None \<longrightarrow> device_uri f = []) \<and>
     (\<forall>x. is_valid x f \<longrightarrow> (device f = Some x \<or> x = d) \<and> x < next_dev f) \<and>
     (has_exception f \<longrightarrow> \<not> device_connected f \<and> device f = Some d \<and> is_valid d f)"

lemma note_act_fields [simp]:
  "ob_camera_node (note_act a f) = ob_camera_node f" "device (note_act a f) = device f"
  "device_uri (note_act a f) = device_uri f" "device_connected (note_act a f) = device_connected f"
  "has_exception (note_act a f) = has_exception f" "dev_open (note_act a f) = dev_open f"
  "next_dev (note_act a f) = next_dev f" "lock_held (note_act a f) = lock_held f"
  "serial_number (note_act a f) = serial_number f" "is_valid d (note_act a f) = is_valid d f"
  "connection_delay (note_act a f) = connection_delay f"
  "fac_log (note_act a f) = fac_log f @ [a]"
  by (simp_all add: note_act_def is_valid_def)

lemma reset_node_fields [simp]:
  "ob_camera_node (reset_node f) = None" "device (reset_node f) = device f"
  "device_uri (reset_node f) = device_uri f" "device_connected (reset_node f) = device_connected f"
  "has_exception (reset_node f) = has_exception f" "dev_open (reset_node f) = dev_open f"
  "next_dev (reset_node f) = next_dev f" "lock_held (reset_node f) = lock_held f"
  "serial_number (reset_node f) = serial_number f" "is_valid d (reset_node f) = is_valid d f"
  by (cases "ob_camera_node f"; simp add: reset_node_def is_valid_def)+

lemma attempt_open:
  assumes "fac_inv f"
  shows "attempt_inv (next_dev f) (open_device E (next_dev f) info
    (note_act a (note_act b f\<lparr>lock_held := True, next_dev := Suc (next_dev f)\<rparr>)))"
  using assms by (auto simp: attempt_inv_def fac_inv_def open_device_def is_valid_def less_Suc_eq)

lemma attempt_start:
  assumes "attempt_inv d f" "is_valid d f" "getUri info \<noteq> []" "\<not> has_exception f"
  shows "attempt_inv d (startDevice ok d info f)"
  using assms by (simp add: attempt_inv_def startDevice_def Let_def is_valid_def drop_unreferenced_def)

lemma open_device_valid: "open_rc E = 0 \<Longrightarrow> is_valid d (open_device E d info f)"
  by (simp add: open_device_def is_valid_def)

lemma attempt_try:
  assumes "attempt_inv d f" "open_rc E = 0 \<Longrightarrow> is_valid d f" "getUri info \<noteq> []" "\<not> has_exception f"
  shows "attempt_inv d (try_device E d info f)"
  using assms by (simp add: try_device_def attempt_start)

lemma attempt_close:
  assumes "attempt_inv d f"
  shows "attempt_inv d (close_unused d f) \<and> \<not> has_exception (close_unused d f)"
  using assms by (auto simp: attempt_inv_def close_unused_def close_dev_def is_valid_def)

lemma attempt_finish:
  assumes "attempt_inv d f" "\<not> has_exception f"
  shows "fac_inv (note_act a (drop_unreferenced f\<lparr>lock_held := False\<rparr>))"
  using assms by (auto simp: attempt_inv_def fac_inv_def drop_unreferenced_def is_valid_def)

lemma onDeviceConnected_inv:
  assumes "fac_inv f" "getUri info \<noteq> []"
  shows "fac_inv (onDeviceConnected E info f)"
proof (cases "trylock_rc E = 0")
  case True
  let ?d = "next_dev f"
  let ?f1 = "open_device E ?d info (note_act (SleepMs (connection_delay f))
      (note_act TryLock f\<lparr>lock_held := True, next_dev := Suc ?d\<rparr>))"
  have "\<not> has_exception ?f1" using assms by (simp add: open_device_def fac_inv_def)
  then have "attempt_inv ?d (try_device E ?d info ?f1)"
    using assms by (intro attempt_try attempt_open open_device_valid)
  then have "fac_inv (note_act Unlock (drop_unreferenced
      (close_unused ?d (try_device E ?d info ?f1))\<lparr>lock_held := False\<rparr>))"
    using attempt_close attempt_finish by blast
  with True show ?thesis by (simp add: onDeviceConnected_def Let_def)
next
  case False
  with assms show ?thesis by (simp add: onDeviceConnected_def)
qed

lemma onDeviceDisconnected_inv:
  assumes "fac_inv f"
  shows "fac_inv (onDeviceDisconnected info f)"
proof (cases "device_uri f = getUri info")
  case True
  have valid: "is_valid x f \<Longrightarrow> device f = Some x" "is_valid x f \<Longrightarrow> x < next_dev f" for x
    using assms by (simp_all add: fac_inv_def)
  have rest: "\<not> lock_held f" "\<not> has_exception f" using assms by (simp_all add: fac_inv_def)
  show ?thesis
  proof (cases "\<exists>d. device f = Some d \<and> is_valid d f")
    case True
    then obtain d where d: "device f = Some d" "is_valid d f" by blast
    then have "x \<noteq> d \<Longrightarrow> x \<notin> set (dev_open f)" for x
      using valid(1) [of x] by (auto simp: is_valid_def)
    then show ?thesis
      using d rest by (auto simp: onDeviceDisconnected_def Let_def fac_inv_def close_dev_def is_valid_def \<open>device_uri f = getUri info\<close>)
  next
    case False
    then have "\<not> is_valid x f" for x using valid(1) by blast
    then show ?thesis
      using rest by (auto simp: onDeviceDisconnected_def Let_def fac_inv_def is_valid_def
          \<open>device_uri f = getUri info\<close> split: option.split)
  qed
next
  case False
  with assms show ?thesis by (simp add: onDeviceDisconnected_def)
qed

lemma fold_connected_inv:
  "fac_inv f \<Longrightarrow> \<forall>i \<in> set infos. getUri i \<noteq> [] \<Longrightarrow>
     fac_inv (fold (\<lambda>info. onDeviceConnected (E info) info) infos f)"
  by (induction infos arbitrary: f) (simp_all add: onDeviceConnected_inv)

lemma query_round_inv:
  "fac_inv f \<Longrightarrow> \<forall>i \<in> set infos. getUri i \<noteq> [] \<Longrightarrow> fac_inv (query_round E infos f)"
  by (simp add: query_round_def fold_connected_inv)

fun named_devices :: "fac_event \<Rightarrow> bool" where
  "named_devices (Round E infos) \<longleftrightarrow> list_all (\<lambda>i. getUri i \<noteq> []) infos"
| "named_devices (Lost info) \<longleftrightarrow> True"

lemma fac_apply_inv: "fac_inv f \<Longrightarrow> named_devices e \<Longrightarrow> fac_inv (fac_apply e f)"
  by (cases e) (simp_all add: query_round_inv onDeviceDisconnected_inv list_all_iff)

text \<open>
  Claim C6.  From initialisation on, whatever devices appear, fail to open, mismatch, fail to
  start or vanish: the factory is connected exactly when a node runs, the node runs on the one
  open device object of the process, every other object was closed, and the inter-process lock
  is free between events.
\<close>

theorem factory_invariant:
  assumes "Factory_init E P fresh_factory = Inr f" and "list_all named_devices evs"
  shows "fac_inv (fold fac_apply evs f)"
proof -
  have "list_all named_devices es \<Longrightarrow> fac_inv g \<Longrightarrow> fac_inv (fold fac_apply es g)" for es g
    by (induction es arbitrary: g) (simp_all add: fac_apply_inv)
  with assms fac_inv_init show ?thesis by blast
qed

definition ok_conn :: conn_env where
  "ok_conn = \<lparr>trylock_rc = 0, open_rc = 0, serial_rc = 0, dev_serial = ''S1'', node_ctor_ok = True\<rparr>"

definition some_device :: "string \<Rightarrow> DeviceInfo" where
  "some_device u = \<lparr>getUri = u, getName = [], getUsbVendorId = 0, getUsbProductId = 0\<rparr>"

theorem factory_invariant_witness:
  "\<exists>f. Factory_init \<lparr>shm_open_rc = 3, ftruncate_rc = 0, openni_initialize_rc = 0\<rparr> empty_params
      fresh_factory = Inr f \<and>
    device_connected (fold fac_apply [Round (\<lambda>_. ok_conn) [some_device ''u1'']] f) \<and>
    fac_inv (fold fac_apply [Round (\<lambda>_. ok_conn) [some_device ''u1'']] f)"
proof -
  let ?E = "\<lparr>shm_open_rc = 3, ftruncate_rc = 0, openni_initialize_rc = 0\<rparr>"
  obtain f where f: "Factory_init ?E empty_params fresh_factory = Inr f"
    by (simp add: Factory_init_def Let_def)
  have "fac_inv (fold fac_apply [Round (\<lambda>_. ok_conn) [some_device ''u1'']] f)"
    by (rule factory_invariant [OF f]) (simp add: some_device_def)
  moreover have "device_connected (fold fac_apply [Round (\<lambda>_. ok_conn) [some_device ''u1'']] f)"
    using f by (auto simp: Factory_init_def fresh_factory_def Let_def query_round_def
        onDeviceConnected_def fac_op_defs ok_conn_def some_device_def close_unused_def)
  ultimately show ?thesis using f by blast
qed

section \<open>Lock discipline\<close>

definition inner_act :: "fac_act \<Rightarrow> bool" where
  "inner_act a \<longleftrightarrow> a \<noteq> TryLock \<and> a \<noteq> Unlock"

definition extends_by_inner :: "Factory \<Rightarrow> Factory \<Rightarrow> bool" where
  "extends_by_inner f g \<longleftrightarrow> (\<exists>as. fac_log g = fac_log f @ as \<and> list_all inner_act as)"

lemma extends_refl: "fac_log g = fac_log f \<Longrightarrow> extends_by_inner f g"
  by (auto simp: extends_by_inner_def)

lemma extends_act: "fac_log g = fac_log f @ [a] \<Longrightarrow> inner_act a \<Longrightarrow> extends_by_inner f g"
  by (auto simp: extends_by_inner_def)

lemma extends_trans: "extends_by_inner f g \<Longrightarrow> extends_by_inner g h \<Longrightarrow> extends_by_inner f h"
  by (force simp: extends_by_inner_def)

lemma extends_reset: "extends_by_inner f (reset_node f)"
  by (cases "ob_camera_node f") (auto simp: reset_node_def extends_by_inner_def inner_act_def note_act_def)

lemma extends_start: "extends_by_inner f (startDevice ok d info f)"
proof -
  let ?f = "f\<lparr>device_uri := getUri info, device := Some d\<rparr>"
  have "extends_by_inner f ?f" by (simp add: extends_refl)
  also have "extends_by_inner ?f (drop_unreferenced (reset_node ?f))"
    using extends_reset [of ?f] by (simp add: extends_by_inner_def drop_unreferenced_def)
  finally (extends_trans) have *: "extends_by_inner f (drop_unreferenced (reset_node ?f))" .
  show ?thesis
  proof (cases ok)
    case True
    then show ?thesis
      using * by (force simp: startDevice_def Let_def extends_by_inner_def inner_act_def)
  next
    case False
    then show ?thesis
      using extends_trans [OF * extends_reset]
      by (simp add: startDevice_def Let_def extends_by_inner_def)
  qed
qed

lemma extends_try: "extends_by_inner f (try_device E d info f)"
  by (simp add: try_device_def extends_start extends_refl)

lemma extends_close: "extends_by_inner f (close_unused d f)"
  by (auto simp: close_unused_def close_dev_def inner_act_def intro: extends_refl extends_act)

text \<open>
  Claim C7.  One attempt to connect tries the lock once without blocking; if the lock is busy
  nothing else happens, and otherwise the attempt releases it exactly once, as its last action,
  on every path (failed open, failed property, mismatched serial number, failed start).
\<close>

theorem lock_released_on_every_path:
  "if trylock_rc E = 0
   then \<exists>mid. fac_log (onDeviceConnected E info f) = fac_log f @ TryLock # mid @ [Unlock] \<and>
          TryLock \<notin> set mid \<and> Unlock \<notin> set mid \<and> \<not> lock_held (onDeviceConnected E info f)
   else onDeviceConnected E info f = note_act TryLock f"
proof (cases "trylock_rc E = 0")
  case True
  let ?d = "next_dev f"
  let ?g = "note_act TryLock f\<lparr>lock_held := True, next_dev := Suc ?d\<rparr>"
  let ?f1 = "open_device E ?d info (note_act (SleepMs (connection_delay f)) ?g)"
  have "extends_by_inner ?g ?f1"
    by (auto simp: open_device_def extends_by_inner_def inner_act_def)
  then have "extends_by_inner ?g (close_unused ?d (try_device E ?d info ?f1))"
    by (intro extends_trans [OF _ extends_close] extends_trans [OF _ extends_try])
  then obtain mid where "fac_log (close_unused ?d (try_device E ?d info ?f1)) = fac_log f @ TryLock # mid"
    "list_all inner_act mid" by (auto simp: extends_by_inner_def)
  moreover from this(2) have "TryLock \<notin> set mid" "Unlock \<notin> set mid"
    by (auto simp: list_all_iff inner_act_def)
  ultimately show ?thesis
    using True by (auto simp: onDeviceConnected_def Let_def drop_unreferenced_def intro!: exI [of _ mid])
next
  case False
  then show ?thesis by (simp add: onDeviceConnected_def)
qed

section \<open>Which device a round ends up with\<close>

text \<open>A device is accepted when every step of its attempt succeeds.\<close>

definition reaches_start :: "string \<Rightarrow> conn_env \<Rightarrow> bool" where
  "reaches_start serial E \<longleftrightarrow> trylock_rc E = 0 \<and> open_rc E = 0 \<and> serial_rc E = 0 \<and>
     (serial = [] \<or> dev_serial E = serial)"

definition node_ctors :: "Factory \<Rightarrow> nat" where
  "node_ctors f = length (filter (\<lambda>a. case a of NodeCtor _ \<Rightarrow> True | _ \<Rightarrow> False) (fac_log f))"

lemma node_ctors_reset: "node_ctors (reset_node f) = node_ctors f"
  by (cases "ob_camera_node f") (auto simp: node_ctors_def reset_node_def note_act_def)

lemma node_ctors_cong: "fac_log g = fac_log f \<Longrightarrow> node_ctors g = node_ctors f"
  by (simp add: node_ctors_def)

lemma start_fields:
  "device_uri (startDevice True d info f) = getUri info" "device_connected (startDevice True d info f)"
  "serial_number (startDevice True d info f) = serial_number f"
  "node_ctors (startDevice True d info f) = Suc (node_ctors f)"
proof -
  let ?g = "drop_unreferenced (reset_node (f\<lparr>device_uri := getUri info, device := Some d\<rparr>))"
  have "node_ctors ?g = node_ctors (reset_node (f\<lparr>device_uri := getUri info, device := Some d\<rparr>))"
    by (rule node_ctors_cong) (simp add: drop_unreferenced_def)
  also have "\<dots> = node_ctors f"
    unfolding node_ctors_reset by (rule node_ctors_cong) simp
  finally have "node_ctors ?g = node_ctors f" .
  then show "node_ctors (startDevice True d info f) = Suc (node_ctors f)"
    by (simp add: startDevice_def Let_def) (simp add: node_ctors_def)
qed (simp_all add: startDevice_def Let_def drop_unreferenced_def)

lemma open_fields:
  "serial_number (open_device E d info f) = serial_number f"
  "node_ctors (open_device E d info f) = node_ctors f"
  by (simp_all add: open_device_def node_ctors_def)

lemma finish_fields:
  "device_connected f \<Longrightarrow> close_unused d f = f"
  "device_uri (drop_unreferenced f) = device_uri f"
  "device_connected (drop_unreferenced f) = device_connected f"
  "serial_number (drop_unreferenced f) = serial_number f"
  "fac_log (drop_unreferenced f) = fac_log f"
  by (simp_all add: close_unused_def drop_unreferenced_def)

lemma connected_accepted:
  assumes "reaches_start (serial_number f) E" "node_ctor_ok E"
  shows "device_uri (onDeviceConnected E info f) = getUri info \<and>
    device_connected (onDeviceConnected E info f) \<and>
    node_ctors (onDeviceConnected E info f) = Suc (node_ctors f) \<and>
    serial_number (onDeviceConnected E info f) = serial_number f"
proof -
  let ?d = "next_dev f"
  let ?h = "note_act (SleepMs (connection_delay f)) (note_act TryLock f\<lparr>lock_held := True, next_dev := Suc ?d\<rparr>)"
  let ?f1 = "open_device E ?d info ?h"
  have tr: "try_device E ?d info ?f1 = startDevice True ?d info ?f1"
    using assms by (simp add: try_device_def reaches_start_def open_fields)
  have eq: "onDeviceConnected E info f =
      note_act Unlock (drop_unreferenced (startDevice True ?d info ?f1)\<lparr>lock_held := False\<rparr>)"
    using assms by (simp add: onDeviceConnected_def Let_def tr start_fields finish_fields reaches_start_def)
  have "node_ctors (onDeviceConnected E info f) = node_ctors (startDevice True ?d info ?f1)"
    unfolding eq by (simp add: node_ctors_def finish_fields)
  also have "\<dots> = Suc (node_ctors ?h)" by (simp add: start_fields open_fields)
  also have "node_ctors ?h = node_ctors f" by (simp add: node_ctors_def)
  finally show ?thesis
    by (simp add: eq finish_fields start_fields open_fields)
qed

lemma unused_fields:
  "device_uri (close_unused d f) = device_uri f" "device_connected (close_unused d f) = device_connected f"
  "serial_number (close_unused d f) = serial_number f" "node_ctors (close_unused d f) = node_ctors f"
  by (simp_all add: close_unused_def close_dev_def node_ctors_def)

lemma open_keeps:
  "device_uri (open_device E d info f) = device_uri f"
  "device_connected (open_device E d info f) = device_connected f"
  by (simp_all add: open_device_def)

lemma connected_rejected:
  assumes "\<not> reaches_start (serial_number f) E"
  shows "device_uri (onDeviceConnected E info f) = device_uri f \<and>
    device_connected (onDeviceConnected E info f) = device_connected f \<and>
    node_ctors (onDeviceConnected E info f) = node_ctors f \<and>
    serial_number (onDeviceConnected E info f) = serial_number f"
proof (cases "trylock_rc E = 0")
  case True
  let ?d = "next_dev f"
  let ?h = "note_act (SleepMs (connection_delay f)) (note_act TryLock f\<lparr>lock_held := True, next_dev := Suc ?d\<rparr>)"
  let ?f1 = "open_device E ?d info ?h"
  have "try_device E ?d info ?f1 = ?f1"
    using assms True by (auto simp: try_device_def reaches_start_def open_fields)
  then have eq: "onDeviceConnected E info f =
      note_act Unlock (drop_unreferenced (close_unused ?d ?f1)\<lparr>lock_held := False\<rparr>)"
    using True by (simp add: onDeviceConnected_def Let_def)
  have "node_ctors (onDeviceConnected E info f) = node_ctors (close_unused ?d ?f1)"
    unfolding eq by (simp add: node_ctors_def finish_fields)
  also have "\<dots> = node_ctors ?h" by (simp add: unused_fields open_fields)
  also have "\<dots> = node_ctors f" by (simp add: node_ctors_def)
  finally show ?thesis
    by (simp add: eq finish_fields unused_fields open_fields open_keeps)
next
  case False
  then show ?thesis by (simp add: onDeviceConnected_def node_ctors_def)
qed

lemma round_last:
  assumes "\<forall>i \<in> set infos. reaches_start (serial_number f) (E i) \<longrightarrow> node_ctor_ok (E i)"
  shows "(let g = fold (\<lambda>i. onDeviceConnected (E i) i) infos f;
              acc = filter (\<lambda>i. reaches_start (serial_number f) (E i)) infos
     in node_ctors g = node_ctors f + length acc \<and> serial_number g = serial_number f \<and>
        (acc \<noteq> [] \<longrightarrow> device_connected g \<and> device_uri g = getUri (last acc)) \<and>
        (acc = [] \<longrightarrow> device_connected g = device_connected f \<and> device_uri g = device_uri f))"
  using assms
proof (induction infos rule: rev_induct)
  case Nil
  then show ?case by simp
next
  case (snoc i infos)
  then show ?case
    using connected_accepted [of "fold (\<lambda>i. onDeviceConnected (E i) i) infos f" "E i" i]
      connected_rejected [of "fold (\<lambda>i. onDeviceConnected (E i) i) infos f" "E i" i]
    by (auto simp: Let_def)
qed

text \<open>
  The query loop does not stop at the first device it connects: with several devices
  that pass the serial-number filter, every one of them is opened and gets a node, and the
  factory ends up on the last one of the list.
\<close>

theorem round_ends_on_last_match:
  assumes "\<not> device_connected f"
    and "\<forall>i \<in> set infos. reaches_start (serial_number f) (E i) \<longrightarrow> node_ctor_ok (E i)"
    and "filter (\<lambda>i. reaches_start (serial_number f) (E i)) infos \<noteq> []"
  shows "device_connected (query_round E infos f) \<and>
    device_uri (query_round E infos f) =
      getUri (last (filter (\<lambda>i. reaches_start (serial_number f) (E i)) infos)) \<and>
    node_ctors (query_round E infos f) =
      node_ctors f + length (filter (\<lambda>i. reaches_start (serial_number f) (E i)) infos)"
  using assms round_last [of infos "note_act (SleepMs 100) f" E]
  by (simp add: query_round_def Let_def node_ctors_def)

theorem round_ends_on_last_match_witness:
  "device_uri (query_round (\<lambda>_. ok_conn) [some_device ''u1'', some_device ''u2''] fresh_factory) = ''u2'' \<and>
   node_ctors (query_round (\<lambda>_. ok_conn) [some_device ''u1'', some_device ''u2''] fresh_factory) = 2"
  using round_ends_on_last_match [of fresh_factory "[some_device ''u1'', some_device ''u2'']" "\<lambda>_. ok_conn"]
  by (simp add: fresh_factory_def reaches_start_def ok_conn_def some_device_def node_ctors_def)

section \<open>Teardown\<close>

lemma only_device_open:
  assumes "fac_inv f" "d \<in> set (dev_open f)"
  shows "device f = Some d"
  using assms by (simp add: fac_inv_def is_valid_def)

lemma closing_the_device:
  assumes "fac_inv f" "device f = Some d"
  shows "removeAll d (dev_open f) = []"
proof -
  have "x = d" if "x \<in> set (dev_open f)" for x
    using only_device_open [OF assms(1) that] assms(2) by simp
  then show ?thesis by (simp add: removeAll_filter_not_eq filter_empty_conv)
qed

text \<open>
  Losing the connected device, and destroying the factory, leave no open device
  object behind; the loss also ends the node and makes the factory look for a device again, while
  the loss of any other device changes nothing.
\<close>

theorem teardown_closes_device:
  assumes "fac_inv f"
  shows "dev_open (Factory_dtor f) = [] \<and>
    (if device_uri f = getUri info
     then dev_open (onDeviceDisconnected info f) = [] \<and>
          ob_camera_node (onDeviceDisconnected info f) = None \<and>
          \<not> device_connected (onDeviceDisconnected info f)
     else onDeviceDisconnected info f = f)"
proof (cases "dev_open f = []")
  case True
  then show ?thesis
    by (auto simp: Factory_dtor_def onDeviceDisconnected_def Let_def is_valid_def close_dev_def
        split: option.split)
next
  case False
  then obtain d where d: "d \<in> set (dev_open f)" by (cases "dev_open f") auto
  then have "device f = Some d" using only_device_open assms by blast
  with d closing_the_device [OF assms this] show ?thesis
    by (simp add: Factory_dtor_def onDeviceDisconnected_def Let_def is_valid_def close_dev_def)
qed

theorem teardown_closes_device_witness:
  "fac_inv fresh_factory \<and> dev_open (Factory_dtor fresh_factory) = []"
proof -
  have "fac_inv fresh_factory" by (simp add: fac_inv_def fresh_factory_def is_valid_def)
  with teardown_closes_device [OF this, of "some_device ''u1''"] show ?thesis by simp
qed

end
