(* ===== verification/Floats.thy ===== *)
theory Floats
  imports Prelude
begin

unbundle bit_operations_syntax

text \<open>
  Floating-point numbers: a \<open>float\<close> is its 32 bits and a \<open>double\<close> its 64 bits.  The arithmetic of the
  processor is a parameter; the tests for not-a-number and the order are defined on the bits.
\<close>

section \<open>Numbers and constants\<close>

type_synonym float32 = "32 word"
type_synonym float64 = "64 word"

text \<open>Exponent all ones and a non-zero mantissa.\<close>

definition isnan32 :: "float32 \<Rightarrow> bool" where
  "isnan32 x \<longleftrightarrow> x AND 0x7f800000 = 0x7f800000 \<and> x AND 0x007fffff \<noteq> 0"

definition nan32 :: float32 where "nan32 = 0x7fc00000"
definition one32 :: float32 where "one32 = 0x3f800000"

lemma isnan32_examples [simp]: "isnan32 nan32" "\<not> isnan32 0" "\<not> isnan32 one32"
  by (simp_all add: isnan32_def nan32_def one32_def)

text \<open>The double constants of the code.\<close>

definition d_zero :: float64 where "d_zero = 0"
definition d_one :: float64 where "d_one = 0x3ff0000000000000"
definition d_half :: float64 where "d_half = 0x3fe0000000000000"
definition d_two :: float64 where "d_two = 0x4000000000000000"
definition d_1000 :: float64 where "d_1000 = 0x408f400000000000"
definition d_minus_half_pi :: float64 where "d_minus_half_pi = 0xbff921fb54442d18"
definition d_640 :: float64 where "d_640 = 0x4084000000000000"
definition d_3_8 :: float64 where "d_3_8 = 0x3fd8000000000000"

section \<open>The order of doubles\<close>

text \<open>
  The order of IEEE doubles on their bits: the magnitude with its sign, and nothing compares with a
  not-a-number.
\<close>

definition isnan64 :: "float64 \<Rightarrow> bool" where
  "isnan64 x \<longleftrightarrow> x AND 0x7ff0000000000000 = 0x7ff0000000000000 \<and> x AND 0x000fffffffffffff \<noteq> 0"

definition fp_key :: "float64 \<Rightarrow> int" where
  "fp_key x = (let m = uint (x AND 0x7fffffffffffffff) in if bit x 63 then - m else m)"

definition fp_less :: "float64 \<Rightarrow> float64 \<Rightarrow> bool" where
  "fp_less x y \<longleftrightarrow> \<not> isnan64 x \<and> \<not> isnan64 y \<and> fp_key x < fp_key y"

definition fp_le :: "float64 \<Rightarrow> float64 \<Rightarrow> bool" where
  "fp_le x y \<longleftrightarrow> \<not> isnan64 x \<and> \<not> isnan64 y \<and> fp_key x \<le> fp_key y"

definition d_minus_one :: float64 where "d_minus_one = 0xbff0000000000000"

lemma fp_less_irrefl [simp]: "\<not> fp_less x x"
  by (simp add: fp_less_def)

lemma fp_le_less_trans: "fp_le x y \<Longrightarrow> fp_less y z \<Longrightarrow> fp_less x z"
  by (simp add: fp_le_def fp_less_def)

lemma fp_less_le_trans: "fp_less x y \<Longrightarrow> fp_le y z \<Longrightarrow> fp_less x z"
  by (simp add: fp_le_def fp_less_def)

lemma fp_key_values: "isnan64 d_minus_one = False" "isnan64 d_zero = False" "isnan64 d_one = False"
    "isnan64 d_two = False" "fp_key d_minus_one < fp_key d_zero" "fp_key d_zero < fp_key d_one"
    "fp_key d_one < fp_key d_two" "fp_key d_zero < fp_key d_two"
  by (simp_all add: isnan64_def d_minus_one_def d_zero_def d_one_def d_two_def fp_key_def Let_def)

lemma minus_one_negative [simp]: "\<not> fp_less d_zero d_minus_one" "fp_less d_minus_one d_zero"
    "fp_less d_zero d_one" "fp_less d_zero d_two" "fp_less d_one d_two"
  using fp_key_values by (auto simp: fp_less_def)

section \<open>Arithmetic\<close>

text \<open>
  Quaternions and vectors of tf2, and the numeric operations of the processor, of Eigen (the quaternion
  of a rotation matrix given row by row) and of tf2 (\<open>setRPY\<close>, product, inverse, inverse of a transform).
\<close>

type_synonym quat = "float64 \<times> float64 \<times> float64 \<times> float64"
type_synonym vec3 = "float64 \<times> float64 \<times> float64"

record fp_env =
  fp_widen :: "float32 \<Rightarrow> float64"
  fp_of_int :: "int \<Rightarrow> float64"
  fp_sub :: "float64 \<Rightarrow> float64 \<Rightarrow> float64"
  fp_mul :: "float64 \<Rightarrow> float64 \<Rightarrow> float64"
  fp_div :: "float64 \<Rightarrow> float64 \<Rightarrow> float64"
  fp_tan_half :: "float32 \<Rightarrow> float64"
  fp_neg :: "float64 \<Rightarrow> float64"
  setRPY :: "float64 \<Rightarrow> float64 \<Rightarrow> float64 \<Rightarrow> quat"
  eigen_quat :: "float32 list \<Rightarrow> quat"
  q_mul :: "quat \<Rightarrow> quat \<Rightarrow> quat"
  q_inverse :: "quat \<Rightarrow> quat"
  tf_inverse :: "quat \<times> vec3 \<Rightarrow> quat \<times> vec3"

text \<open>The RealSense node also adds.\<close>

record rs_fp = fp_env +
  fp_add :: "float64 \<Rightarrow> float64 \<Rightarrow> float64"

text \<open>A concrete arithmetic for the examples: the bits are numbers, and what needs more is trivial.\<close>

definition bits_fp :: rs_fp where
  "bits_fp = \<lparr>fp_widen = (\<lambda>x. word_of_int (uint x)), fp_of_int = word_of_int, fp_sub = (-), fp_mul = (*),
     fp_div = (\<lambda>x y. x div y), fp_tan_half = (\<lambda>x. word_of_int (uint x)), fp_neg = (\<lambda>x. - x),
     setRPY = (\<lambda>_ _ _. (0, 0, 0, 1)), eigen_quat = (\<lambda>_. (0, 0, 0, 1)), q_mul = (\<lambda>x _. x),
     q_inverse = (\<lambda>x. x), tf_inverse = (\<lambda>x. x), fp_add = (+)\<rparr>"

end
