(* ===== verification/Ros_Messages.thy ===== *)
theory Ros_Messages
  imports Floats
begin

text \<open>
  The ROS messages that several drivers publish: camera information, images and transforms.
\<close>

section \<open>\<open>sensor_msgs::CameraInfo\<close>\<close>

record CameraInfo =
  ci_width :: int
  ci_height :: int
  ci_model :: string
  ci_D :: "float64 list"
  ci_K :: "float64 list"
  ci_R :: "float64 list"
  ci_P :: "float64 list"

text \<open>A default-constructed message; \<open>K\<close>, \<open>R\<close> and \<open>P\<close> are fixed-size arrays.\<close>

definition empty_info :: CameraInfo where
  "empty_info = \<lparr>ci_width = 0, ci_height = 0, ci_model = [], ci_D = [], ci_K = replicate 9 d_zero,
     ci_R = replicate 9 d_zero, ci_P = replicate 12 d_zero\<rparr>"

definition info_shape :: "CameraInfo \<Rightarrow> bool" where
  "info_shape i \<longleftrightarrow> length (ci_D i) = 5 \<and> length (ci_K i) = 9 \<and> length (ci_R i) = 9 \<and> length (ci_P i) = 12"

text \<open>\<open>sensor_msgs::Image\<close>; the time stamp is not modelled.\<close>

record Image =
  im_width :: nat
  im_height :: nat
  im_step :: nat
  im_encoding :: string
  im_data :: "8 word list"

section \<open>\<open>geometry_msgs::TransformStamped\<close>\<close>

text \<open>A \<open>TransformStamped\<close> message without its time stamp.\<close>

record tf_msg =
  tf_parent :: string
  tf_child :: string
  tf_translation :: vec3
  tf_rotation :: quat

end
