(* ===== verification/Camera_Types.thy ===== *)
theory Camera_Types
  imports Astra_Types Ros_Messages
begin

unbundle bit_operations_syntax

text \<open>
  Camera calibration data as the OpenNI driver delivers it (\<open>OniCTypes.h\<close>, \<open>PS1080.h\<close>).
\<close>

section \<open>Driver structures\<close>

record OBCameraParams =
  l_intr_p :: "float32 list"
  r_intr_p :: "float32 list"
  r2l_r :: "float32 list"
  r2l_t :: "float32 list"
  l_k :: "float32 list"
  r_k :: "float32 list"

text \<open>\<open>OBCameraParams{}\<close>, and the shape of the arrays.\<close>

definition zero_params :: OBCameraParams where
  "zero_params = \<lparr>l_intr_p = replicate 4 0, r_intr_p = replicate 4 0, r2l_r = replicate 9 0,
     r2l_t = replicate 3 0, l_k = replicate 5 0, r_k = replicate 5 0\<rparr>"

definition params_shape :: "OBCameraParams \<Rightarrow> bool" where
  "params_shape p \<longleftrightarrow> length (l_intr_p p) = 4 \<and> length (r_intr_p p) = 4 \<and> length (r2l_r p) = 9 \<and>
     length (r2l_t p) = 3 \<and> length (l_k p) = 5 \<and> length (r_k p) = 5"

lemma zero_params_shape [simp]: "params_shape zero_params"
  by (simp add: params_shape_def zero_params_def)

record OBCameraIntrinsic =
  in_fx :: float32
  in_fy :: float32
  in_cx :: float32
  in_cy :: float32
  in_width :: int
  in_height :: int

record OBCameraDistortion =
  di_k1 :: float32
  di_k2 :: float32
  di_k3 :: float32
  di_p1 :: float32
  di_p2 :: float32

record OBCameraParam =
  depthIntrinsic :: OBCameraIntrinsic
  rgbIntrinsic :: OBCameraIntrinsic
  depthDistortion :: OBCameraDistortion
  rgbDistortion :: OBCameraDistortion
  tf_rot :: "float32 list"
  tf_trans :: "float32 list"

datatype depth_res =
    DEPTH_RES_1024_768 | DEPTH_RES_512_384 | DEPTH_RES_640_480 | DEPTH_RES_320_240 | DEPTH_RES_160_120
  | DEPTH_RES_480_360 | DEPTH_RES_240_180 | DEPTH_RES_640_360 | DEPTH_RES_320_180

datatype color_res = COLOR_RES_DEFAULT | COLOR_RES_640_360 | COLOR_RES_320_180

section \<open>Validity of a calibration\<close>

text \<open>\<open>isValidCameraParams\<close> (\<open>utils.cpp\<close>).\<close>

definition isValidCameraParams :: "OBCameraParams \<Rightarrow> bool" where
  "isValidCameraParams params =
     (if isnan32 (l_intr_p params ! 0) \<or> isnan32 (l_intr_p params ! 1) \<or>
         isnan32 (l_intr_p params ! 2) \<or> isnan32 (l_intr_p params ! 3)
      then False else True)"

lemma zero_params_valid [simp]: "isValidCameraParams zero_params"
  by (simp add: isValidCameraParams_def zero_params_def)

end
