(* ===== verification/Node_State.thy ===== *)
theory Node_State
  imports Camera_Types
begin

text \<open>
  The state of \<open>OBCameraNode\<close> (\<open>ob_camera_node.h\<close>) and its conversation with the OpenNI device.
  The device is a parameter: what it answers to a call may depend on all earlier calls.  Each call
  the node makes is recorded with its arguments.
\<close>

section \<open>Calls\<close>

datatype dev_prop =
    XN_MODULE_PROPERTY_WATCH_DOG_MODE
  | XN_MODULE_PROPERTY_LDP_ENABLE
  | XN_MODULE_PROPERTY_LDP_STATUS
  | XN_MODULE_PROPERTY_SET_DEVICE_MODE
  | XN_MODULE_PROPERTY_AE
  | XN_MODULE_PROPERTY_D2C_RESOLUTION
  | XN_MODULE_PROPERTY_LASER_SECURE_KEEPALIVE
  | XN_MODULE_PROPERTY_RT_IR_TEMP
  | XN_MODULE_PROPERTY_EMITTER_STATE
  | XN_MODULE_PROPERTY_IRFLOOD_STATE
  | XN_MODULE_PROPERTY_FAN_ENABLE
  | XN_MODULE_PROPERTY_SENSOR_PLATFORM_STRING
  | XN_MODULE_PROPERTY_SWITCH_IR
  | OBEXTENSION_ID_IR_EXP
  | OBEXTENSION_ID_IR_GAIN
  | OBEXTENSION_ID_SERIALNUMBER
  | OBEXTENSION_ID_LASER_EN
  | OBEXTENSION_ID_DEVICETYPE
  | OBEXTENSION_ID_CAM_PARAMS

datatype stream_prop =
    XN_STREAM_PROPERTY_SOFTWARE_FILTER
  | XN_STREAM_PROPERTY_DEPTH_MAX_DIFF
  | XN_STREAM_PROPERTY_DEPTH_MAX_SPECKLE_SIZE

datatype dev_call =
    DevSet dev_prop int
  | DevGet dev_prop
  | DevGetParamList
  | DevGetParamsRes depth_res color_res
  | DevRegistration bool
  | DevColorSync bool
  | StreamCreate sensor_type
  | StreamVideoMode stream_index_pair VideoMode
  | StreamMirroring stream_index_pair bool
  | StreamSet stream_index_pair stream_prop int
  | StreamStart stream_index_pair
  | StreamStop stream_index_pair
  | StreamDestroy stream_index_pair
  | CamAutoExposure stream_index_pair bool
  | CamExposure stream_index_pair int
  | CamGain stream_index_pair int
  | CamAutoWhiteBalance stream_index_pair int
  | CamGetExposure stream_index_pair
  | CamGetGain stream_index_pair
  | CamGetAutoWhiteBalance stream_index_pair
  | SleepForMs int

text \<open>
  \<open>dev_rc\<close> is the status (0 is \<open>STATUS_OK\<close>), \<open>dev_val\<close> and \<open>dev_str\<close> the data delivered by a
  read.  \<open>hasSensor\<close>, the supported modes, the presence of camera settings and the identity of the
  device do not change while it is open.
\<close>

record dev_env =
  dev_rc :: "dev_call list \<Rightarrow> dev_call \<Rightarrow> int"
  dev_val :: "dev_call list \<Rightarrow> dev_call \<Rightarrow> int"
  dev_str :: "dev_call list \<Rightarrow> dev_call \<Rightarrow> string"
  hasSensor :: "sensor_type \<Rightarrow> bool"
  supportedModes :: "sensor_type \<Rightarrow> VideoMode list"
  hasSettings :: "stream_index_pair \<Rightarrow> bool"
  registrationSupported :: bool
  deviceValid :: bool
  usbProductId :: int
  usbVendorId :: int
  deviceName :: string
  dev_params :: "dev_call list \<Rightarrow> dev_call \<Rightarrow> OBCameraParams"
  dev_param_list :: "dev_call list \<Rightarrow> OBCameraParam list \<times> nat"
  verticalFov :: "stream_index_pair \<Rightarrow> float32"
  ir_calibration :: "CameraInfo option"
  color_calibration :: "CameraInfo option"
  extendedError :: "dev_call list \<Rightarrow> string"

section \<open>The node\<close>

text \<open>
  \<open>std::map\<close> members that are only read through \<open>operator[]\<close> are total functions (a missing
  key reads as the default value).  \<open>streams_\<close>, \<open>stream_video_mode_\<close>, \<open>supported_video_modes_\<close> and
  \<open>images_\<close> are also asked for membership, so they are partial; an entry \<open>Some None\<close> of \<open>n_streams\<close>
  is a null pointer.  \<open>n_subscribers\<close> counts the subscribers of the image topic of each stream.
\<close>

record Node =
  n_use_uvc_camera :: bool
  n_is_running :: bool
  n_initialized :: bool
  n_run_poll_frame_thread :: bool
  n_enable :: "stream_index_pair \<Rightarrow> bool"
  n_enable_auto_exposure :: "stream_index_pair \<Rightarrow> bool"
  n_stream_exposure :: "stream_index_pair \<Rightarrow> int"
  n_stream_gain :: "stream_index_pair \<Rightarrow> int"
  n_stream_started :: "stream_index_pair \<Rightarrow> bool"
  n_width :: "stream_index_pair \<Rightarrow> int"
  n_height :: "stream_index_pair \<Rightarrow> int"
  n_fps :: "stream_index_pair \<Rightarrow> int"
  n_format :: "stream_index_pair \<Rightarrow> PixelFormat"
  n_unit_step_size :: "stream_index_pair \<Rightarrow> int"
  n_stream_name :: "stream_index_pair \<Rightarrow> string"
  n_encoding :: "stream_index_pair \<Rightarrow> string"
  n_base_frame_id :: string
  n_frame_id :: "stream_index_pair \<Rightarrow> string"
  n_optical_frame_id :: "stream_index_pair \<Rightarrow> string"
  n_depth_aligned_frame_id :: "stream_index_pair \<Rightarrow> string"
  n_streams :: "stream_index_pair \<Rightarrow> nat option option"
  n_next_stream :: nat
  n_stream_video_mode :: "stream_index_pair \<Rightarrow> VideoMode option"
  n_supported_video_modes :: "stream_index_pair \<Rightarrow> VideoMode list option"
  n_images :: "stream_index_pair \<Rightarrow> (int \<times> int) option"
  n_flip_image :: "stream_index_pair \<Rightarrow> bool"
  n_save_images :: "stream_index_pair \<Rightarrow> bool"
  n_subscribers :: "stream_index_pair \<Rightarrow> nat"
  n_publish_tf :: bool
  n_depth_align :: bool
  n_color_depth_synchronization :: bool
  n_depth_scale :: int
  n_color_roi :: ImageROI
  n_depth_roi :: ImageROI
  n_enable_reconfigure :: bool
  n_enable_keep_alive :: bool
  n_keep_alive_interval :: int
  n_enable_pointcloud :: bool
  n_enable_pointcloud_xyzrgb :: bool
  n_enable_d2c_viewer :: bool
  n_enable_publish_extrinsic :: bool
  n_soft_filter :: int
  n_soft_filter_max_diff :: int
  n_soft_filter_max_speckle_size :: int
  n_multi_device_sync_mode :: MultiDeviceSyncMode
  n_enable_ldp :: bool
  n_init_ir_gain :: int
  n_init_ir_exposure :: int
  n_ir_ae :: bool
  n_ir_gain :: int
  n_ir_exposure :: int
  n_camera_name :: string
  n_ir_info_uri :: string
  n_color_info_uri :: string
  n_tf_publish_rate :: rat
  n_image_pub :: "stream_index_pair \<Rightarrow> bool"
  n_topics :: "string list"
  n_services :: "string list"
  n_lookup :: "(int \<times> int \<times> int \<times> int) list"
  n_has_color_manager :: bool
  n_has_d2c_viewer :: bool
  n_has_xyz_node :: bool
  n_has_xyzrgb_node :: bool
  n_camera_params :: "OBCameraParams option"
  n_color_camera_params :: "OBCameraParams option"
  n_static_tf :: "tf_msg list"
  n_has_tf_thread :: bool
  n_depth_ir_x_offset :: float64
  n_depth_ir_y_offset :: float64
  n_log :: "dev_call list"

definition issue :: "dev_call \<Rightarrow> Node \<Rightarrow> Node" where
  "issue k n = n\<lparr>n_log := n_log n @ [k]\<rparr>"

definition rc_of :: "dev_env \<Rightarrow> dev_call \<Rightarrow> Node \<Rightarrow> int" where
  "rc_of E k n = dev_rc E (n_log n) k"

definition val_of :: "dev_env \<Rightarrow> dev_call \<Rightarrow> Node \<Rightarrow> int" where
  "val_of E k n = dev_val E (n_log n) k"

text \<open>A sequence of calls whose status is not looked at.\<close>

definition issues :: "dev_call list \<Rightarrow> Node \<Rightarrow> Node" where
  "issues ks n = n\<lparr>n_log := n_log n @ ks\<rparr>"

lemma issues_simps [simp]: "issues [] n = n" "issue k n = issues [k] n"
  "issues ks (issues js n) = issues (js @ ks) n" "n_log (issues ks n) = n_log n @ ks"
  by (simp_all add: issues_def issue_def)

lemma issues_fields [simp]:
  "n_enable (issues ks n) = n_enable n" "n_stream_started (issues ks n) = n_stream_started n"
  "n_is_running (issues ks n) = n_is_running n" "n_initialized (issues ks n) = n_initialized n"
  "n_use_uvc_camera (issues ks n) = n_use_uvc_camera n" "n_streams (issues ks n) = n_streams n"
  "n_stream_video_mode (issues ks n) = n_stream_video_mode n"
  "n_subscribers (issues ks n) = n_subscribers n" "n_next_stream (issues ks n) = n_next_stream n"
  "n_ir_ae (issues ks n) = n_ir_ae n" "n_ir_gain (issues ks n) = n_ir_gain n"
  "n_ir_exposure (issues ks n) = n_ir_exposure n" "n_soft_filter (issues ks n) = n_soft_filter n"
  "n_soft_filter_max_diff (issues ks n) = n_soft_filter_max_diff n"
  "n_soft_filter_max_speckle_size (issues ks n) = n_soft_filter_max_speckle_size n"
  "n_width (issues ks n) = n_width n" "n_height (issues ks n) = n_height n" "n_fps (issues ks n) = n_fps n"
  "n_format (issues ks n) = n_format n" "n_depth_align (issues ks n) = n_depth_align n"
  "n_enable_pointcloud_xyzrgb (issues ks n) = n_enable_pointcloud_xyzrgb n"
  "n_supported_video_modes (issues ks n) = n_supported_video_modes n"
  "n_images (issues ks n) = n_images n" "n_save_images (issues ks n) = n_save_images n"
  "n_init_ir_gain (issues ks n) = n_init_ir_gain n" "n_init_ir_exposure (issues ks n) = n_init_ir_exposure n"
  "n_enable_auto_exposure (issues ks n) = n_enable_auto_exposure n"
  "n_stream_exposure (issues ks n) = n_stream_exposure n" "n_stream_gain (issues ks n) = n_stream_gain n"
  "n_color_depth_synchronization (issues ks n) = n_color_depth_synchronization n"
  "n_multi_device_sync_mode (issues ks n) = n_multi_device_sync_mode n"
  "n_stream_name (issues ks n) = n_stream_name n" "n_image_pub (issues ks n) = n_image_pub n"
  "n_camera_params (issues ks n) = n_camera_params n"
  "n_color_camera_params (issues ks n) = n_color_camera_params n"
  "n_encoding (issues ks n) = n_encoding n" "n_flip_image (issues ks n) = n_flip_image n"
  "n_publish_tf (issues ks n) = n_publish_tf n" "n_has_tf_thread (issues ks n) = n_has_tf_thread n"
  by (simp_all add: issues_def)

text \<open>\<open>streams_[s]\<close> inserts a null pointer under a missing key.\<close>

definition touch_stream :: "stream_index_pair \<Rightarrow> Node \<Rightarrow> Node" where
  "touch_stream s n =
     (case n_streams n s of
        None \<Rightarrow> n\<lparr>n_streams := (n_streams n)(s := Some None)\<rparr>
      | Some _ \<Rightarrow> n)"

definition stream_obj :: "Node \<Rightarrow> stream_index_pair \<Rightarrow> nat option" where
  "stream_obj n s = (case n_streams n s of Some (Some x) \<Rightarrow> Some x | _ \<Rightarrow> None)"

definition u32 :: "int \<Rightarrow> int" where
  "u32 i = i mod 2 ^ 32"

text \<open>
  The members before \<open>init\<close>: the initialisers of \<open>ob_camera_node.h\<close>, empty maps reading as zero.
  \<open>multi_device_sync_mode_\<close> has no initialiser; it is written before it is read.
\<close>

definition fresh_node :: "bool \<Rightarrow> Node" where
  "fresh_node use_uvc_camera =
     \<lparr>n_use_uvc_camera = use_uvc_camera, n_is_running = False, n_initialized = False,
      n_run_poll_frame_thread = False, n_enable = (\<lambda>_. False), n_enable_auto_exposure = (\<lambda>_. False),
      n_stream_exposure = (\<lambda>_. 0), n_stream_gain = (\<lambda>_. 0), n_stream_started = (\<lambda>_. False),
      n_width = (\<lambda>_. 0), n_height = (\<lambda>_. 0), n_fps = (\<lambda>_. 0), n_format = (\<lambda>_. PIXEL_FORMAT_OTHER 0),
      n_unit_step_size = (\<lambda>_. 0), n_stream_name = (\<lambda>_. []), n_encoding = (\<lambda>_. []),
      n_base_frame_id = [], n_frame_id = (\<lambda>_. []), n_optical_frame_id = (\<lambda>_. []),
      n_depth_aligned_frame_id = (\<lambda>_. []), n_streams = Map.empty, n_next_stream = 0,
      n_stream_video_mode = Map.empty, n_supported_video_modes = Map.empty, n_images = Map.empty,
      n_flip_image = (\<lambda>_. False), n_save_images = (\<lambda>_. False), n_subscribers = (\<lambda>_. 0),
      n_publish_tf = True, n_depth_align = False, n_color_depth_synchronization = False,
      n_depth_scale = 1,
      n_color_roi = \<lparr>roi_x = -1, roi_y = -1, roi_width = -1, roi_height = -1\<rparr>,
      n_depth_roi = \<lparr>roi_x = -1, roi_y = -1, roi_width = -1, roi_height = -1\<rparr>,
      n_enable_reconfigure = False, n_enable_keep_alive = False, n_keep_alive_interval = 5,
      n_enable_pointcloud = False, n_enable_pointcloud_xyzrgb = False, n_enable_d2c_viewer = False,
      n_enable_publish_extrinsic = False, n_soft_filter = 2, n_soft_filter_max_diff = 16,
      n_soft_filter_max_speckle_size = 480, n_multi_device_sync_mode = SyncNone, n_enable_ldp = True,
      n_init_ir_gain = 0, n_init_ir_exposure = 0, n_ir_ae = True, n_ir_gain = 0, n_ir_exposure = 0,
      n_camera_name = ''camera'', n_ir_info_uri = [], n_color_info_uri = [], n_tf_publish_rate = 10,
      n_image_pub = (\<lambda>_. False), n_topics = [], n_services = [], n_lookup = [],
      n_has_color_manager = False, n_has_d2c_viewer = False, n_has_xyz_node = False,
      n_has_xyzrgb_node = False, n_camera_params = None, n_color_camera_params = None,
      n_static_tf = [], n_has_tf_thread = False, n_depth_ir_x_offset = d_zero, n_depth_ir_y_offset = d_zero,
      n_log = []\<rparr>"

text \<open>A device on which every call succeeds, for concrete examples.\<close>

definition ok_env :: dev_env where
  "ok_env = \<lparr>dev_rc = (\<lambda>_ _. 0), dev_val = (\<lambda>_ _. 0), dev_str = (\<lambda>_ _. []), hasSensor = (\<lambda>_. True),
     supportedModes = (\<lambda>_. []), hasSettings = (\<lambda>_. True), registrationSupported = True,
     deviceValid = True, usbProductId = 0, usbVendorId = 0, deviceName = [], dev_params = (\<lambda>_ _. zero_params),
     dev_param_list = (\<lambda>_. ([], 0)), verticalFov = (\<lambda>_. 0), ir_calibration = None,
     color_calibration = None, extendedError = (\<lambda>_. [])\<rparr>"

lemma ok_env_simps [simp]:
  "dev_rc ok_env h k = 0" "rc_of ok_env k n = 0" "val_of ok_env k n = 0" "hasSensor ok_env t" "usbProductId ok_env = 0"
  "hasSettings ok_env s" "deviceValid ok_env" "registrationSupported ok_env"
  by (simp_all add: ok_env_def rc_of_def val_of_def)

end
