(* ===== verification/Stream_Switch.thy ===== *)
theory Stream_Switch
  imports Prelude
begin

text \<open>
  The contract between a subscription callback and the thing it switches: the image streams of
  \<open>OBCameraNode\<close> and the UVC camera are started when a subscriber appears and stopped when the last
  one leaves.  The callbacks rely on starting twice being harmless, on stopping what is stopped
  being harmless, and on a stop really stopping.
\<close>

locale stream_switch =
  fixes start :: "'s \<Rightarrow> 's"
    and stop :: "'s \<Rightarrow> 's"
    and on :: "'s \<Rightarrow> bool"
    and invar :: "'s \<Rightarrow> bool"
  assumes start_on: "invar s \<Longrightarrow> on s \<Longrightarrow> start s = s"
    and stop_off: "invar s \<Longrightarrow> \<not> on s \<Longrightarrow> stop s = s"
    and stop_stops: "invar s \<Longrightarrow> \<not> on (stop s)"
    and invar_start: "invar s \<Longrightarrow> invar (start s)"
    and invar_stop: "invar s \<Longrightarrow> invar (stop s)"
begin

text \<open>A sequence of commands, \<open>True\<close> for start.\<close>

abbreviation command :: "bool \<Rightarrow> 's \<Rightarrow> 's" where
  "command b \<equiv> (if b then start else stop)"

lemma invar_commands: "invar s \<Longrightarrow> invar (fold command bs s)"
  by (induction bs arbitrary: s) (auto simp: invar_start invar_stop)

lemma off_after_last_stop: "invar s \<Longrightarrow> \<not> on (fold command (bs @ [False]) s)"
  by (simp add: stop_stops invar_commands)

lemma start_start: "invar s \<Longrightarrow> on (start s) \<Longrightarrow> start (start s) = start s"
  by (simp add: start_on invar_start)

lemma stop_stop: "invar s \<Longrightarrow> stop (stop s) = stop s"
  by (simp add: stop_off stop_stops invar_stop)

text \<open>On a running stream any number of further starts is a no-op.\<close>

lemma repeated_start: "invar s \<Longrightarrow> on s \<Longrightarrow> fold command (replicate k True) s = s"
  by (induction k) (simp_all add: start_on)

lemma restart: "invar s \<Longrightarrow> on s \<Longrightarrow> start (stop s) = fold command [False, False, True] s"
  by (simp add: stop_stop)

end

end
