(* ===== verification/Node_Streams.thy ===== *)
theory Node_Streams
  imports Node_State Stream_Switch
begin

text \<open>
  Starting and stopping the image streams of \<open>OBCameraNode\<close>: \<open>startStream\<close>, \<open>stopStream\<close>, their
  loops, the subscription callbacks, \<open>toggleSensor\<close>, \<open>clean\<close> and the selection step of the
  polling thread (\<open>ob_camera_node.cpp\<close>, \<open>ros_service.cpp\<close>).
\<close>

section \<open>\<open>startStream\<close> and \<open>stopStream\<close>\<close>

text \<open>The null object is created late; \<open>False\<close> is the early return after a failed creation.\<close>

definition ensure_stream :: "dev_env \<Rightarrow> stream_index_pair \<Rightarrow> Node \<Rightarrow> bool \<times> Node" where
  "ensure_stream E s n =
     (if stream_obj n s = None \<and> hasSensor E (fst s)
      then let k = StreamCreate (fst s); status = rc_of E k n; n = issue k n
           in if status \<noteq> 0 then (False, n)
              else (True, n\<lparr>n_streams := (n_streams n)(s := Some (Some (n_next_stream n))),
                            n_next_stream := Suc (n_next_stream n)\<rparr>)
      else (True, n))"

text \<open>The settings written before the stream is started.\<close>

definition start_script :: "Node \<Rightarrow> stream_index_pair \<Rightarrow> VideoMode \<Rightarrow> dev_call list" where
  "start_script n s video_mode =
     [StreamVideoMode s video_mode, StreamMirroring s False]
     @ (if s = INFRA1 \<and> \<not> n_ir_ae n
        then [DevSet XN_MODULE_PROPERTY_AE 0, DevSet OBEXTENSION_ID_IR_GAIN (n_ir_gain n),
              DevSet OBEXTENSION_ID_IR_EXP (u32 (n_ir_exposure n))] else [])
     @ (if s = DEPTH
        then [StreamSet s XN_STREAM_PROPERTY_SOFTWARE_FILTER (n_soft_filter n)]
             @ (if n_soft_filter_max_diff n \<noteq> 0
                then [StreamSet s XN_STREAM_PROPERTY_DEPTH_MAX_DIFF (n_soft_filter_max_diff n)] else [])
             @ (if n_soft_filter_max_speckle_size n \<noteq> 0
                then [StreamSet s XN_STREAM_PROPERTY_DEPTH_MAX_SPECKLE_SIZE
                        (n_soft_filter_max_speckle_size n)] else [])
        else [])"

definition start_object :: "dev_env \<Rightarrow> stream_index_pair \<Rightarrow> VideoMode \<Rightarrow> Node \<Rightarrow> Node" where
  "start_object E s video_mode n =
     (let n = issues (start_script n s video_mode) n;
          status = rc_of E (StreamStart s) n;
          n = issue (StreamStart s) n
      in if status = 0 then n\<lparr>n_stream_started := (n_stream_started n)(s := True)\<rparr> else n)"

definition startStream :: "dev_env \<Rightarrow> stream_index_pair \<Rightarrow> Node \<Rightarrow> Node outcome" where
  "startStream E s n =
     (if \<not> n_is_running n then Inr n
      else if \<not> n_enable n s then Inr n
      else if s = COLOR \<and> n_use_uvc_camera n then Inr n
      else if usbProductId E = ASTRA_PRO_DEPTH_PID \<and> s = COLOR then Inr n
      else if n_stream_started n s then Inr n
      else if n_subscribers n s = 0 then Inr n
      else case n_stream_video_mode n s of
             None \<Rightarrow> Inl (CheckFailed ''stream_video_mode_.count(stream_index)'', n)
           | Some video_mode \<Rightarrow>
               if n_streams n s = None then Inl (CheckFailed ''streams_.count(stream_index)'', n)
               else let (created, n) = ensure_stream E s n
                    in if \<not> created then Inr n
                       else if stream_obj n s = None
                       then Inl (CheckFailed ''streams_[stream_index].get()'', n)
                       else Inr (start_object E s video_mode n))"

definition stopStream :: "stream_index_pair \<Rightarrow> Node \<Rightarrow> Node outcome" where
  "stopStream s n =
     (if \<not> n_enable n s then Inr n
      else if \<not> n_stream_started n s then Inr n
      else if stream_obj n s = None then Inl (NullDeref ''streams_[stream_index]'', touch_stream s n)
      else let n = issue (StreamStop s) n
           in Inr (n\<lparr>n_stream_started := (n_stream_started n)(s := False)\<rparr>))"

definition startStreams :: "dev_env \<Rightarrow> Node \<Rightarrow> Node outcome" where
  "startStreams E = fold_outcome (\<lambda>s n.
     if n_enable n s \<and> \<not> n_stream_started n s then startStream E s n else Inr n) IMAGE_STREAMS"

definition stopStreams :: "Node \<Rightarrow> Node outcome" where
  "stopStreams = fold_outcome (\<lambda>s n.
     if n_stream_started n s then stopStream s n else Inr n) IMAGE_STREAMS"

section \<open>Callbacks\<close>

definition imageSubscribedCallback :: "dev_env \<Rightarrow> stream_index_pair \<Rightarrow> Node \<Rightarrow> Node outcome" where
  "imageSubscribedCallback E s n =
     (if \<not> n_initialized n \<or> \<not> n_is_running n then Inr n
      else if n_stream_started n s then Inr n
      else startStream E s n)"

definition imageUnsubscribedCallback :: "stream_index_pair \<Rightarrow> Node \<Rightarrow> Node outcome" where
  "imageUnsubscribedCallback s n =
     (if \<not> n_stream_started n s then Inr n
      else if n_subscribers n s = 0 then stopStream s n
      else Inr n)"

text \<open>\<open>toggleSensor\<close>: the returned flag and message go into the service response.\<close>

definition toggleSensor ::
    "dev_env \<Rightarrow> stream_index_pair \<Rightarrow> bool \<Rightarrow> Node \<Rightarrow> bool \<times> Node outcome" where
  "toggleSensor E s enabled n =
     (if \<not> hasSensor E (fst s) then (False, Inr n)
      else let n = n\<lparr>n_enable := (n_enable n)(s := enabled)\<rparr>
           in (True, and_then (stopStreams n) (startStreams E)))"

section \<open>\<open>clean\<close>\<close>

definition destroy_stream :: "stream_index_pair \<Rightarrow> Node \<Rightarrow> Node" where
  "destroy_stream s n =
     (let n = touch_stream s n
      in if stream_obj n s \<noteq> None
         then (issue (StreamDestroy s) n)\<lparr>n_streams := (n_streams n)(s := Some None)\<rparr>
         else n)"

definition destroy_streams :: "Node \<Rightarrow> Node" where
  "destroy_streams = fold destroy_stream IMAGE_STREAMS"

definition clean :: "Node \<Rightarrow> Node outcome" where
  "clean n =
     (let n = n\<lparr>n_is_running := False, n_run_poll_frame_thread := False\<rparr>
      in and_then (stopStreams n) (\<lambda>n.
           Inr (issue (DevSet XN_MODULE_PROPERTY_WATCH_DOG_MODE 0) (destroy_streams n))))"

section \<open>Basic facts\<close>

definition started_have_objects :: "Node \<Rightarrow> bool" where
  "started_have_objects n \<longleftrightarrow> (\<forall>s. n_stream_started n s \<longrightarrow> stream_obj n s \<noteq> None)"

definition started_enabled :: "Node \<Rightarrow> bool" where
  "started_enabled n \<longleftrightarrow> (\<forall>s. n_stream_started n s \<longrightarrow> n_enable n s)"

definition started_on_demand :: "Node \<Rightarrow> bool" where
  "started_on_demand n \<longleftrightarrow> (\<forall>s. n_stream_started n s \<longrightarrow> n_subscribers n s > 0 \<and> n_is_running n)"

definition streams_inv :: "Node \<Rightarrow> bool" where
  "streams_inv n \<longleftrightarrow> started_have_objects n \<and> started_enabled n"

lemmas streams_inv_defs = streams_inv_def started_have_objects_def started_enabled_def

lemma stream_obj_issues [simp]: "stream_obj (issues ks n) = stream_obj n"
  by (simp add: stream_obj_def fun_eq_iff)

lemma stream_obj_started [simp]:
  "stream_obj (n\<lparr>n_stream_started := f\<rparr>) = stream_obj n"
  "stream_obj (n\<lparr>n_enable := g\<rparr>) = stream_obj n"
  "stream_obj (n\<lparr>n_subscribers := h\<rparr>) = stream_obj n"
  "stream_obj (n\<lparr>n_is_running := b\<rparr>) = stream_obj n"
  "stream_obj (n\<lparr>n_run_poll_frame_thread := b\<rparr>) = stream_obj n"
  by (simp_all add: stream_obj_def fun_eq_iff)

lemma stream_obj_touch [simp]: "stream_obj (touch_stream s n) = stream_obj n"
  by (auto simp: stream_obj_def touch_stream_def fun_eq_iff split: option.split)

lemma touch_fields [simp]:
  "n_enable (touch_stream s n) = n_enable n" "n_stream_started (touch_stream s n) = n_stream_started n"
  "n_is_running (touch_stream s n) = n_is_running n" "n_subscribers (touch_stream s n) = n_subscribers n"
  "n_log (touch_stream s n) = n_log n" "n_initialized (touch_stream s n) = n_initialized n"
  "n_use_uvc_camera (touch_stream s n) = n_use_uvc_camera n"
  by (simp_all add: touch_stream_def split: option.split)

text \<open>What an attempt to start a stream leaves alone.\<close>

definition same_control :: "Node \<Rightarrow> Node \<Rightarrow> bool" where
  "same_control n m \<longleftrightarrow> n_enable m = n_enable n \<and> n_is_running m = n_is_running n \<and>
     n_subscribers m = n_subscribers n \<and> n_initialized m = n_initialized n \<and>
     n_use_uvc_camera m = n_use_uvc_camera n"

lemma same_control_refl [simp]: "same_control n n"
  by (simp add: same_control_def)

lemma same_control_trans: "same_control a b \<Longrightarrow> same_control b c \<Longrightarrow> same_control a c"
  by (simp add: same_control_def)

lemma ensure_stream_spec:
  assumes "ensure_stream E s n = (c, m)"
  shows "same_control n m \<and> n_stream_started m = n_stream_started n \<and>
    (\<forall>t. t \<noteq> s \<longrightarrow> stream_obj m t = stream_obj n t) \<and> (stream_obj n s \<noteq> None \<longrightarrow> m = n) \<and>
    (\<exists>ks. n_log m = n_log n @ ks \<and> set ks \<subseteq> {StreamCreate (fst s)})"
  using assms
  by (auto simp: ensure_stream_def Let_def same_control_def stream_obj_def split: if_splits)

lemma start_object_spec:
  "same_control n (start_object E s vm n) \<and> stream_obj (start_object E s vm n) = stream_obj n \<and>
   (\<forall>t. t \<noteq> s \<longrightarrow> n_stream_started (start_object E s vm n) t = n_stream_started n t)"
  by (simp add: start_object_def Let_def same_control_def)

text \<open>
  Everything a proof needs of \<open>startStream\<close>: either nothing was attempted, or the guards held
  and only \<open>s\<close> changed.
\<close>

lemma startStream_spec:
  assumes "outcome_state (startStream E s n) = m"
  shows "m = n \<or>
    (n_is_running n \<and> n_enable n s \<and> n_subscribers n s > 0 \<and> \<not> n_stream_started n s \<and>
     same_control n m \<and> (\<forall>t. t \<noteq> s \<longrightarrow> n_stream_started m t = n_stream_started n t \<and>
                                 stream_obj m t = stream_obj n t) \<and>
     (n_stream_started m s \<longrightarrow> stream_obj m s \<noteq> None))"
proof (cases "startStream E s n = Inr n \<or> (\<exists>e. startStream E s n = Inl (e, n))")
  case True
  with assms show ?thesis by auto
next
  case False
  obtain c k where ck: "ensure_stream E s n = (c, k)" by fastforce
  from False obtain vm where guards: "n_is_running n" "n_enable n s" "n_subscribers n s > 0"
    "\<not> n_stream_started n s"
    and r: "startStream E s n = (if \<not> c then Inr k else if stream_obj k s = None
      then Inl (CheckFailed ''streams_[stream_index].get()'', k) else Inr (start_object E s vm k))"
    by (auto simp: startStream_def ck split: if_splits option.splits)
  from ensure_stream_spec [OF ck] have k: "same_control n k" "n_stream_started k = n_stream_started n"
    "\<forall>t. t \<noteq> s \<longrightarrow> stream_obj k t = stream_obj n t" by auto
  show ?thesis
    using assms guards k r start_object_spec [of k E s vm]
    by (auto simp: same_control_trans split: if_splits)
qed

lemma streams_invD:
  assumes "streams_inv n" "n_stream_started n s"
  shows "n_enable n s" "stream_obj n s \<noteq> None"
  using assms unfolding streams_inv_defs by blast+

lemma streams_invI:
  assumes "\<And>s. n_stream_started n s \<Longrightarrow> n_enable n s \<and> stream_obj n s \<noteq> None"
  shows "streams_inv n"
  using assms unfolding streams_inv_defs by blast

lemma stopStream_spec:
  assumes "streams_inv n"
  shows "stopStream s n = Inr (if n_stream_started n s
     then (issue (StreamStop s) n)\<lparr>n_stream_started := (n_stream_started n)(s := False)\<rparr> else n)"
  using streams_invD [OF assms, of s]
  by (cases "n_stream_started n s") (simp_all add: stopStream_def Let_def)

lemma startStream_inv:
  assumes "streams_inv n"
  shows "streams_inv (outcome_state (startStream E s n))"
proof (rule streams_invI)
  fix t
  assume t: "n_stream_started (outcome_state (startStream E s n)) t"
  note spec = startStream_spec [OF refl, of E s n]
  show "n_enable (outcome_state (startStream E s n)) t \<and>
    stream_obj (outcome_state (startStream E s n)) t \<noteq> None"
  proof (cases "outcome_state (startStream E s n) = n")
    case True
    then show ?thesis using streams_invD [OF assms, of t] t by simp
  next
    case False
    then show ?thesis
      using spec t streams_invD [OF assms, of t]
      by (cases "t = s") (simp_all add: same_control_def del: split_paired_All)
  qed
qed

lemma stopStream_inv:
  assumes "streams_inv n"
  shows "streams_inv (outcome_state (stopStream s n))"
proof (rule streams_invI)
  fix t
  assume "n_stream_started (outcome_state (stopStream s n)) t"
  then show "n_enable (outcome_state (stopStream s n)) t \<and>
    stream_obj (outcome_state (stopStream s n)) t \<noteq> None"
    using streams_invD [OF assms, of t]
    by (simp add: stopStream_spec [OF assms] split: if_splits)
qed

lemma startStream_noop: "n_stream_started n s \<Longrightarrow> startStream E s n = Inr n"
  by (simp add: startStream_def)

lemma stopStream_noop: "\<not> n_stream_started n s \<Longrightarrow> stopStream s n = Inr n"
  by (simp add: stopStream_def)

section \<open>The streams meet the switching contract\<close>

interpretation image_stream: stream_switch
  "\<lambda>n. outcome_state (startStream E s n)" "\<lambda>n. outcome_state (stopStream s n)"
  "\<lambda>n. n_stream_started n s" streams_inv for E s
proof unfold_locales
  show "\<not> n_stream_started (outcome_state (stopStream s n)) s" if "streams_inv n" for n
    by (simp add: stopStream_spec [OF that])
qed (simp_all add: startStream_noop stopStream_noop startStream_inv stopStream_inv)

definition switch_command :: "dev_env \<Rightarrow> stream_index_pair \<Rightarrow> bool \<Rightarrow> Node \<Rightarrow> Node" where
  "switch_command E s b n = outcome_state (if b then startStream E s n else stopStream s n)"

lemma switch_command_eq: "switch_command E s = (\<lambda>b. if b then \<lambda>n. outcome_state (startStream E s n)
    else (\<lambda>n. outcome_state (stopStream s n)))"
  by (simp add: switch_command_def fun_eq_iff)

text \<open>
  Whatever order starts and stops of one stream arrive in, a history that ends with a
  stop leaves the stream off, and a second stop right after it changes nothing.
\<close>

theorem stream_off_after_stop:
  assumes "streams_inv n"
  shows "\<not> n_stream_started (fold (switch_command E s) (bs @ [False]) n) s \<and>
    fold (switch_command E s) (bs @ [False, False]) n = fold (switch_command E s) (bs @ [False]) n"
  using image_stream.off_after_last_stop [OF assms, of E s bs]
    image_stream.stop_stop [OF image_stream.invar_commands [OF assms, of E s bs]]
  by (simp add: switch_command_eq)

section \<open>The loops over all streams\<close>

lemma stopStreams_spec:
  assumes "streams_inv n"
  shows "\<exists>ks. stopStreams n = Inr ((issues ks n)\<lparr>n_stream_started :=
     (\<lambda>s. n_stream_started n s \<and> s \<notin> set IMAGE_STREAMS)\<rparr>) \<and>
   ks = map StreamStop (filter (n_stream_started n) IMAGE_STREAMS)"
proof -
  have "fold_outcome (\<lambda>s n. if n_stream_started n s then stopStream s n else Inr n) ss m =
      Inr ((issues (map StreamStop (filter (n_stream_started m) ss)) m)\<lparr>n_stream_started :=
        (\<lambda>s. n_stream_started m s \<and> s \<notin> set ss)\<rparr>)"
    if "streams_inv m" "distinct ss" for m ss
    using that
  proof (induction ss arbitrary: m)
    case Nil
    then show ?case by (simp add: issues_def)
  next
    case (Cons s ss)
    show ?case
    proof (cases "n_stream_started m s")
      case False
      then have eq: "(\<lambda>t. n_stream_started m t \<and> t \<notin> set (s # ss)) =
        (\<lambda>t. n_stream_started m t \<and> t \<notin> set ss)" by auto
      show ?thesis unfolding eq using Cons False by simp
    next
      case True
      let ?m = "(issues [StreamStop s] m)\<lparr>n_stream_started := (n_stream_started m)(s := False)\<rparr>"
      have st: "stopStream s m = Inr ?m" using stopStream_spec [OF Cons.prems(1)] True by simp
      then have inv: "streams_inv ?m" using stopStream_inv [OF Cons.prems(1), of s] by simp
      have feq: "filter (n_stream_started ?m) ss = filter (n_stream_started m) ss"
        using Cons.prems(2) by (intro filter_cong) (auto split: if_splits)
      have seq: "(\<lambda>t. n_stream_started ?m t \<and> t \<notin> set ss) =
        (\<lambda>t. n_stream_started m t \<and> t \<notin> set (s # ss))" by auto
      have "distinct ss" using Cons.prems(2) by simp
      from Cons.IH [OF inv this, unfolded feq seq] True st show ?thesis
        by (simp add: issues_def)
    qed
  qed
  from this [OF assms IMAGE_STREAMS_props(1)] show ?thesis by (simp add: stopStreams_def)
qed

lemma startStreams_spec:
  assumes "\<And>n s. I n \<Longrightarrow> I (outcome_state (startStream E s n))" and "I n"
  shows "I (outcome_state (startStreams E n))"
  unfolding startStreams_def
  by (rule fold_outcome_invariant [of I, OF assms(2)]) (simp add: assms(1))

lemma stopStreams_inv: "streams_inv n \<Longrightarrow> streams_inv (outcome_state (stopStreams n))"
  unfolding stopStreams_def
  by (rule fold_outcome_invariant [of streams_inv]) (simp_all add: stopStream_inv)

section \<open>Runs of the node\<close>

text \<open>
  ROS calls the subscription callbacks after it has updated the subscriber count of the topic.
  A step exists only when the callback returns.
\<close>

datatype node_event = Subscribe stream_index_pair | Unsubscribe stream_index_pair
  | Toggle stream_index_pair bool

definition subscribe_to :: "stream_index_pair \<Rightarrow> Node \<Rightarrow> Node" where
  "subscribe_to s n = n\<lparr>n_subscribers := (n_subscribers n)(s := Suc (n_subscribers n s))\<rparr>"

definition unsubscribe_from :: "stream_index_pair \<Rightarrow> Node \<Rightarrow> Node" where
  "unsubscribe_from s n = n\<lparr>n_subscribers := (n_subscribers n)(s := n_subscribers n s - 1)\<rparr>"

inductive node_step :: "dev_env \<Rightarrow> node_event \<Rightarrow> Node \<Rightarrow> Node \<Rightarrow> bool" for E where
  Sub: "imageSubscribedCallback E s (subscribe_to s n) = Inr m \<Longrightarrow> node_step E (Subscribe s) n m"
| Unsub: "n_subscribers n s > 0 \<Longrightarrow> imageUnsubscribedCallback s (unsubscribe_from s n) = Inr m \<Longrightarrow>
    node_step E (Unsubscribe s) n m"
| Toggled: "toggleSensor E s b n = (ok, Inr m) \<Longrightarrow> node_step E (Toggle s b) n m"

inductive_cases node_stepE: "node_step E e n m"

inductive node_run :: "dev_env \<Rightarrow> node_event list \<Rightarrow> Node \<Rightarrow> Node \<Rightarrow> bool" for E where
  Idle: "node_run E [] n n"
| Step: "node_run E es n k \<Longrightarrow> node_step E e k m \<Longrightarrow> node_run E (es @ [e]) n m"

definition on_demand_inv :: "Node \<Rightarrow> bool" where
  "on_demand_inv n \<longleftrightarrow> streams_inv n \<and> started_on_demand n"

lemma on_demandD: "on_demand_inv n \<Longrightarrow> n_stream_started n s \<Longrightarrow>
    n_enable n s \<and> n_is_running n \<and> stream_obj n s \<noteq> None \<and> n_subscribers n s > 0"
  unfolding on_demand_inv_def started_on_demand_def using streams_invD by blast

lemma on_demandI:
  assumes "\<And>s. n_stream_started n s \<Longrightarrow>
    n_enable n s \<and> n_is_running n \<and> stream_obj n s \<noteq> None \<and> n_subscribers n s > 0"
  shows "on_demand_inv n"
  using assms unfolding on_demand_inv_def started_on_demand_def by (simp add: streams_invI)

lemma started_on_demand_start:
  assumes "started_on_demand n"
  shows "started_on_demand (outcome_state (startStream E s n))"
  unfolding started_on_demand_def
proof (intro allI impI)
  fix t
  assume t: "n_stream_started (outcome_state (startStream E s n)) t"
  show "0 < n_subscribers (outcome_state (startStream E s n)) t \<and>
    n_is_running (outcome_state (startStream E s n))"
    using startStream_spec [OF refl, of E s n] t assms [unfolded started_on_demand_def, rule_format, of t]
    by (cases "t = s"; cases "outcome_state (startStream E s n) = n")
       (simp_all add: same_control_def del: split_paired_All)
qed

lemma on_demand_start: "on_demand_inv n \<Longrightarrow> on_demand_inv (outcome_state (startStream E s n))"
  by (simp add: on_demand_inv_def startStream_inv started_on_demand_start)

lemma on_demand_subscribe: "on_demand_inv n \<Longrightarrow> on_demand_inv (subscribe_to s n)"
  by (rule on_demandI) (use on_demandD in \<open>auto simp: subscribe_to_def\<close>)

lemma on_demand_unsubscribe:
  assumes "on_demand_inv n" "imageUnsubscribedCallback s (unsubscribe_from s n) = Inr m"
  shows "on_demand_inv m"
proof (rule on_demandI)
  let ?n = "unsubscribe_from s n"
  have inv: "streams_inv ?n"
    by (rule streams_invI) (use on_demandD [OF assms(1)] in \<open>auto simp: unsubscribe_from_def\<close>)
  fix t
  assume t: "n_stream_started m t"
  have m: "m = ?n \<and> (n_stream_started ?n s \<longrightarrow> n_subscribers ?n s > 0) \<or>
      m = (issues [StreamStop s] ?n)\<lparr>n_stream_started := (n_stream_started ?n)(s := False)\<rparr>"
    using assms(2) stopStream_spec [OF inv, of s]
    by (auto simp: imageUnsubscribedCallback_def split: if_splits)
  with t have "n_stream_started n t" "t = s \<longrightarrow> n_subscribers ?n s > 0"
    by (auto simp: unsubscribe_from_def split: if_splits)
  with m on_demandD [OF assms(1) this(1)]
  show "n_enable m t \<and> n_is_running m \<and> stream_obj m t \<noteq> None \<and> 0 < n_subscribers m t"
    by (auto simp: unsubscribe_from_def)
qed

lemma on_demand_toggle_on:
  assumes "on_demand_inv n" "toggleSensor E s True n = (ok, Inr m)"
  shows "on_demand_inv m"
proof (cases "hasSensor E (fst s)")
  case True
  let ?n = "n\<lparr>n_enable := (n_enable n)(s := True)\<rparr>"
  have inv: "on_demand_inv ?n"
    by (rule on_demandI) (use on_demandD [OF assms(1)] in auto)
  then have "streams_inv ?n" by (simp add: on_demand_inv_def)
  from stopStreams_spec [OF this] obtain ks where k: "stopStreams ?n = Inr ((issues ks ?n)\<lparr>n_stream_started :=
      (\<lambda>t. n_stream_started ?n t \<and> t \<notin> set IMAGE_STREAMS)\<rparr>)" (is "_ = Inr ?k") by blast
  have kf: "on_demand_inv ?k"
    by (rule on_demandI) (use on_demandD [OF inv] in auto)
  have "on_demand_inv (outcome_state (startStreams E ?k))"
    by (rule startStreams_spec [of on_demand_inv, OF on_demand_start kf])
  with assms(2) True k show ?thesis by (auto simp: toggleSensor_def Let_def)
qed (use assms in \<open>simp add: toggleSensor_def\<close>)

lemma on_demand_step:
  assumes "node_step E e n m" "on_demand_inv n" "\<forall>s. e \<noteq> Toggle s False"
  shows "on_demand_inv m"
  using assms(1)
proof (cases rule: node_step.cases)
  case (Sub s)
  then show ?thesis
    using on_demand_subscribe [OF assms(2), of s] on_demand_start [of "subscribe_to s n" E s]
    by (auto simp: imageSubscribedCallback_def split: if_splits)
next
  case (Unsub s)
  then show ?thesis using on_demand_unsubscribe assms(2) by blast
next
  case (Toggled s b ok)
  then show ?thesis using on_demand_toggle_on assms by (cases b) auto
qed

text \<open>
  Claim C9.  Streams run on demand only: from a freshly set up node, after any sequence of
  subscriptions, unsubscriptions and services that switch a sensor on, every stream that was
  started is enabled, has a live stream object, belongs to a running node and has a subscriber.
\<close>

theorem streams_run_on_demand:
  assumes "node_run E es n m" and "on_demand_inv n"
    and "list_all (\<lambda>e. case e of Toggle _ b \<Rightarrow> b | _ \<Rightarrow> True) es"
  shows "on_demand_inv m"
  using assms
proof (induction rule: node_run.induct)
  case (Step es n k e m)
  then have "\<forall>s. e \<noteq> Toggle s False" by auto
  with Step show ?case using on_demand_step [of E e k m] by simp
qed

text \<open>A node with one enabled, created depth stream, for the concrete examples.\<close>

definition vga30 :: VideoMode where
  "vga30 = \<lparr>getResolutionX = 640, getResolutionY = 480, getFps = 30,
            getPixelFormat = PIXEL_FORMAT_DEPTH_1_MM\<rparr>"

definition depth_node :: Node where
  "depth_node = (fresh_node False)\<lparr>n_is_running := True, n_initialized := True,
     n_enable := (\<lambda>s. s = DEPTH), n_streams := [DEPTH \<mapsto> Some 0],
     n_stream_video_mode := [DEPTH \<mapsto> vga30]\<rparr>"

lemma depth_node_simps [simp]:
  "n_is_running depth_node" "n_initialized depth_node" "n_enable depth_node s = (s = DEPTH)"
  "n_streams depth_node = [DEPTH \<mapsto> Some 0]" "n_stream_video_mode depth_node = [DEPTH \<mapsto> vga30]"
  "\<not> n_stream_started depth_node s" "n_subscribers depth_node s = 0" "n_log depth_node = []"
  "\<not> n_use_uvc_camera depth_node" "stream_obj depth_node DEPTH = Some 0"
  "n_soft_filter depth_node = 2" "n_soft_filter_max_diff depth_node = 16"
  "n_soft_filter_max_speckle_size depth_node = 480"
  by (simp_all add: depth_node_def fresh_node_def stream_obj_def)

lemma depth_node_inv: "on_demand_inv depth_node"
  by (rule on_demandI) simp

section \<open>What a subscription does\<close>

definition startable :: "dev_env \<Rightarrow> Node \<Rightarrow> stream_index_pair \<Rightarrow> bool" where
  "startable E n s \<longleftrightarrow> n_initialized n \<and> n_is_running n \<and> n_enable n s \<and> \<not> n_stream_started n s \<and>
     \<not> (s = COLOR \<and> n_use_uvc_camera n) \<and> \<not> (usbProductId E = ASTRA_PRO_DEPTH_PID \<and> s = COLOR) \<and>
     n_stream_video_mode n s \<noteq> None \<and> stream_obj n s \<noteq> None"

lemma stream_obj_entry: "stream_obj n s \<noteq> None \<Longrightarrow> n_streams n s \<noteq> None"
  by (auto simp: stream_obj_def split: option.splits)

lemma startStream_startable:
  assumes "startable E n s" "n_subscribers n s > 0"
  shows "startStream E s n = Inr (start_object E s (the (n_stream_video_mode n s)) n)"
  using assms stream_obj_entry [of n s]
  by (auto simp: startStream_def startable_def ensure_stream_def)

lemma subscribe_fields [simp]:
  "startable E (subscribe_to s n) t = startable E n t" "n_subscribers (subscribe_to s n) s = Suc (n_subscribers n s)"
  "n_stream_video_mode (subscribe_to s n) = n_stream_video_mode n" "n_log (subscribe_to s n) = n_log n"
  "start_script (subscribe_to s n) = start_script n" "n_initialized (subscribe_to s n) = n_initialized n"
  "n_is_running (subscribe_to s n) = n_is_running n" "n_stream_started (subscribe_to s n) = n_stream_started n"
  by (simp_all add: subscribe_to_def startable_def start_script_def fun_eq_iff)

text \<open>
  The first subscriber starts the stream: on a startable stream the callback configures
  the device with exactly the start script (video mode, mirroring off, the infrared or depth
  settings), then starts it, and marks it started exactly when the device accepted the start; a
  further subscriber of a started stream causes no device call.
\<close>

theorem first_subscriber_starts:
  assumes "startable E n s"
  shows "\<exists>m. imageSubscribedCallback E s (subscribe_to s n) = Inr m \<and>
    n_log m = n_log n @ start_script n s (the (n_stream_video_mode n s)) @ [StreamStart s] \<and>
    n_stream_started m s =
      (dev_rc E (n_log n @ start_script n s (the (n_stream_video_mode n s))) (StreamStart s) = 0) \<and>
    imageSubscribedCallback E s (subscribe_to s (m\<lparr>n_stream_started := (n_stream_started m)(s := True)\<rparr>)) =
      Inr (subscribe_to s (m\<lparr>n_stream_started := (n_stream_started m)(s := True)\<rparr>))"
proof -
  let ?k = "subscribe_to s n"
  have guards: "n_initialized n" "n_is_running n" "\<not> n_stream_started n s"
    using assms by (simp_all add: startable_def)
  have eq: "imageSubscribedCallback E s ?k = Inr (start_object E s (the (n_stream_video_mode n s)) ?k)"
    using startStream_startable [of E ?k s] assms guards by (simp add: imageSubscribedCallback_def)
  show ?thesis
    unfolding eq using guards
    by (simp add: start_object_def Let_def rc_of_def imageSubscribedCallback_def)
qed

theorem first_subscriber_starts_witness:
  "\<exists>m. imageSubscribedCallback ok_env DEPTH (subscribe_to DEPTH depth_node) = Inr m \<and>
     n_stream_started m DEPTH \<and>
     n_log m = [StreamVideoMode DEPTH vga30, StreamMirroring DEPTH False,
       StreamSet DEPTH XN_STREAM_PROPERTY_SOFTWARE_FILTER 2, StreamSet DEPTH XN_STREAM_PROPERTY_DEPTH_MAX_DIFF 16,
       StreamSet DEPTH XN_STREAM_PROPERTY_DEPTH_MAX_SPECKLE_SIZE 480, StreamStart DEPTH]"
proof -
  have "startable ok_env depth_node DEPTH" by (simp add: startable_def)
  from first_subscriber_starts [OF this] show ?thesis
    by (auto simp: start_script_def)
qed

theorem streams_run_on_demand_witness:
  "\<exists>m. node_run ok_env [Subscribe DEPTH] depth_node m \<and> on_demand_inv m \<and> n_stream_started m DEPTH"
proof -
  have "startable ok_env depth_node DEPTH" by (simp add: startable_def)
  then have eq: "imageSubscribedCallback ok_env DEPTH (subscribe_to DEPTH depth_node) =
      Inr (start_object ok_env DEPTH vga30 (subscribe_to DEPTH depth_node))"
    using startStream_startable [of ok_env "subscribe_to DEPTH depth_node" DEPTH]
    by (simp add: imageSubscribedCallback_def)
  from node_run.Step [OF node_run.Idle node_step.Sub [OF eq]]
  have run: "node_run ok_env [Subscribe DEPTH] depth_node
      (start_object ok_env DEPTH vga30 (subscribe_to DEPTH depth_node))" by simp
  have "on_demand_inv (start_object ok_env DEPTH vga30 (subscribe_to DEPTH depth_node))"
    by (rule streams_run_on_demand [OF run depth_node_inv]) simp
  with run show ?thesis by (auto simp: start_object_def Let_def)
qed

section \<open>What an unsubscription and a switch-off do\<close>

text \<open>
  The last subscriber stops the stream: it makes exactly one device call, the stop of
  that stream, and no other stream changes; while other subscribers remain, nothing happens.
\<close>

theorem last_unsubscriber_stops:
  assumes "streams_inv n" and "n_stream_started n s"
  shows "if n_subscribers n s \<le> 1
    then \<exists>m. imageUnsubscribedCallback s (unsubscribe_from s n) = Inr m \<and>
           n_stream_started m = (n_stream_started n)(s := False) \<and> n_log m = n_log n @ [StreamStop s]
    else imageUnsubscribedCallback s (unsubscribe_from s n) = Inr (unsubscribe_from s n)"
proof -
  have "streams_inv (unsubscribe_from s n)"
    by (rule streams_invI) (use streams_invD [OF assms(1)] in \<open>auto simp: unsubscribe_from_def\<close>)
  note spec = stopStream_spec [OF this, of s]
  have f: "n_stream_started (unsubscribe_from s n) = n_stream_started n"
    "n_subscribers (unsubscribe_from s n) s = n_subscribers n s - 1"
    "n_log (unsubscribe_from s n) = n_log n" by (simp_all add: unsubscribe_from_def)
  show ?thesis using assms(2) by (simp add: imageUnsubscribedCallback_def spec f)
qed

definition streaming_node :: Node where
  "streaming_node = depth_node\<lparr>n_stream_started := (\<lambda>s. s = DEPTH), n_subscribers := (\<lambda>s. 1)\<rparr>"

lemma streaming_node_simps [simp]:
  "n_stream_started streaming_node s = (s = DEPTH)" "n_subscribers streaming_node s = 1"
  "n_log streaming_node = []" "n_enable streaming_node s = (s = DEPTH)"
  by (simp_all add: streaming_node_def)

lemma streaming_node_inv: "streams_inv streaming_node"
  by (rule streams_invI) (simp add: streaming_node_def)

theorem last_unsubscriber_stops_witness:
  "\<exists>m. imageUnsubscribedCallback DEPTH (unsubscribe_from DEPTH streaming_node) = Inr m \<and>
     \<not> n_stream_started m DEPTH \<and> n_log m = [StreamStop DEPTH]"
  using last_unsubscriber_stops [OF streaming_node_inv, of DEPTH] by auto

text \<open>What keeps an orphaned stream running: it is started, but not enabled.\<close>

definition orphaned :: "nat \<Rightarrow> stream_index_pair \<Rightarrow> Node \<Rightarrow> bool" where
  "orphaned k s n \<longleftrightarrow> n_stream_started n s \<and> \<not> n_enable n s \<and>
     count_list (n_log n) (StreamStop s) = k"

lemma count_list_app: "count_list (xs @ ys) x = count_list xs x + count_list ys x"
  by (induction xs) auto

lemma orphaned_stop: "orphaned k s n \<Longrightarrow> orphaned k s (outcome_state (stopStream t n))"
  by (cases "s = t") (auto simp: orphaned_def stopStream_def Let_def count_list_app)

lemma no_stop_in_script: "count_list (start_script n t vm) (StreamStop s) = 0"
  by (simp add: start_script_def count_list_app)

lemma ensure_stream_log:
  "ensure_stream E t n = (c, k) \<Longrightarrow> count_list (n_log k) (StreamStop s) = count_list (n_log n) (StreamStop s)"
  by (auto simp: ensure_stream_def Let_def count_list_app split: if_splits)

lemma orphaned_start: "orphaned k s n \<Longrightarrow> orphaned k s (outcome_state (startStream E t n))"
proof -
  assume o: "orphaned k s n"
  obtain c m where cm: "ensure_stream E t n = (c, m)" by fastforce
  have m: "orphaned k s m"
    using o ensure_stream_spec [OF cm] ensure_stream_log [OF cm, of s]
    by (simp add: orphaned_def same_control_def)
  then have "orphaned k s (start_object E t vm m)" for vm
    by (auto simp: orphaned_def start_object_def Let_def count_list_app no_stop_in_script)
  with o m show ?thesis
    by (auto simp: startStream_def cm split: option.split)
qed

lemma orphaned_loops:
  "orphaned k s n \<Longrightarrow> orphaned k s (outcome_state (stopStreams n))"
  "orphaned k s n \<Longrightarrow> orphaned k s (outcome_state (startStreams E n))"
  unfolding stopStreams_def startStreams_def
  by (rule fold_outcome_invariant [of "orphaned k s"]; simp add: orphaned_stop orphaned_start)+

lemma orphaned_and_then:
  "orphaned k s (outcome_state r) \<Longrightarrow> (\<And>n. orphaned k s n \<Longrightarrow> orphaned k s (outcome_state (f n))) \<Longrightarrow>
    orphaned k s (outcome_state (and_then r f))"
  by (cases r) auto

text \<open>
  Switching a sensor off does not stop it: because the enable flag is cleared before
  the streams are stopped, the stop of a started stream returns early.  The stream stays started,
  the device never receives the stop, the service still reports success, and from then on the
  loss of the last subscriber does not stop it either.
\<close>

theorem toggle_off_keeps_streaming:
  assumes "hasSensor E (fst s)" and "n_stream_started n s"
    and "toggleSensor E s False n = (ok, r)"
  shows "ok \<and> n_stream_started (outcome_state r) s \<and> \<not> n_enable (outcome_state r) s \<and>
    count_list (n_log (outcome_state r)) (StreamStop s) = count_list (n_log n) (StreamStop s) \<and>
    imageUnsubscribedCallback s (unsubscribe_from s (outcome_state r)) =
      Inr (unsubscribe_from s (outcome_state r))"
proof -
  let ?k = "count_list (n_log n) (StreamStop s)"
  let ?n = "n\<lparr>n_enable := (n_enable n)(s := False)\<rparr>"
  have r: "ok" "r = and_then (stopStreams ?n) (startStreams E)"
    using assms by (simp_all add: toggleSensor_def)
  have "orphaned ?k s (outcome_state (stopStreams ?n))"
    by (rule orphaned_loops) (use assms(2) in \<open>simp add: orphaned_def\<close>)
  then have "orphaned ?k s (outcome_state r)"
    unfolding r by (rule orphaned_and_then) (rule orphaned_loops)
  then show ?thesis
    using r(1) by (simp add: orphaned_def imageUnsubscribedCallback_def stopStream_def unsubscribe_from_def)
qed

theorem toggle_off_keeps_streaming_witness:
  "n_stream_started (outcome_state (snd (toggleSensor ok_env DEPTH False streaming_node))) DEPTH \<and>
   count_list (n_log (outcome_state (snd (toggleSensor ok_env DEPTH False streaming_node)))) (StreamStop DEPTH) = 0"
  using toggle_off_keeps_streaming [of ok_env DEPTH streaming_node,
      OF _ _ surjective_pairing] by simp

section \<open>Shutting down\<close>

lemma destroy_stream_fields [simp]:
  "n_stream_started (destroy_stream s n) = n_stream_started n"
  "n_is_running (destroy_stream s n) = n_is_running n"
  "stream_obj (destroy_stream s n) = (stream_obj n)(s := None)"
  "n_log (destroy_stream s n) = n_log n @ (if stream_obj n s \<noteq> None then [StreamDestroy s] else [])"
proof -
  show "stream_obj (destroy_stream s n) = (stream_obj n)(s := None)"
    by (rule ext) (simp add: destroy_stream_def Let_def,
      auto simp: stream_obj_def touch_stream_def split: option.splits)
qed (auto simp: destroy_stream_def Let_def)

lemma destroy_streams_spec:
  "n_stream_started (destroy_streams n) = n_stream_started n"
  "n_is_running (destroy_streams n) = n_is_running n"
  "n_log (destroy_streams n) =
     n_log n @ map StreamDestroy (filter (\<lambda>s. stream_obj n s \<noteq> None) IMAGE_STREAMS)"
  "list_all (\<lambda>s. stream_obj (destroy_streams n) s = None) IMAGE_STREAMS"
  by (auto simp: destroy_streams_def IMAGE_STREAMS_def)

text \<open>
  \<open>clean\<close> shuts the node down in order: the started streams are stopped, then every
  stream object is destroyed, then the watchdog is switched off; afterwards nothing is started, no
  object is left and the node is not running.
\<close>

theorem clean_shuts_down:
  assumes "streams_inv n"
  shows "\<exists>m. clean n = Inr m \<and> \<not> n_is_running m \<and>
    list_all (\<lambda>s. \<not> n_stream_started m s \<and> stream_obj m s = None) IMAGE_STREAMS \<and>
    n_log m = n_log n @ map StreamStop (filter (n_stream_started n) IMAGE_STREAMS) @
      map StreamDestroy (filter (\<lambda>s. stream_obj n s \<noteq> None) IMAGE_STREAMS) @
      [DevSet XN_MODULE_PROPERTY_WATCH_DOG_MODE 0]"
proof -
  let ?n = "n\<lparr>n_is_running := False, n_run_poll_frame_thread := False\<rparr>"
  have "streams_inv ?n" by (rule streams_invI) (use streams_invD [OF assms] in simp)
  then obtain ks where k: "stopStreams ?n = Inr ((issues ks ?n)\<lparr>n_stream_started :=
      (\<lambda>s. n_stream_started n s \<and> s \<notin> set IMAGE_STREAMS)\<rparr>)"
    "ks = map StreamStop (filter (n_stream_started n) IMAGE_STREAMS)"
    using stopStreams_spec [of ?n] by auto
  show ?thesis
    using k(2) by (simp add: clean_def Let_def k(1) destroy_streams_spec list_all_iff)
       (use destroy_streams_spec(4) in \<open>auto simp: list_all_iff issues_def\<close>)
qed

theorem clean_shuts_down_witness:
  "\<exists>m. clean streaming_node = Inr m \<and> n_log m =
     [StreamStop DEPTH, StreamDestroy DEPTH, DevSet XN_MODULE_PROPERTY_WATCH_DOG_MODE 0]"
proof -
  have "stream_obj streaming_node = [DEPTH \<mapsto> 0]"
    by (rule ext) (simp add: streaming_node_def depth_node_def stream_obj_def)
  with clean_shuts_down [OF streaming_node_inv] show ?thesis
    by (auto simp: IMAGE_STREAMS_def)
qed

section \<open>The polling thread\<close>

text \<open>
  One round of \<open>pollFrame\<close>.  \<open>isValid\<close>, \<open>waitForAnyStream\<close> and \<open>readFrame\<close> are OpenNI; the second
  component of \<open>waitForAnyStream\<close> is what it leaves in \<open>ready_stream\<close>.
\<close>

record poll_env =
  isValid :: "nat \<Rightarrow> bool"
  waitForAnyStream :: "nat option list \<Rightarrow> nat \<Rightarrow> int \<times> int"
  readFrame :: "nat \<Rightarrow> int"

datatype poll_result = PollSlept | PollWaitFailed | PollReadFailed stream_index_pair
  | PollFrame stream_index_pair nat

fun any_started :: "poll_env \<Rightarrow> Node \<Rightarrow> stream_index_pair list \<Rightarrow> fault + bool" where
  "any_started P n [] = Inr False"
| "any_started P n (s # ss) =
     (if n_stream_started n s
      then case stream_obj n s of
             None \<Rightarrow> Inl (NullDeref ''streams_[stream_index]'')
           | Some x \<Rightarrow> if isValid P x then Inr True else any_started P n ss
      else any_started P n ss)"

text \<open>The array \<open>streams\<close>, the map \<open>idx_map\<close> and \<open>stream_count\<close>; the array has three cells.\<close>

type_synonym selection = "nat option list \<times> (nat \<Rightarrow> stream_index_pair option) \<times> nat"

fun select_streams :: "Node \<Rightarrow> stream_index_pair list \<Rightarrow> selection \<Rightarrow> fault + selection" where
  "select_streams n [] sel = Inr sel"
| "select_streams n (s # ss) (arr, idx, c) =
     (if n_enable n s \<and> stream_obj n s \<noteq> None
      then if c < length arr
           then select_streams n ss (arr[c := stream_obj n s], idx(c \<mapsto> s), Suc c)
           else Inl (OutOfBounds ''streams[3]'')
      else select_streams n ss (arr, idx, c))"

definition pollFrame_round :: "poll_env \<Rightarrow> Node \<Rightarrow> fault + poll_result" where
  "pollFrame_round P n =
     and_then (any_started P n IMAGE_STREAMS) (\<lambda>has_stream_started.
     if \<not> has_stream_started then Inr PollSlept
     else and_then (select_streams n IMAGE_STREAMS (replicate 3 None, Map.empty, 0)) (\<lambda>(streams, idx_map, count).
     let (status, ready) = waitForAnyStream P streams count
     in if status \<noteq> 0 then Inr PollWaitFailed
        else if ready = -1 then Inl (CheckFailed ''ready_stream != -1'')
        else if ready < 0 \<or> int count \<le> ready then Inl (OutOfBounds ''streams[ready_stream]'')
        else case (idx_map (nat ready), streams ! nat ready) of
               (Some s, Some x) \<Rightarrow> if readFrame P x \<noteq> 0 then Inr (PollReadFailed s) else Inr (PollFrame s x)
             | _ \<Rightarrow> Inl (NullDeref ''streams[ready_stream]'')))"

definition sel_ok :: "Node \<Rightarrow> selection \<Rightarrow> bool" where
  "sel_ok n sel \<longleftrightarrow> (case sel of (arr, idx, c) \<Rightarrow> c \<le> length arr \<and>
     (\<forall>i < c. \<exists>s x. idx i = Some s \<and> arr ! i = Some x \<and> stream_obj n s = Some x \<and> n_enable n s))"

lemma sel_ok_step:
  assumes "sel_ok n (arr, idx, c)" "c < length arr" "n_enable n s" "stream_obj n s = Some x"
  shows "sel_ok n (arr[c := Some x], idx(c \<mapsto> s), Suc c)"
  unfolding sel_ok_def prod.case
proof (intro conjI allI impI)
  fix i
  assume "i < Suc c"
  then show "\<exists>t y. (idx(c \<mapsto> s)) i = Some t \<and> arr[c := Some x] ! i = Some y \<and>
      stream_obj n t = Some y \<and> n_enable n t"
    using assms by (cases "i = c") (auto simp: sel_ok_def)
qed (use assms in simp)

lemma select_streams_ok:
  "sel_ok n (arr, idx, c) \<Longrightarrow> c + length ss \<le> length arr \<Longrightarrow>
    \<exists>sel. select_streams n ss (arr, idx, c) = Inr sel \<and> sel_ok n sel"
proof (induction ss arbitrary: arr idx c)
  case (Cons s ss)
  show ?case
  proof (cases "n_enable n s \<and> stream_obj n s \<noteq> None")
    case True
    then obtain x where x: "stream_obj n s = Some x" by auto
    have "sel_ok n (arr[c := Some x], idx(c \<mapsto> s), Suc c)"
      by (rule sel_ok_step) (use Cons.prems True x in auto)
    from Cons.IH [OF this] Cons.prems True x show ?thesis by (simp add: fun_upd_def)
  qed (use Cons in auto)
qed simp

lemma any_started_total: "started_have_objects n \<Longrightarrow> \<exists>b. any_started P n ss = Inr b"
proof (induction ss)
  case (Cons s ss)
  then have "n_stream_started n s \<Longrightarrow> stream_obj n s \<noteq> None"
    unfolding started_have_objects_def by blast
  with Cons show ?case by (cases "n_stream_started n s") auto
qed auto

text \<open>
  Claim C10.  One polling round: the selection of streams never overruns its three cells, and when
  OpenNI returns an index below the count it was given, the round ends without an aborted check,
  a null stream or an access outside the array, and the frame it reads comes from the object of an
  enabled stream and is labelled with that very stream.
\<close>

theorem poll_round_reads_selected_stream:
  assumes "started_have_objects n"
    and "\<And>arr c r. waitForAnyStream P arr c = (0, r) \<Longrightarrow> 0 \<le> r \<and> r < int c"
  shows "\<exists>res. pollFrame_round P n = Inr res \<and>
    (case res of PollFrame s x \<Rightarrow> n_enable n s \<and> stream_obj n s = Some x \<and> readFrame P x = 0
     | PollReadFailed s \<Rightarrow> n_enable n s \<and> stream_obj n s \<noteq> None | _ \<Rightarrow> True)"
proof -
  obtain b where b: "any_started P n IMAGE_STREAMS = Inr b" using any_started_total assms(1) by blast
  have "sel_ok n (replicate 3 None, Map.empty, 0)" by (simp add: sel_ok_def)
  then obtain arr idx c where sel: "select_streams n IMAGE_STREAMS (replicate 3 None, Map.empty, 0) = Inr (arr, idx, c)"
    and ok: "sel_ok n (arr, idx, c)"
    using select_streams_ok [of n "replicate 3 None" Map.empty 0 IMAGE_STREAMS] IMAGE_STREAMS_props
    by auto
  obtain status r where w: "waitForAnyStream P arr c = (status, r)" by fastforce
  show ?thesis
  proof (cases "b \<and> status = 0")
    case True
    with assms(2) w have r: "0 \<le> r" "r < int c" by auto
    then have "nat r < c" by linarith
    with ok obtain s x where "idx (nat r) = Some s" "arr ! nat r = Some x" "stream_obj n s = Some x" "n_enable n s"
      by (auto simp: sel_ok_def)
    with True b sel w r show ?thesis by (simp add: pollFrame_round_def)
  qed (use b sel w in \<open>auto simp: pollFrame_round_def\<close>)
qed

definition first_ready :: poll_env where
  "first_ready = \<lparr>isValid = (\<lambda>_. True), waitForAnyStream = (\<lambda>arr c. (if c = 0 then 1 else 0, 0)),
     readFrame = (\<lambda>_. 0)\<rparr>"

theorem poll_round_reads_selected_stream_witness:
  "\<exists>s x. pollFrame_round first_ready streaming_node = Inr (PollFrame s x) \<and> n_enable streaming_node s"
proof -
  have "started_have_objects streaming_node" using streaming_node_inv by (simp add: streams_inv_def)
  moreover have "0 \<le> r \<and> r < int c" if "waitForAnyStream first_ready arr c = (0, r)" for arr c r
    using that by (simp add: first_ready_def split: if_splits)
  ultimately have "\<exists>res. pollFrame_round first_ready streaming_node = Inr res \<and>
    (case res of PollFrame s x \<Rightarrow> n_enable streaming_node s \<and> stream_obj streaming_node s = Some x \<and>
        readFrame first_ready x = 0
     | PollReadFailed s \<Rightarrow> n_enable streaming_node s \<and> stream_obj streaming_node s \<noteq> None | _ \<Rightarrow> True)"
    by (rule poll_round_reads_selected_stream)
  moreover have "pollFrame_round first_ready streaming_node = Inr (PollFrame DEPTH 0)"
    by (simp add: pollFrame_round_def IMAGE_STREAMS_def first_ready_def streaming_node_def
        depth_node_def stream_obj_def fresh_node_def numeral_3_eq_3)
  ultimately show ?thesis by auto
qed

theorem stream_off_after_stop_witness:
  "\<not> n_stream_started (fold (switch_command ok_env DEPTH) ([True, True] @ [False]) streaming_node) DEPTH"
  using stream_off_after_stop [OF streaming_node_inv, of ok_env DEPTH "[True, True]"] by blast

end
