(* ===== verification/Camera_Info.thy ===== *)
theory Camera_Info
  imports Node_State
begin

text \<open>
  \<open>ob_camera_info.cpp\<close>: reading the factory calibration from the device, with its caches, and
  building the \<open>CameraInfo\<close> messages of the three image streams.  The arithmetic on doubles is the
  parameter \<open>F\<close>.
\<close>

section \<open>Reading the calibration\<close>

definition intr_matches :: "Node \<Rightarrow> stream_index_pair \<Rightarrow> OBCameraIntrinsic \<Rightarrow> bool" where
  "intr_matches n s i \<longleftrightarrow> n_width n s = in_width i \<and> n_height n s = in_height i"

text \<open>
  The search loops: first an entry that matches both streams, then one that matches \<open>s\<close> alone,
  then the first cell.  \<open>arr\<close> are the cells of the local array after the call; the driver fills at
  most the ten it was offered.
\<close>

definition match_param :: "Node \<Rightarrow> stream_index_pair \<Rightarrow> OBCameraParam list \<times> nat \<Rightarrow> OBCameraParam" where
  "match_param n s acs =
     (let (arr, nParamSize) = acs; entries = take nParamSize arr
      in case find (\<lambda>p. intr_matches n DEPTH (depthIntrinsic p) \<and> intr_matches n COLOR (rgbIntrinsic p)) entries of
           Some p \<Rightarrow> p
         | None \<Rightarrow> (case find (\<lambda>p. intr_matches n s (if s = COLOR then rgbIntrinsic p else depthIntrinsic p)) entries of
                      Some p \<Rightarrow> p
                    | None \<Rightarrow> arr ! 0))"

text \<open>The assignments that follow the search.\<close>

definition intr_list :: "OBCameraIntrinsic \<Rightarrow> float32 list" where
  "intr_list i = [in_fx i, in_fy i, in_cx i, in_cy i]"

definition dist_list :: "OBCameraDistortion \<Rightarrow> float32 list" where
  "dist_list d = [di_k1 d, di_k2 d, di_k3 d, di_p1 d, di_p2 d]"

definition params_of_entry :: "OBCameraParam \<Rightarrow> OBCameraParams" where
  "params_of_entry depthParams =
     \<lparr>l_intr_p = intr_list (depthIntrinsic depthParams), r_intr_p = intr_list (rgbIntrinsic depthParams),
      r2l_r = map (\<lambda>i. tf_rot depthParams ! i) [0..<9], r2l_t = map (\<lambda>i. tf_trans depthParams ! i) [0..<3],
      l_k = dist_list (depthDistortion depthParams), r_k = dist_list (rgbDistortion depthParams)\<rparr>"

definition list_pids :: "int list" where
  "list_pids = [DABAI_DCW2_DEPTH_PID, DABAI_MAX_PID, DABAI_DW2_DEPTH_PID, DABAI_MAX_PRO_PID, GEMINI_UW_PID]"

definition res_pids :: "int list" where
  "res_pids = [DABAI_DCW_DEPTH_PID, DABAI_DW_PID, GEMINI_E_DEPTH_PID, GEMINI_E_LITE_DEPTH_PID]"

text \<open>The ladder of resolutions; \<open>None\<close> is the branch "does not match".\<close>

definition params_resolution ::
    "int \<Rightarrow> int \<Rightarrow> int \<Rightarrow> int \<Rightarrow> int \<Rightarrow> (depth_res \<times> color_res) option" where
  "params_resolution pid depth_width depth_height color_width color_height =
     (if depth_width = 1024 \<and> depth_height = 768 then Some (DEPTH_RES_1024_768, COLOR_RES_DEFAULT)
      else if depth_width = 512 \<and> depth_height = 384 then Some (DEPTH_RES_512_384, COLOR_RES_DEFAULT)
      else if depth_width = 640 \<and> depth_height = 480 then Some (DEPTH_RES_640_480, COLOR_RES_DEFAULT)
      else if depth_width = 320 \<and> depth_height = 240 then Some (DEPTH_RES_320_240, COLOR_RES_DEFAULT)
      else if depth_width = 160 \<and> depth_height = 120 then Some (DEPTH_RES_160_120, COLOR_RES_DEFAULT)
      else if depth_width = 480 \<and> depth_height = 360 then Some (DEPTH_RES_480_360, COLOR_RES_DEFAULT)
      else if depth_width = 240 \<and> depth_height = 180 then Some (DEPTH_RES_240_180, COLOR_RES_DEFAULT)
      else if depth_width = 640 \<and> depth_height = 360 \<and> color_width = 640 \<and> color_height = 360 \<and>
              (pid = DABAI_DCW_DEPTH_PID \<or> pid = GEMINI_E_DEPTH_PID)
      then Some (DEPTH_RES_640_360, COLOR_RES_640_360)
      else if depth_width = 320 \<and> depth_height = 180 \<and> color_width = 320 \<and> color_height = 180 \<and>
              (pid = DABAI_DCW_DEPTH_PID \<or> pid = GEMINI_E_DEPTH_PID)
      then Some (DEPTH_RES_320_180, COLOR_RES_320_180)
      else None)"

text \<open>A read whose status is ignored: what the buffer holds afterwards is cached and returned.\<close>

definition read_params :: "dev_env \<Rightarrow> dev_call \<Rightarrow> Node \<Rightarrow> OBCameraParams \<times> Node" where
  "read_params E k n =
     (let params = dev_params E (n_log n) k; n = issue k n
      in (params, n\<lparr>n_camera_params := Some params\<rparr>))"

definition getCameraParams :: "dev_env \<Rightarrow> Node \<Rightarrow> OBCameraParams \<times> Node" where
  "getCameraParams E n =
     (case n_camera_params n of
        Some p \<Rightarrow> (p, n)
      | None \<Rightarrow>
          let pid = usbProductId E in
          if pid \<in> set list_pids
          then let rc = rc_of E DevGetParamList n; cells = dev_param_list E (n_log n);
                   n = issue DevGetParamList n
               in if rc \<noteq> 0 then (zero_params, n)
                  else let params = params_of_entry (match_param n DEPTH cells)
                       in (params, n\<lparr>n_camera_params := Some params\<rparr>)
          else if pid \<in> set res_pids
          then case params_resolution pid (n_width n DEPTH) (n_height n DEPTH) (n_width n COLOR) (n_height n COLOR) of
                 Some (depthRes, colorRes) \<Rightarrow> read_params E (DevGetParamsRes depthRes colorRes) n
               | None \<Rightarrow> read_params E (DevGet OBEXTENSION_ID_CAM_PARAMS) n
          else read_params E (DevGet OBEXTENSION_ID_CAM_PARAMS) n)"

definition getColorCameraParams :: "dev_env \<Rightarrow> Node \<Rightarrow> OBCameraParams \<times> Node" where
  "getColorCameraParams E n =
     (case n_color_camera_params n of
        Some p \<Rightarrow> (p, n)
      | None \<Rightarrow>
          let rc = rc_of E DevGetParamList n; cells = dev_param_list E (n_log n);
              n = issue DevGetParamList n
          in if rc \<noteq> 0 then (zero_params, n)
             else let params = params_of_entry (match_param n COLOR cells)
                  in (params, n\<lparr>n_color_camera_params := Some params\<rparr>))"

section \<open>Building the messages\<close>

text \<open>\<open>K[0]\<close>, \<open>K[2]\<close>, \<open>K[4]\<close>, \<open>K[5]\<close> from fx, cx, fy, cy; \<open>P\<close> is \<open>K\<close> with a zero column.\<close>

definition intr_K :: "fp_env \<Rightarrow> float32 list \<Rightarrow> float64 list" where
  "intr_K F p = (replicate 9 d_zero)[0 := fp_widen F (p ! 0), 2 := fp_widen F (p ! 2),
     4 := fp_widen F (p ! 1), 5 := fp_widen F (p ! 3), 8 := d_one]"

definition P_of_K :: "float64 list \<Rightarrow> float64 list" where
  "P_of_K K = (replicate 12 d_zero)[0 := K ! 0, 2 := K ! 2, 5 := K ! 4, 6 := K ! 5, 10 := d_one]"

definition OBCameraParamsToCameraInfo :: "fp_env \<Rightarrow> OBCameraParams \<Rightarrow> CameraInfo" where
  "OBCameraParamsToCameraInfo F params =
     (let w = (\<lambda>i. fp_widen F (r_k params ! i)); K = intr_K F (r_intr_p params)
      in empty_info\<lparr>ci_model := ''plumb_bob'', ci_D := [w 0, w 1, w 3, w 4, w 2], ci_K := K,
           ci_R := (replicate 9 d_zero)[0 := d_one, 4 := d_one, 8 := d_one],
           ci_P := (P_of_K K)[3 := d_zero, 7 := d_zero, 11 := d_zero]\<rparr>)"

definition getFocalLength :: "dev_env \<Rightarrow> fp_env \<Rightarrow> stream_index_pair \<Rightarrow> int \<Rightarrow> Node \<Rightarrow> float64" where
  "getFocalLength E F s y_resolution n =
     (case n_streams n s of
        None \<Rightarrow> d_zero
      | Some None \<Rightarrow> d_zero
      | Some (Some _) \<Rightarrow> fp_div F (fp_of_int F y_resolution)
                          (fp_mul F d_two (fp_tan_half F (verticalFov E s))))"

definition getDefaultCameraInfo :: "fp_env \<Rightarrow> int \<Rightarrow> int \<Rightarrow> float64 \<Rightarrow> CameraInfo" where
  "getDefaultCameraInfo F width height f =
     (let cx = fp_sub F (fp_div F (fp_of_int F width) d_two) d_half;
          cy = fp_sub F (fp_mul F (fp_of_int F width) d_3_8) d_half;
          K = (replicate 9 d_zero)[4 := f, 0 := f, 2 := cx, 5 := cy, 8 := d_one]
      in empty_info\<lparr>ci_width := u32 width, ci_height := u32 height, ci_D := replicate 5 d_zero,
           ci_model := ''plumb_bob'', ci_K := K,
           ci_R := (ci_R empty_info)[8 := d_one, 4 := d_one, 0 := d_one],
           ci_P := (replicate 12 d_zero)[5 := f, 0 := f, 2 := K ! 2, 6 := K ! 5, 10 := d_one]\<rparr>)"

text \<open>\<open>K[i] *= scaling\<close> at the four intrinsics; the same at their places in \<open>P\<close>.\<close>

definition scale_at :: "fp_env \<Rightarrow> float64 \<Rightarrow> nat list \<Rightarrow> float64 list \<Rightarrow> float64 list" where
  "scale_at F c = fold (\<lambda>i xs. xs[i := fp_mul F (xs ! i) c])"

definition unscaled_pids :: "int list" where
  "unscaled_pids = [DABAI_DCW_DEPTH_PID, DABAI_DW_PID, DABAI_MAX_PID, DABAI_DCW2_DEPTH_PID,
     DABAI_DW2_DEPTH_PID, DABAI_MAX_PRO_PID, GEMINI_UW_PID]"

definition widen_R :: "fp_env \<Rightarrow> OBCameraParams \<Rightarrow> float64 list" where
  "widen_R F p = map (\<lambda>i. fp_widen F (r2l_r p ! i)) [0..<9]"

definition getIRCameraInfo ::
    "dev_env \<Rightarrow> fp_env \<Rightarrow> int \<Rightarrow> int \<Rightarrow> float64 \<Rightarrow> Node \<Rightarrow> CameraInfo \<times> Node" where
  "getIRCameraInfo E F width height f n =
     (case ir_calibration E of
        Some camera_info \<Rightarrow>
          if ci_width camera_info \<noteq> u32 width \<or> ci_height camera_info \<noteq> u32 height
          then (getDefaultCameraInfo F width height f, n) else (camera_info, n)
      | None \<Rightarrow>
          let camera_info = getDefaultCameraInfo F width height f;
              (camera_params, n) = getCameraParams E n
          in if isValidCameraParams camera_params
             then let K = intr_K F (l_intr_p camera_params);
                      camera_info = camera_info\<lparr>ci_K := K, ci_R := widen_R F camera_params, ci_P := P_of_K K\<rparr>
                  in if usbProductId E \<notin> set unscaled_pids
                     then let scaling = fp_div F (fp_of_int F width) d_640
                          in (camera_info\<lparr>ci_K := scale_at F scaling [0, 2, 4, 5] (ci_K camera_info),
                                          ci_P := scale_at F scaling [0, 2, 5, 6] (ci_P camera_info)\<rparr>, n)
                     else (camera_info, n)
             else (camera_info, n))"

text \<open>The four subtractions at the end of \<open>getDepthCameraInfo\<close>, as written.\<close>

definition shift_principal :: "fp_env \<Rightarrow> float64 \<Rightarrow> float64 \<Rightarrow> float64 \<Rightarrow> float64 list \<Rightarrow> float64 list" where
  "shift_principal F dx dy scaling K =
     (let K = K[2 := fp_sub F (K ! 2) (fp_mul F dx scaling)];
          K = K[5 := fp_sub F (K ! 5) (fp_mul F dy scaling)];
          K = K[2 := fp_sub F (K ! 2) (fp_mul F dx scaling)]
      in K[6 := fp_sub F (K ! 6) (fp_mul F dy scaling)])"

definition getDepthCameraInfo :: "dev_env \<Rightarrow> fp_env \<Rightarrow> Node \<Rightarrow> CameraInfo \<times> Node" where
  "getDepthCameraInfo E F n =
     (let width = n_width n DEPTH; height = n_height n DEPTH;
          f = getFocalLength E F DEPTH height n;
          scaling = fp_div F (fp_of_int F width) d_640;
          (camera_info, n) = getIRCameraInfo E F width height f n;
          (camera_params, n) = getCameraParams E n;
          camera_info =
            (if \<not> isValidCameraParams camera_params
             then let camera_info = camera_info\<lparr>ci_R := widen_R F camera_params\<rparr>
                  in if n_depth_align n \<or> n_enable_pointcloud_xyzrgb n
                     then let p = r_intr_p camera_params;
                              K = (ci_K camera_info)[0 := fp_widen F (p ! 0), 2 := fp_widen F (p ! 2),
                                    4 := fp_widen F (p ! 1), 5 := fp_widen F (p ! 3)]
                          in if usbProductId E \<notin> set unscaled_pids
                             then camera_info\<lparr>ci_K := scale_at F scaling [0, 2, 4, 5] K\<rparr>
                             else camera_info\<lparr>ci_K := K\<rparr>
                     else camera_info
             else camera_info)
      in (camera_info\<lparr>ci_K := shift_principal F (n_depth_ir_x_offset n) (n_depth_ir_y_offset n) scaling
                                (ci_K camera_info)\<rparr>, n))"

definition color_unscaled_pids :: "int list" where
  "color_unscaled_pids = [DABAI_DCW_DEPTH_PID, GEMINI_E_DEPTH_PID, DABAI_DCW2_DEPTH_PID,
     DABAI_MAX_PRO_PID, GEMINI_UW_PID]"

definition getColorCameraInfo :: "dev_env \<Rightarrow> fp_env \<Rightarrow> Node \<Rightarrow> CameraInfo \<times> Node" where
  "getColorCameraInfo E F n =
     (let width = n_width n COLOR; height = n_height n COLOR
      in case (if n_has_color_manager n then color_calibration E else None) of
           Some camera_info \<Rightarrow>
             if ci_width camera_info \<noteq> u32 width \<or> ci_height camera_info \<noteq> u32 height
             then (getDefaultCameraInfo F width height (getFocalLength E F COLOR height n), n)
             else (camera_info, n)
         | None \<Rightarrow>
             let pid = usbProductId E;
                 (camera_params, n) =
                   (if pid = DABAI_DCW2_DEPTH_PID \<or> pid = DABAI_MAX_PRO_PID \<or> pid = GEMINI_UW_PID
                    then getColorCameraParams E n else getCameraParams E n)
             in if isValidCameraParams camera_params
                then let default_camera_info = OBCameraParamsToCameraInfo F camera_params;
                         camera_info = empty_info\<lparr>ci_D := replicate 5 d_zero, ci_model := ''plumb_bob'',
                           ci_width := u32 width, ci_height := u32 height,
                           ci_K := map (\<lambda>i. ci_K default_camera_info ! i) [0..<9],
                           ci_R := widen_R F camera_params,
                           ci_P := map (\<lambda>i. ci_P default_camera_info ! i) [0..<12]\<rparr>
                     in if pid \<notin> set color_unscaled_pids
                        then let scaling = fp_div F (fp_of_int F width) d_640
                             in (camera_info\<lparr>ci_K := scale_at F scaling [0, 2, 4, 5] (ci_K camera_info),
                                             ci_P := scale_at F scaling [0, 2, 5, 6] (ci_P camera_info)\<rparr>, n)
                        else (camera_info, n)
                else (getDefaultCameraInfo F width height (getFocalLength E F COLOR height n), n))"

section \<open>Shapes\<close>

lemma length_scale_at [simp]: "length (scale_at F c is xs) = length xs"
  by (induction "is" arbitrary: xs) (simp_all add: scale_at_def)

lemma nth_scale_at:
  "i < length xs \<Longrightarrow> distinct is \<Longrightarrow> scale_at F c is xs ! i = (if i \<in> set is then fp_mul F (xs ! i) c else xs ! i)"
proof (induction "is" arbitrary: xs)
  case (Cons j js)
  then show ?case using Cons.IH [of "xs[j := fp_mul F (xs ! j) c]"]
    by (cases "i = j") (auto simp: scale_at_def)
qed (simp add: scale_at_def)

lemma intr_K_nth [simp]:
  "length (intr_K F p) = 9" "intr_K F p ! 0 = fp_widen F (p ! 0)" "intr_K F p ! 2 = fp_widen F (p ! 2)"
  "intr_K F p ! 4 = fp_widen F (p ! 1)" "intr_K F p ! 5 = fp_widen F (p ! 3)"
  by (simp_all add: intr_K_def)

lemma P_of_K_nth [simp]:
  "length (P_of_K K) = 12" "P_of_K K ! 0 = K ! 0" "P_of_K K ! 2 = K ! 2" "P_of_K K ! 5 = K ! 4"
  "P_of_K K ! 6 = K ! 5"
  by (simp_all add: P_of_K_def)

lemma widen_R_length [simp]: "length (widen_R F p) = 9"
  by (simp add: widen_R_def)

text \<open>The projection matrix repeats the intrinsics of the camera matrix.\<close>

definition P_repeats_K :: "CameraInfo \<Rightarrow> bool" where
  "P_repeats_K i \<longleftrightarrow> ci_P i ! 0 = ci_K i ! 0 \<and> ci_P i ! 2 = ci_K i ! 2 \<and>
     ci_P i ! 5 = ci_K i ! 4 \<and> ci_P i ! 6 = ci_K i ! 5"

lemma default_info_ok:
  "info_shape (getDefaultCameraInfo F w h f)" "P_repeats_K (getDefaultCameraInfo F w h f)"
  by (simp_all add: getDefaultCameraInfo_def Let_def info_shape_def empty_info_def P_repeats_K_def)

lemma scaled_info_ok:
  assumes "info_shape i" "P_repeats_K i"
  shows "info_shape (i\<lparr>ci_K := scale_at F c [0, 2, 4, 5] (ci_K i), ci_P := scale_at F c [0, 2, 5, 6] (ci_P i)\<rparr>) \<and>
    P_repeats_K (i\<lparr>ci_K := scale_at F c [0, 2, 4, 5] (ci_K i), ci_P := scale_at F c [0, 2, 5, 6] (ci_P i)\<rparr>)"
  using assms by (simp add: info_shape_def P_repeats_K_def nth_scale_at)

lemma ir_info_ok:
  assumes "ir_calibration E = None"
  shows "info_shape (fst (getIRCameraInfo E F w h f n)) \<and> P_repeats_K (fst (getIRCameraInfo E F w h f n))"
proof -
  obtain p m where pm: "getCameraParams E n = (p, m)" by fastforce
  let ?i = "(getDefaultCameraInfo F w h f)\<lparr>ci_K := intr_K F (l_intr_p p), ci_R := widen_R F p,
      ci_P := P_of_K (intr_K F (l_intr_p p))\<rparr>"
  have "info_shape ?i" "P_repeats_K ?i"
    using default_info_ok(1) [of F w h f] by (simp_all add: info_shape_def P_repeats_K_def)
  with scaled_info_ok [OF this, of F "fp_div F (fp_of_int F w) d_640"] show ?thesis
    using default_info_ok [of F w h f] assms pm by (simp add: getIRCameraInfo_def Let_def)
qed

section \<open>The caches\<close>

lemma getCameraParams_cached: "n_camera_params n = Some p \<Longrightarrow> getCameraParams E n = (p, n)"
  by (simp add: getCameraParams_def)

lemma read_params_spec:
  "snd (read_params E k n) = (issue k n)\<lparr>n_camera_params := Some (fst (read_params E k n))\<rparr>"
  by (simp add: read_params_def Let_def)

lemma getCameraParams_spec:
  "let (p, m) = getCameraParams E n in n_camera_params m = Some p \<or>
     p = zero_params \<and> n_camera_params n = None \<and> usbProductId E \<in> set list_pids \<and>
     rc_of E DevGetParamList n \<noteq> 0 \<and> m = issue DevGetParamList n"
  by (simp add: getCameraParams_def read_params_def Let_def split: option.split)

text \<open>
  A failed read of the calibration list goes unnoticed: the zero parameters it returns
  count as valid, because only not-a-number is rejected, so instead of the default model the
  infrared message gets the zero intrinsics of the failed read, whatever focal length was computed
  for the default.
\<close>

theorem failed_read_publishes_zero_intrinsics:
  assumes "ir_calibration E = None" and "n_camera_params n = None"
    and "usbProductId E \<in> set list_pids" and "dev_rc E (n_log n) DevGetParamList \<noteq> 0"
  shows "ci_K (fst (getIRCameraInfo E F width height f n)) =
      (if usbProductId E \<in> set unscaled_pids then intr_K F [0, 0, 0, 0]
       else scale_at F (fp_div F (fp_of_int F width) d_640) [0, 2, 4, 5] (intr_K F [0, 0, 0, 0])) \<and>
    n_camera_params (snd (getIRCameraInfo E F width height f n)) = None"
proof -
  have "getCameraParams E n = (zero_params, issue DevGetParamList n)"
    using assms by (simp add: getCameraParams_def Let_def rc_of_def)
  then show ?thesis
    using assms by (simp add: getIRCameraInfo_def Let_def) (simp add: zero_params_def numeral_eq_Suc)
qed

text \<open>A toy arithmetic for the concrete examples: it only copies bits around.\<close>

definition toy_fp :: fp_env where
  "toy_fp = \<lparr>fp_widen = ucast, fp_of_int = word_of_int, fp_sub = (\<lambda>x _. x), fp_mul = (\<lambda>x _. x),
     fp_div = (\<lambda>x _. x), fp_tan_half = ucast, fp_neg = (\<lambda>x. x),
     setRPY = (\<lambda>r p y. (r, p, y, 0)), eigen_quat = (\<lambda>_. (0, 0, 0, 0)), q_mul = (\<lambda>p _. p), q_inverse = (\<lambda>q. q),
     tf_inverse = (\<lambda>t. t)\<rparr>"

theorem failed_read_publishes_zero_intrinsics_witness:
  "ci_K (fst (getIRCameraInfo (ok_env\<lparr>usbProductId := DABAI_MAX_PID, dev_rc := (\<lambda>_ _. 1)\<rparr>) toy_fp
      640 480 d_one (fresh_node False))) = intr_K toy_fp [0, 0, 0, 0]"
  using failed_read_publishes_zero_intrinsics [of "ok_env\<lparr>usbProductId := DABAI_MAX_PID, dev_rc := (\<lambda>_ _. 1)\<rparr>"
      "fresh_node False" toy_fp 640 480 d_one]
  by (simp add: ok_env_def fresh_node_def list_pids_def unscaled_pids_def)

section \<open>Depth and colour messages\<close>

lemma depth_info_valid:
  assumes "n_camera_params n = Some p" "isValidCameraParams p"
  shows "getDepthCameraInfo E F n =
    (let scaling = fp_div F (fp_of_int F (n_width n DEPTH)) d_640;
         i = fst (getIRCameraInfo E F (n_width n DEPTH) (n_height n DEPTH) (getFocalLength E F DEPTH (n_height n DEPTH) n) n)
     in (i\<lparr>ci_K := shift_principal F (n_depth_ir_x_offset n) (n_depth_ir_y_offset n) scaling (ci_K i)\<rparr>, n))"
proof -
  have ir: "snd (getIRCameraInfo E F w h f n) = n" for w h f
    using assms by (auto simp: getIRCameraInfo_def getCameraParams_cached Let_def split: option.split)
  show ?thesis
    unfolding getDepthCameraInfo_def Let_def
    by (simp add: case_prod_unfold ir getCameraParams_cached [OF assms(1)] assms(2))
qed

text \<open>
  Depth alignment does not reach the published depth calibration: the test in
  \<open>getDepthCameraInfo\<close> is inverted, so for every valid calibration the message is the same whether
  or not depth is aligned to colour, and it carries the left (infrared) intrinsics.
\<close>

theorem depth_alignment_ignored_by_camera_info:
  assumes "n_camera_params n = Some p" and "isValidCameraParams p" and "ir_calibration E = None"
    and "usbProductId E \<in> set unscaled_pids"
  shows "fst (getDepthCameraInfo E F (n\<lparr>n_depth_align := a, n_enable_pointcloud_xyzrgb := b\<rparr>)) =
      fst (getDepthCameraInfo E F n) \<and>
    ci_K (fst (getDepthCameraInfo E F n)) =
      shift_principal F (n_depth_ir_x_offset n) (n_depth_ir_y_offset n)
        (fp_div F (fp_of_int F (n_width n DEPTH)) d_640) (intr_K F (l_intr_p p))"
proof -
  let ?m = "n\<lparr>n_depth_align := a, n_enable_pointcloud_xyzrgb := b\<rparr>"
  have ir: "fst (getIRCameraInfo E F w h f k) = (getDefaultCameraInfo F w h f)\<lparr>ci_K := intr_K F (l_intr_p p),
      ci_R := widen_R F p, ci_P := P_of_K (intr_K F (l_intr_p p))\<rparr>"
    if "n_camera_params k = Some p" for w h f k
    using assms that by (simp add: getIRCameraInfo_def getCameraParams_cached Let_def)
  have foc: "getFocalLength E F DEPTH y ?m = getFocalLength E F DEPTH y n" for y
    by (simp add: getFocalLength_def)
  have "n_camera_params ?m = Some p" using assms by simp
  note m = this depth_info_valid [OF this assms(2), of E F]
  show ?thesis
    unfolding m(2) depth_info_valid [OF assms(1,2), of E F] Let_def
    using ir [OF m(1)] ir [OF assms(1)] by (simp add: foc)
qed

definition sample_params :: OBCameraParams where
  "sample_params = zero_params\<lparr>l_intr_p := [1, 2, 3, 4], r_intr_p := [5, 6, 7, 8], r_k := [1, 2, 3, 4, 5]\<rparr>"

lemma sample_params_valid [simp]: "isValidCameraParams sample_params"
  by (simp add: isValidCameraParams_def sample_params_def isnan32_def)

theorem depth_alignment_ignored_by_camera_info_witness:
  "ci_K (fst (getDepthCameraInfo (ok_env\<lparr>usbProductId := DABAI_MAX_PID\<rparr>) toy_fp
      ((fresh_node False)\<lparr>n_camera_params := Some sample_params, n_depth_align := True\<rparr>))) ! 0 = 1"
proof -
  let ?n = "(fresh_node False)\<lparr>n_camera_params := Some sample_params, n_depth_align := True\<rparr>"
  let ?E = "ok_env\<lparr>usbProductId := DABAI_MAX_PID\<rparr>"
  have "ir_calibration ?E = None" "usbProductId ?E \<in> set unscaled_pids" "n_camera_params ?n = Some sample_params"
    by (simp_all add: ok_env_def unscaled_pids_def)
  from depth_alignment_ignored_by_camera_info [OF this(3) sample_params_valid this(1,2), of toy_fp True False]
  show ?thesis
    by (simp add: shift_principal_def Let_def toy_fp_def sample_params_def)
qed

text \<open>What the colour branch copies out of the converted calibration.\<close>

definition color_copy :: "fp_env \<Rightarrow> int \<Rightarrow> int \<Rightarrow> OBCameraParams \<Rightarrow> CameraInfo" where
  "color_copy F w h p = empty_info\<lparr>ci_D := replicate 5 d_zero, ci_model := ''plumb_bob'',
     ci_width := u32 w, ci_height := u32 h, ci_K := intr_K F (r_intr_p p), ci_R := widen_R F p,
     ci_P := P_of_K (intr_K F (r_intr_p p))\<rparr>"

lemma params_info_fields [simp]:
  "ci_K (OBCameraParamsToCameraInfo F p) = intr_K F (r_intr_p p)"
  "ci_P (OBCameraParamsToCameraInfo F p) = P_of_K (intr_K F (r_intr_p p))"
  by (simp_all add: OBCameraParamsToCameraInfo_def Let_def P_of_K_def numeral_eq_Suc)

lemma color_copy_ok: "info_shape (color_copy F w h p)" "P_repeats_K (color_copy F w h p)"
  by (simp_all add: color_copy_def info_shape_def P_repeats_K_def empty_info_def)

lemma map_nth_length: "length xs = n \<Longrightarrow> map (\<lambda>i. xs ! i) [0..<n] = xs"
  by (metis map_nth)

lemma color_info_valid:
  assumes "(if n_has_color_manager n then color_calibration E else None) = None"
    and "(if usbProductId E = DABAI_DCW2_DEPTH_PID \<or> usbProductId E = DABAI_MAX_PRO_PID \<or>
             usbProductId E = GEMINI_UW_PID then n_color_camera_params n else n_camera_params n) = Some p"
    and "isValidCameraParams p"
  shows "getColorCameraInfo E F n =
    (let i = color_copy F (n_width n COLOR) (n_height n COLOR) p;
         c = fp_div F (fp_of_int F (n_width n COLOR)) d_640
     in (if usbProductId E \<notin> set color_unscaled_pids
         then i\<lparr>ci_K := scale_at F c [0, 2, 4, 5] (ci_K i), ci_P := scale_at F c [0, 2, 5, 6] (ci_P i)\<rparr>
         else i, n))"
proof -
  have "(if usbProductId E = DABAI_DCW2_DEPTH_PID \<or> usbProductId E = DABAI_MAX_PRO_PID \<or>
           usbProductId E = GEMINI_UW_PID then getColorCameraParams E n else getCameraParams E n) = (p, n)"
    using assms(2) by (auto simp: getColorCameraParams_def getCameraParams_cached split: if_splits)
  then show ?thesis
    unfolding getColorCameraInfo_def Let_def assms(1)
    by (simp add: assms(3) color_copy_def map_nth_length del: upt_Suc upt_rec_numeral)
qed

text \<open>
  The colour calibration that is published from a valid device calibration has arrays
  of the right sizes and a projection matrix that repeats the camera matrix, but its distortion is
  all zeros: the coefficients that were converted into plumb-bob order are not copied.
\<close>

theorem color_info_drops_distortion:
  assumes "(if n_has_color_manager n then color_calibration E else None) = None"
    and "(if usbProductId E = DABAI_DCW2_DEPTH_PID \<or> usbProductId E = DABAI_MAX_PRO_PID \<or>
             usbProductId E = GEMINI_UW_PID then n_color_camera_params n else n_camera_params n) = Some p"
    and "isValidCameraParams p"
  shows "info_shape (fst (getColorCameraInfo E F n)) \<and> P_repeats_K (fst (getColorCameraInfo E F n)) \<and>
    ci_D (fst (getColorCameraInfo E F n)) = replicate 5 d_zero \<and>
    ci_D (OBCameraParamsToCameraInfo F p) = map (\<lambda>i. fp_widen F (r_k p ! i)) [0, 1, 3, 4, 2] \<and>
    snd (getColorCameraInfo E F n) = n"
  using scaled_info_ok [OF color_copy_ok]
  by (simp add: color_info_valid [OF assms] Let_def color_copy_ok)
     (simp add: color_copy_def OBCameraParamsToCameraInfo_def Let_def)

theorem color_info_drops_distortion_witness:
  "ci_D (fst (getColorCameraInfo ok_env toy_fp ((fresh_node False)\<lparr>n_camera_params := Some sample_params\<rparr>))) =
     replicate 5 d_zero \<and> ci_D (OBCameraParamsToCameraInfo toy_fp sample_params) = [1, 2, 4, 5, 3]"
proof -
  let ?n = "(fresh_node False)\<lparr>n_camera_params := Some sample_params\<rparr>"
  have "(if n_has_color_manager ?n then color_calibration ok_env else None) = None"
    by (simp add: fresh_node_def)
  moreover have "(if usbProductId ok_env = DABAI_DCW2_DEPTH_PID \<or> usbProductId ok_env = DABAI_MAX_PRO_PID \<or>
      usbProductId ok_env = GEMINI_UW_PID then n_color_camera_params ?n else n_camera_params ?n) = Some sample_params"
    by (simp add: pid_defs)
  ultimately have "ci_D (fst (getColorCameraInfo ok_env toy_fp ?n)) = replicate 5 d_zero \<and>
      ci_D (OBCameraParamsToCameraInfo toy_fp sample_params) =
        map (\<lambda>i. fp_widen toy_fp (r_k sample_params ! i)) [0, 1, 3, 4, 2]"
    using color_info_drops_distortion [of ?n ok_env sample_params toy_fp] sample_params_valid by blast
  then show ?thesis by (simp add: toy_fp_def sample_params_def)
qed

section \<open>Choosing the calibration of a list\<close>

lemma find_Some_set: "find P xs = Some x \<Longrightarrow> x \<in> set xs \<and> P x"
  by (induction xs) (auto split: if_splits)

text \<open>
  The device may offer several calibrations.  The one that is used matches both
  configured resolutions if any does; otherwise it matches the depth resolution (the colour one
  for the colour parameters) if any does; otherwise it is the first.  Its distortion reaches the
  message in plumb-bob order (k1, k2, p1, p2, k3).
\<close>

theorem calibration_choice:
  "(let d = match_param n s (arr, k); es = take k arr;
        both = (\<lambda>p. intr_matches n DEPTH (depthIntrinsic p) \<and> intr_matches n COLOR (rgbIntrinsic p));
        one = (\<lambda>p. intr_matches n s (if s = COLOR then rgbIntrinsic p else depthIntrinsic p))
    in (if list_ex both es then both d \<and> d \<in> set es
        else if list_ex one es then one d \<and> d \<in> set es
        else d = arr ! 0) \<and>
       ci_D (OBCameraParamsToCameraInfo F (params_of_entry d)) =
         map (fp_widen F) [di_k1 (rgbDistortion d), di_k2 (rgbDistortion d), di_p1 (rgbDistortion d),
           di_p2 (rgbDistortion d), di_k3 (rgbDistortion d)])"
proof -
  have "if list_ex P es then P (the (find P es)) \<and> the (find P es) \<in> set es \<and> find P es \<noteq> None
    else find P es = None" for P and es :: "OBCameraParam list"
    by (induction es) auto
  from this [of "\<lambda>p. intr_matches n DEPTH (depthIntrinsic p) \<and> intr_matches n COLOR (rgbIntrinsic p)" "take k arr"]
    this [of "\<lambda>p. intr_matches n s (if s = COLOR then rgbIntrinsic p else depthIntrinsic p)" "take k arr"]
  show ?thesis
    by (auto simp: match_param_def Let_def OBCameraParamsToCameraInfo_def params_of_entry_def dist_list_def
        split: if_splits)
qed

end
