(* ===== verification/Node_Setup.thy ===== *)
theory Node_Setup
  imports Node_Streams Camera_Info
begin

text \<open>
  Bringing up \<open>OBCameraNode\<close> (\<open>ob_camera_node.cpp\<close>): parameters, streams, video modes, registration,
  publishers and the order in which \<open>init\<close> runs them, and the dynamic reconfiguration.
\<close>

section \<open>Configuration\<close>

text \<open>The four groups of assignments of \<open>setupConfig\<close>, then the exposure and gain defaults.\<close>

definition config_stream ::
    "stream_index_pair \<Rightarrow> string \<Rightarrow> int \<Rightarrow> PixelFormat \<Rightarrow> string \<Rightarrow> Node \<Rightarrow> Node" where
  "config_stream s name step fmt enc n =
     n\<lparr>n_stream_name := (n_stream_name n)(s := name), n_unit_step_size := (n_unit_step_size n)(s := step),
       n_format := (n_format n)(s := fmt), n_encoding := (n_encoding n)(s := enc)\<rparr>"

definition setupConfig :: "Node \<Rightarrow> Node" where
  "setupConfig n =
     (let n = config_stream DEPTH ''depth'' 2 PIXEL_FORMAT_DEPTH_1_MM ''16UC1'' n;
          n = config_stream COLOR ''color'' 3 PIXEL_FORMAT_RGB888 ''rgb8'' n;
          n = config_stream INFRA1 ''ir'' 1 PIXEL_FORMAT_GRAY8 ''mono8'' n;
          n = config_stream INFRA2 ''ir2'' 1 PIXEL_FORMAT_GRAY8 ''mono8'' n
      in fold (\<lambda>s n. n\<lparr>n_stream_exposure := (n_stream_exposure n)(s := -1),
                       n_stream_gain := (n_stream_gain n)(s := -1)\<rparr>) IMAGE_STREAMS n)"

section \<open>Parameters\<close>

definition read_frame_ids :: "stream_index_pair \<Rightarrow> Node \<Rightarrow> Node" where
  "read_frame_ids s n =
     n\<lparr>n_frame_id := (n_frame_id n)(s := n_camera_name n @ ''_'' @ n_stream_name n s @ ''_frame''),
       n_optical_frame_id := (n_optical_frame_id n)(s :=
         n_camera_name n @ ''_'' @ n_stream_name n s @ ''_optical_frame'')\<rparr>"

definition read_stream_params :: "ros_params \<Rightarrow> stream_index_pair \<Rightarrow> Node \<Rightarrow> Node" where
  "read_stream_params P s n =
     (let name = n_stream_name n s in
      n\<lparr>n_width := (n_width n)(s := p_int P (name @ ''_width'') IMAGE_WIDTH),
        n_height := (n_height n)(s := p_int P (name @ ''_height'') IMAGE_HEIGHT),
        n_fps := (n_fps n)(s := p_int P (name @ ''_fps'') IMAGE_FPS),
        n_enable := (n_enable n)(s := p_bool P (''enable_'' @ name) False),
        n_flip_image := (n_flip_image n)(s := p_bool P (''flip_'' @ name) False),
        n_stream_exposure := (n_stream_exposure n)(s := p_int P (name @ ''_exposure'') (-1)),
        n_stream_gain := (n_stream_gain n)(s := p_int P (name @ ''_gain'') (-1)),
        n_enable_auto_exposure := (n_enable_auto_exposure n)(s :=
          p_bool P (''enable_'' @ name @ ''_auto_exposure'') True)\<rparr>)"

definition read_roi :: "ros_params \<Rightarrow> string \<Rightarrow> ImageROI" where
  "read_roi P name =
     \<lparr>roi_x = p_int P (name @ ''_roi_x'') (-1), roi_y = p_int P (name @ ''_roi_y'') (-1),
      roi_width = p_int P (name @ ''_roi_width'') (-1), roi_height = p_int P (name @ ''_roi_height'') (-1)\<rparr>"

definition read_globals :: "ros_params \<Rightarrow> Node \<Rightarrow> Node" where
  "read_globals P n =
     n\<lparr>n_ir_ae := p_bool P ''ir_ae'' True,
       n_ir_gain := p_int P ''ir_gain'' (n_init_ir_gain n),
       n_ir_exposure := u32 (p_int P ''ir_exposure'' (n_init_ir_exposure n)),
       n_depth_aligned_frame_id :=
         fold (\<lambda>s f. f(s := n_optical_frame_id n COLOR)) IMAGE_STREAMS (n_depth_aligned_frame_id n),
       n_publish_tf := p_bool P ''publish_tf'' True,
       n_color_depth_synchronization := p_bool P ''color_depth_synchronization'' False,
       n_tf_publish_rate := p_float P ''tf_publish_rate'' 10,
       n_color_roi := read_roi P ''color'', n_depth_roi := read_roi P ''depth'',
       n_depth_scale := p_int P ''depth_scale'' 1,
       n_enable_reconfigure := p_bool P ''enable_reconfigure'' False,
       n_depth_align := p_bool P ''depth_align'' False,
       n_ir_info_uri := p_str P ''ir_info_uri'' [], n_color_info_uri := p_str P ''color_info_uri'' [],
       n_enable_d2c_viewer := p_bool P ''enable_d2c_viewer'' False,
       n_enable_keep_alive := p_bool P ''enable_keep_alive'' False,
       n_keep_alive_interval := p_int P ''keep_alive_interval'' 15,
       n_enable_pointcloud := p_bool P ''enable_point_cloud'' False,
       n_enable_pointcloud_xyzrgb := p_bool P ''enable_point_cloud_xyzrgb'' False,
       n_enable_publish_extrinsic := p_bool P ''enable_publish_extrinsic'' False,
       n_enable_ldp := p_bool P ''enable_ldp'' True,
       n_multi_device_sync_mode := getMultiDeviceSyncMode (p_str P ''multi_device_sync_mode'' ''none'')\<rparr>"

definition drop_align_without_color :: "dev_env \<Rightarrow> Node \<Rightarrow> Node" where
  "drop_align_without_color E n =
     (if n_depth_align n \<and> \<not> hasSensor E SENSOR_COLOR \<and> \<not> n_use_uvc_camera n
      then n\<lparr>n_depth_align := False\<rparr> else n)"

definition getParameters :: "dev_env \<Rightarrow> ros_params \<Rightarrow> Node \<Rightarrow> Node" where
  "getParameters E P n =
     (let name = p_str P ''camera_name'' ''camera'';
          n = n\<lparr>n_camera_name := name, n_base_frame_id := name @ ''_link''\<rparr>;
          n = fold read_frame_ids IMAGE_STREAMS n;
          n = fold (read_stream_params P) IMAGE_STREAMS n;
          n = drop_align_without_color E (read_globals P n);
          n = (if n_enable_pointcloud_xyzrgb n then n\<lparr>n_depth_align := True\<rparr> else n)
      in n\<lparr>n_soft_filter := p_int P ''soft_filter'' 2,
           n_soft_filter_max_diff := p_int P ''soft_filter_max_diff'' 0,
           n_soft_filter_max_speckle_size := p_int P ''soft_filter_max_speckle_size'' 0\<rparr>)"

section \<open>Devices\<close>

definition setupCameraInfoManager :: "dev_env \<Rightarrow> Node \<Rightarrow> Node" where
  "setupCameraInfoManager E n =
     (if \<not> n_use_uvc_camera n \<and> hasSensor E SENSOR_COLOR then n\<lparr>n_has_color_manager := True\<rparr> else n)"

definition setup_device :: "dev_env \<Rightarrow> stream_index_pair \<Rightarrow> Node \<Rightarrow> Node outcome" where
  "setup_device E s n =
     (let n = n\<lparr>n_stream_started := (n_stream_started n)(s := False)\<rparr> in
      if n_enable n s \<and> hasSensor E (fst s)
      then if n_use_uvc_camera n \<and> s = COLOR then Inr n
           else let k = StreamCreate (fst s); status = rc_of E k n; n = issue k n
                in if status \<noteq> 0
                   then Inl (Thrown (''OBCameraNode::setupDevices failed to create stream '' @ n_stream_name n s
                          @ '' with error: '' @ extendedError E (n_log n)), n)
                   else Inr (n\<lparr>n_streams := (n_streams n)(s := Some (Some (n_next_stream n))),
                               n_next_stream := Suc (n_next_stream n)\<rparr>)
      else let n = touch_stream s n;
               n = (if stream_obj n s \<noteq> None then n\<lparr>n_streams := (n_streams n)(s := Some None)\<rparr> else n)
           in Inr (n\<lparr>n_enable := (n_enable n)(s := False)\<rparr>))"

definition setupDevices :: "dev_env \<Rightarrow> Node \<Rightarrow> Node outcome" where
  "setupDevices E n =
     and_then (fold_outcome (setup_device E) IMAGE_STREAMS n) (\<lambda>n.
       Inr (issue (DevSet XN_MODULE_PROPERTY_LDP_ENABLE (of_bool (n_enable_ldp n))) n))"

definition setup_parameter :: "dev_env \<Rightarrow> stream_index_pair \<Rightarrow> Node \<Rightarrow> Node outcome" where
  "setup_parameter E s n =
     (if n_enable n s \<and> hasSensor E (fst s) \<and> n_streams n s \<noteq> None
      then if stream_obj n s = None then Inl (NullDeref ''stream->getCameraSettings'', n)
           else if hasSettings E s
           then let n = issue (CamAutoExposure s (n_enable_auto_exposure n s)) n;
                    n = (if n_stream_exposure n s \<noteq> -1 then issue (CamExposure s (n_stream_exposure n s)) n else n)
                in Inr (if n_stream_gain n s \<noteq> -1 then issue (CamGain s (n_stream_gain n s)) n else n)
           else Inr n
      else Inr n)"

definition setupCameraParameter :: "dev_env \<Rightarrow> Node \<Rightarrow> Node outcome" where
  "setupCameraParameter E = fold_outcome (setup_parameter E) IMAGE_STREAMS"

fun obdevice_mode :: "MultiDeviceSyncMode \<Rightarrow> int" where
  "obdevice_mode SyncSlave = 0"
| "obdevice_mode SyncMaster = 1"
| "obdevice_mode SyncNone = 2"

definition setupSyncMode :: "dev_env \<Rightarrow> Node \<Rightarrow> Node" where
  "setupSyncMode E n =
     (if n_multi_device_sync_mode n \<noteq> SyncNone
      then issue (DevSet XN_MODULE_PROPERTY_SET_DEVICE_MODE (obdevice_mode (n_multi_device_sync_mode n)))
             (issue (DevGet OBEXTENSION_ID_SERIALNUMBER) n)
      else n)"

section \<open>Video modes\<close>

text \<open>
  The inner loop: the first component says whether the exact mode was met (the loop stops there),
  the second is the frame rate of the last default candidate seen so far.
\<close>

fun search_mode :: "VideoMode \<Rightarrow> VideoMode list \<Rightarrow> int option \<Rightarrow> bool \<times> int option" where
  "search_mode video_mode [] d = (False, d)"
| "search_mode video_mode (item # items) d =
     (if vm_eq video_mode item then (True, d)
      else search_mode video_mode items
        (if getResolutionX video_mode = getResolutionX item \<and> getResolutionY video_mode = getResolutionY item \<and>
            getPixelFormat video_mode = getPixelFormat item
         then Some (getFps item) else d))"

definition wanted_mode :: "Node \<Rightarrow> stream_index_pair \<Rightarrow> VideoMode" where
  "wanted_mode n s = \<lparr>getResolutionX = n_width n s, getResolutionY = n_height n s, getFps = n_fps n s,
     getPixelFormat = n_format n s\<rparr>"

definition choose_mode :: "VideoMode \<Rightarrow> VideoMode list \<Rightarrow> VideoMode option" where
  "choose_mode video_mode modes =
     (case search_mode video_mode modes None of
        (True, _) \<Rightarrow> Some video_mode
      | (False, Some fps) \<Rightarrow> Some (video_mode\<lparr>getFps := fps\<rparr>)
      | (False, None) \<Rightarrow> None)"

definition setup_video_mode :: "dev_env \<Rightarrow> stream_index_pair \<Rightarrow> Node \<Rightarrow> Node outcome" where
  "setup_video_mode E s n =
     (let n = n\<lparr>n_supported_video_modes := (n_supported_video_modes n)(s := Some [])\<rparr> in
      if hasSensor E (fst s) \<and> n_enable n s
      then if n_use_uvc_camera n \<and> s = COLOR then Inr n
           else if stream_obj n s = None then Inl (NullDeref ''stream->getSensorInfo'', touch_stream s n)
           else let modes = supportedModes E (fst s);
                    n = n\<lparr>n_supported_video_modes := (n_supported_video_modes n)(s := Some modes)\<rparr>
                in case choose_mode (wanted_mode n s) modes of
                     Some video_mode \<Rightarrow>
                       Inr (n\<lparr>n_stream_video_mode := (n_stream_video_mode n)(s := Some video_mode),
                              n_images := (n_images n)(s := Some (n_height n s, n_width n s))\<rparr>)
                   | None \<Rightarrow> Inr (n\<lparr>n_enable := (n_enable n)(s := False)\<rparr>)
      else Inr n)"

definition setupVideoMode :: "dev_env \<Rightarrow> Node \<Rightarrow> Node outcome" where
  "setupVideoMode E n =
     (let n = (if \<not> n_use_uvc_camera n \<and> n_enable n INFRA1 \<and> n_enable n COLOR
               then n\<lparr>n_enable := (n_enable n)(INFRA1 := False)\<rparr> else n)
      in fold_outcome (setup_video_mode E) IMAGE_STREAMS n)"

section \<open>Registration\<close>

definition setImageRegistrationMode :: "dev_env \<Rightarrow> bool \<Rightarrow> Node \<Rightarrow> Node" where
  "setImageRegistrationMode E data n =
     (if \<not> registrationSupported E then n else issue (DevRegistration data) n)"

definition setDepthColorSync :: "bool \<Rightarrow> Node \<Rightarrow> Node" where
  "setDepthColorSync data n = issue (DevColorSync data) n"

definition setDepthToColorResolution :: "dev_env \<Rightarrow> int \<Rightarrow> int \<Rightarrow> Node \<Rightarrow> Node" where
  "setDepthToColorResolution E width height n =
     (if usbProductId E \<noteq> DABAI_DCW_DEPTH_PID \<and> usbProductId E \<noteq> GEMINI_E_DEPTH_PID then n
      else if \<not> n_depth_align n \<and> \<not> n_enable_pointcloud_xyzrgb n then n
      else if width * 9 = height * 16
      then issue (DevSet XN_MODULE_PROPERTY_D2C_RESOLUTION (rgb_resolution_value RGBResolution16_9)) n
      else if width * 3 = height * 4
      then issue (DevSet XN_MODULE_PROPERTY_D2C_RESOLUTION (rgb_resolution_value RGBResolution4_3)) n
      else n)"

definition setupD2CConfig :: "dev_env \<Rightarrow> Node \<Rightarrow> Node" where
  "setupD2CConfig E n =
     (if \<not> n_depth_align n \<and> \<not> n_enable_pointcloud_xyzrgb n then n
      else let color_width = n_width n COLOR; color_height = n_height n COLOR;
               n = setImageRegistrationMode E (n_depth_align n) n;
               n = setDepthColorSync (n_color_depth_synchronization n) n
           in if n_depth_align n \<or> n_enable_pointcloud_xyzrgb n
              then setDepthToColorResolution E color_width color_height n else n)"

section \<open>Publishers\<close>

definition setup_publisher :: "dev_env \<Rightarrow> stream_index_pair \<Rightarrow> Node \<Rightarrow> Node" where
  "setup_publisher E s n =
     (let name = n_stream_name n s;
          n = n\<lparr>n_topics := n_topics n @ [name @ ''/camera_info'']\<rparr>
      in if n_enable n s \<and> hasSensor E (fst s)
         then n\<lparr>n_image_pub := (n_image_pub n)(s := True), n_topics := n_topics n @ [name @ ''/image_raw'']\<rparr>
         else n)"

definition setupPublishers :: "dev_env \<Rightarrow> Node \<Rightarrow> Node" where
  "setupPublishers E = fold (setup_publisher E) IMAGE_STREAMS"

section \<open>Which video mode is chosen\<close>

definition same_picture :: "VideoMode \<Rightarrow> VideoMode \<Rightarrow> bool" where
  "same_picture a b \<longleftrightarrow> getResolutionX a = getResolutionX b \<and> getResolutionY a = getResolutionY b \<and>
     getPixelFormat a = getPixelFormat b"

lemma search_mode_exact: "video_mode \<in> set modes \<Longrightarrow> fst (search_mode video_mode modes d)"
  by (induction modes arbitrary: d) auto

lemma search_mode_Cons:
  "search_mode video_mode (item # items) d =
     (if video_mode = item then (True, d)
      else search_mode video_mode items (if same_picture video_mode item then Some (getFps item) else d))"
  by (simp add: same_picture_def)

lemma search_mode_default:
  "video_mode \<notin> set modes \<Longrightarrow> search_mode video_mode modes d =
     (False, if filter (same_picture video_mode) modes = [] then d
             else Some (getFps (last (filter (same_picture video_mode) modes))))"
proof (induction modes arbitrary: d)
  case (Cons m modes)
  then show ?case by (simp add: search_mode_Cons del: search_mode.simps(2))
qed simp

lemma same_picture_fps: "same_picture a b \<Longrightarrow> a\<lparr>getFps := getFps b\<rparr> = b"
  by (cases a; cases b) (simp add: same_picture_def)

text \<open>
  Claim C12.  The video mode of a stream: the wanted mode if the sensor offers it, otherwise the last
  offered mode with the wanted resolution and pixel format, otherwise none.  In particular the mode
  that is chosen is one the sensor offers, with the wanted resolution and format.
\<close>

theorem video_mode_choice:
  "choose_mode video_mode modes =
     (if video_mode \<in> set modes then Some video_mode
      else if filter (same_picture video_mode) modes = [] then None
      else Some (last (filter (same_picture video_mode) modes))) \<and>
   (case choose_mode video_mode modes of
      None \<Rightarrow> list_all (\<lambda>m. \<not> same_picture video_mode m) modes
    | Some m \<Rightarrow> m \<in> set modes \<and> same_picture video_mode m)"
proof -
  have "choose_mode video_mode modes =
     (if video_mode \<in> set modes then Some video_mode
      else if filter (same_picture video_mode) modes = [] then None
      else Some (last (filter (same_picture video_mode) modes)))"
  proof (cases "video_mode \<in> set modes")
    case True
    then show ?thesis
      using search_mode_exact [OF True, of None]
      by (auto simp: choose_mode_def split: prod.split bool.split option.split)
  next
    case False
    have "same_picture video_mode (last (filter (same_picture video_mode) modes))"
      if "filter (same_picture video_mode) modes \<noteq> []"
      using last_in_set [OF that] by simp
    then show ?thesis
      using False by (auto simp: choose_mode_def search_mode_default same_picture_fps)
  qed
  moreover have "last (filter (same_picture video_mode) modes) \<in> set (filter (same_picture video_mode) modes)"
    if "filter (same_picture video_mode) modes \<noteq> []" using that by (rule last_in_set)
  ultimately show ?thesis
    by (auto simp: list_all_iff filter_empty_conv same_picture_def [of video_mode video_mode])
qed

section \<open>What the steps leave alone\<close>

text \<open>The fields on which starting and stopping depend, and the infrared settings.\<close>

definition view :: "Node \<Rightarrow> (stream_index_pair \<Rightarrow> bool) \<times> (stream_index_pair \<Rightarrow> nat) \<times> bool \<times>
    (stream_index_pair \<Rightarrow> bool) \<times> (stream_index_pair \<Rightarrow> nat option) \<times>
    (stream_index_pair \<Rightarrow> VideoMode option) \<times> bool \<times> int \<times> int" where
  "view n = (n_stream_started n, n_subscribers n, n_is_running n, n_enable n, stream_obj n,
     n_stream_video_mode n, n_use_uvc_camera n, n_ir_gain n, n_ir_exposure n)"

lemma view_updates [simp]:
  "view (issues ks n) = view n" "view (n\<lparr>n_camera_params := a\<rparr>) = view n"
  "view (n\<lparr>n_color_camera_params := b\<rparr>) = view n" "view (n\<lparr>n_services := c\<rparr>) = view n"
  "view (n\<lparr>n_topics := d\<rparr>) = view n" "view (n\<lparr>n_image_pub := e\<rparr>) = view n"
  "view (n\<lparr>n_depth_align := f\<rparr>) = view n" "view (n\<lparr>n_save_images := g\<rparr>) = view n"
  "view (n\<lparr>n_has_xyz_node := h\<rparr>) = view n" "view (n\<lparr>n_has_xyzrgb_node := h\<rparr>) = view n"
  "view (n\<lparr>n_has_d2c_viewer := h\<rparr>) = view n" "view (n\<lparr>n_initialized := h\<rparr>) = view n"
  "view (n\<lparr>n_run_poll_frame_thread := h\<rparr>) = view n" "view (n\<lparr>n_has_color_manager := h\<rparr>) = view n"
  "view (n\<lparr>n_init_ir_gain := i\<rparr>) = view n" "view (n\<lparr>n_init_ir_exposure := i\<rparr>) = view n"
  "view (touch_stream s n) = view n" "view (n\<lparr>n_lookup := j\<rparr>) = view n"
  "view (n\<lparr>n_color_depth_synchronization := h\<rparr>) = view n" "view (n\<lparr>n_width := w\<rparr>) = view n"
  "view (n\<lparr>n_height := w\<rparr>) = view n" "view (n\<lparr>n_fps := w\<rparr>) = view n"
  "view (n\<lparr>n_stream_exposure := w\<rparr>) = view n" "view (n\<lparr>n_stream_gain := w\<rparr>) = view n"
  "view (n\<lparr>n_supported_video_modes := v\<rparr>) = view n" "view (n\<lparr>n_static_tf := tf\<rparr>) = view n"
  "view (n\<lparr>n_has_tf_thread := h\<rparr>) = view n"
  unfolding view_def
  by (simp_all add: stream_obj_def fun_eq_iff issues_def touch_stream_def split: option.split)

lemma view_fold: "(\<And>x n. view (f x n) = view n) \<Longrightarrow> view (fold f xs n) = view n"
  by (induction xs arbitrary: n) simp_all

lemma view_getCameraParams [simp]: "view (snd (getCameraParams E n)) = view n"
  by (simp add: getCameraParams_def read_params_def Let_def split: option.split)

lemma view_getColorCameraParams [simp]: "view (snd (getColorCameraParams E n)) = view n"
  by (simp add: getColorCameraParams_def Let_def split: option.split)

lemma view_getIRCameraInfo [simp]: "view (snd (getIRCameraInfo E F w h f n)) = view n"
proof -
  obtain p m where pm: "getCameraParams E n = (p, m)" by fastforce
  then have "view m = view n" by (metis snd_conv view_getCameraParams)
  then show ?thesis by (simp add: getIRCameraInfo_def Let_def pm split: option.split)
qed

lemma view_getDepthCameraInfo [simp]: "view (snd (getDepthCameraInfo E F n)) = view n"
proof -
  obtain i m where im: "getIRCameraInfo E F (n_width n DEPTH) (n_height n DEPTH)
      (getFocalLength E F DEPTH (n_height n DEPTH) n) n = (i, m)" by fastforce
  obtain p k where pk: "getCameraParams E m = (p, k)" by fastforce
  have "view m = view n" by (metis im snd_conv view_getIRCameraInfo)
  moreover have "view k = view m" by (metis pk snd_conv view_getCameraParams)
  ultimately show ?thesis by (simp add: getDepthCameraInfo_def Let_def im pk)
qed

lemma view_getColorCameraInfo [simp]: "view (snd (getColorCameraInfo E F n)) = view n"
proof -
  obtain p m where pm: "(if usbProductId E = DABAI_DCW2_DEPTH_PID \<or> usbProductId E = DABAI_MAX_PRO_PID \<or>
      usbProductId E = GEMINI_UW_PID then getColorCameraParams E n else getCameraParams E n) = (p, m)" by fastforce
  then have "view m = view n"
    by (metis snd_conv view_getColorCameraParams view_getCameraParams)
  then show ?thesis by (simp add: getColorCameraInfo_def Let_def pm split: option.split)
qed

end
