(* ===== verification/Ros_Service.thy ===== *)
theory Ros_Service
  imports Node_Streams Camera_Info
begin

text \<open>
  The ROS services of \<open>OBCameraNode\<close> (\<open>ros_service.cpp\<close>): the list that is advertised and one
  definition per callback.  A callback returns its reply and the new state, or the fault that ends
  the process.
\<close>

record Reply =
  rep_ok :: bool
  rep_message :: string
  rep_data :: int

type_synonym 'r handled = "(fault \<times> Node) + ('r \<times> Node)"

definition refuse :: "string \<Rightarrow> Reply" where
  "refuse msg = \<lparr>rep_ok = False, rep_message = msg, rep_data = 0\<rparr>"

definition accept :: Reply where
  "accept = \<lparr>rep_ok = True, rep_message = [], rep_data = 0\<rparr>"

definition deliver :: "int \<Rightarrow> Reply" where
  "deliver d = \<lparr>rep_ok = True, rep_message = [], rep_data = d\<rparr>"

section \<open>Advertising\<close>

definition stream_services :: "string \<Rightarrow> string list" where
  "stream_services stream_name =
     [''get_'' @ stream_name @ ''_exposure'', ''set_'' @ stream_name @ ''_exposure'',
      ''get_'' @ stream_name @ ''_gain'', ''set_'' @ stream_name @ ''_gain'',
      ''set_'' @ stream_name @ ''_mirror'', ''set_'' @ stream_name @ ''_auto_exposure'',
      ''toggle_'' @ stream_name, ''get_'' @ stream_name @ ''_supported_video_modes'']"

definition node_services :: "string list" where
  "node_services =
     [''get_auto_white_balance'', ''set_auto_white_balance'', ''set_fan'', ''set_laser'', ''set_ldp'',
      ''get_ldp_status'', ''get_ir_temperature'', ''get_device_info'', ''get_version'', ''get_camera_info'',
      ''switch_ir_camera'', ''get_camera_params'', ''get_device_type'', ''get_serial'', ''save_images'',
      ''reset_ir_exposure'', ''reset_ir_gain'', ''set_ir_flood'']"

definition setupCameraCtrlServices :: "dev_env \<Rightarrow> Node \<Rightarrow> Node" where
  "setupCameraCtrlServices E n =
     (let n = fold (\<lambda>s n. if \<not> n_enable n s \<or> \<not> hasSensor E (fst s) then n
                          else n\<lparr>n_services := n_services n @ stream_services (n_stream_name n s)\<rparr>)
                IMAGE_STREAMS n
      in n\<lparr>n_services := n_services n @ node_services\<rparr>)"

section \<open>Access to streams\<close>

definition not_started :: "dev_env \<Rightarrow> stream_index_pair \<Rightarrow> Node \<Rightarrow> bool" where
  "not_started E s n \<longleftrightarrow> \<not> n_stream_started n s \<or> \<not> hasSensor E (fst s)"

definition not_started_msg :: "Node \<Rightarrow> stream_index_pair \<Rightarrow> string" where
  "not_started_msg n s = ''Stream '' @ n_stream_name n s @ '' is not started or does not have a sensor''"

text \<open>\<open>streams_.at(s)\<close> throws on a missing key; using a null pointer is undefined behaviour.\<close>

definition with_stream :: "stream_index_pair \<Rightarrow> Node \<Rightarrow> 'r handled \<Rightarrow> 'r handled" where
  "with_stream s n r =
     (case n_streams n s of
        None \<Rightarrow> Inl (Thrown ''map::at'', n)
      | Some None \<Rightarrow> Inl (NullDeref ''stream'', n)
      | Some (Some _) \<Rightarrow> r)"

definition with_settings :: "dev_env \<Rightarrow> stream_index_pair \<Rightarrow> Node \<Rightarrow> Reply handled \<Rightarrow> Reply handled" where
  "with_settings E s n r =
     with_stream s n
       (if \<not> hasSettings E s then Inr (refuse (n_stream_name n s @ '' Camera settings not available''), n) else r)"

definition ir_or_depth :: "stream_index_pair \<Rightarrow> bool" where
  "ir_or_depth s \<longleftrightarrow> s = INFRA1 \<or> s = INFRA2 \<or> s = DEPTH"

text \<open>The helpers around one device property.\<close>

definition setIRAutoExposure :: "bool \<Rightarrow> Node \<Rightarrow> Node" where
  "setIRAutoExposure status n = issue (DevSet XN_MODULE_PROPERTY_AE (of_bool status)) n"

definition getIRExposure :: "dev_env \<Rightarrow> Node \<Rightarrow> int \<times> Node" where
  "getIRExposure E n =
     (let k = DevGet OBEXTENSION_ID_IR_EXP in (val_of E k n, issue k n))"

definition setIRExposure :: "int \<Rightarrow> Node \<Rightarrow> Node" where
  "setIRExposure data n = issue (DevSet OBEXTENSION_ID_IR_EXP data) n"

definition getIRGain :: "dev_env \<Rightarrow> Node \<Rightarrow> int \<times> Node" where
  "getIRGain E n =
     (let k = DevGet OBEXTENSION_ID_IR_GAIN in (val_of E k n, issue k n))"

definition setIRGain :: "int \<Rightarrow> Node \<Rightarrow> Node" where
  "setIRGain data n = issue (DevSet OBEXTENSION_ID_IR_GAIN data) n"

definition getSerialNumber :: "dev_env \<Rightarrow> Node \<Rightarrow> string \<times> Node" where
  "getSerialNumber E n =
     (let k = DevGet OBEXTENSION_ID_SERIALNUMBER in (dev_str E (n_log n) k, issue k n))"

section \<open>Callbacks on a stream\<close>

definition setMirrorCallback :: "dev_env \<Rightarrow> stream_index_pair \<Rightarrow> bool \<Rightarrow> Node \<Rightarrow> Reply handled" where
  "setMirrorCallback E s data n =
     (if not_started E s n then Inr (refuse (not_started_msg n s), n)
      else with_stream s n (Inr (accept, issue (StreamMirroring s data) n)))"

definition getExposureCallback :: "dev_env \<Rightarrow> stream_index_pair \<Rightarrow> Node \<Rightarrow> Reply handled" where
  "getExposureCallback E s n =
     (if not_started E s n then Inr (refuse (not_started_msg n s), n)
      else if s = COLOR
      then with_settings E s n (Inr (deliver (val_of E (CamGetExposure s) n), issue (CamGetExposure s) n))
      else if ir_or_depth s then let (d, n) = getIRExposure E n in Inr (deliver d, n)
      else Inr (refuse ''Stream not supported get exposure'', n))"

definition setExposureCallback :: "dev_env \<Rightarrow> stream_index_pair \<Rightarrow> int \<Rightarrow> Node \<Rightarrow> Reply handled" where
  "setExposureCallback E s data n =
     (if not_started E s n then Inr (refuse (not_started_msg n s), n)
      else if s = COLOR
      then with_settings E s n
             (let k = CamExposure s data; rc = rc_of E k n; n = issue k n
              in if rc \<noteq> 0 then Inr (refuse (''Couldn't set color exposure: '' @ extendedError E (n_log n)), n)
                 else Inr (accept, n))
      else if ir_or_depth s then Inr (accept, setIRExposure (u32 data) n)
      else Inr (refuse ''stream not support get gain'', n))"

definition getGainCallback :: "dev_env \<Rightarrow> stream_index_pair \<Rightarrow> Node \<Rightarrow> Reply handled" where
  "getGainCallback E s n =
     (if not_started E s n then Inr (refuse (not_started_msg n s), n)
      else if s = COLOR
      then with_settings E s n (Inr (deliver (val_of E (CamGetGain s) n), issue (CamGetGain s) n))
      else if ir_or_depth s then let (d, n) = getIRGain E n in Inr (deliver d, n)
      else Inr (refuse ''stream not support get gain'', n))"

definition setGainCallback :: "dev_env \<Rightarrow> stream_index_pair \<Rightarrow> int \<Rightarrow> Node \<Rightarrow> Reply handled" where
  "setGainCallback E s data n =
     (if not_started E s n then Inr (refuse (not_started_msg n s), n)
      else if s = COLOR then with_settings E s n (Inr (accept, issue (CamGain s data) n))
      else if ir_or_depth s then Inr (accept, setIRGain data n)
      else Inr (accept, n))"

definition getAutoWhiteBalanceEnabledCallback :: "dev_env \<Rightarrow> stream_index_pair \<Rightarrow> Node \<Rightarrow> Reply handled" where
  "getAutoWhiteBalanceEnabledCallback E s n =
     (if not_started E s n then Inr (refuse (not_started_msg n s), n)
      else with_settings E s n
             (Inr (deliver (val_of E (CamGetAutoWhiteBalance s) n), issue (CamGetAutoWhiteBalance s) n)))"

definition setAutoWhiteBalanceEnabledCallback :: "dev_env \<Rightarrow> int \<Rightarrow> Node \<Rightarrow> Reply handled" where
  "setAutoWhiteBalanceEnabledCallback E data n =
     (if \<not> hasSensor E SENSOR_COLOR then Inr (refuse ''Color sensor not available'', n)
      else with_settings E COLOR n
             (let k = CamAutoWhiteBalance COLOR (of_bool (data \<noteq> 0)); rc = rc_of E k n; n = issue k n
              in if rc \<noteq> 0 then Inr (refuse ('' Couldn't set auto white balance: '' @ extendedError E (n_log n)), n)
                 else Inr (accept, n)))"

definition setAutoExposureCallback :: "dev_env \<Rightarrow> stream_index_pair \<Rightarrow> bool \<Rightarrow> Node \<Rightarrow> Reply handled" where
  "setAutoExposureCallback E s data n =
     (let set_it = (\<lambda>k. let rc = rc_of E k n; n = issue k n
            in if rc \<noteq> 0 then Inr (refuse (''Couldn't set auto exposure: '' @ extendedError E (n_log n)), n)
               else Inr (accept, n))
      in if not_started E s n then Inr (refuse (not_started_msg n s), n)
         else if s = COLOR then with_settings E s n (set_it (CamAutoExposure s data))
         else if ir_or_depth s then set_it (DevSet XN_MODULE_PROPERTY_AE (of_bool data))
         else Inr (refuse ''Stream not supported set auto exposure'', n))"

text \<open>The message of \<open>toggleSensor\<close> and the constant result of its callback.\<close>

definition toggleSensorCallback :: "dev_env \<Rightarrow> stream_index_pair \<Rightarrow> bool \<Rightarrow> Node \<Rightarrow> Reply handled" where
  "toggleSensorCallback E s data n =
     (let (success, r) = toggleSensor E s data n;
          msg = (if success then [] else ''doesn't  have '' @ n_stream_name n s)
      in case r of Inl f \<Rightarrow> Inl f | Inr m \<Rightarrow> Inr (\<lparr>rep_ok = True, rep_message = msg, rep_data = 0\<rparr>, m))"

text \<open>The JSON array holds a mode unless it is the same text as the last one.\<close>

definition mode_text :: "VideoMode \<Rightarrow> string" where
  "mode_text m = show_int (getResolutionX m) @ ''x'' @ show_int (getResolutionY m) @ ''@'' @ show_int (getFps m)"

fun list_modes :: "VideoMode list \<Rightarrow> string list \<Rightarrow> string list" where
  "list_modes [] data = data"
| "list_modes (m # ms) data =
     list_modes ms (if data = [] \<or> last data \<noteq> mode_text m then data @ [mode_text m] else data)"

definition getSupportedVideoModesCallback :: "stream_index_pair \<Rightarrow> Node \<Rightarrow> string + string list" where
  "getSupportedVideoModesCallback s n =
     (case n_supported_video_modes n s of
        None \<Rightarrow> Inl ''No supported video modes''
      | Some modes \<Rightarrow> Inr (list_modes modes []))"

section \<open>Callbacks on the device\<close>

definition getIRTemperatureCallback :: "dev_env \<Rightarrow> Node \<Rightarrow> Reply handled" where
  "getIRTemperatureCallback E n =
     (let k = DevGet XN_MODULE_PROPERTY_RT_IR_TEMP
      in if rc_of E k n \<noteq> 0 then Inr (refuse ''Failed to get IR temperature'', issue k n)
         else Inr (deliver (val_of E k n), issue k n))"

definition setLaserEnableCallback :: "bool \<Rightarrow> Node \<Rightarrow> Reply handled" where
  "setLaserEnableCallback data n =
     Inr (accept, issue (DevSet XN_MODULE_PROPERTY_EMITTER_STATE (of_bool data))
                    (issue (DevSet OBEXTENSION_ID_LASER_EN (of_bool data)) n))"

definition setIRFloodCallback :: "bool \<Rightarrow> Node \<Rightarrow> Reply handled" where
  "setIRFloodCallback data n = Inr (accept, issue (DevSet XN_MODULE_PROPERTY_IRFLOOD_STATE (of_bool data)) n)"

definition setLdpEnableCallback :: "dev_env \<Rightarrow> bool \<Rightarrow> Node \<Rightarrow> Reply handled" where
  "setLdpEnableCallback E data n =
     (let k = DevSet XN_MODULE_PROPERTY_LDP_ENABLE (of_bool data); status = rc_of E k n; n = issue k n
      in if status \<noteq> 0 then Inr (refuse (''Couldn't set LDP enable: '' @ extendedError E (n_log n)), n)
         else Inr (accept, n))"

definition setFanEnableCallback :: "bool \<Rightarrow> Node \<Rightarrow> Reply handled" where
  "setFanEnableCallback data n = Inr (accept, issue (DevSet XN_MODULE_PROPERTY_FAN_ENABLE (of_bool data)) n)"

record device_info_reply =
  info_name :: string
  info_pid :: int
  info_vid :: int
  info_serial :: string

definition getDeviceInfoCallback :: "dev_env \<Rightarrow> Node \<Rightarrow> device_info_reply handled" where
  "getDeviceInfoCallback E n =
     (let k = DevGet OBEXTENSION_ID_SERIALNUMBER; rc = rc_of E k n; str = dev_str E (n_log n) k
      in Inr (\<lparr>info_name = deviceName E, info_pid = usbProductId E, info_vid = usbVendorId E,
               info_serial = (if rc = 0 then str else [])\<rparr>, issue k n))"

definition getCameraInfoCallback :: "dev_env \<Rightarrow> fp_env \<Rightarrow> Node \<Rightarrow> CameraInfo handled" where
  "getCameraInfoCallback E F n = Inr (getColorCameraInfo E F n)"

definition getDeviceTypeCallback :: "dev_env \<Rightarrow> Node \<Rightarrow> string handled" where
  "getDeviceTypeCallback E n =
     (let k = DevGet OBEXTENSION_ID_DEVICETYPE in Inr (dev_str E (n_log n) k, issue k n))"

definition getSerialNumberCallback :: "dev_env \<Rightarrow> Node \<Rightarrow> string handled" where
  "getSerialNumberCallback E n = Inr (getSerialNumber E n)"

definition switchIRCameraCallback :: "string \<Rightarrow> Node \<Rightarrow> Reply handled" where
  "switchIRCameraCallback data n =
     (if data = ''left'' then Inr (accept, issue (DevSet XN_MODULE_PROPERTY_SWITCH_IR 0) n)
      else if data = ''right'' then Inr (accept, issue (DevSet XN_MODULE_PROPERTY_SWITCH_IR 1) n)
      else Inr (refuse ''Invalid IR camera name'', n))"

text \<open>The copying loop of \<open>getCameraParamsCallback\<close>, one index at a time over all six arrays.\<close>

definition copy_cell :: "OBCameraParams \<Rightarrow> nat \<Rightarrow> OBCameraParams \<Rightarrow> OBCameraParams" where
  "copy_cell p i r =
     (let r = r\<lparr>r2l_r := (r2l_r r)[i := r2l_r p ! i]\<rparr>;
          r = (if i < 4 then r\<lparr>l_intr_p := (l_intr_p r)[i := l_intr_p p ! i],
                               r_intr_p := (r_intr_p r)[i := r_intr_p p ! i]\<rparr> else r);
          r = (if i < 3 then r\<lparr>r2l_t := (r2l_t r)[i := r2l_t p ! i]\<rparr> else r)
      in if i < 5 then r\<lparr>l_k := (l_k r)[i := l_k p ! i], r_k := (r_k r)[i := r_k p ! i]\<rparr> else r)"

definition getCameraParamsCallback :: "dev_env \<Rightarrow> Node \<Rightarrow> OBCameraParams handled" where
  "getCameraParamsCallback E n =
     (let (camera_params, n) = getCameraParams E n
      in Inr (fold (copy_cell camera_params) [0..<9] zero_params, n))"

definition saveImagesCallback :: "Node \<Rightarrow> Node" where
  "saveImagesCallback n =
     (let n = (if n_enable n INFRA1 then n\<lparr>n_save_images := (n_save_images n)(INFRA1 := True)\<rparr> else n);
          n = (if n_enable n COLOR then n\<lparr>n_save_images := (n_save_images n)(COLOR := True)\<rparr> else n)
      in if n_enable n DEPTH then n\<lparr>n_save_images := (n_save_images n)(DEPTH := True)\<rparr> else n)"

definition getLdpStatusCallback :: "dev_env \<Rightarrow> Node \<Rightarrow> bool handled" where
  "getLdpStatusCallback E n =
     (let k = DevGet XN_MODULE_PROPERTY_LDP_STATUS in Inr (val_of E k n \<noteq> 0, issue k n))"

definition resetIRGainCallback :: "Node \<Rightarrow> Node" where
  "resetIRGainCallback n = setIRGain (n_init_ir_gain n) n"

definition resetIRExposureCallback :: "Node \<Rightarrow> Node" where
  "resetIRExposureCallback n = setIRExposure (n_init_ir_exposure n) n"

section \<open>What the services guarantee\<close>

lemmas stream_callback_defs = setMirrorCallback_def getExposureCallback_def setExposureCallback_def
  getGainCallback_def setGainCallback_def getAutoWhiteBalanceEnabledCallback_def setAutoExposureCallback_def

text \<open>
  Every per-stream control service refuses a stream that is not started: it answers with
  the same message, makes no device call and changes nothing.
\<close>

theorem services_refuse_stopped_stream:
  assumes "\<not> n_stream_started n s"
  shows "list_all (\<lambda>callback. callback n = Inr (refuse (''Stream '' @ n_stream_name n s @
      '' is not started or does not have a sensor''), n))
    [setMirrorCallback E s b, getExposureCallback E s, setExposureCallback E s i, getGainCallback E s,
     setGainCallback E s i, getAutoWhiteBalanceEnabledCallback E s, setAutoExposureCallback E s b]"
  using assms by (simp add: stream_callback_defs not_started_def not_started_msg_def Let_def)

theorem services_refuse_stopped_stream_witness:
  "setExposureCallback ok_env COLOR 100 depth_node =
     Inr (refuse (''Stream '' @ n_stream_name depth_node COLOR @ '' is not started or does not have a sensor''), depth_node)"
  using services_refuse_stopped_stream [of depth_node COLOR ok_env True 100] by simp

text \<open>
  \<open>set_auto_white_balance\<close> alone skips that test: on a device with a colour sensor whose
  colour stream was not created (disabled, or served by the UVC driver) a call of the service ends
  the process, before any device call and whatever the request holds, while its getter refuses.
\<close>

theorem white_balance_service_faults:
  assumes "hasSensor E SENSOR_COLOR" and "stream_obj n COLOR = None" and "\<not> n_stream_started n COLOR"
  shows "\<exists>e. setAutoWhiteBalanceEnabledCallback E data n = Inl (e, n) \<and>
    e \<in> {Thrown ''map::at'', NullDeref ''stream''} \<and>
    (\<exists>reply. getAutoWhiteBalanceEnabledCallback E COLOR n = Inr (reply, n) \<and> \<not> rep_ok reply)"
  using assms
  by (auto simp: setAutoWhiteBalanceEnabledCallback_def with_settings_def with_stream_def stream_obj_def
      getAutoWhiteBalanceEnabledCallback_def not_started_def refuse_def split: option.splits)

theorem white_balance_service_faults_witness:
  "\<exists>e. setAutoWhiteBalanceEnabledCallback ok_env 1 depth_node = Inl (e, depth_node)"
  using white_balance_service_faults [of ok_env depth_node 1] by (auto simp: stream_obj_def)

text \<open>A negative exposure request reaches the infrared camera as a large unsigned number.\<close>

lemma negative_ir_exposure_wraps:
  assumes "n_stream_started n s" "hasSensor E (fst s)" "ir_or_depth s" "- (2 ^ 32) \<le> data" "data < 0"
  shows "setExposureCallback E s data n = Inr (accept, issue (DevSet OBEXTENSION_ID_IR_EXP (2 ^ 32 + data)) n)"
proof -
  have "u32 data = 2 ^ 32 + data"
    using assms(4,5) unfolding u32_def by (subst mod_add_self1 [symmetric], subst mod_pos_pos_trivial) auto
  moreover have "s \<noteq> COLOR" using assms(3) by (auto simp: ir_or_depth_def)
  ultimately show ?thesis
    using assms(1-3) by (simp add: setExposureCallback_def not_started_def setIRExposure_def)
qed

lemma list_modes_append:
  "list_modes ms data = (if data = [] then remdups_adj (map mode_text ms)
     else butlast data @ remdups_adj (last data # map mode_text ms))"
proof (induction ms arbitrary: data)
  case (Cons m ms)
  then show ?case by (cases "data = []"; cases "last data = mode_text m") auto
qed simp

text \<open>
  The service that lists the video modes answers with the text of every supported mode,
  in the order of the device, with runs of equal texts (modes that differ in pixel format only)
  collapsed to one; without a recorded list it refuses.
\<close>

theorem supported_modes_listing:
  "getSupportedVideoModesCallback s n =
     (case n_supported_video_modes n s of
        None \<Rightarrow> Inl ''No supported video modes''
      | Some modes \<Rightarrow> Inr (remdups_adj (map (\<lambda>m. show_int (getResolutionX m) @ ''x'' @
          show_int (getResolutionY m) @ ''@'' @ show_int (getFps m)) modes)))"
  by (simp add: getSupportedVideoModesCallback_def list_modes_append mode_text_def [abs_def] split: option.split)

text \<open>The parameter service answers with exactly the calibration.\<close>

lemma length_4_split: "length xs = 4 \<Longrightarrow> \<exists>a b c d. xs = [a, b, c, d]"
  by (auto simp: numeral_eq_Suc length_Suc_conv)

lemma length_5_split: "length xs = 5 \<Longrightarrow> \<exists>a b c d e. xs = [a, b, c, d, e]"
  by (auto simp: numeral_eq_Suc length_Suc_conv)

lemma copy_params_exact:
  assumes "params_shape p"
  shows "fold (copy_cell p) [0..<9] zero_params = p"
proof -
  from assms have "length (l_intr_p p) = 4" "length (r_intr_p p) = 4" "length (r2l_r p) = 9"
    "length (r2l_t p) = 3" "length (l_k p) = 5" "length (r_k p) = 5" by (simp_all add: params_shape_def)
  note len = this
  obtain a b c d where l: "l_intr_p p = [a, b, c, d]" using length_4_split [OF len(1)] by blast
  obtain a' b' c' d' where r: "r_intr_p p = [a', b', c', d']" using length_4_split [OF len(2)] by blast
  obtain r0 r1 r2 r3 r4 r5 r6 r7 r8 where R: "r2l_r p = [r0, r1, r2, r3, r4, r5, r6, r7, r8]"
    using length_9_split [OF len(3)] by blast
  obtain t0 t1 t2 where T: "r2l_t p = [t0, t1, t2]" using length_3_split [OF len(4)] by blast
  obtain k0 k1 k2 k3 k4 where k: "l_k p = [k0, k1, k2, k3, k4]" using length_5_split [OF len(5)] by blast
  obtain m0 m1 m2 m3 m4 where m: "r_k p = [m0, m1, m2, m3, m4]" using length_5_split [OF len(6)] by blast
  have "[0..<9] = [0, 1, 2, 3, 4, 5, 6, 7, 8 :: nat]" by (simp add: upt_rec)
  with l r R T k m show ?thesis
    by (cases p) (simp add: copy_cell_def zero_params_def Let_def numeral_eq_Suc)
qed

end
