(* ===== verification/Static_TF.thy ===== *)
theory Static_TF
  imports Node_State
begin

text \<open>
  The static transforms between the camera frames (\<open>ob_camera_node.cpp\<close>): their computation from the
  calibration, and what is done with them when the node comes up.  The numbers come from the
  parameter \<open>F\<close>; which frames are connected does not depend on it.
\<close>

text \<open>
  \<open>rotationMatrixToQuaternion\<close> (\<open>utils.cpp\<close>): the matrix is stored by columns and handed to Eigen by rows.
\<close>

definition rotationMatrixToQuaternion :: "fp_env \<Rightarrow> float32 list \<Rightarrow> fault + quat" where
  "rotationMatrixToQuaternion F rotation =
     (if length rotation \<noteq> 9 then Inl (CheckFailed ''rotation.size() == 9'')
      else Inr (eigen_quat F (map (\<lambda>i. rotation ! i) [0, 3, 6, 1, 4, 7, 2, 5, 8])))"

text \<open>From the optical axes, in millimetres, to the axes of ROS, in metres.\<close>

definition publishStaticTF :: "fp_env \<Rightarrow> vec3 \<Rightarrow> quat \<Rightarrow> string \<Rightarrow> string \<Rightarrow> Node \<Rightarrow> Node" where
  "publishStaticTF F tr q from_frame to_frame n =
     (case tr of (t0, t1, t2) \<Rightarrow>
        n\<lparr>n_static_tf := n_static_tf n @
            [\<lparr>tf_parent = from_frame, tf_child = to_frame,
              tf_translation = (fp_div F t2 d_1000, fp_div F (fp_neg F t0) d_1000, fp_div F (fp_neg F t1) d_1000),
              tf_rotation = q\<rparr>]\<rparr>)"

definition color_rotation :: "fp_env \<Rightarrow> bool \<Rightarrow> float32 list \<Rightarrow> quat \<Rightarrow> quat" where
  "color_rotation F no_color rotation Q =
     (let zero_rot = setRPY F d_zero d_zero d_zero;
          Q = (if list_ex isnan32 rotation then zero_rot else Q)
      in if no_color then zero_rot else Q)"

definition color_translation :: "fp_env \<Rightarrow> bool \<Rightarrow> float32 list \<Rightarrow> vec3" where
  "color_translation F no_color transition =
     (if no_color \<or> isnan32 (transition ! 0) \<or> isnan32 (transition ! 1) \<or> isnan32 (transition ! 2)
      then (d_zero, d_zero, d_zero)
      else (fp_widen F (transition ! 0), fp_widen F (transition ! 1), fp_widen F (transition ! 2)))"

text \<open>\<open>camera_params_\<close> is dereferenced without a test; its arrays have 9 and 3 cells.\<close>

definition calcAndPublishStaticTransform :: "dev_env \<Rightarrow> fp_env \<Rightarrow> Node \<Rightarrow> Node outcome" where
  "calcAndPublishStaticTransform E F n =
     (let zero_rot = setRPY F d_zero d_zero d_zero;
          quaternion_optical = setRPY F d_minus_half_pi d_zero d_minus_half_pi;
          zero_trans = (d_zero, d_zero, d_zero)
      in case n_camera_params n of
           None \<Rightarrow> Inl (NullDeref ''camera_params_'', n)
         | Some p \<Rightarrow>
             let rotation = map (\<lambda>i. r2l_r p ! i) [0..<9];
                 transition = map (\<lambda>i. r2l_t p ! i) [0..<3];
                 no_color = (\<not> n_use_uvc_camera n \<and> \<not> hasSensor E SENSOR_COLOR)
             in case rotationMatrixToQuaternion F rotation of
                  Inl e \<Rightarrow> Inl (e, n)
                | Inr Q \<Rightarrow>
                    let Q = color_rotation F no_color rotation Q;
                        Q = q_mul F (q_mul F quaternion_optical Q) (q_inverse F quaternion_optical);
                        tr = color_translation F no_color transition;
                        (Q, tr) = tf_inverse F (Q, tr);
                        n = publishStaticTF F zero_trans quaternion_optical (n_frame_id n COLOR) (n_optical_frame_id n COLOR) n;
                        n = publishStaticTF F zero_trans quaternion_optical (n_frame_id n DEPTH) (n_optical_frame_id n DEPTH) n;
                        n = publishStaticTF F zero_trans quaternion_optical (n_frame_id n INFRA1) (n_optical_frame_id n INFRA1) n;
                        n = publishStaticTF F zero_trans zero_rot (n_base_frame_id n) (n_frame_id n DEPTH) n;
                        n = publishStaticTF F zero_trans zero_rot (n_base_frame_id n) (n_frame_id n INFRA1) n
                    in Inr (publishStaticTF F tr Q (n_base_frame_id n) (n_frame_id n COLOR) n))"

text \<open>With a positive rate a thread sends the transforms again and again, otherwise they are sent once.\<close>

definition publishStaticTransforms :: "dev_env \<Rightarrow> fp_env \<Rightarrow> Node \<Rightarrow> Node outcome" where
  "publishStaticTransforms E F n =
     (if \<not> n_publish_tf n then Inr n
      else and_then (calcAndPublishStaticTransform E F n) (\<lambda>n.
             if 0 < n_tf_publish_rate n
             then if n_has_tf_thread n then Inl (CheckFailed ''tf_thread_ == nullptr'', n)
                  else Inr (n\<lparr>n_has_tf_thread := True\<rparr>)
             else Inr n))"

section \<open>What is published\<close>

lemma calc_without_params:
  "n_camera_params n = None \<Longrightarrow> calcAndPublishStaticTransform E F n = Inl (NullDeref ''camera_params_'', n)"
  by (simp add: calcAndPublishStaticTransform_def Let_def)

text \<open>The edges of the frame tree, as parent and child.\<close>

definition tf_edges :: "tf_msg list \<Rightarrow> (string \<times> string) list" where
  "tf_edges = map (\<lambda>t. (tf_parent t, tf_child t))"

lemma calc_with_params:
  assumes "n_camera_params n = Some p"
  shows "\<exists>ts. calcAndPublishStaticTransform E F n = Inr (n\<lparr>n_static_tf := n_static_tf n @ ts\<rparr>) \<and>
    tf_edges ts =
       [(n_frame_id n COLOR, n_optical_frame_id n COLOR), (n_frame_id n DEPTH, n_optical_frame_id n DEPTH),
        (n_frame_id n INFRA1, n_optical_frame_id n INFRA1), (n_base_frame_id n, n_frame_id n DEPTH),
        (n_base_frame_id n, n_frame_id n INFRA1), (n_base_frame_id n, n_frame_id n COLOR)]"
  using assms
  by (auto simp: calcAndPublishStaticTransform_def rotationMatrixToQuaternion_def publishStaticTF_def Let_def
      tf_edges_def case_prod_unfold)

lemma publishStaticTransforms_faults:
  "n_publish_tf n \<Longrightarrow> n_camera_params n = None \<Longrightarrow>
     publishStaticTransforms E F n = Inl (NullDeref ''camera_params_'', n)"
  by (simp add: publishStaticTransforms_def calc_without_params)

lemma publishStaticTransforms_Inr:
  assumes "publishStaticTransforms E F n = Inr m"
  obtains ts b where "m = n\<lparr>n_static_tf := ts, n_has_tf_thread := b\<rparr>"
proof -
  have keep: "k = k\<lparr>n_static_tf := n_static_tf k, n_has_tf_thread := n_has_tf_thread k\<rparr>"
    "k\<lparr>n_static_tf := ts\<rparr> = k\<lparr>n_static_tf := ts, n_has_tf_thread := n_has_tf_thread k\<rparr>" for k :: Node and ts
    by simp_all
  show thesis
  proof (cases "n_publish_tf n")
    case True
    then obtain k where k: "calcAndPublishStaticTransform E F n = Inr k"
      and m: "m = k \<or> m = k\<lparr>n_has_tf_thread := True\<rparr>"
      using assms by (auto simp: publishStaticTransforms_def and_then_eq_Inr split: if_splits)
    from k obtain p where "n_camera_params n = Some p" by (cases "n_camera_params n") (auto simp: calc_without_params)
    from calc_with_params [OF this, of E F] k obtain ts where "k = n\<lparr>n_static_tf := ts\<rparr>" by auto
    then have "m = n\<lparr>n_static_tf := ts, n_has_tf_thread := n_has_tf_thread n\<rparr> \<or>
        m = n\<lparr>n_static_tf := ts, n_has_tf_thread := True\<rparr>"
      using m keep(2) [where k = n and ts = ts] by presburger
    with that show thesis by blast
  next
    case False
    then have "m = n" using assms by (simp add: publishStaticTransforms_def)
    then have "m = n\<lparr>n_static_tf := n_static_tf n, n_has_tf_thread := n_has_tf_thread n\<rparr>"
      by (simp only: keep(1) [where k = n, symmetric])
    then show thesis by (rule that)
  qed
qed

lemma publishStaticTransforms_edges:
  assumes "publishStaticTransforms E F n = Inr m" "n_publish_tf n"
  shows "\<exists>ts. n_static_tf m = n_static_tf n @ ts \<and> n_base_frame_id m = n_base_frame_id n \<and> tf_edges ts =
       [(n_frame_id n COLOR, n_optical_frame_id n COLOR), (n_frame_id n DEPTH, n_optical_frame_id n DEPTH),
        (n_frame_id n INFRA1, n_optical_frame_id n INFRA1), (n_base_frame_id n, n_frame_id n DEPTH),
        (n_base_frame_id n, n_frame_id n INFRA1), (n_base_frame_id n, n_frame_id n COLOR)]"
proof -
  obtain p where p: "n_camera_params n = Some p"
    using assms publishStaticTransforms_faults [of n E F] by (cases "n_camera_params n") auto
  from calc_with_params [OF p, of E F] assms show ?thesis
    by (auto simp: publishStaticTransforms_def split: if_splits)
qed

lemma publishStaticTransforms_total:
  assumes "\<not> n_has_tf_thread n" "n_publish_tf n \<Longrightarrow> n_camera_params n \<noteq> None"
  shows "\<exists>m. publishStaticTransforms E F n = Inr m"
proof (cases "n_publish_tf n")
  case True
  with assms(2) obtain p where "n_camera_params n = Some p" by blast
  from calc_with_params [OF this, of E F] True assms(1) show ?thesis by (auto simp: publishStaticTransforms_def)
qed (simp add: publishStaticTransforms_def)

end
