(* ===== verification/Node_Init.thy ===== *)
theory Node_Init
  imports Node_Setup Ros_Service Static_TF Std_Map
begin

text \<open>
  The order in which \<open>OBCameraNode::init\<close> brings the node up, and the dynamic reconfiguration, which
  the dynamic_reconfigure server also calls once when its callback is installed.
\<close>

section \<open>Parsing the edited video modes\<close>

fun split_on :: "char \<Rightarrow> string \<Rightarrow> string list" where
  "split_on c [] = [[]]"
| "split_on c (x # xs) =
     (if x = c then [] # split_on c xs
      else case split_on c xs of [] \<Rightarrow> [[x]] | t # ts \<Rightarrow> (x # t) # ts)"

definition is_space :: "char \<Rightarrow> bool" where
  "is_space c \<longleftrightarrow> (of_char c :: nat) \<in> {9, 10, 11, 12, 13, 32}"

definition is_digit :: "char \<Rightarrow> bool" where
  "is_digit c \<longleftrightarrow> 48 \<le> (of_char c :: nat) \<and> (of_char c :: nat) \<le> 57"

text \<open>\<open>std::stoi\<close>: white space, sign, digits; \<open>None\<close> is \<open>invalid_argument\<close> or \<open>out_of_range\<close>.\<close>

definition stoi :: "string \<Rightarrow> int option" where
  "stoi str =
     (let cs = dropWhile is_space str;
          (neg, ds) = (case cs of [] \<Rightarrow> (False, []) | c # r \<Rightarrow>
             if c = CHR ''-'' then (True, r) else if c = CHR ''+'' then (False, r) else (False, cs));
          digits = takeWhile is_digit ds;
          v = (if neg then - int (read_nat digits 0) else int (read_nat digits 0))
      in if digits = [] \<or> v < - (2 ^ 31) \<or> 2 ^ 31 \<le> v then None else Some v)"

text \<open>The build type is Release, so the \<open>assert\<close> on the number of parts is not compiled.\<close>

definition stoi_at :: "string list \<Rightarrow> nat \<Rightarrow> fault + int" where
  "stoi_at arr i =
     (if length arr \<le> i then Inl (OutOfBounds ''arr'')
      else case stoi (arr ! i) of None \<Rightarrow> Inl (Thrown ''stoi'') | Some v \<Rightarrow> Inr v)"

definition parse_mode :: "string \<Rightarrow> fault + (int \<times> int \<times> int)" where
  "parse_mode name =
     (let arr = split_on (CHR ''_'') name
      in and_then (stoi_at arr 0) (\<lambda>x. and_then (stoi_at arr 1) (\<lambda>y. and_then (stoi_at arr 2) (\<lambda>fps. Inr (x, y, fps)))))"

section \<open>Reconfiguration\<close>

text \<open>\<open>cfg_modes\<close> are the names and values of the JSON enumeration in \<open>edited_video_modes\<close>.\<close>

record AstraConfig =
  cfg_modes :: "(string \<times> int) list"
  cfg_ir_mode :: int
  cfg_color_mode :: int
  cfg_depth_mode :: int
  cfg_depth_align :: bool
  cfg_color_depth_synchronization :: bool

definition lookupVideoModeFromDynConfig :: "int \<Rightarrow> Node \<Rightarrow> (int \<times> int \<times> int) option" where
  "lookupVideoModeFromDynConfig index n = map_of (n_lookup n) index"

definition add_mode :: "string \<times> int \<Rightarrow> Node \<Rightarrow> Node outcome" where
  "add_mode nv n =
     (case parse_mode (fst nv) of
        Inl e \<Rightarrow> Inl (e, n)
      | Inr mode \<Rightarrow> Inr (n\<lparr>n_lookup := map_put (snd nv) mode (n_lookup n)\<rparr>))"

definition apply_mode :: "dev_env \<Rightarrow> stream_index_pair \<Rightarrow> int \<Rightarrow> Node \<Rightarrow> Node" where
  "apply_mode E s index n =
     (case lookupVideoModeFromDynConfig index n of
        Some (x, y, fps) \<Rightarrow>
          if hasSensor E (fst s)
          then n\<lparr>n_width := (n_width n)(s := x), n_height := (n_height n)(s := y), n_fps := (n_fps n)(s := fps)\<rparr>
          else n
      | None \<Rightarrow> n)"

definition apply_modes :: "dev_env \<Rightarrow> AstraConfig \<Rightarrow> Node \<Rightarrow> Node" where
  "apply_modes E config n =
     (let n = apply_mode E INFRA1 (cfg_ir_mode config) n;
          n = apply_mode E COLOR (cfg_color_mode config) n;
          n = apply_mode E DEPTH (cfg_depth_mode config) n;
          n = drop_align_without_color E (n\<lparr>n_depth_align := cfg_depth_align config\<rparr>)
      in n\<lparr>n_color_depth_synchronization := cfg_color_depth_synchronization config\<rparr>)"

definition restart_streams :: "dev_env \<Rightarrow> Node \<Rightarrow> Node outcome" where
  "restart_streams E n =
     and_then (stopStreams n) (\<lambda>n.
     and_then (setupVideoMode E n) (\<lambda>n.
       let n = snd (getCameraParams E (n\<lparr>n_camera_params := None\<rparr>))
       in startStreams E (issue (SleepForMs 500) n)))"

definition reconfigureCallback :: "dev_env \<Rightarrow> AstraConfig \<Rightarrow> Node \<Rightarrow> Node outcome" where
  "reconfigureCallback E config n =
     (if \<not> n_enable_reconfigure n then Inr n
      else and_then (fold_outcome add_mode (cfg_modes config) (n\<lparr>n_lookup := []\<rparr>)) (\<lambda>n.
             restart_streams E (apply_modes E config n)))"

definition sendKeepAlive :: "Node \<Rightarrow> Node" where
  "sendKeepAlive n = issue (DevSet XN_MODULE_PROPERTY_LASER_SECURE_KEEPALIVE 0) n"

section \<open>\<open>init\<close>\<close>

definition setupTopics :: "dev_env \<Rightarrow> fp_env \<Rightarrow> ros_params \<Rightarrow> Node \<Rightarrow> Node outcome" where
  "setupTopics E F P n =
     (let n = getParameters E P n;
          n = setupCameraInfoManager E n
      in and_then (setupDevices E n) (\<lambda>n.
           let n = setupCameraCtrlServices E n;
               n = setupPublishers E n;
               n = setupSyncMode E n
           in and_then (setupVideoMode E n) (\<lambda>n. publishStaticTransforms E F (snd (getCameraParams E n)))))"

text \<open>\<open>uvc_ok\<close> tells whether the constructor of the UVC driver returned.\<close>

definition setupUVCCamera :: "dev_env \<Rightarrow> fp_env \<Rightarrow> bool \<Rightarrow> Node \<Rightarrow> Node outcome" where
  "setupUVCCamera E F uvc_ok n =
     (if n_use_uvc_camera n
      then let n = snd (getColorCameraInfo E F n); n = snd (getSerialNumber E n)
           in if uvc_ok then Inr n
              else and_then (clean n) (\<lambda>n. Inl (Thrown ''Failed to initialize UVC camera'', n))
      else Inr n)"

definition clear_save_flags :: "Node \<Rightarrow> Node" where
  "clear_save_flags = fold (\<lambda>s n.
     let n = touch_stream s n
     in if stream_obj n s \<noteq> None then n\<lparr>n_save_images := (n_save_images n)(s := False)\<rparr> else n) IMAGE_STREAMS"

definition read_init_ir :: "dev_env \<Rightarrow> Node \<Rightarrow> Node" where
  "read_init_ir E n =
     (let (g, n) = getIRGain E n; n = n\<lparr>n_init_ir_gain := g\<rparr>;
          (e, n) = getIRExposure E n
      in n\<lparr>n_init_ir_exposure := u32 e\<rparr>)"

definition publish_info :: "dev_env \<Rightarrow> fp_env \<Rightarrow> stream_index_pair \<Rightarrow> Node \<Rightarrow> Node" where
  "publish_info E F s n =
     (if \<not> n_enable n s then n
      else if n_use_uvc_camera n \<and> s = COLOR then n
      else if s = COLOR then snd (getColorCameraInfo E F n)
      else if s = DEPTH then snd (getDepthCameraInfo E F n)
      else let width = n_width n s; height = n_height n s; f = getFocalLength E F s width n
           in snd (getIRCameraInfo E F width height f n))"

definition finish_init :: "dev_env \<Rightarrow> fp_env \<Rightarrow> Node \<Rightarrow> Node" where
  "finish_init E F n =
     (let n = (if n_enable_keep_alive n then issue (DevSet XN_MODULE_PROPERTY_WATCH_DOG_MODE 1) n else n);
          n = (if n_enable_pointcloud n then n\<lparr>n_has_xyz_node := True\<rparr> else n);
          n = (if n_enable_pointcloud_xyzrgb n then n\<lparr>n_has_xyzrgb_node := True\<rparr> else n)
      in fold (publish_info E F) IMAGE_STREAMS (n\<lparr>n_run_poll_frame_thread := True, n_initialized := True\<rparr>))"

definition init :: "dev_env \<Rightarrow> fp_env \<Rightarrow> ros_params \<Rightarrow> AstraConfig \<Rightarrow> bool \<Rightarrow> Node \<Rightarrow> Node outcome" where
  "init E F P config uvc_ok n =
     (if \<not> deviceValid E then Inl (Thrown ''OBCameraNode::init device is not valid'', n)
      else and_then (setupTopics E F P (setupConfig (n\<lparr>n_is_running := True\<rparr>))) (\<lambda>n.
           and_then (setupUVCCamera E F uvc_ok (if n_enable_d2c_viewer n then n\<lparr>n_has_d2c_viewer := True\<rparr> else n)) (\<lambda>n.
           and_then (setupCameraParameter E (setupD2CConfig E n)) (\<lambda>n.
           let n = read_init_ir E (clear_save_flags n)
           in and_then (if n_enable_reconfigure n then reconfigureCallback E config n else Inr n) (\<lambda>n.
                Inr (finish_init E F n))))))"

section \<open>What holds when \<open>init\<close> returns\<close>

text \<open>Quantifiers over stream indices stay whole.\<close>

declare split_paired_All [simp del]

definition idle :: "Node \<Rightarrow> bool" where
  "idle n \<longleftrightarrow> n_stream_started n = (\<lambda>_. False) \<and> n_subscribers n = (\<lambda>_. 0)"

text \<open>An enabled stream, other than a colour stream served by UVC, has a sensor and an object.\<close>

definition created :: "dev_env \<Rightarrow> Node \<Rightarrow> stream_index_pair \<Rightarrow> bool" where
  "created E n s \<longleftrightarrow> (n_enable n s \<and> \<not> (n_use_uvc_camera n \<and> s = COLOR) \<longrightarrow>
     hasSensor E (fst s) \<and> stream_obj n s \<noteq> None)"

definition moded :: "Node \<Rightarrow> stream_index_pair \<Rightarrow> bool" where
  "moded n s \<longleftrightarrow> (n_enable n s \<and> \<not> (n_use_uvc_camera n \<and> s = COLOR) \<longrightarrow> n_stream_video_mode n s \<noteq> None)"

definition basis :: "Node \<Rightarrow> bool \<times> bool \<times> int \<times> int" where
  "basis n = (n_is_running n, n_use_uvc_camera n, n_ir_gain n, n_ir_exposure n)"

lemma view_eqD:
  assumes "view m = view n"
  shows "idle m = idle n" "created E m = created E n" "moded m = moded n" "basis m = basis n"
  using assms by (auto simp: view_def idle_def created_def moded_def basis_def fun_eq_iff)

lemma stream_obj_put [simp]:
  "stream_obj (n\<lparr>n_streams := (n_streams m)(s := v)\<rparr>) t =
     (if t = s then (case v of Some (Some x) \<Rightarrow> Some x | _ \<Rightarrow> None) else stream_obj m t)"
  "stream_obj (n\<lparr>n_next_stream := k\<rparr>) = stream_obj n"
  "stream_obj (n\<lparr>n_supported_video_modes := v'\<rparr>) = stream_obj n"
  "stream_obj (n\<lparr>n_stream_video_mode := u\<rparr>) = stream_obj n" "stream_obj (n\<lparr>n_images := w\<rparr>) = stream_obj n"
  by (auto simp: stream_obj_def fun_eq_iff)

lemma setup_device_spec:
  assumes "setup_device E s n = Inr m" "idle n"
  shows "idle m \<and> basis m = basis n \<and> created E m s \<and> (\<forall>t. t \<noteq> s \<longrightarrow> created E m t = created E n t)"
proof -
  let ?k = "n\<lparr>n_stream_started := (n_stream_started n)(s := False)\<rparr>"
  have k: "idle ?k" "basis ?k = basis n" "created E ?k = created E n"
    using assms(2) by (auto simp: idle_def basis_def created_def fun_eq_iff)
  show ?thesis
  proof (cases "n_enable n s \<and> hasSensor E (fst s)")
    case True
    then have "m = ?k \<and> n_use_uvc_camera n \<and> s = COLOR \<or>
      m = (issue (StreamCreate (fst s)) ?k)\<lparr>n_streams := (n_streams n)(s := Some (Some (n_next_stream n))),
               n_next_stream := Suc (n_next_stream n)\<rparr>"
      using assms(1) by (auto simp: setup_device_def Let_def split: if_splits)
    then show ?thesis
      using k True by (auto simp: idle_def basis_def created_def)
  next
    case False
    let ?t = "touch_stream s ?k"
    from False assms(1) have "m = (if stream_obj ?t s \<noteq> None then ?t\<lparr>n_streams := (n_streams ?t)(s := Some None)\<rparr>
        else ?t)\<lparr>n_enable := (n_enable n)(s := False)\<rparr>"
      by (auto simp: setup_device_def Let_def)
    moreover have "idle ?t" "basis ?t = basis n" "created E ?t = created E n"
      using view_eqD [of ?t ?k] k by simp_all
    moreover have "n_enable ?t = n_enable n" "stream_obj ?t = stream_obj n" "n_use_uvc_camera ?t = n_use_uvc_camera n"
      by simp_all
    ultimately show ?thesis
      by (simp add: idle_def basis_def created_def)
  qed
qed

lemma setup_video_mode_spec:
  assumes "setup_video_mode E s n = Inr m" "idle n" "created E n s"
  shows "idle m \<and> basis m = basis n \<and> moded m s \<and> (\<forall>t. created E n t \<longrightarrow> created E m t) \<and>
    (\<forall>t. t \<noteq> s \<longrightarrow> moded m t = moded n t)"
proof -
  let ?k = "n\<lparr>n_supported_video_modes := (n_supported_video_modes n)(s := Some [])\<rparr>"
  note k = view_eqD [of ?k n, OF view_updates(25)]
  consider (off) "m = ?k" "\<not> (n_enable n s \<and> \<not> (n_use_uvc_camera n \<and> s = COLOR))"
    | (set) k' v w where "view k' = view n" "m = k'\<lparr>n_stream_video_mode := (n_stream_video_mode n)(s := Some v), n_images := w\<rparr>"
    | (disabled) k' where "view k' = view n" "m = k'\<lparr>n_enable := (n_enable n)(s := False)\<rparr>"
  proof (cases "n_enable n s \<and> \<not> (n_use_uvc_camera n \<and> s = COLOR)")
    case False
    then have "setup_video_mode E s n = Inr ?k" by (auto simp: setup_video_mode_def Let_def)
    with assms(1) False off show ?thesis by simp
  next
    case True
    let ?k' = "n\<lparr>n_supported_video_modes := (n_supported_video_modes n)(s := Some (supportedModes E (fst s)))\<rparr>"
    have k': "view ?k' = view n" by simp
    have "setup_video_mode E s n = Inr (case choose_mode (wanted_mode n s) (supportedModes E (fst s)) of
        Some v \<Rightarrow> ?k'\<lparr>n_stream_video_mode := (n_stream_video_mode n)(s := Some v),
                     n_images := (n_images n)(s := Some (n_height n s, n_width n s))\<rparr>
      | None \<Rightarrow> ?k'\<lparr>n_enable := (n_enable n)(s := False)\<rparr>)"
    proof -
      have g: "(hasSensor E (fst s) \<and> n_enable n s) = True" "(n_use_uvc_camera n \<and> s = COLOR) = False"
        "(stream_obj n s = None) = False" "\<And>v. wanted_mode (n\<lparr>n_supported_video_modes := v\<rparr>) s = wanted_mode n s"
        using True assms(3) by (auto simp: created_def wanted_mode_def)
      show ?thesis
        by (cases "choose_mode (wanted_mode n s) (supportedModes E (fst s))")
           (simp_all add: setup_video_mode_def Let_def g del: fun_upd_apply)
    qed
    with assms(1) set [OF k'] disabled [OF k'] show ?thesis
      by (cases "choose_mode (wanted_mode n s) (supportedModes E (fst s))") (simp_all, blast)
  qed
  then show ?thesis
  proof cases
    case off
    have "moded n s" using off(2) unfolding moded_def by blast
    then show ?thesis using assms(2) k off(1) by simp
  next
    case set
    have "n_stream_started k' = n_stream_started n" "n_subscribers k' = n_subscribers n"
      "n_is_running k' = n_is_running n" "n_enable k' = n_enable n" "stream_obj k' = stream_obj n"
      "n_stream_video_mode k' = n_stream_video_mode n" "n_use_uvc_camera k' = n_use_uvc_camera n"
      "n_ir_gain k' = n_ir_gain n" "n_ir_exposure k' = n_ir_exposure n"
      using set(1) by (simp_all add: view_def)
    with set(2) assms(2) show ?thesis
      by (simp add: idle_def basis_def created_def moded_def)
  next
    case disabled
    have "n_stream_started k' = n_stream_started n" "n_subscribers k' = n_subscribers n"
      "n_is_running k' = n_is_running n" "n_enable k' = n_enable n" "stream_obj k' = stream_obj n"
      "n_stream_video_mode k' = n_stream_video_mode n" "n_use_uvc_camera k' = n_use_uvc_camera n"
      "n_ir_gain k' = n_ir_gain n" "n_ir_exposure k' = n_ir_exposure n"
      using disabled(1) by (simp_all add: view_def)
    with disabled(2) assms(2) show ?thesis
      by (simp add: idle_def basis_def created_def moded_def)
  qed
qed

lemma setupDevices_spec:
  assumes "setupDevices E n = Inr m" "idle n"
  shows "idle m \<and> basis m = basis n \<and> (\<forall>s \<in> set IMAGE_STREAMS. created E m s)"
proof -
  obtain a b c where s: "setup_device E DEPTH n = Inr a" "setup_device E INFRA1 a = Inr b"
    "setup_device E COLOR b = Inr c" "view m = view c"
    using assms(1) by (auto simp: setupDevices_def IMAGE_STREAMS_def and_then_eq_Inr)
  note a = setup_device_spec [OF s(1) assms(2)]
  then have b: "idle b \<and> basis b = basis a \<and> created E b INFRA1 \<and> (\<forall>t. t \<noteq> INFRA1 \<longrightarrow> created E b t = created E a t)"
    using setup_device_spec [OF s(2)] by blast
  then have c: "idle c \<and> basis c = basis b \<and> created E c COLOR \<and> (\<forall>t. t \<noteq> COLOR \<longrightarrow> created E c t = created E b t)"
    using setup_device_spec [OF s(3)] by blast
  show ?thesis
    unfolding view_eqD [OF s(4)] set_IMAGE_STREAMS using a b c by simp
qed

lemma setupVideoMode_spec:
  assumes "setupVideoMode E n = Inr m" "idle n" "\<forall>s \<in> set IMAGE_STREAMS. created E n s"
  shows "idle m \<and> basis m = basis n \<and> (\<forall>s \<in> set IMAGE_STREAMS. created E m s \<and> moded m s)"
proof -
  let ?n = "if \<not> n_use_uvc_camera n \<and> n_enable n INFRA1 \<and> n_enable n COLOR
               then n\<lparr>n_enable := (n_enable n)(INFRA1 := False)\<rparr> else n"
  obtain a b c where s: "setup_video_mode E DEPTH ?n = Inr a" "setup_video_mode E INFRA1 a = Inr b"
    "setup_video_mode E COLOR b = Inr c" "m = c"
    using assms(1) by (auto simp: setupVideoMode_def IMAGE_STREAMS_def and_then_eq_Inr)
  have n: "idle ?n" "basis ?n = basis n" "\<And>s. created E n s \<Longrightarrow> created E ?n s"
    using assms(2) by (auto simp: idle_def basis_def created_def)
  have cr: "created E n DEPTH" "created E n INFRA1" "created E n COLOR"
    using assms(3) by (simp_all add: set_IMAGE_STREAMS)
  note a = setup_video_mode_spec [OF s(1) n(1) n(3) [OF cr(1)]]
  then have ca: "created E a INFRA1" "created E a COLOR" "created E a DEPTH" using n(3) cr by blast+
  note b = setup_video_mode_spec [OF s(2) _ ca(1)]
  then have cb: "created E b INFRA1" "created E b COLOR" "created E b DEPTH" "idle b" "basis b = basis a"
    using a ca by blast+
  note c = setup_video_mode_spec [OF s(3) cb(4) cb(2)]
  have "moded b DEPTH" "moded b INFRA1" using a b by auto
  then have "moded c DEPTH" "moded c INFRA1" "moded c COLOR" using c by auto
  moreover have "created E c DEPTH" "created E c INFRA1" "created E c COLOR" using c cb by auto
  ultimately show ?thesis
    using a cb c n(2) by (simp add: s(4) set_IMAGE_STREAMS)
qed

text \<open>The steps that leave the view alone.\<close>

lemma view_apply_mode [simp]: "view (apply_mode E s i n) = view n"
  by (auto simp: apply_mode_def split: option.split)

lemma view_drop_align [simp]: "view (drop_align_without_color E n) = view n"
  by (simp add: drop_align_without_color_def)

lemma view_setup_steps [simp]:
  "view (setupConfig n) = view n" "view (setupCameraInfoManager E n) = view n"
  "view (setupCameraCtrlServices E n) = view n" "view (setupPublishers E n) = view n"
  "view (setupSyncMode E n) = view n" "view (setupD2CConfig E n) = view n"
  "view (clear_save_flags n) = view n" "view (read_init_ir E n) = view n"
  "view (apply_modes E config n) = view n"
proof -
  show "view (setupConfig n) = view n"
    unfolding setupConfig_def Let_def
    by (subst view_fold) (simp_all add: config_stream_def view_def stream_obj_def fun_eq_iff)
  show "view (setupCameraCtrlServices E n) = view n"
    by (simp add: setupCameraCtrlServices_def Let_def view_fold)
  show "view (setupPublishers E n) = view n"
    by (simp add: setupPublishers_def setup_publisher_def Let_def view_fold)
  show "view (clear_save_flags n) = view n"
    by (simp add: clear_save_flags_def Let_def view_fold)
  show "view (apply_modes E config n) = view n"
    by (simp add: apply_modes_def Let_def)
qed (simp_all add: setupCameraInfoManager_def setupSyncMode_def setupD2CConfig_def setImageRegistrationMode_def
  setDepthColorSync_def setDepthToColorResolution_def Let_def read_init_ir_def getIRGain_def getIRExposure_def)

lemma view_finish_init: "view (finish_init E F n) = view n"
proof -
  have "view (publish_info E F s m) = view m" for s m by (simp add: publish_info_def Let_def)
  then have "view (fold (publish_info E F) IMAGE_STREAMS m) = view m" for m by (rule view_fold)
  then show ?thesis by (simp add: finish_init_def Let_def)
qed

lemma fold_outcome_view:
  assumes "fold_outcome f xs n = Inr m" "\<And>x n m. f x n = Inr m \<Longrightarrow> view m = view n"
  shows "view m = view n"
  using assms(1)
proof (induction xs arbitrary: n)
  case (Cons x xs)
  then obtain k where "f x n = Inr k" "fold_outcome f xs k = Inr m" by (auto simp: and_then_eq_Inr)
  with Cons.IH assms(2) show ?case by metis
qed simp

lemma view_setupCameraParameter: "setupCameraParameter E n = Inr m \<Longrightarrow> view m = view n"
  unfolding setupCameraParameter_def
  by (erule fold_outcome_view) (auto simp: setup_parameter_def Let_def split: if_splits)

lemma view_add_modes: "fold_outcome add_mode xs n = Inr m \<Longrightarrow> view m = view n"
  by (erule fold_outcome_view) (auto simp: add_mode_def split: sum.splits)

lemma view_setupUVCCamera: "setupUVCCamera E F ok n = Inr m \<Longrightarrow> view m = view n"
  by (auto simp: setupUVCCamera_def Let_def getSerialNumber_def and_then_eq_Inr split: if_splits)

lemma idle_streams:
  assumes "idle n"
  shows "stopStreams n = Inr n" "startStreams E n = Inr n"
  using assms by (simp_all add: idle_def stopStreams_def startStreams_def startStream_def IMAGE_STREAMS_def)

text \<open>What reading the parameters does to the fields of interest.\<close>

definition pview :: "Node \<Rightarrow> (stream_index_pair \<Rightarrow> bool) \<times> (stream_index_pair \<Rightarrow> nat) \<times> bool \<times> bool \<times> int \<times> int" where
  "pview n = (n_stream_started n, n_subscribers n, n_is_running n, n_use_uvc_camera n, n_ir_gain n, n_ir_exposure n)"

lemma pview_steps [simp]:
  "pview (read_frame_ids s n) = pview n" "pview (read_stream_params P s n) = pview n"
  "pview (drop_align_without_color E n) = pview n"
  "n_init_ir_gain (read_frame_ids s n) = n_init_ir_gain n"
  "n_init_ir_gain (read_stream_params P s n) = n_init_ir_gain n"
  "n_init_ir_exposure (read_frame_ids s n) = n_init_ir_exposure n"
  "n_init_ir_exposure (read_stream_params P s n) = n_init_ir_exposure n"
  by (simp_all add: pview_def read_frame_ids_def read_stream_params_def Let_def drop_align_without_color_def)

lemma pview_read_globals:
  "pview (read_globals P n) = (n_stream_started n, n_subscribers n, n_is_running n, n_use_uvc_camera n,
     p_int P ''ir_gain'' (n_init_ir_gain n), u32 (p_int P ''ir_exposure'' (n_init_ir_exposure n)))"
  by (simp add: pview_def read_globals_def)

lemma pview_reads:
  assumes "k = fold (read_stream_params P) IMAGE_STREAMS (fold read_frame_ids IMAGE_STREAMS n)"
  shows "pview k = pview n" "n_init_ir_gain k = n_init_ir_gain n" "n_init_ir_exposure k = n_init_ir_exposure n"
  by (simp_all add: assms IMAGE_STREAMS_def)

lemma pview_getParameters:
  "pview (getParameters E P n) = (n_stream_started n, n_subscribers n, n_is_running n, n_use_uvc_camera n,
     p_int P ''ir_gain'' (n_init_ir_gain n), u32 (p_int P ''ir_exposure'' (n_init_ir_exposure n)))"
proof -
  let ?k = "\<lambda>n. fold (read_stream_params P) IMAGE_STREAMS (fold read_frame_ids IMAGE_STREAMS n)"
  let ?n = "n\<lparr>n_camera_name := p_str P ''camera_name'' ''camera'',
    n_base_frame_id := p_str P ''camera_name'' ''camera'' @ ''_link''\<rparr>"
  note k = pview_reads [OF refl, of P ?n]
  have u: "pview (m\<lparr>n_soft_filter := a, n_soft_filter_max_diff := b, n_soft_filter_max_speckle_size := c\<rparr>) = pview m"
    "pview (m\<lparr>n_depth_align := d\<rparr>) = pview m" for m a b c d by (simp_all add: pview_def)
  have "pview (getParameters E P n) = pview (read_globals P (?k ?n))"
    by (simp add: getParameters_def Let_def u)
  also have "\<dots> = (n_stream_started n, n_subscribers n, n_is_running n, n_use_uvc_camera n,
     p_int P ''ir_gain'' (n_init_ir_gain n), u32 (p_int P ''ir_exposure'' (n_init_ir_exposure n)))"
    using k by (simp add: pview_read_globals) (simp add: pview_def)
  finally show ?thesis .
qed

lemma getParameters_spec:
  "idle (getParameters E P n) = idle n"
  "n_is_running (getParameters E P n) = n_is_running n"
  "n_use_uvc_camera (getParameters E P n) = n_use_uvc_camera n"
  "n_ir_gain (getParameters E P n) = p_int P ''ir_gain'' (n_init_ir_gain n)"
  "n_ir_exposure (getParameters E P n) = u32 (p_int P ''ir_exposure'' (n_init_ir_exposure n))"
  using pview_getParameters [of E P n] by (simp_all add: pview_def idle_def)

definition ready :: "dev_env \<Rightarrow> Node \<Rightarrow> bool" where
  "ready E n \<longleftrightarrow> idle n \<and> (\<forall>s \<in> set IMAGE_STREAMS. created E n s \<and> moded n s)"

lemma ready_view: "view m = view n \<Longrightarrow> ready E m = ready E n"
  using view_eqD [of m n] by (simp add: ready_def)

lemma ready_reconfigure:
  assumes "reconfigureCallback E config n = Inr m" "ready E n"
  shows "ready E m \<and> basis m = basis n"
proof (cases "n_enable_reconfigure n")
  case True
  with assms(1) obtain a where a: "fold_outcome add_mode (cfg_modes config) (n\<lparr>n_lookup := []\<rparr>) = Inr a"
    and r: "restart_streams E (apply_modes E config a) = Inr m"
    by (auto simp: reconfigureCallback_def and_then_eq_Inr)
  let ?b = "apply_modes E config a"
  have v: "view ?b = view n" using view_add_modes [OF a] by simp
  then have b: "idle ?b" "\<forall>s \<in> set IMAGE_STREAMS. created E ?b s" "basis ?b = basis n"
    using assms(2) view_eqD [OF v] by (simp_all add: ready_def)
  from r obtain c where c: "setupVideoMode E ?b = Inr c"
    and m: "startStreams E (issue (SleepForMs 500) (snd (getCameraParams E (c\<lparr>n_camera_params := None\<rparr>)))) = Inr m"
    by (auto simp: restart_streams_def idle_streams [OF b(1)] and_then_eq_Inr Let_def)
  let ?d = "issue (SleepForMs 500) (snd (getCameraParams E (c\<lparr>n_camera_params := None\<rparr>)))"
  have d: "view ?d = view c" by simp
  from setupVideoMode_spec [OF c b(1,2)] have "ready E c" "basis c = basis n" using b(3) by (auto simp: ready_def)
  then have "ready E ?d" "basis ?d = basis n" using ready_view [OF d] view_eqD(4) [OF d] by auto
  moreover from this(1) have "m = ?d" using m idle_streams(2) [of ?d E] by (simp add: ready_def)
  ultimately show ?thesis by simp
qed (use assms in \<open>simp add: reconfigureCallback_def\<close>)

lemma setupTopics_ready:
  assumes "setupTopics E F P n = Inr m" "idle n"
  shows "ready E m \<and> basis m = (n_is_running n, n_use_uvc_camera n, p_int P ''ir_gain'' (n_init_ir_gain n),
    u32 (p_int P ''ir_exposure'' (n_init_ir_exposure n)))"
proof -
  let ?a = "setupCameraInfoManager E (getParameters E P n)"
  have va: "view ?a = view (getParameters E P n)" by simp
  obtain b where b: "setupDevices E ?a = Inr b"
    and c: "and_then (setupVideoMode E (setupSyncMode E (setupPublishers E (setupCameraCtrlServices E b))))
      (\<lambda>n. publishStaticTransforms E F (snd (getCameraParams E n))) = Inr m"
    using assms(1) by (auto simp: setupTopics_def Let_def and_then_eq_Inr)
  have "idle ?a" using view_eqD(1) [OF va] assms(2) by (simp add: getParameters_spec)
  note b' = setupDevices_spec [OF b this]
  let ?c = "setupSyncMode E (setupPublishers E (setupCameraCtrlServices E b))"
  have vc: "view ?c = view b" by simp
  from c obtain d where d: "setupVideoMode E ?c = Inr d"
    and p: "publishStaticTransforms E F (snd (getCameraParams E d)) = Inr m"
    by (auto simp: and_then_eq_Inr)
  have "idle ?c" "\<forall>s \<in> set IMAGE_STREAMS. created E ?c s" using view_eqD [OF vc] b' by auto
  note d' = setupVideoMode_spec [OF d this]
  have vm: "view m = view d" by (rule publishStaticTransforms_Inr [OF p]) simp
  have "basis m = basis (getParameters E P n)"
    using view_eqD(4) [OF vm] d' view_eqD(4) [OF vc] b' view_eqD(4) [OF va] by simp
  moreover have "ready E m" using ready_view [OF vm] d' by (simp add: ready_def)
  ultimately show ?thesis by (simp add: basis_def getParameters_spec)
qed

lemma getCameraParams_initialized: "getCameraParams E n = (p, m) \<Longrightarrow> n_initialized m = n_initialized n"
  by (auto simp: getCameraParams_def read_params_def Let_def split: option.splits if_splits)

lemma getColorCameraParams_initialized:
  "getColorCameraParams E n = (p, m) \<Longrightarrow> n_initialized m = n_initialized n"
  by (auto simp: getColorCameraParams_def Let_def split: option.splits if_splits)

lemma getIRCameraInfo_initialized: "getIRCameraInfo E F w h f n = (i, m) \<Longrightarrow> n_initialized m = n_initialized n"
  using getCameraParams_initialized [of E n]
  by (auto simp: getIRCameraInfo_def Let_def split: option.splits prod.splits if_splits)

lemma info_initialized [simp]:
  "n_initialized (snd (getIRCameraInfo E F w h f n)) = n_initialized n"
  "n_initialized (snd (getColorCameraInfo E F n)) = n_initialized n"
  "n_initialized (snd (getDepthCameraInfo E F n)) = n_initialized n"
proof -
  show "n_initialized (snd (getIRCameraInfo E F w h f n)) = n_initialized n"
    by (metis getIRCameraInfo_initialized prod.collapse)
  obtain p m where pm: "(if usbProductId E = DABAI_DCW2_DEPTH_PID \<or> usbProductId E = DABAI_MAX_PRO_PID \<or>
      usbProductId E = GEMINI_UW_PID then getColorCameraParams E n else getCameraParams E n) = (p, m)" by fastforce
  then have "n_initialized m = n_initialized n"
    by (metis getColorCameraParams_initialized getCameraParams_initialized)
  then show "n_initialized (snd (getColorCameraInfo E F n)) = n_initialized n"
    by (simp add: getColorCameraInfo_def Let_def pm split: option.split)
  obtain i m where im: "getIRCameraInfo E F (n_width n DEPTH) (n_height n DEPTH)
      (getFocalLength E F DEPTH (n_height n DEPTH) n) n = (i, m)" by fastforce
  obtain q k where qk: "getCameraParams E m = (q, k)" by fastforce
  show "n_initialized (snd (getDepthCameraInfo E F n)) = n_initialized n"
    using getIRCameraInfo_initialized [OF im] getCameraParams_initialized [OF qk]
    by (simp add: getDepthCameraInfo_def Let_def im qk)
qed

lemma finish_init_initialized: "n_initialized (finish_init E F n)"
proof -
  have "n_initialized (publish_info E F s m) = n_initialized m" for s m
    by (simp add: publish_info_def Let_def)
  then have "n_initialized (fold (publish_info E F) ss m) = n_initialized m" for ss m
    by (induction ss arbitrary: m) simp_all
  then show ?thesis by (simp add: finish_init_def Let_def)
qed

lemma init_result:
  assumes "init E F P config uvc_ok n0 = Inr n" "idle n0"
  shows "ready E n \<and> n_initialized n \<and> basis n = (True, n_use_uvc_camera n0, p_int P ''ir_gain'' (n_init_ir_gain n0),
    u32 (p_int P ''ir_exposure'' (n_init_ir_exposure n0)))"
proof -
  let ?n = "setupConfig (n0\<lparr>n_is_running := True\<rparr>)"
  have v: "view ?n = view (n0\<lparr>n_is_running := True\<rparr>)" by simp
  have i: "n_init_ir_gain ?n = n_init_ir_gain n0 \<and> n_init_ir_exposure ?n = n_init_ir_exposure n0"
    by (simp add: setupConfig_def Let_def config_stream_def IMAGE_STREAMS_def)
  obtain a b c d where a: "setupTopics E F P ?n = Inr a"
    and b: "setupUVCCamera E F uvc_ok (if n_enable_d2c_viewer a then a\<lparr>n_has_d2c_viewer := True\<rparr> else a) = Inr b"
    and c: "setupCameraParameter E (setupD2CConfig E b) = Inr c"
    and d: "(if n_enable_reconfigure (read_init_ir E (clear_save_flags c))
      then reconfigureCallback E config (read_init_ir E (clear_save_flags c))
      else Inr (read_init_ir E (clear_save_flags c))) = Inr d"
    and n: "n = finish_init E F d"
  proof -
    have dv: "deviceValid E" using assms(1) by (cases "deviceValid E") (simp_all add: init_def)
    show thesis
      using assms(1) that unfolding init_def Let_def if_not_P [OF dv [THEN not_not [THEN iffD2]]] and_then_eq_Inr
      by blast
  qed
  have "idle ?n" using assms(2) view_eqD(1) [OF v] by (simp add: idle_def)
  note a' = setupTopics_ready [OF a this]
  have "view b = view (if n_enable_d2c_viewer a then a\<lparr>n_has_d2c_viewer := True\<rparr> else a)"
    using view_setupUVCCamera [OF b] .
  then have "view b = view a" by simp
  then have vc: "view (read_init_ir E (clear_save_flags c)) = view a" using view_setupCameraParameter [OF c] by simp
  have r: "ready E (read_init_ir E (clear_save_flags c))" using a' ready_view [OF vc] by simp
  have d': "ready E d \<and> basis d = basis (read_init_ir E (clear_save_flags c))"
  proof (cases "n_enable_reconfigure (read_init_ir E (clear_save_flags c))")
    case True
    then show ?thesis using ready_reconfigure [OF _ r] d by simp
  next
    case False
    then show ?thesis using d r by simp
  qed
  note vn = view_finish_init [of E F d]
  show ?thesis
    using ready_view [OF vn] view_eqD(4) [OF vn] d' view_eqD(4) [OF vc] a' view_eqD(4) [OF v] i
    by (simp add: n finish_init_initialized basis_def)
qed

lemma ready_startable:
  assumes "ready E n" "n_initialized n" "n_is_running n" "s \<in> set IMAGE_STREAMS" "n_enable n s"
    "\<not> (n_use_uvc_camera n \<and> s = COLOR)" "\<not> (usbProductId E = ASTRA_PRO_DEPTH_PID \<and> s = COLOR)"
  shows "startable E n s"
proof -
  have "created E n s" "moded n s" "idle n" using assms(1,4) by (simp_all add: ready_def)
  then show ?thesis
    using assms(2-7) unfolding created_def moded_def idle_def startable_def by auto
qed

lemma ready_on_demand: "ready E n \<Longrightarrow> on_demand_inv n"
  by (rule on_demandI) (simp add: ready_def idle_def)

section \<open>\<open>init\<close> succeeds on a working device\<close>

lemma setup_device_total: "(\<And>h t. dev_rc E h (StreamCreate t) = 0) \<Longrightarrow> \<not> faulted (setup_device E s n)"
  by (simp add: setup_device_def Let_def rc_of_def)

lemma not_faulted: "\<not> faulted r \<longleftrightarrow> (\<exists>m. r = Inr m)"
  by (cases r) auto

lemma setup_video_mode_total:
  assumes "created E n s"
  shows "\<not> faulted (setup_video_mode E s n)"
proof (cases "n_enable n s \<and> \<not> (n_use_uvc_camera n \<and> s = COLOR)")
  case True
  then have "(stream_obj n s = None) = False" "hasSensor E (fst s)" using assms by (auto simp: created_def)
  then show ?thesis
    using True by (auto simp: setup_video_mode_def Let_def split: option.split)
qed (auto simp: setup_video_mode_def Let_def)

lemma setupVideoMode_total:
  assumes "idle n" "\<forall>s \<in> set IMAGE_STREAMS. created E n s"
  shows "\<exists>m. setupVideoMode E n = Inr m"
proof -
  let ?n = "if \<not> n_use_uvc_camera n \<and> n_enable n INFRA1 \<and> n_enable n COLOR
               then n\<lparr>n_enable := (n_enable n)(INFRA1 := False)\<rparr> else n"
  have n: "idle ?n" "\<And>s. created E n s \<Longrightarrow> created E ?n s" using assms(1) by (auto simp: idle_def created_def)
  have cr: "created E n DEPTH" "created E n INFRA1" "created E n COLOR"
    using assms(2) by (simp_all add: set_IMAGE_STREAMS)
  obtain a where a: "setup_video_mode E DEPTH ?n = Inr a"
    using setup_video_mode_total [OF n(2) [OF cr(1)]] unfolding not_faulted by blast
  note a' = setup_video_mode_spec [OF a n(1) n(2) [OF cr(1)]]
  then have ca: "created E a INFRA1" "created E a COLOR" "idle a" using n(2) cr by blast+
  obtain b where b: "setup_video_mode E INFRA1 a = Inr b"
    using setup_video_mode_total [OF ca(1)] unfolding not_faulted by blast
  have "created E b COLOR" using setup_video_mode_spec [OF b ca(3,1)] ca by blast
  then obtain c where c: "setup_video_mode E COLOR b = Inr c"
    using setup_video_mode_total unfolding not_faulted by blast
  show ?thesis using a b c by (simp add: setupVideoMode_def IMAGE_STREAMS_def Let_def)
qed

lemma setupCameraParameter_total:
  assumes "\<not> n_use_uvc_camera n" "\<forall>s \<in> set IMAGE_STREAMS. created E n s"
  shows "\<exists>m. setupCameraParameter E n = Inr m"
proof -
  have one: "\<exists>m. setup_parameter E s k = Inr m \<and> view m = view n" if "view k = view n" "s \<in> set IMAGE_STREAMS" for s k
  proof -
    have "created E k s" using view_eqD(2) [OF that(1), of E] assms(2) that(2) by simp
    moreover have "\<not> n_use_uvc_camera k" using that(1) assms(1) by (simp add: view_def)
    ultimately have "\<not> faulted (setup_parameter E s k)"
      by (auto simp: setup_parameter_def created_def Let_def)
    then obtain m where m: "setup_parameter E s k = Inr m" unfolding not_faulted by blast
    then have "fold_outcome (setup_parameter E) [s] k = Inr m" by (simp add: fold_outcome_single)
    then have "view m = view k"
      by (rule fold_outcome_view) (auto simp: setup_parameter_def Let_def split: if_splits)
    with m that(1) show ?thesis by auto
  qed
  obtain a where a: "setup_parameter E DEPTH n = Inr a" "view a = view n"
    using one [of n DEPTH] by (auto simp: set_IMAGE_STREAMS)
  obtain b where b: "setup_parameter E INFRA1 a = Inr b" "view b = view n"
    using one [of a INFRA1] a by (auto simp: set_IMAGE_STREAMS)
  obtain c where c: "setup_parameter E COLOR b = Inr c"
    using one [of b COLOR] b by (auto simp: set_IMAGE_STREAMS)
  show ?thesis using a b c by (simp add: setupCameraParameter_def IMAGE_STREAMS_def)
qed

definition parses :: "AstraConfig \<Rightarrow> bool" where
  "parses config \<longleftrightarrow> list_all (\<lambda>nv. \<not> isl (parse_mode (fst nv))) (cfg_modes config)"

lemma add_modes_total:
  "list_all (\<lambda>nv. \<not> isl (parse_mode (fst nv))) xs \<Longrightarrow> \<exists>m. fold_outcome add_mode xs n = Inr m"
  by (induction xs arbitrary: n) (auto simp: add_mode_def and_then_eq_Inr split: sum.splits)

lemma setupDevices_total:
  assumes "\<And>h t. dev_rc E h (StreamCreate t) = 0"
  shows "\<exists>m. setupDevices E n = Inr m"
proof -
  have "\<not> faulted (fold_outcome (setup_device E) IMAGE_STREAMS n)"
    by (rule fold_outcome_total) (rule setup_device_total [OF assms])
  then show ?thesis by (auto simp: setupDevices_def not_faulted)
qed

text \<open>What decides whether the transforms can be computed, up to the point where they are.\<close>

type_synonym frame_names = "string \<times> string list \<times> string list \<times> tf_msg list"

definition tf_frames :: "Node \<Rightarrow> frame_names" where
  "tf_frames n = (n_base_frame_id n, map (n_frame_id n) IMAGE_STREAMS, map (n_optical_frame_id n) IMAGE_STREAMS,
     n_static_tf n)"

definition tf_state :: "Node \<Rightarrow> bool \<times> bool \<times> OBCameraParams option \<times> frame_names" where
  "tf_state n = (n_publish_tf n, n_has_tf_thread n, n_camera_params n, tf_frames n)"

text \<open>The names that \<open>getParameters\<close> gives to the frames of a camera.\<close>

definition named_frames :: "ros_params \<Rightarrow> Node \<Rightarrow> frame_names" where
  "named_frames P n =
     (let cam = p_str P ''camera_name'' ''camera'';
          name = (\<lambda>suffix s. cam @ ''_'' @ n_stream_name n s @ suffix)
      in (cam @ ''_link'', map (name ''_frame'') IMAGE_STREAMS, map (name ''_optical_frame'') IMAGE_STREAMS,
          n_static_tf n))"

lemma tf_state_fold: "(\<And>x n. tf_state (f x n) = tf_state n) \<Longrightarrow> tf_state (fold f xs n) = tf_state n"
  by (induction xs arbitrary: n) simp_all

lemma tf_state_fold_outcome:
  assumes "fold_outcome f xs n = Inr m" "\<And>x n m. f x n = Inr m \<Longrightarrow> tf_state m = tf_state n"
  shows "tf_state m = tf_state n"
  using assms(1)
proof (induction xs arbitrary: n)
  case (Cons x xs)
  then obtain k where "f x n = Inr k" "fold_outcome f xs k = Inr m" by (auto simp: and_then_eq_Inr)
  with Cons.IH assms(2) show ?case by metis
qed simp

lemma tf_state_updates [simp]:
  "tf_state (issues ks n) = tf_state n" "tf_state (n\<lparr>n_services := a\<rparr>) = tf_state n"
  "tf_state (n\<lparr>n_topics := b\<rparr>) = tf_state n" "tf_state (n\<lparr>n_image_pub := c\<rparr>) = tf_state n"
  "tf_state (n\<lparr>n_has_color_manager := d\<rparr>) = tf_state n" "tf_state (n\<lparr>n_enable := e\<rparr>) = tf_state n"
  "tf_state (n\<lparr>n_streams := f\<rparr>) = tf_state n" "tf_state (n\<lparr>n_next_stream := g\<rparr>) = tf_state n"
  "tf_state (n\<lparr>n_stream_started := h\<rparr>) = tf_state n" "tf_state (n\<lparr>n_stream_video_mode := i\<rparr>) = tf_state n"
  "tf_state (n\<lparr>n_supported_video_modes := k\<rparr>) = tf_state n" "tf_state (n\<lparr>n_images := l\<rparr>) = tf_state n"
  "tf_state (n\<lparr>n_depth_align := m\<rparr>) = tf_state n" "tf_state (touch_stream s n) = tf_state n"
  by (simp_all add: tf_state_def tf_frames_def issues_def touch_stream_def split: option.split)

lemma tf_state_steps [simp]:
  "tf_state (setupCameraInfoManager E n) = tf_state n" "tf_state (setupCameraCtrlServices E n) = tf_state n"
  "tf_state (setupPublishers E n) = tf_state n" "tf_state (setupSyncMode E n) = tf_state n"
  by (simp_all add: setupCameraInfoManager_def setupCameraCtrlServices_def setupPublishers_def setup_publisher_def
      setupSyncMode_def Let_def tf_state_fold)

lemma tf_state_setupDevices: "setupDevices E n = Inr m \<Longrightarrow> tf_state m = tf_state n"
proof -
  have "setup_device E s k = Inr l \<Longrightarrow> tf_state l = tf_state k" for s k l
    by (auto simp: setup_device_def Let_def split: if_splits)
  then show "setupDevices E n = Inr m \<Longrightarrow> tf_state m = tf_state n"
    by (auto simp: setupDevices_def and_then_eq_Inr dest: tf_state_fold_outcome)
qed

lemma tf_state_setupVideoMode:
  assumes "setupVideoMode E n = Inr m"
  shows "tf_state m = tf_state n"
proof -
  have one: "setup_video_mode E s k = Inr l \<Longrightarrow> tf_state l = tf_state k" for s k l
    by (auto simp: setup_video_mode_def Let_def split: if_splits option.splits)
  have "tf_state m = tf_state k" if "fold_outcome (setup_video_mode E) IMAGE_STREAMS k = Inr m" for k
    by (rule tf_state_fold_outcome [OF that one])
  from this [OF assms [unfolded setupVideoMode_def Let_def]] show ?thesis by (simp split: if_splits)
qed

lemma tf_state_getParameters:
  "tf_state (getParameters E P n) =
     (p_bool P ''publish_tf'' True, n_has_tf_thread n, n_camera_params n, named_frames P n)"
proof -
  let ?k = "\<lambda>n. fold (read_stream_params P) IMAGE_STREAMS (fold read_frame_ids IMAGE_STREAMS n)"
  have k: "n_has_tf_thread (?k n) = n_has_tf_thread n" "n_camera_params (?k n) = n_camera_params n"
    "n_base_frame_id (?k n) = n_base_frame_id n" "n_static_tf (?k n) = n_static_tf n"
    "map (n_frame_id (?k n)) IMAGE_STREAMS = map (\<lambda>s. n_camera_name n @ ''_'' @ n_stream_name n s @ ''_frame'') IMAGE_STREAMS"
    "map (n_optical_frame_id (?k n)) IMAGE_STREAMS =
      map (\<lambda>s. n_camera_name n @ ''_'' @ n_stream_name n s @ ''_optical_frame'') IMAGE_STREAMS" for n
    by (simp_all add: IMAGE_STREAMS_def read_stream_params_def read_frame_ids_def Let_def)
  show ?thesis
    by (simp add: getParameters_def Let_def drop_align_without_color_def)
      (simp add: tf_state_def tf_frames_def read_globals_def k named_frames_def Let_def)
qed

lemma setupTopics_before_tf:
  assumes "\<And>h t. dev_rc E h (StreamCreate t) = 0" "idle n"
  obtains d where "tf_state d = (p_bool P ''publish_tf'' True, n_has_tf_thread n, n_camera_params n, named_frames P n)"
    "setupTopics E F P n = publishStaticTransforms E F (snd (getCameraParams E d))"
proof -
  let ?a = "setupCameraInfoManager E (getParameters E P n)"
  have va: "view ?a = view (getParameters E P n)" by simp
  obtain b where b: "setupDevices E ?a = Inr b" using setupDevices_total [OF assms(1)] by blast
  have "idle ?a" using view_eqD(1) [OF va] assms(2) by (simp add: getParameters_spec)
  note b' = setupDevices_spec [OF b this]
  let ?c = "setupSyncMode E (setupPublishers E (setupCameraCtrlServices E b))"
  have vc: "view ?c = view b" by simp
  obtain d where d: "setupVideoMode E ?c = Inr d"
    using setupVideoMode_total [of ?c E] b' view_eqD [OF vc] by auto
  have "tf_state d = (p_bool P ''publish_tf'' True, n_has_tf_thread n, n_camera_params n, named_frames P n)"
    using tf_state_setupVideoMode [OF d] tf_state_setupDevices [OF b] by (simp add: tf_state_getParameters)
  moreover have "setupTopics E F P n = publishStaticTransforms E F (snd (getCameraParams E d))"
    using b d by (simp add: setupTopics_def Let_def)
  ultimately show thesis by (rule that)
qed

text \<open>The calibration can be read, or nobody needs it.\<close>

definition calibration_available :: "dev_env \<Rightarrow> ros_params \<Rightarrow> bool" where
  "calibration_available E P \<longleftrightarrow> \<not> p_bool P ''publish_tf'' True \<or> usbProductId E \<notin> set list_pids \<or>
     (\<forall>h. dev_rc E h DevGetParamList = 0)"

lemma getCameraParams_frame:
  "n_publish_tf (snd (getCameraParams E n)) = n_publish_tf n"
  "n_has_tf_thread (snd (getCameraParams E n)) = n_has_tf_thread n"
  by (simp_all add: getCameraParams_def read_params_def Let_def split: option.split prod.split)

lemma getCameraParams_stores:
  "n_camera_params (snd (getCameraParams E n)) = None \<longleftrightarrow>
     n_camera_params n = None \<and> usbProductId E \<in> set list_pids \<and> rc_of E DevGetParamList n \<noteq> 0"
  by (simp add: getCameraParams_def read_params_def Let_def split: option.split prod.split)

lemma setupTopics_total:
  assumes "\<And>h t. dev_rc E h (StreamCreate t) = 0" "idle n" "\<not> n_has_tf_thread n" "calibration_available E P"
  shows "\<exists>m. setupTopics E F P n = Inr m"
proof -
  obtain d where d: "tf_state d = (p_bool P ''publish_tf'' True, n_has_tf_thread n, n_camera_params n, named_frames P n)"
    "setupTopics E F P n = publishStaticTransforms E F (snd (getCameraParams E d))"
    using setupTopics_before_tf [OF assms(1,2)] by blast
  show ?thesis
    unfolding d(2)
    by (rule publishStaticTransforms_total)
      (use d(1) assms(3,4) in \<open>auto simp: getCameraParams_frame getCameraParams_stores tf_state_def rc_of_def
        calibration_available_def\<close>)
qed

lemma reconfigure_total:
  assumes "parses config" "ready E n"
  shows "\<exists>m. reconfigureCallback E config n = Inr m"
proof (cases "n_enable_reconfigure n")
  case True
  obtain a where a: "fold_outcome add_mode (cfg_modes config) (n\<lparr>n_lookup := []\<rparr>) = Inr a"
    using add_modes_total assms(1) unfolding parses_def by blast
  let ?b = "apply_modes E config a"
  have v: "view ?b = view n" using view_add_modes [OF a] by simp
  then have b: "idle ?b" "\<forall>s \<in> set IMAGE_STREAMS. created E ?b s"
    using assms(2) view_eqD [OF v] by (simp_all add: ready_def)
  then obtain c where c: "setupVideoMode E ?b = Inr c" using setupVideoMode_total by blast
  let ?d = "issue (SleepForMs 500) (snd (getCameraParams E (c\<lparr>n_camera_params := None\<rparr>)))"
  have d: "view ?d = view c" by simp
  have "idle ?d" using setupVideoMode_spec [OF c b] view_eqD(1) [OF d] by simp
  then show ?thesis
    using True a c by (simp add: reconfigureCallback_def restart_streams_def idle_streams [OF b(1)] idle_streams Let_def)
qed (simp add: reconfigureCallback_def)

lemma setupConfig_tf_thread [simp]:
  "n_has_tf_thread (setupConfig n) = n_has_tf_thread n" "n_camera_params (setupConfig n) = n_camera_params n"
  by (simp_all add: setupConfig_def config_stream_def IMAGE_STREAMS_def Let_def)

lemma init_total:
  assumes "deviceValid E" "\<And>h t. dev_rc E h (StreamCreate t) = 0" "parses config"
    "idle n0" "\<not> n_use_uvc_camera n0" "\<not> n_has_tf_thread n0" "calibration_available E P"
  shows "\<exists>n. init E F P config uvc_ok n0 = Inr n"
proof -
  let ?n = "setupConfig (n0\<lparr>n_is_running := True\<rparr>)"
  have v: "view ?n = view (n0\<lparr>n_is_running := True\<rparr>)" by simp
  have n: "idle ?n" "\<not> n_use_uvc_camera ?n"
    using assms(4,5) view_eqD(1) [OF v] v by (simp_all add: idle_def view_def)
  obtain a where a: "setupTopics E F P ?n = Inr a" 
    using setupTopics_total [OF assms(2) n(1) _ assms(7)] assms(6) by (auto simp del: not_None_eq)
  note a' = setupTopics_ready [OF a n(1)]
  let ?b = "if n_enable_d2c_viewer a then a\<lparr>n_has_d2c_viewer := True\<rparr> else a"
  have ab: "view ?b = view a" by simp
  have u: "\<not> n_use_uvc_camera a" using a' n(2) by (simp add: basis_def)
  have ub: "\<not> n_use_uvc_camera ?b" using u by simp
  have b: "setupUVCCamera E F uvc_ok ?b = Inr ?b" using ub by (simp only: setupUVCCamera_def if_False)
  have vb: "view (setupD2CConfig E ?b) = view a" by simp
  obtain c where c: "setupCameraParameter E (setupD2CConfig E ?b) = Inr c"
    using setupCameraParameter_total [of "setupD2CConfig E ?b" E] view_eqD(2) [OF vb, of E] a' u vb
    by (auto simp: ready_def view_def)
  let ?c = "read_init_ir E (clear_save_flags c)"
  have vc: "view ?c = view a" using view_setupCameraParameter [OF c] by simp
  have "ready E ?c" using a' ready_view [OF vc] by simp
  then obtain d where d: "(if n_enable_reconfigure ?c then reconfigureCallback E config ?c else Inr ?c) = Inr d"
    using reconfigure_total [OF assms(3)] by (cases "n_enable_reconfigure ?c") auto
  have "deviceValid E = True" using assms(1) by simp
  then show ?thesis
    unfolding init_def Let_def by (simp only: a b c d and_then_Inr not_True_eq_False if_False) blast
qed

lemma fresh_idle [simp]: "idle (fresh_node u)"
  by (simp add: idle_def fresh_node_def)

lemma fresh_tf [simp]: "\<not> n_has_tf_thread (fresh_node u)" "n_camera_params (fresh_node u) = None"
  by (simp_all add: fresh_node_def)

lemma ok_env_calibration [simp]: "calibration_available ok_env P"
  by (simp add: calibration_available_def)

lemma fresh_fields [simp]:
  "n_use_uvc_camera (fresh_node u) = u" "n_init_ir_gain (fresh_node u) = 0" "n_init_ir_exposure (fresh_node u) = 0"
  by (simp_all add: fresh_node_def)


definition no_config :: AstraConfig where
  "no_config = \<lparr>cfg_modes = [], cfg_ir_mode = 0, cfg_color_mode = 0, cfg_depth_mode = 0,
     cfg_depth_align = False, cfg_color_depth_synchronization = False\<rparr>"

lemma no_config_parses [simp]: "parses no_config"
  by (simp add: parses_def no_config_def)


text \<open>
  A camera of a model that delivers a list of calibrations, whose read fails: nothing is
  stored, and as transforms are published by default, \<open>init\<close> dereferences the empty calibration while
  computing them.  The failure that \<open>getCameraParams\<close> only warns about is fatal.
\<close>

theorem unread_calibration_faults_init:
  assumes "deviceValid E" and "\<And>h t. dev_rc E h (StreamCreate t) = 0"
    and "usbProductId E \<in> set list_pids" and "\<And>h. dev_rc E h DevGetParamList \<noteq> 0"
    and "p_bool P ''publish_tf'' True"
  shows "\<exists>n. init E F P config uvc_ok (fresh_node uvc) = Inl (NullDeref ''camera_params_'', n)"
proof -
  let ?n = "setupConfig ((fresh_node uvc)\<lparr>n_is_running := True\<rparr>)"
  have v: "view ?n = view ((fresh_node uvc)\<lparr>n_is_running := True\<rparr>)" by simp
  have "idle ?n" using view_eqD(1) [OF v] fresh_idle [of uvc] by (simp add: idle_def)
  then obtain d where d: "tf_state d = (True, n_has_tf_thread ?n, n_camera_params ?n, named_frames P ?n)"
    and t: "setupTopics E F P ?n = publishStaticTransforms E F (snd (getCameraParams E d))"
    using setupTopics_before_tf [OF assms(2), of ?n P F] assms(5) by auto
  have "n_camera_params (snd (getCameraParams E d)) = None" "n_publish_tf (snd (getCameraParams E d))"
    using d assms(3,4) by (simp_all add: getCameraParams_stores getCameraParams_frame tf_state_def rc_of_def)
  then have "setupTopics E F P ?n = Inl (NullDeref ''camera_params_'', snd (getCameraParams E d))"
    unfolding t by (simp add: publishStaticTransforms_faults)
  then show ?thesis using assms(1) by (simp add: init_def)
qed

theorem unread_calibration_faults_init_witness:
  "\<exists>n. init (ok_env\<lparr>usbProductId := DABAI_MAX_PID, dev_rc := (\<lambda>_ k. if k = DevGetParamList then 1 else 0)\<rparr>) toy_fp
     empty_params no_config True (fresh_node False) = Inl (NullDeref ''camera_params_'', n)"
  by (rule unread_calibration_faults_init) (simp_all add: list_pids_def ok_env_def)

text \<open>
  The fallback of the infrared settings is not the device's own setting: the parameters
  are read before the initial gain and exposure are read from the device, so without parameters
  the node writes gain 0 and exposure 0 when auto-exposure is off.
\<close>

theorem ir_settings_ignore_device_values:
  assumes "init E F P config uvc_ok (fresh_node uvc) = Inr n"
  shows "n_ir_gain n = p_int P ''ir_gain'' 0 \<and> n_ir_exposure n = u32 (p_int P ''ir_exposure'' 0) \<and>
    start_script (n\<lparr>n_ir_ae := False\<rparr>) INFRA1 vm =
      [StreamVideoMode INFRA1 vm, StreamMirroring INFRA1 False, DevSet XN_MODULE_PROPERTY_AE 0,
       DevSet OBEXTENSION_ID_IR_GAIN (p_int P ''ir_gain'' 0),
       DevSet OBEXTENSION_ID_IR_EXP (u32 (p_int P ''ir_exposure'' 0))]"
  using init_result [OF assms fresh_idle] by (simp add: basis_def start_script_def u32_def)

theorem ir_settings_ignore_device_values_witness:
  "\<exists>n. init (ok_env\<lparr>dev_val := (\<lambda>_ _. 42)\<rparr>) toy_fp empty_params no_config True (fresh_node False) = Inr n \<and>
     n_ir_gain n = 0 \<and> n_ir_exposure n = 0"
proof -
  let ?E = "ok_env\<lparr>dev_val := (\<lambda>_ _. 42)\<rparr>"
  have "\<exists>n. init ?E toy_fp empty_params no_config True (fresh_node False) = Inr n"
    by (rule init_total) (simp_all add: ok_env_def calibration_available_def)
  then obtain n where n: "init ?E toy_fp empty_params no_config True (fresh_node False) = Inr n" by blast
  from ir_settings_ignore_device_values [OF n, of undefined] n show ?thesis by (auto simp: u32_def)
qed

section \<open>The tree of frames\<close>

lemma getCameraParams_frames: "tf_frames (snd (getCameraParams E n)) = tf_frames n"
  by (simp add: getCameraParams_def read_params_def Let_def tf_frames_def issues_def split: option.split prod.split)

lemma setupTopics_frames:
  assumes "setupTopics E F P n = Inr m"
  obtains d where "publishStaticTransforms E F d = Inr m" "n_publish_tf d = p_bool P ''publish_tf'' True"
    "tf_frames d = named_frames P n"
proof -
  let ?c = "\<lambda>b. setupSyncMode E (setupPublishers E (setupCameraCtrlServices E b))"
  from assms obtain b d where b: "setupDevices E (setupCameraInfoManager E (getParameters E P n)) = Inr b"
    and d: "setupVideoMode E (?c b) = Inr d" and m: "publishStaticTransforms E F (snd (getCameraParams E d)) = Inr m"
    by (auto simp: setupTopics_def Let_def and_then_eq_Inr)
  have "tf_state d = (p_bool P ''publish_tf'' True, n_has_tf_thread n, n_camera_params n, named_frames P n)"
    using tf_state_setupVideoMode [OF d] tf_state_setupDevices [OF b] by (simp add: tf_state_getParameters)
  then show thesis using that [OF m] by (simp add: getCameraParams_frame getCameraParams_frames tf_state_def)
qed

text \<open>A set of edges, as parent and child, that is a tree below \<open>base\<close> in which every path has at most two edges.\<close>

definition shallow_tree :: "string \<Rightarrow> (string \<times> string) list \<Rightarrow> bool" where
  "shallow_tree base es \<longleftrightarrow> distinct (map snd es) \<and> base \<notin> set (map snd es) \<and>
     list_all (\<lambda>e. fst e = base \<or> (base, fst e) \<in> set es) es"

text \<open>
  Claim C18.  Whatever the camera is called and whatever its calibration says, the transforms that are
  published connect its seven frames to one tree: every frame except the base has exactly one parent,
  and the base is reached from each of them in at most two steps.
\<close>

theorem static_frames_form_a_tree:
  assumes "setupTopics E F P (setupConfig ((fresh_node uvc)\<lparr>n_is_running := True\<rparr>)) = Inr m"
    and "p_bool P ''publish_tf'' True"
  shows "length (n_static_tf m) = 6 \<and> shallow_tree (n_base_frame_id m) (tf_edges (n_static_tf m))"
proof -
  let ?n = "setupConfig ((fresh_node uvc)\<lparr>n_is_running := True\<rparr>)"
  let ?cam = "p_str P ''camera_name'' ''camera''"
  have names: "n_stream_name ?n DEPTH = ''depth''" "n_stream_name ?n INFRA1 = ''ir''" "n_stream_name ?n COLOR = ''color''"
    "n_static_tf ?n = []"
    by (simp_all add: setupConfig_def config_stream_def IMAGE_STREAMS_def Let_def fresh_node_def)
  obtain d where d: "publishStaticTransforms E F d = Inr m" "n_publish_tf d = p_bool P ''publish_tf'' True"
    "tf_frames d = named_frames P ?n"
    using setupTopics_frames [OF assms(1)] by blast
  have frames: "n_base_frame_id d = ?cam @ ''_link''" "n_static_tf d = []"
    "n_frame_id d DEPTH = ?cam @ ''_depth_frame''" "n_optical_frame_id d DEPTH = ?cam @ ''_depth_optical_frame''"
    "n_frame_id d INFRA1 = ?cam @ ''_ir_frame''" "n_optical_frame_id d INFRA1 = ?cam @ ''_ir_optical_frame''"
    "n_frame_id d COLOR = ?cam @ ''_color_frame''" "n_optical_frame_id d COLOR = ?cam @ ''_color_optical_frame''"
    using d(3) names by (simp_all add: tf_frames_def named_frames_def IMAGE_STREAMS_def Let_def)
  obtain ts where ts: "n_static_tf m = ts" "n_base_frame_id m = ?cam @ ''_link''"
    and e: "tf_edges ts =
      [(?cam @ ''_color_frame'', ?cam @ ''_color_optical_frame''), (?cam @ ''_depth_frame'', ?cam @ ''_depth_optical_frame''),
       (?cam @ ''_ir_frame'', ?cam @ ''_ir_optical_frame''), (?cam @ ''_link'', ?cam @ ''_depth_frame''),
       (?cam @ ''_link'', ?cam @ ''_ir_frame''), (?cam @ ''_link'', ?cam @ ''_color_frame'')]"
    using publishStaticTransforms_edges [OF d(1)] d(2) assms(2) by (auto simp: frames)
  have "length ts = length (tf_edges ts)" by (simp add: tf_edges_def)
  then have "length ts = 6" by (simp add: e)
  moreover have "shallow_tree (?cam @ ''_link'') (tf_edges ts)"
    unfolding e shallow_tree_def by simp
  ultimately show ?thesis unfolding ts by simp
qed

theorem static_frames_form_a_tree_witness:
  "\<exists>m. setupTopics ok_env toy_fp empty_params (setupConfig ((fresh_node False)\<lparr>n_is_running := True\<rparr>)) = Inr m \<and>
     shallow_tree (n_base_frame_id m) (tf_edges (n_static_tf m))"
proof -
  let ?n = "setupConfig ((fresh_node False)\<lparr>n_is_running := True\<rparr>)"
  have v: "view ?n = view ((fresh_node False)\<lparr>n_is_running := True\<rparr>)" by simp
  have "idle ?n" using view_eqD(1) [OF v] fresh_idle [of False] by (simp add: idle_def)
  then obtain m where m: "setupTopics ok_env toy_fp empty_params ?n = Inr m"
    using setupTopics_total [of ok_env ?n empty_params toy_fp] by auto
  from static_frames_form_a_tree [OF this] m show ?thesis by auto
qed

section \<open>A toggle that aborts\<close>

lemma setup_video_mode_frame:
  assumes "setup_video_mode E s n = Inr m"
  shows "t \<noteq> s \<Longrightarrow> n_enable m t = n_enable n t \<and> n_stream_video_mode m t = n_stream_video_mode n t"
    and "\<not> n_enable n s \<Longrightarrow> n_enable m s = n_enable n s \<and> n_stream_video_mode m s = n_stream_video_mode n s"
  using assms by (auto simp: setup_video_mode_def Let_def split: if_splits option.splits)

lemma infrared_gets_no_mode:
  assumes "setupVideoMode E n = Inr m" "n_enable n INFRA1" "n_enable n COLOR" "\<not> n_use_uvc_camera n"
  shows "\<not> n_enable m INFRA1" "n_stream_video_mode m INFRA1 = n_stream_video_mode n INFRA1"
proof -
  let ?n = "n\<lparr>n_enable := (n_enable n)(INFRA1 := False)\<rparr>"
  obtain a b where s: "setup_video_mode E DEPTH ?n = Inr a" "setup_video_mode E INFRA1 a = Inr b"
    "setup_video_mode E COLOR b = Inr m"
    using assms by (auto simp: setupVideoMode_def IMAGE_STREAMS_def and_then_eq_Inr)
  have "\<not> n_enable a INFRA1" "n_stream_video_mode a INFRA1 = n_stream_video_mode n INFRA1"
    using setup_video_mode_frame(1) [OF s(1), of INFRA1] by simp_all
  with setup_video_mode_frame(2) [OF s(2)] setup_video_mode_frame(1) [OF s(3), of INFRA1]
  show "\<not> n_enable m INFRA1" "n_stream_video_mode m INFRA1 = n_stream_video_mode n INFRA1" by simp_all
qed

text \<open>
  When infrared and colour are both requested, \<open>setupVideoMode\<close> disables infrared and
  gives it no video mode, although its topic and its toggle service exist.  If somebody subscribes
  to the topic, nothing happens; but if the sensor is then switched on, the process aborts at the
  check of \<open>startStream\<close>.
\<close>

theorem toggling_disabled_infrared_aborts:
  assumes "setupVideoMode E n = Inr m" and "idle n" and "n_is_running n"
    and "\<forall>s \<in> set IMAGE_STREAMS. created E n s"
    and "n_enable n INFRA1" and "n_enable n COLOR" and "\<not> n_use_uvc_camera n"
    and "n_stream_video_mode n INFRA1 = None" and "hasSensor E SENSOR_IR"
  shows "imageSubscribedCallback E INFRA1 (subscribe_to INFRA1 m) = Inr (subscribe_to INFRA1 m) \<and>
    (\<exists>k. toggleSensor E INFRA1 True (subscribe_to INFRA1 m) =
       (True, Inl (CheckFailed ''stream_video_mode_.count(stream_index)'', k)))"
proof -
  have m: "\<not> n_enable m INFRA1" "n_stream_video_mode m INFRA1 = None"
    using infrared_gets_no_mode [OF assms(1,5,6,7)] assms(8) by simp_all
  have i: "n_stream_started m = (\<lambda>_. False)" "n_subscribers m = (\<lambda>_. 0)" "n_is_running m"
    using setupVideoMode_spec [OF assms(1,2,4)] assms(3) by (simp_all add: idle_def basis_def)
  let ?k = "(subscribe_to INFRA1 m)\<lparr>n_enable := (n_enable (subscribe_to INFRA1 m))(INFRA1 := True)\<rparr>"
  have "stopStreams ?k = Inr ?k"
    using i by (simp add: stopStreams_def IMAGE_STREAMS_def)
  moreover have "startStreams E ?k = Inl (CheckFailed ''stream_video_mode_.count(stream_index)'', ?k)"
    using i m by (simp add: startStreams_def IMAGE_STREAMS_def startStream_def subscribe_to_def)
  moreover have "imageSubscribedCallback E INFRA1 (subscribe_to INFRA1 m) = Inr (subscribe_to INFRA1 m)"
    using i m by (simp add: imageSubscribedCallback_def startStream_def subscribe_to_def)
  ultimately show ?thesis using assms(9) by (simp add: toggleSensor_def Let_def)
qed

definition both_node :: Node where
  "both_node = (fresh_node False)\<lparr>n_is_running := True, n_enable := (\<lambda>s. s = INFRA1 \<or> s = COLOR),
     n_streams := [INFRA1 \<mapsto> Some 0, COLOR \<mapsto> Some 1]\<rparr>"

theorem toggling_disabled_infrared_aborts_witness:
  "\<exists>m k. setupVideoMode ok_env both_node = Inr m \<and>
     toggleSensor ok_env INFRA1 True (subscribe_to INFRA1 m) =
       (True, Inl (CheckFailed ''stream_video_mode_.count(stream_index)'', k))"
proof -
  have b: "idle both_node" "n_is_running both_node" "\<forall>s \<in> set IMAGE_STREAMS. created ok_env both_node s"
    "n_enable both_node INFRA1" "n_enable both_node COLOR" "\<not> n_use_uvc_camera both_node"
    "n_stream_video_mode both_node INFRA1 = None" "hasSensor ok_env SENSOR_IR"
    by (simp_all add: both_node_def idle_def created_def set_IMAGE_STREAMS stream_obj_def) (simp_all add: fresh_node_def)
  obtain m where m: "setupVideoMode ok_env both_node = Inr m" using setupVideoMode_total b(1,3) by blast
  from toggling_disabled_infrared_aborts [OF m b] m show ?thesis by blast
qed

end
