(* ===== verification/Node_Frames.thy ===== *)
theory Node_Frames
  imports Node_Setup
begin

text \<open>
  What \<open>OBCameraNode\<close> does with a frame of the device (\<open>onNewFrameCallback\<close>, \<open>dcw2Align\<close>,
  \<open>maxProAlign\<close> in \<open>ob_camera_node.cpp\<close>): scaling or aligning depth to colour, mirroring, the image
  message and its \<open>CameraInfo\<close>, and saving to a file.  Pixels are of any type \<open>'p\<close>; the scaling of
  OpenCV and the contents of a fresh matrix are parameters, cropping and mirroring are defined.
\<close>

section \<open>Matrices\<close>

record 'p mat =
  mat_rows :: nat
  mat_cols :: nat
  mat_px :: "'p list list"

definition mat_ok :: "'p mat \<Rightarrow> bool" where
  "mat_ok m \<longleftrightarrow> length (mat_px m) = mat_rows m \<and> list_all (\<lambda>r. length r = mat_cols m) (mat_px m)"

record 'p cv_mat =
  resize_nearest :: "'p mat \<Rightarrow> nat \<Rightarrow> nat \<Rightarrow> 'p mat"
  mat_fresh :: "nat \<Rightarrow> nat \<Rightarrow> 'p mat"
  zero_pixel :: 'p

text \<open>\<open>src(cv::Rect(x, y, w, h))\<close>: a rectangle that leaves the matrix throws.\<close>

definition crop :: "nat \<Rightarrow> nat \<Rightarrow> nat \<Rightarrow> nat \<Rightarrow> 'p mat \<Rightarrow> fault + 'p mat" where
  "crop x y w h m =
     (if x + w \<le> mat_cols m \<and> y + h \<le> mat_rows m
      then Inr \<lparr>mat_rows = h, mat_cols = w, mat_px = map (\<lambda>r. take w (drop x r)) (take h (drop y (mat_px m)))\<rparr>
      else Inl (Thrown ''cv::Exception''))"

text \<open>\<open>src.copyTo(dst(cv::Rect(x, y, src.cols, src.rows)))\<close>.\<close>

definition paste :: "nat \<Rightarrow> nat \<Rightarrow> 'p mat \<Rightarrow> 'p mat \<Rightarrow> fault + 'p mat" where
  "paste x y src dst =
     (if x + mat_cols src \<le> mat_cols dst \<and> y + mat_rows src \<le> mat_rows dst
      then Inr (dst\<lparr>mat_px := take y (mat_px dst) @
              map2 (\<lambda>s d. take x d @ s @ drop (x + mat_cols src) d) (mat_px src) (take (mat_rows src) (drop y (mat_px dst))) @
              drop (y + mat_rows src) (mat_px dst)\<rparr>)
      else Inl (Thrown ''cv::Exception''))"

definition black :: "'p cv_mat \<Rightarrow> nat \<Rightarrow> nat \<Rightarrow> 'p mat" where
  "black cv rows cols = \<lparr>mat_rows = rows, mat_cols = cols, mat_px = replicate rows (replicate cols (zero_pixel cv))\<rparr>"

text \<open>\<open>cv::flip(image, image, 1)\<close>.\<close>

definition mirror :: "'p mat \<Rightarrow> 'p mat" where
  "mirror m = m\<lparr>mat_px := map rev (mat_px m)\<rparr>"

section \<open>Alignment\<close>

text \<open>\<open>cv::resize\<close> into \<open>dst\<close> of the part of \<open>src\<close> that the colour camera sees.\<close>

definition crop_scaled :: "'p cv_mat \<Rightarrow> nat \<Rightarrow> nat \<Rightarrow> nat \<Rightarrow> nat \<Rightarrow> nat \<Rightarrow> nat \<Rightarrow> 'p mat \<Rightarrow> fault + 'p mat" where
  "crop_scaled cv x y w h width height src =
     and_then (crop x y w h src) (\<lambda>src_up. Inr (resize_nearest cv src_up width height))"

definition dcw2Align :: "'p cv_mat \<Rightarrow> Node \<Rightarrow> 'p mat \<Rightarrow> 'p mat \<Rightarrow> fault + 'p mat" where
  "dcw2Align cv n src dst =
     (let cfg = (n_width n COLOR, n_height n COLOR, n_width n DEPTH, n_height n DEPTH)
      in if cfg = (640, 360, 640, 400) then crop 0 0 640 360 src
         else if cfg = (640, 360, 540, 400)
         then and_then (paste 50 0 src (black cv 400 640)) (\<lambda>newImage. crop 0 0 640 360 newImage)
         else if cfg = (640, 480, 640, 400) then crop_scaled cv 80 0 480 360 640 480 src
         else if cfg = (320, 180, 320, 200) then crop 0 0 320 180 src
         else if cfg = (320, 240, 320, 200) then crop_scaled cv 40 0 240 180 320 240 src
         else if cfg = (640, 480, 540, 400) then crop_scaled cv 30 0 480 360 640 480 src
         else if cfg = (320, 240, 270, 200) then crop_scaled cv 15 0 240 180 320 240 src
         else Inr dst)"

definition maxProAlign :: "'p cv_mat \<Rightarrow> Node \<Rightarrow> 'p mat \<Rightarrow> 'p mat \<Rightarrow> fault + 'p mat" where
  "maxProAlign cv n src dst =
     (let cfg = (n_width n COLOR, n_height n COLOR, n_width n DEPTH, n_height n DEPTH)
      in if cfg = (640, 480, 640, 400) then crop_scaled cv 96 32 448 336 640 480 src else Inr dst)"

text \<open>The image that is published, with its width and height, or the exception of OpenCV.\<close>

definition align_frame ::
    "dev_env \<Rightarrow> 'p cv_mat \<Rightarrow> stream_index_pair \<Rightarrow> 'p mat \<Rightarrow> Node \<Rightarrow> fault + (int \<times> int \<times> 'p mat)" where
  "align_frame E cv s img n =
     (let width = int (mat_cols img); height = int (mat_rows img); pid = usbProductId E;
          cw = n_width n COLOR; ch = n_height n COLOR;
          aligned = (\<lambda>align. if cw < 0 \<or> ch < 0 then Inl (Thrown ''cv::Exception'')
                             else and_then (align cv n img (mat_fresh cv (nat ch) (nat cw))) (\<lambda>dst. Inr (cw, ch, dst)))
      in if s = DEPTH \<and> n_depth_align n \<and> n_depth_scale n \<noteq> 1
         then let dst_width = width * n_depth_scale n; dst_height = height * n_depth_scale n
              in if dst_width \<le> 0 \<or> dst_height \<le> 0 then Inl (Thrown ''cv::Exception'')
                 else Inr (dst_width, dst_height, resize_nearest cv img (nat dst_width) (nat dst_height))
         else if s = DEPTH \<and> n_depth_align n \<and> pid = DABAI_DCW2_DEPTH_PID then aligned dcw2Align
         else if s = DEPTH \<and> n_depth_align n \<and> (pid = DABAI_MAX_PRO_PID \<or> pid = GEMINI_UW_PID)
         then aligned maxProAlign
         else Inr (width, height, img))"

section \<open>The callback\<close>

text \<open>Everything that is published or written for one frame; \<open>now\<close> is the formatted local time.\<close>

record 'p frame_out =
  fo_frame_id :: string
  fo_width :: int
  fo_height :: int
  fo_step :: int
  fo_encoding :: string
  fo_image :: "'p mat"
  fo_info :: CameraInfo
  fo_cloud_info :: "CameraInfo option"
  fo_file :: "string option"

definition frame_camera_info :: "dev_env \<Rightarrow> fp_env \<Rightarrow> stream_index_pair \<Rightarrow> int \<Rightarrow> int \<Rightarrow> Node \<Rightarrow> CameraInfo \<times> Node" where
  "frame_camera_info E F s width height n =
     (if s = DEPTH then getDepthCameraInfo E F n
      else if s = COLOR then getColorCameraInfo E F n
      else if s = INFRA1 \<or> s = INFRA2 then getIRCameraInfo E F width height (getFocalLength E F s width n) n
      else (empty_info, n))"

definition save_filename :: "stream_index_pair \<Rightarrow> int \<Rightarrow> int \<Rightarrow> string \<Rightarrow> Node \<Rightarrow> string" where
  "save_filename s width height now n =
     ''/img/'' @ n_stream_name n s @ ''_'' @ show_int width @ ''x'' @ show_int height @ ''_'' @
       show_int (case n_stream_video_mode n s of Some m \<Rightarrow> getFps m | None \<Rightarrow> 0) @ ''hz_'' @ now @ ''.png''"

definition frame_infos ::
    "dev_env \<Rightarrow> fp_env \<Rightarrow> stream_index_pair \<Rightarrow> int \<Rightarrow> int \<Rightarrow> Node \<Rightarrow> CameraInfo \<times> CameraInfo option \<times> Node" where
  "frame_infos E F s width height n =
     (let (camera_info, n) = frame_camera_info E F s width height n
      in if usbProductId E = DABAI_MAX_PID
         then let (color_info, n) = getColorCameraInfo E F n in (camera_info, Some color_info, n)
         else (camera_info, None, n))"

definition frame_message ::
    "string \<Rightarrow> stream_index_pair \<Rightarrow> int \<Rightarrow> int \<Rightarrow> 'p mat \<Rightarrow> CameraInfo \<Rightarrow> CameraInfo option \<Rightarrow> Node \<Rightarrow> 'p frame_out" where
  "frame_message now s dst_width dst_height img camera_info color_info n =
     \<lparr>fo_frame_id = (if n_depth_align n then n_depth_aligned_frame_id n s else n_optical_frame_id n s),
      fo_width = dst_width, fo_height = dst_height, fo_step = u32 (dst_width * n_unit_step_size n s),
      fo_encoding = n_encoding n s, fo_image = img, fo_info = camera_info, fo_cloud_info = color_info,
      fo_file = (if n_save_images n s then Some (save_filename s dst_width dst_height now n) else None)\<rparr>"

definition clear_save :: "stream_index_pair \<Rightarrow> Node \<Rightarrow> Node" where
  "clear_save s n = (if n_save_images n s then n\<lparr>n_save_images := (n_save_images n)(s := False)\<rparr> else n)"

definition set_image_size :: "stream_index_pair \<Rightarrow> 'p mat \<Rightarrow> Node \<Rightarrow> Node" where
  "set_image_size s img n = n\<lparr>n_images := (n_images n)(s := Some (int (mat_rows img), int (mat_cols img)))\<rparr>"

definition onNewFrameCallback ::
    "dev_env \<Rightarrow> fp_env \<Rightarrow> 'p cv_mat \<Rightarrow> string \<Rightarrow> 'p mat \<Rightarrow> stream_index_pair \<Rightarrow> Node \<Rightarrow>
       (fault \<times> Node) + ('p frame_out \<times> Node)" where
  "onNewFrameCallback E F cv now frame s n =
     (if n_images n s = None then Inl (CheckFailed ''images_.count(stream_index)'', n)
      else case align_frame E cv s frame n of
        Inl e \<Rightarrow> Inl (e, n)
      | Inr (dst_width, dst_height, img) \<Rightarrow>
          let n = set_image_size s img n;
              img = (if n_flip_image n s then mirror img else img)
          in if \<not> n_image_pub n s then Inl (Thrown ''map::at'', n)
             else let (camera_info, color_info, n) =
                        frame_infos E F s (int (mat_cols frame)) (int (mat_rows frame)) n
                  in if color_info \<noteq> None \<and> \<not> n_has_xyz_node n then Inl (NullDeref ''point_cloud_xyz_node_'', n)
                     else Inr (frame_message now s dst_width dst_height img camera_info color_info n, clear_save s n))"

section \<open>Sizes\<close>

text \<open>What OpenCV documents of \<open>cv::resize\<close> with an explicit size and of the constructor of a matrix.\<close>

definition cv_laws :: "'p cv_mat \<Rightarrow> bool" where
  "cv_laws cv \<longleftrightarrow> (\<forall>m w h. mat_ok (resize_nearest cv m w h) \<and> mat_rows (resize_nearest cv m w h) = h \<and>
       mat_cols (resize_nearest cv m w h) = w) \<and>
     (\<forall>rows cols. mat_ok (mat_fresh cv rows cols) \<and> mat_rows (mat_fresh cv rows cols) = rows \<and>
       mat_cols (mat_fresh cv rows cols) = cols)"

text \<open>A well-formed matrix of the given width and height.\<close>

definition sized :: "int \<Rightarrow> int \<Rightarrow> 'p mat \<Rightarrow> bool" where
  "sized w h m \<longleftrightarrow> mat_ok m \<and> int (mat_cols m) = w \<and> int (mat_rows m) = h"

lemma crop_Inr_sized: "crop x y w h src = Inr m \<Longrightarrow> mat_ok src \<Longrightarrow> sized (int w) (int h) m"
  by (auto simp: crop_def mat_ok_def sized_def list_all_iff split: if_splits dest!: in_set_takeD in_set_dropD)

lemma paste_Inr_ok:
  assumes "paste x y src dst = Inr m" "mat_ok src" "mat_ok dst"
  shows "mat_ok m \<and> mat_cols m = mat_cols dst \<and> mat_rows m = mat_rows dst"
  using assms
  by (auto simp: paste_def mat_ok_def list_all_iff set_zip split: if_splits dest!: in_set_takeD in_set_dropD)

lemma black_ok [simp]: "mat_ok (black cv rows cols)" "mat_rows (black cv rows cols) = rows" "mat_cols (black cv rows cols) = cols"
  by (simp_all add: black_def mat_ok_def list_all_iff)

lemma crop_scaled_sized:
  "crop_scaled cv x y w h width height src = Inr m \<Longrightarrow> cv_laws cv \<Longrightarrow> sized (int width) (int height) m"
  by (auto simp: crop_scaled_def and_then_eq_Inr cv_laws_def sized_def)

lemmas align_defs = dcw2Align_def maxProAlign_def Let_def

lemma align_sized:
  assumes "cv_laws cv" "mat_ok src" "sized (n_width n COLOR) (n_height n COLOR) dst"
  shows "dcw2Align cv n src dst = Inr m \<Longrightarrow> sized (n_width n COLOR) (n_height n COLOR) m"
    and "maxProAlign cv n src dst = Inr m \<Longrightarrow> sized (n_width n COLOR) (n_height n COLOR) m"
proof -
  show "dcw2Align cv n src dst = Inr m \<Longrightarrow> sized (n_width n COLOR) (n_height n COLOR) m"
    using assms
    by (auto simp: align_defs and_then_eq_Inr split: if_splits dest!: crop_scaled_sized crop_Inr_sized dest: paste_Inr_ok)
  show "maxProAlign cv n src dst = Inr m \<Longrightarrow> sized (n_width n COLOR) (n_height n COLOR) m"
    using assms by (auto simp: align_defs split: if_splits dest!: crop_scaled_sized)
qed

lemma align_total:
  assumes "sized (n_width n DEPTH) (n_height n DEPTH) src"
  shows "\<exists>m. dcw2Align cv n src dst = Inr m" and "\<exists>m. maxProAlign cv n src dst = Inr m"
  using assms
  by (auto simp: align_defs sized_def crop_scaled_def crop_def paste_def)

definition aligning_pids :: "int list" where
  "aligning_pids = [DABAI_DCW2_DEPTH_PID, DABAI_MAX_PRO_PID, GEMINI_UW_PID]"

lemma fresh_sized: "cv_laws cv \<Longrightarrow> 0 \<le> w \<Longrightarrow> 0 \<le> h \<Longrightarrow> sized w h (mat_fresh cv (nat h) (nat w))"
  by (simp add: cv_laws_def sized_def)

text \<open>
  On the cameras whose depth is aligned in software, a depth frame of the configured size
  never leaves the rectangles that the code cuts out, for any configuration, and the image that is
  published has the size of the colour image, however the depth sensor is shaped.
\<close>

theorem aligned_depth_has_colour_size:
  assumes "cv_laws cv" and "sized (n_width n DEPTH) (n_height n DEPTH) frame"
    and "0 \<le> n_width n COLOR" and "0 \<le> n_height n COLOR"
    and "n_depth_align n" and "n_depth_scale n = 1" and "usbProductId E \<in> set aligning_pids"
  shows "\<exists>img. align_frame E cv DEPTH frame n = Inr (n_width n COLOR, n_height n COLOR, img) \<and>
    sized (n_width n COLOR) (n_height n COLOR) img"
proof -
  let ?dst = "mat_fresh cv (nat (n_height n COLOR)) (nat (n_width n COLOR))"
  have ok: "mat_ok frame" using assms(2) by (simp add: sized_def)
  note dst = fresh_sized [OF assms(1,3,4)]
  obtain a b where a: "dcw2Align cv n frame ?dst = Inr a" and b: "maxProAlign cv n frame ?dst = Inr b"
    using align_total [OF assms(2)] by blast
  have "sized (n_width n COLOR) (n_height n COLOR) a" "sized (n_width n COLOR) (n_height n COLOR) b"
    using align_sized [OF assms(1) ok dst] a b by blast+
  then show ?thesis
    using assms(3-7) a b by (auto simp: align_frame_def Let_def aligning_pids_def)
qed

lemma mirror_sized [simp]: "sized w h (mirror m) = sized w h m"
  by (simp add: sized_def mirror_def mat_ok_def list_all_iff)

lemma align_frame_sized:
  assumes "align_frame E cv s frame n = Inr (w, h, img)" "cv_laws cv" "mat_ok frame"
  shows "sized w h img"
proof -
  let ?dst = "mat_fresh cv (nat (n_height n COLOR)) (nat (n_width n COLOR))"
  have d: "sized (n_width n COLOR) (n_height n COLOR) ?dst" if "\<not> (n_width n COLOR < 0 \<or> n_height n COLOR < 0)"
    using fresh_sized [OF assms(2)] that by simp
  note a = align_sized [OF assms(2,3) d]
  have "sized w h img" if "sized (int (mat_cols frame)) (int (mat_rows frame)) frame"
    using assms(1,2) a that
    by (auto simp: align_frame_def Let_def and_then_eq_Inr cv_laws_def sized_def split: if_splits)
  then show ?thesis using assms(3) by (simp add: sized_def)
qed

section \<open>Reading the calibration changes nothing else\<close>

definition infoless :: "Node \<Rightarrow> Node" where
  "infoless n = n\<lparr>n_log := [], n_camera_params := None, n_color_camera_params := None,
     n_depth_ir_x_offset := d_zero, n_depth_ir_y_offset := d_zero\<rparr>"

lemma infoless_updates [simp]:
  "infoless (issues ks n) = infoless n" "infoless (n\<lparr>n_camera_params := a\<rparr>) = infoless n"
  "infoless (n\<lparr>n_color_camera_params := b\<rparr>) = infoless n"
  by (simp_all add: infoless_def issues_def)

lemma infoless_eqD:
  assumes "infoless m = infoless n"
  shows "n_has_xyz_node m = n_has_xyz_node n" "n_save_images m = n_save_images n" "n_depth_align m = n_depth_align n"
    "n_depth_aligned_frame_id m = n_depth_aligned_frame_id n" "n_optical_frame_id m = n_optical_frame_id n"
    "n_unit_step_size m = n_unit_step_size n" "n_encoding m = n_encoding n"
proof -
  have f: "n_has_xyz_node (infoless k) = n_has_xyz_node k" "n_save_images (infoless k) = n_save_images k"
    "n_depth_align (infoless k) = n_depth_align k" "n_depth_aligned_frame_id (infoless k) = n_depth_aligned_frame_id k"
    "n_optical_frame_id (infoless k) = n_optical_frame_id k" "n_unit_step_size (infoless k) = n_unit_step_size k"
    "n_encoding (infoless k) = n_encoding k" for k
    by (simp_all add: infoless_def)
  show "n_has_xyz_node m = n_has_xyz_node n" "n_save_images m = n_save_images n" "n_depth_align m = n_depth_align n"
    "n_depth_aligned_frame_id m = n_depth_aligned_frame_id n" "n_optical_frame_id m = n_optical_frame_id n"
    "n_unit_step_size m = n_unit_step_size n" "n_encoding m = n_encoding n"
    using f [of m] f [of n] assms by simp_all
qed

lemma infoless_getCameraParams [simp]:
  "infoless (snd (getCameraParams E n)) = infoless n" "infoless (snd (getColorCameraParams E n)) = infoless n"
  by (simp_all add: getCameraParams_def getColorCameraParams_def read_params_def Let_def split: option.split prod.split)

lemma infoless_getIRCameraInfo [simp]: "infoless (snd (getIRCameraInfo E F w h f n)) = infoless n"
proof -
  obtain p m where pm: "getCameraParams E n = (p, m)" by fastforce
  then have "infoless m = infoless n" using infoless_getCameraParams(1) [of E n] by simp
  then show ?thesis by (simp add: getIRCameraInfo_def Let_def pm split: option.split)
qed

lemma infoless_getDepthCameraInfo [simp]: "infoless (snd (getDepthCameraInfo E F n)) = infoless n"
proof -
  obtain i m where im: "getIRCameraInfo E F (n_width n DEPTH) (n_height n DEPTH)
      (getFocalLength E F DEPTH (n_height n DEPTH) n) n = (i, m)" by fastforce
  obtain p k where pk: "getCameraParams E m = (p, k)" by fastforce
  have "infoless m = infoless n" by (metis im snd_conv infoless_getIRCameraInfo)
  moreover have "infoless k = infoless m" using infoless_getCameraParams(1) [of E m] pk by simp
  ultimately show ?thesis by (simp add: getDepthCameraInfo_def Let_def im pk)
qed

lemma infoless_getColorCameraInfo [simp]: "infoless (snd (getColorCameraInfo E F n)) = infoless n"
proof -
  obtain p m where pm: "(if usbProductId E = DABAI_DCW2_DEPTH_PID \<or> usbProductId E = DABAI_MAX_PRO_PID \<or>
      usbProductId E = GEMINI_UW_PID then getColorCameraParams E n else getCameraParams E n) = (p, m)" by fastforce
  then have "infoless m = infoless n" by (metis snd_conv infoless_getCameraParams)
  then show ?thesis by (simp add: getColorCameraInfo_def Let_def pm split: option.split)
qed

lemma infoless_frame_camera_info [simp]: "infoless (snd (frame_camera_info E F s w h n)) = infoless n"
  by (simp add: frame_camera_info_def)

lemma frame_infos_spec:
  "frame_infos E F s w h n = (i, c, k) \<Longrightarrow> infoless k = infoless n \<and> (c \<noteq> None \<longleftrightarrow> usbProductId E = DABAI_MAX_PID)"
proof -
  assume a: "frame_infos E F s w h n = (i, c, k)"
  obtain ci m where m: "frame_camera_info E F s w h n = (ci, m)" by fastforce
  obtain cc l where l: "getColorCameraInfo E F m = (cc, l)" by fastforce
  have "infoless m = infoless n" by (metis m snd_conv infoless_frame_camera_info)
  moreover have "infoless l = infoless m" by (metis l snd_conv infoless_getColorCameraInfo)
  ultimately show ?thesis using a by (auto simp: frame_infos_def m l split: if_splits)
qed

lemma set_image_size_fields [simp]:
  "n_has_xyz_node (set_image_size s img n) = n_has_xyz_node n" "n_save_images (set_image_size s img n) = n_save_images n"
  "n_depth_align (set_image_size s img n) = n_depth_align n" "n_encoding (set_image_size s img n) = n_encoding n"
  "n_depth_aligned_frame_id (set_image_size s img n) = n_depth_aligned_frame_id n"
  "n_optical_frame_id (set_image_size s img n) = n_optical_frame_id n"
  "n_unit_step_size (set_image_size s img n) = n_unit_step_size n" "n_image_pub (set_image_size s img n) = n_image_pub n"
  "n_flip_image (set_image_size s img n) = n_flip_image n"
  by (simp_all add: set_image_size_def)

text \<open>
  The callback after a successful alignment: what is published depends on the state before it, apart
  from the calibration.
\<close>

lemma onNewFrame_result:
  assumes "n_images n s \<noteq> None" "align_frame E cv s frame n = Inr (w, h, img)" "n_image_pub n s"
  obtains info ci k where "infoless k = infoless (set_image_size s img n)"
    "ci \<noteq> None \<longleftrightarrow> usbProductId E = DABAI_MAX_PID"
    "onNewFrameCallback E F cv now frame s n =
       (if usbProductId E = DABAI_MAX_PID \<and> \<not> n_has_xyz_node n then Inl (NullDeref ''point_cloud_xyz_node_'', k)
        else Inr (frame_message now s w h (if n_flip_image n s then mirror img else img) info ci k, clear_save s k))"
proof -
  obtain info ci k where i: "frame_infos E F s (int (mat_cols frame)) (int (mat_rows frame)) (set_image_size s img n) =
      (info, ci, k)" by (rule prod_cases3)
  note r = frame_infos_spec [OF i]
  then have "n_has_xyz_node k = n_has_xyz_node n" using infoless_eqD(1) [of k "set_image_size s img n"] by simp
  then have "onNewFrameCallback E F cv now frame s n =
       (if usbProductId E = DABAI_MAX_PID \<and> \<not> n_has_xyz_node n then Inl (NullDeref ''point_cloud_xyz_node_'', k)
        else Inr (frame_message now s w h (if n_flip_image n s then mirror img else img) info ci k, clear_save s k))"
    using assms r by (auto simp: onNewFrameCallback_def Let_def i)
  with r that show thesis by blast
qed

lemma clear_save_off [simp]: "\<not> n_save_images (clear_save s k) s"
  by (simp add: clear_save_def)

text \<open>
  Claim C17.  A published frame is consistent: the image has the width and height that the message
  states, whether it was scaled, aligned, mirrored or left as it was; the step is the width times the
  size of a pixel; depth alignment moves every stream to the aligned frame; a file is written exactly
  when one was requested, and the request is then over.
\<close>

theorem published_frame_is_consistent:
  assumes "onNewFrameCallback E F cv now frame s n = Inr (out, m)" and "cv_laws cv" and "mat_ok frame"
  shows "sized (fo_width out) (fo_height out) (fo_image out) \<and>
    fo_step out = u32 (fo_width out * n_unit_step_size n s) \<and> fo_encoding out = n_encoding n s \<and>
    fo_frame_id out = (if n_depth_align n then n_depth_aligned_frame_id n s else n_optical_frame_id n s) \<and>
    (fo_file out \<noteq> None) = n_save_images n s \<and> \<not> n_save_images m s \<and>
    (fo_cloud_info out \<noteq> None) = (usbProductId E = DABAI_MAX_PID)"
proof -
  obtain w h img where pre: "n_images n s \<noteq> None" "n_image_pub n s" "align_frame E cv s frame n = Inr (w, h, img)"
    using assms(1) by (auto simp: onNewFrameCallback_def Let_def split: if_splits sum.splits prod.splits)
  obtain info ci k where k: "infoless k = infoless (set_image_size s img n)"
    and ci: "ci \<noteq> None \<longleftrightarrow> usbProductId E = DABAI_MAX_PID"
    and r: "onNewFrameCallback E F cv now frame s n =
       (if usbProductId E = DABAI_MAX_PID \<and> \<not> n_has_xyz_node n then Inl (NullDeref ''point_cloud_xyz_node_'', k)
        else Inr (frame_message now s w h (if n_flip_image n s then mirror img else img) info ci k, clear_save s k))"
    by (rule onNewFrame_result [OF pre(1,3,2)])
  have out: "out = frame_message now s w h (if n_flip_image n s then mirror img else img) info ci k" "m = clear_save s k"
    using assms(1) r by (simp_all split: if_splits)
  have "sized w h img" by (rule align_frame_sized [OF pre(3) assms(2,3)])
  then show ?thesis
    unfolding out using infoless_eqD [OF k] ci by (simp add: frame_message_def)
qed

definition cv_example :: "nat cv_mat" where
  "cv_example = \<lparr>resize_nearest = (\<lambda>_ w h. \<lparr>mat_rows = h, mat_cols = w, mat_px = replicate h (replicate w 0)\<rparr>),
     mat_fresh = (\<lambda>rows cols. \<lparr>mat_rows = rows, mat_cols = cols, mat_px = replicate rows (replicate cols 7)\<rparr>),
     zero_pixel = 0\<rparr>"

lemma cv_example_laws [simp]: "cv_laws cv_example"
  by (simp add: cv_laws_def cv_example_def mat_ok_def list_all_iff)

definition frame_example :: "nat mat" where
  "frame_example = \<lparr>mat_rows = 1, mat_cols = 2, mat_px = [[1, 2]]\<rparr>"

definition node_example :: Node where
  "node_example = (fresh_node False)\<lparr>n_images := (\<lambda>_. Some (480, 640)), n_image_pub := (\<lambda>_. True),
     n_unit_step_size := (\<lambda>_. 2), n_flip_image := (\<lambda>_. True), n_save_images := (\<lambda>_. True)\<rparr>"

theorem published_frame_is_consistent_witness:
  "\<exists>out m. onNewFrameCallback ok_env toy_fp cv_example [] frame_example DEPTH node_example = Inr (out, m) \<and>
     sized (fo_width out) (fo_height out) (fo_image out) \<and> \<not> n_save_images m DEPTH"
proof -
  have pre: "n_images node_example DEPTH \<noteq> None" "align_frame ok_env cv_example DEPTH frame_example node_example =
      Inr (2, 1, frame_example)" "n_image_pub node_example DEPTH"
    by (simp_all add: node_example_def align_frame_def frame_example_def fresh_node_def Let_def)
  obtain out m where o: "onNewFrameCallback ok_env toy_fp cv_example [] frame_example DEPTH node_example = Inr (out, m)"
    by (rule onNewFrame_result [OF pre, of toy_fp "[]"]) (simp add: DABAI_MAX_PID_def)
  have "mat_ok frame_example" by (simp add: frame_example_def mat_ok_def)
  from published_frame_is_consistent [OF o cv_example_laws this] o show ?thesis by blast
qed

theorem aligned_depth_has_colour_size_witness:
  "\<exists>img. align_frame (ok_env\<lparr>usbProductId := DABAI_DCW2_DEPTH_PID\<rparr>) cv_example DEPTH (mat_fresh cv_example 400 540)
       (node_example\<lparr>n_depth_align := True, n_width := (\<lambda>s. if s = DEPTH then 540 else 640),
          n_height := (\<lambda>s. if s = DEPTH then 400 else 360)\<rparr>) = Inr (640, 360, img) \<and> sized 640 360 img"
proof -
  let ?n = "node_example\<lparr>n_depth_align := True, n_width := (\<lambda>s. if s = DEPTH then 540 else 640),
          n_height := (\<lambda>s. if s = DEPTH then 400 else 360)\<rparr>"
  have "sized (n_width ?n DEPTH) (n_height ?n DEPTH) (mat_fresh cv_example 400 540)"
    using fresh_sized [OF cv_example_laws, of 540 400] by simp
  from aligned_depth_has_colour_size [OF cv_example_laws this, of "ok_env\<lparr>usbProductId := DABAI_DCW2_DEPTH_PID\<rparr>"]
  show ?thesis by (simp add: aligning_pids_def node_example_def fresh_node_def)
qed

text \<open>
  On a DaBai Max the callback hands the colour calibration to the point cloud node without
  asking whether there is one: while \<open>enable_point_cloud\<close> is off, as it is by default, the first frame
  of any stream is published and then dereferences the null pointer.
\<close>

theorem max_frame_needs_cloud_node:
  assumes "usbProductId E = DABAI_MAX_PID" and "\<not> n_has_xyz_node n"
    and "n_images n s \<noteq> None" and "n_image_pub n s" and "n_depth_scale n = 1"
  shows "\<exists>k. onNewFrameCallback E F cv now frame s n = Inl (NullDeref ''point_cloud_xyz_node_'', k)"
proof -
  have a: "align_frame E cv s frame n = Inr (int (mat_cols frame), int (mat_rows frame), frame)"
    using assms(1,5) by (simp add: align_frame_def Let_def DABAI_MAX_PID_def DABAI_DCW2_DEPTH_PID_def
        DABAI_MAX_PRO_PID_def GEMINI_UW_PID_def)
  show ?thesis
    by (rule onNewFrame_result [OF assms(3) a assms(4), of F now]) (use assms(1,2) in auto)
qed

theorem max_frame_needs_cloud_node_witness:
  "\<exists>k. onNewFrameCallback (ok_env\<lparr>usbProductId := DABAI_MAX_PID\<rparr>) toy_fp cv_example [] frame_example COLOR node_example =
     Inl (NullDeref ''point_cloud_xyz_node_'', k)"
  by (rule max_frame_needs_cloud_node) (simp_all add: node_example_def fresh_node_def)

text \<open>
  A configuration that is not in the list of \<open>dcw2Align\<close> or \<open>maxProAlign\<close> is only logged: the matrix
  that is published has never been written.
\<close>

lemma unsupported_alignment_publishes_fresh_matrix:
  assumes "usbProductId E = DABAI_MAX_PRO_PID" "n_depth_align n" "n_depth_scale n = 1"
    "0 \<le> n_width n COLOR" "0 \<le> n_height n COLOR" "n_height n COLOR \<noteq> 480"
  shows "align_frame E cv DEPTH frame n = Inr (n_width n COLOR, n_height n COLOR,
    mat_fresh cv (nat (n_height n COLOR)) (nat (n_width n COLOR)))"
  using assms by (simp add: align_frame_def maxProAlign_def Let_def DABAI_MAX_PRO_PID_def DABAI_DCW2_DEPTH_PID_def)

end
