(* ===== verification/Uvc_Driver.thy ===== *)
theory Uvc_Driver
  imports Astra_Types Stream_Switch
begin

text \<open>
  \<open>UVCCameraDriver\<close> (\<open>uvc_camera_driver.cpp\<close>, without the Rockchip decoder): finding, opening and
  configuring the colour camera over libuvc, starting and stopping the stream, the control
  services and the frame callback.  libuvc is a parameter whose answers may depend on all earlier
  calls; every call is recorded.
\<close>

section \<open>State\<close>

datatype uvc_req = UVC_GET_CUR | UVC_GET_MIN | UVC_GET_MAX

datatype uvc_format =
    UVC_COLOR_FORMAT_UNCOMPRESSED | UVC_COLOR_FORMAT_COMPRESSED | UVC_COLOR_FORMAT_YUYV
  | UVC_COLOR_FORMAT_UYVY | UVC_COLOR_FORMAT_RGB | UVC_COLOR_FORMAT_BGR | UVC_COLOR_FORMAT_MJPEG
  | UVC_COLOR_FORMAT_GRAY8

datatype uvc_call =
    UvcInit | UvcFindDevice int int "string option" | UvcOpen | UvcSetStatusCallback
  | UvcGetStreamCtrl uvc_format int int int | UvcStartStreaming | UvcStopStreaming
  | UvcClose | UvcUnref | UvcExit | UvcFreeFrame | Usleep nat
  | UvcSetAeMode int | UvcGetExposure uvc_req | UvcSetExposure int
  | UvcGetGain uvc_req | UvcSetGain int | UvcGetBacklight uvc_req | UvcSetBacklight int
  | UvcGetWhiteBalance uvc_req | UvcSetWhiteBalanceAuto int | UvcGetProcessingUnits
  | UvcGetCtrl int nat uvc_req | UvcSetCtrl int "8 word list" | UvcGetRoll uvc_req

text \<open>\<open>uvc_rc\<close> is the result of a call (0 is success), \<open>uvc_val\<close> what it leaves in its output,
  \<open>uvc_location\<close> the bus number and the device address, joined by a slash.\<close>

record uvc_env =
  uvc_rc :: "uvc_call list \<Rightarrow> uvc_call \<Rightarrow> int"
  uvc_val :: "uvc_call list \<Rightarrow> uvc_call \<Rightarrow> int"
  uvc_octets :: "uvc_call list \<Rightarrow> uvc_call \<Rightarrow> 8 word list"
  uvc_strerror :: "int \<Rightarrow> string"
  uvc_location :: "uvc_call list \<Rightarrow> string"
  frame_alloc_ok :: bool

record UVCCameraConfig =
  vendor_id :: int
  product_id :: int
  cfg_width :: int
  cfg_height :: int
  cfg_fps :: int
  cfg_serial_number :: string
  cfg_format :: string
  cfg_frame_id :: string
  cfg_optical_frame_id :: string
  retry_count :: int

text \<open>The pointers are only tested for null; \<open>True\<close> is a live object.\<close>

record Uvc =
  u_config :: UVCCameraConfig
  u_ctx :: bool
  u_device :: bool
  u_handle :: bool
  u_frame_buffer :: bool
  u_uvc_flip :: bool
  u_flip_color :: bool
  u_streaming :: bool
  u_save_image :: bool
  u_opened :: bool
  u_initialized :: bool
  u_device_num :: int
  u_roi :: ImageROI
  u_auto_exposure :: bool
  u_exposure :: int
  u_gain :: int
  u_backlight :: int
  u_services :: "string list"
  u_log :: "uvc_call list"

definition fresh_uvc :: Uvc where
  "fresh_uvc =
     \<lparr>u_config = \<lparr>vendor_id = 0, product_id = 0, cfg_width = 0, cfg_height = 0, cfg_fps = 0,
        cfg_serial_number = [], cfg_format = [], cfg_frame_id = [], cfg_optical_frame_id = [], retry_count = 0\<rparr>,
      u_ctx = False, u_device = False, u_handle = False, u_frame_buffer = False, u_uvc_flip = False,
      u_flip_color = False, u_streaming = False, u_save_image = False, u_opened = False,
      u_initialized = False, u_device_num = 1,
      u_roi = \<lparr>roi_x = -1, roi_y = -1, roi_width = -1, roi_height = -1\<rparr>,
      u_auto_exposure = True, u_exposure = -1, u_gain = -1, u_backlight = 0, u_services = [], u_log = []\<rparr>"

definition ucall :: "uvc_call \<Rightarrow> Uvc \<Rightarrow> Uvc" where
  "ucall k d = d\<lparr>u_log := u_log d @ [k]\<rparr>"

definition urc :: "uvc_env \<Rightarrow> uvc_call \<Rightarrow> Uvc \<Rightarrow> int" where
  "urc E k d = uvc_rc E (u_log d) k"

definition uval :: "uvc_env \<Rightarrow> uvc_call \<Rightarrow> Uvc \<Rightarrow> int" where
  "uval E k d = uvc_val E (u_log d) k"

text \<open>libuvc dereferences the handle it is given.\<close>

definition with_handle :: "Uvc \<Rightarrow> (fault \<times> Uvc) + 'r \<Rightarrow> (fault \<times> Uvc) + 'r" where
  "with_handle d r = (if \<not> u_handle d then Inl (NullDeref ''device_handle_'', d) else r)"

section \<open>Formats\<close>

definition UVCFrameFormatString :: "string \<Rightarrow> uvc_format" where
  "UVCFrameFormatString format =
     (if format = ''uncompressed'' then UVC_COLOR_FORMAT_UNCOMPRESSED
      else if format = ''compressed'' then UVC_COLOR_FORMAT_COMPRESSED
      else if format = ''yuyv'' then UVC_COLOR_FORMAT_YUYV
      else if format = ''uyvy'' then UVC_COLOR_FORMAT_UYVY
      else if format = ''rgb'' then UVC_COLOR_FORMAT_RGB
      else if format = ''bgr'' then UVC_COLOR_FORMAT_BGR
      else if format = ''mjpeg'' then UVC_COLOR_FORMAT_MJPEG
      else if format = ''gray8'' then UVC_COLOR_FORMAT_GRAY8
      else UVC_COLOR_FORMAT_UNCOMPRESSED)"

section \<open>Retry loops that sleep\<close>

text \<open>
  \<open>for (int i = 0; i < n; i++) { err = attempt(); if (err == UVC_SUCCESS) break; usleep(100 * i); }\<close>,
  with \<open>n\<close> rounds to go at index \<open>i\<close>.
\<close>

fun retry_sleep :: "(Uvc \<Rightarrow> int \<times> Uvc) \<Rightarrow> nat \<Rightarrow> nat \<Rightarrow> int \<times> Uvc \<Rightarrow> int \<times> Uvc" where
  "retry_sleep f i 0 rd = rd"
| "retry_sleep f i (Suc n) rd =
     (let (rc, d) = f (snd rd)
      in if rc = 0 then (rc, d) else retry_sleep f (Suc i) n (rc, ucall (Usleep (100 * i)) d))"

definition find_device :: "uvc_env \<Rightarrow> string option \<Rightarrow> Uvc \<Rightarrow> int \<times> Uvc" where
  "find_device E serial d =
     (let k = UvcFindDevice (vendor_id (u_config d)) (product_id (u_config d)) serial;
          err = urc E k d; d = ucall k d
      in (err, if err = 0 then d\<lparr>u_device := True\<rparr> else d))"

definition start_attempt :: "uvc_env \<Rightarrow> Uvc \<Rightarrow> int \<times> Uvc" where
  "start_attempt E d = (urc E UvcStartStreaming d, ucall UvcStartStreaming d)"

section \<open>Opening\<close>

definition UVC_ERROR_ACCESS :: int where "UVC_ERROR_ACCESS = -3"

definition open_error :: "uvc_env \<Rightarrow> int \<Rightarrow> Uvc \<Rightarrow> string" where
  "open_error E err d =
     (let loc = uvc_location E (u_log d)
      in if err = UVC_ERROR_ACCESS then ''Permission denied opening /dev/bus/usb/'' @ loc
         else ''Can't open /dev/bus/usb/'' @ loc @ '': '' @ uvc_strerror E err @ '' ('' @ show_int err @ '')'')"

definition search_device :: "uvc_env \<Rightarrow> Uvc \<Rightarrow> int \<times> Uvc" where
  "search_device E d =
     (let serial = (if cfg_serial_number (u_config d) = [] then None else Some (cfg_serial_number (u_config d)));
          rd = find_device E serial d;
          rd = (if fst rd \<noteq> 0 \<and> u_device_num (snd rd) = 1 then find_device E None (snd rd) else rd)
      in if fst rd \<noteq> 0
         then retry_sleep (find_device E serial) 0 (nat (retry_count (u_config (snd rd)))) rd else rd)"

definition openCamera :: "uvc_env \<Rightarrow> Uvc \<Rightarrow> Uvc outcome" where
  "openCamera E d =
     (if u_device d then Inl (CheckFailed ''device_ == nullptr'', d)
      else let (err, d) = search_device E d
           in if err \<noteq> 0
              then Inl (Thrown (''Find device error '' @ uvc_strerror E err @ '' process will be exit''),
                        (if u_device d then ucall UvcUnref d else d)\<lparr>u_device := False\<rparr>)
              else if u_handle d then Inl (CheckFailed ''device_handle_ == nullptr'', d)
              else let err = urc E UvcOpen d; d = ucall UvcOpen d
                   in if err \<noteq> 0
                      then Inl (Thrown (open_error E err d), (ucall UvcUnref d)\<lparr>u_device := False\<rparr>)
                      else Inr ((ucall UvcSetStatusCallback (d\<lparr>u_handle := True\<rparr>))\<lparr>u_opened := True\<rparr>))"

section \<open>Camera parameters\<close>

text \<open>\<open>static_cast<int>\<close> of a \<open>uint32_t\<close>.\<close>

definition s32 :: "int \<Rightarrow> int" where
  "s32 v = (if v mod 2 ^ 32 < 2 ^ 31 then v mod 2 ^ 32 else v mod 2 ^ 32 - 2 ^ 32)"

definition setup_exposure :: "uvc_env \<Rightarrow> Uvc \<Rightarrow> Uvc" where
  "setup_exposure E d =
     (if u_exposure d \<noteq> -1
      then let max_expo = uval E (UvcGetExposure UVC_GET_MAX) d; d = ucall (UvcGetExposure UVC_GET_MAX) d;
               min_expo = uval E (UvcGetExposure UVC_GET_MIN) d; d = ucall (UvcGetExposure UVC_GET_MIN) d
           in if u_exposure d < s32 min_expo \<or> u_exposure d > s32 max_expo
              then ucall (UvcSetAeMode 1) d
              else ucall (UvcSetExposure (u_exposure d mod 2 ^ 32)) (ucall (UvcSetAeMode 1) d)
      else d)"

definition setup_gain :: "uvc_env \<Rightarrow> Uvc \<Rightarrow> Uvc" where
  "setup_gain E d =
     (if u_gain d \<noteq> -1
      then let min_gain = uval E (UvcGetGain UVC_GET_MIN) d; d = ucall (UvcGetGain UVC_GET_MIN) d;
               max_gain = uval E (UvcGetGain UVC_GET_MAX) d; d = ucall (UvcGetGain UVC_GET_MAX) d
           in if u_gain d < min_gain mod 2 ^ 16 \<or> u_gain d > max_gain mod 2 ^ 16
              then ucall (UvcSetAeMode 1) d
              else ucall (UvcSetGain (u_gain d mod 2 ^ 16)) (ucall (UvcSetAeMode 1) d)
      else d)"

definition setup_backlight :: "uvc_env \<Rightarrow> Uvc \<Rightarrow> Uvc" where
  "setup_backlight E d =
     (let lo = uval E (UvcGetBacklight UVC_GET_MIN) d; d = ucall (UvcGetBacklight UVC_GET_MIN) d;
          hi = uval E (UvcGetBacklight UVC_GET_MAX) d; d = ucall (UvcGetBacklight UVC_GET_MAX) d
      in if u_backlight d \<ge> lo mod 2 ^ 16 \<and> u_backlight d \<le> hi mod 2 ^ 16
         then ucall (UvcSetBacklight (u_backlight d)) d else d)"

definition setupCameraParams :: "uvc_env \<Rightarrow> Uvc \<Rightarrow> Uvc outcome" where
  "setupCameraParams E d =
     with_handle d
       (Inr (setup_backlight E (setup_gain E (setup_exposure E
          (ucall (UvcSetAeMode (if u_auto_exposure d then 8 else 1)) d)))))"

section \<open>Construction and destruction\<close>

text \<open>The names advertised by \<open>setupCameraControlService\<close>, in order.\<close>

definition uvc_services :: "string list" where
  "uvc_services =
     [''get_uvc_exposure'', ''set_uvc_exposure'', ''get_uvc_gain'', ''set_uvc_gain'', ''get_uvc_white_balance'',
      ''set_uvc_white_balance'', ''set_uvc_auto_exposure'', ''set_uvc_auto_white_balance'', ''get_uvc_mirror'',
      ''set_uvc_mirror'', ''toggle_uvc_camera'', ''save_uvc_image'']"

definition read_uvc_params :: "ros_params \<Rightarrow> string \<Rightarrow> Uvc \<Rightarrow> Uvc" where
  "read_uvc_params P serial d =
     (let camera_name = p_str P ''camera_name'' ''camera'' in
      d\<lparr>u_config :=
          \<lparr>vendor_id = p_int P ''uvc_vendor_id'' 0, product_id = p_int P ''uvc_product_id'' 0,
           cfg_width = p_int P ''color_width'' 640, cfg_height = p_int P ''color_height'' 480,
           cfg_fps = p_int P ''color_fps'' 30, cfg_serial_number = serial,
           cfg_format = p_str P ''uvc_camera_format'' ''mjpeg'',
           cfg_frame_id = camera_name @ ''_color_frame'',
           cfg_optical_frame_id = camera_name @ ''_color_optical_frame'',
           retry_count = p_int P ''uvc_retry_count'' 500\<rparr>,
        u_device_num := p_int P ''device_num'' 1, u_uvc_flip := p_bool P ''uvc_flip'' False,
        u_flip_color := p_bool P ''flip_color'' False,
        u_roi := \<lparr>roi_x = p_int P ''color_roi_x'' (-1), roi_y = p_int P ''color_roi_y'' (-1),
                  roi_width = p_int P ''color_roi_width'' (-1), roi_height = p_int P ''color_roi_height'' (-1)\<rparr>,
        u_auto_exposure := p_bool P ''enable_color_auto_exposure'' True,
        u_backlight := p_int P ''backlight_compensation'' 0 mod 2 ^ 16,
        u_gain := p_int P ''color_gain'' (-1), u_exposure := p_int P ''color_exposure'' (-1)\<rparr>)"

definition UVCCameraDriver :: "uvc_env \<Rightarrow> ros_params \<Rightarrow> string \<Rightarrow> Uvc outcome" where
  "UVCCameraDriver E P serial =
     (let d = fresh_uvc; err = urc E UvcInit d; d = ucall UvcInit d
      in if err \<noteq> 0 then Inl (Thrown ''init uvc context failed'', d)
         else let d = read_uvc_params P serial (d\<lparr>u_ctx := True\<rparr>)
              in if \<not> frame_alloc_ok E then Inl (CheckFailed ''frame_buffer_'', d)
                 else let d = d\<lparr>u_frame_buffer := True, u_services := uvc_services\<rparr>
                      in and_then (openCamera E d) (\<lambda>d.
                         and_then (setupCameraParams E d) (\<lambda>d.
                         Inr (d\<lparr>u_initialized := True\<rparr>))))"

definition stopStreaming :: "Uvc \<Rightarrow> Uvc outcome" where
  "stopStreaming d =
     (if \<not> u_streaming d then Inr d
      else with_handle d (Inr ((ucall UvcStopStreaming d)\<lparr>u_streaming := False\<rparr>)))"

definition release_all :: "Uvc \<Rightarrow> Uvc" where
  "release_all d =
     (let d = (if u_handle d then (ucall UvcClose d)\<lparr>u_handle := False\<rparr> else d);
          d = (if u_device d then (ucall UvcUnref d)\<lparr>u_device := False\<rparr> else d);
          d = (if u_ctx d then (ucall UvcExit d)\<lparr>u_ctx := False\<rparr> else d)
      in if u_frame_buffer d then (ucall UvcFreeFrame d)\<lparr>u_frame_buffer := False\<rparr> else d)"

definition UVCCameraDriver_dtor :: "Uvc \<Rightarrow> Uvc outcome" where
  "UVCCameraDriver_dtor d = and_then (stopStreaming d) (\<lambda>d. Inr (release_all d))"

section \<open>Streaming\<close>

definition drop_device :: "Uvc \<Rightarrow> Uvc" where
  "drop_device d = (ucall UvcUnref ((ucall UvcClose d)\<lparr>u_handle := False\<rparr>))\<lparr>u_device := False\<rparr>"

definition ctrl_attempt :: "uvc_env \<Rightarrow> Uvc \<Rightarrow> int \<times> Uvc" where
  "ctrl_attempt E d =
     (let c = u_config d;
          k = UvcGetStreamCtrl (UVCFrameFormatString (cfg_format c)) (cfg_width c) (cfg_height c) (cfg_fps c)
      in (urc E k d, ucall k d))"

definition setVideoMode :: "uvc_env \<Rightarrow> Uvc \<Rightarrow> Uvc outcome" where
  "setVideoMode E d =
     (if \<not> u_device d then Inl (CheckFailed ''device_'', d)
      else if \<not> u_handle d then Inl (CheckFailed ''device_handle_'', d)
      else let (err, d) = retry (ctrl_attempt E) 5 (1, d)
           in if err \<noteq> 0 then Inr (drop_device d) else Inr d)"

definition start_stream_retrying :: "uvc_env \<Rightarrow> Uvc \<Rightarrow> Uvc outcome" where
  "start_stream_retrying E d =
     with_handle d
       (let rd = start_attempt E d;
            (stream_err, d) = (if fst rd \<noteq> 0
              then retry_sleep (start_attempt E) 0 (nat (retry_count (u_config (snd rd)))) rd else rd)
        in if stream_err \<noteq> 0 then Inr (drop_device d) else Inr (d\<lparr>u_streaming := True\<rparr>))"

definition startStreaming :: "uvc_env \<Rightarrow> Uvc \<Rightarrow> Uvc outcome" where
  "startStreaming E d =
     (if u_streaming d then Inr d
      else if \<not> u_opened d then Inr d
      else if \<not> u_device d then Inl (CheckFailed ''device_'', d)
      else if \<not> u_handle d then Inl (CheckFailed ''device_handle_'', d)
      else and_then (setVideoMode E d) (start_stream_retrying E))"

text \<open>
  The lock of the callback owns no mutex, so waiting on it is undefined; it waits only while the
  driver is not initialised.
\<close>

definition uvc_imageSubscribedCallback :: "uvc_env \<Rightarrow> Uvc \<Rightarrow> Uvc outcome" where
  "uvc_imageSubscribedCallback E d =
     (if \<not> u_initialized d then Inl (NullDeref ''camera_cv_.wait'', d) else startStreaming E d)"

definition uvc_imageUnsubscribedCallback :: "nat \<Rightarrow> Uvc \<Rightarrow> Uvc outcome" where
  "uvc_imageUnsubscribedCallback subscriber_count d =
     (if subscriber_count = 0 then stopStreaming d else Inr d)"

definition toggleUVCCamera :: "uvc_env \<Rightarrow> bool \<Rightarrow> Uvc \<Rightarrow> Uvc outcome" where
  "toggleUVCCamera E data d = (if data then startStreaming E d else stopStreaming d)"

definition updateConfig :: "UVCCameraConfig \<Rightarrow> Uvc \<Rightarrow> Uvc" where
  "updateConfig config d = d\<lparr>u_config := config\<rparr>"

section \<open>Facts about the steps\<close>

lemma ucall_fields [simp]:
  "u_device (ucall k d) = u_device d" "u_handle (ucall k d) = u_handle d" "u_streaming (ucall k d) = u_streaming d"
  "u_opened (ucall k d) = u_opened d" "u_ctx (ucall k d) = u_ctx d" "u_frame_buffer (ucall k d) = u_frame_buffer d"
  "u_config (ucall k d) = u_config d" "u_initialized (ucall k d) = u_initialized d"
  "u_log (ucall k d) = u_log d @ [k]" "u_device_num (ucall k d) = u_device_num d"
  by (simp_all add: ucall_def)

text \<open>The pointers and flags on which the life cycle depends.\<close>

definition life :: "Uvc \<Rightarrow> bool \<times> bool \<times> bool \<times> bool \<times> bool \<times> bool" where
  "life d = (u_device d, u_handle d, u_streaming d, u_opened d, u_ctx d, u_frame_buffer d)"

lemma life_ucall [simp]: "life (ucall k d) = life d"
  by (simp add: life_def)

lemma life_retry:
  assumes "\<And>d. life (snd (f d)) = life d"
  shows "life (snd (retry f n rd)) = life (snd rd)"
  using retry_invariant [of "\<lambda>d. life d = life (snd rd)" rd f n] assms by simp

lemma life_retry_sleep:
  assumes "\<And>d. life (snd (f d)) = life d"
  shows "life (snd (retry_sleep f i n rd)) = life (snd rd)"
proof (induction n arbitrary: i rd)
  case (Suc n)
  then show ?case
    using assms [of "snd rd"] by (cases "f (snd rd)") simp
qed simp

lemma attempts_life [simp]: "life (snd (start_attempt E d)) = life d" "life (snd (ctrl_attempt E d)) = life d"
  by (simp_all add: start_attempt_def ctrl_attempt_def Let_def)

definition uvc_inv :: "Uvc \<Rightarrow> bool" where
  "uvc_inv d \<longleftrightarrow> u_handle d = u_device d \<and> (u_streaming d \<longrightarrow> u_handle d)"

lemma uvc_inv_life: "life d = life e \<Longrightarrow> uvc_inv d = uvc_inv e"
  by (simp add: life_def uvc_inv_def)

lemma drop_device_fields [simp]:
  "u_device (drop_device d) = False" "u_handle (drop_device d) = False" "u_streaming (drop_device d) = u_streaming d"
  "u_ctx (drop_device d) = u_ctx d" "u_frame_buffer (drop_device d) = u_frame_buffer d"
  "u_opened (drop_device d) = u_opened d" "u_log (drop_device d) = u_log d @ [UvcClose, UvcUnref]"
  by (simp_all add: drop_device_def)

lemma stopStreaming_inv: "uvc_inv d \<Longrightarrow> stopStreaming d =
    Inr (if u_streaming d then (ucall UvcStopStreaming d)\<lparr>u_streaming := False\<rparr> else d)"
  by (auto simp: stopStreaming_def uvc_inv_def with_handle_def)

text \<open>Outside the early returns a start happens on a live, stopped device.\<close>

lemma startStreaming_cases:
  obtains (same) "outcome_state (startStreaming E d) = d"
  | (lost) e where "\<not> u_streaming d" "startStreaming E d = Inl (NullDeref ''device_handle_'', drop_device e)" "life e = life d"
  | (dropped) e where "\<not> u_streaming d" "startStreaming E d = Inr (drop_device e)" "life e = life d"
  | (started) e where "u_handle d" "u_device d" "startStreaming E d = Inr (e\<lparr>u_streaming := True\<rparr>)" "life e = life d"
proof (cases "u_streaming d \<or> \<not> u_opened d \<or> \<not> u_device d \<or> \<not> u_handle d")
  case True
  then have "outcome_state (startStreaming E d) = d" by (auto simp: startStreaming_def)
  then show thesis by (rule same)
next
  case False
  obtain err e where r: "retry (ctrl_attempt E) 5 (1, d) = (err, e)" by fastforce
  have le: "life e = life d" using life_retry [of "ctrl_attempt E" 5 "(1, d)"] r by simp
  show thesis
  proof (cases "err = 0")
    case False
    then show thesis
      using \<open>\<not> (u_streaming d \<or> _)\<close> r le lost [of e]
      by (simp add: startStreaming_def setVideoMode_def start_stream_retrying_def with_handle_def)
  next
    case True
    obtain rc g where g: "start_attempt E e = (rc, g)" by fastforce
    then have lg: "life g = life e" using attempts_life(1) [of E e] by simp
    obtain rc' h where h: "(if rc \<noteq> 0 then retry_sleep (start_attempt E) 0 (nat (retry_count (u_config g))) (rc, g)
        else (rc, g)) = (rc', h)" by fastforce
    have "life h = life g"
      using h life_retry_sleep [of "start_attempt E" 0 "nat (retry_count (u_config g))" "(rc, g)"]
      by (auto split: if_splits)
    then have lh: "life h = life d" using lg le by simp
    have he: "u_handle e" using le False by (simp add: life_def)
    have st: "startStreaming E d = (if rc' \<noteq> 0 then Inr (drop_device h) else Inr (h\<lparr>u_streaming := True\<rparr>))"
      using False True r g h he
      by (cases "rc = 0") (simp_all add: startStreaming_def setVideoMode_def start_stream_retrying_def
          with_handle_def Let_def)
    show thesis
    proof (cases "rc' = 0")
      case True
      with st False lh show thesis by (intro started [of h]) auto
    next
      case F: False
      with st False lh show thesis by (intro dropped [of h]) auto
    qed
  qed
qed

lemma startStreaming_inv: "uvc_inv d \<Longrightarrow> uvc_inv (outcome_state (startStreaming E d))"
  by (cases rule: startStreaming_cases [of E d]) (auto simp: uvc_inv_def life_def)

lemma stopStreaming_keeps: "uvc_inv d \<Longrightarrow> uvc_inv (outcome_state (stopStreaming d))"
  by (simp add: stopStreaming_inv) (simp add: uvc_inv_def)

section \<open>The camera meets the switching contract\<close>

interpretation uvc_stream: stream_switch
  "\<lambda>d. outcome_state (startStreaming E d)" "\<lambda>d. outcome_state (stopStreaming d)" u_streaming uvc_inv for E
proof unfold_locales
  show "outcome_state (startStreaming E d) = d" if "uvc_inv d" "u_streaming d" for d
    using that by (simp add: startStreaming_def)
  show "outcome_state (stopStreaming d) = d" if "uvc_inv d" "\<not> u_streaming d" for d
    using that by (simp add: stopStreaming_def)
  show "\<not> u_streaming (outcome_state (stopStreaming d))" if "uvc_inv d" for d
    using that by (simp add: stopStreaming_inv)
qed (rule startStreaming_inv stopStreaming_keeps; assumption)+

section \<open>Runs\<close>

datatype uvc_event = UvcSubscribed | UvcUnsubscribed nat | UvcToggled bool

fun uvc_apply :: "uvc_env \<Rightarrow> uvc_event \<Rightarrow> Uvc \<Rightarrow> Uvc outcome" where
  "uvc_apply E UvcSubscribed d = uvc_imageSubscribedCallback E d"
| "uvc_apply E (UvcUnsubscribed n) d = uvc_imageUnsubscribedCallback n d"
| "uvc_apply E (UvcToggled b) d = toggleUVCCamera E b d"

lemma startStreaming_rest:
  "u_ctx (outcome_state (startStreaming E d)) = u_ctx d"
  "u_frame_buffer (outcome_state (startStreaming E d)) = u_frame_buffer d"
  by (cases rule: startStreaming_cases [of E d]; simp add: life_def)+

lemma stopStreaming_rest:
  "u_ctx (outcome_state (stopStreaming d)) = u_ctx d"
  "u_frame_buffer (outcome_state (stopStreaming d)) = u_frame_buffer d"
  by (simp_all add: stopStreaming_def with_handle_def)

lemma uvc_apply_inv:
  assumes "uvc_inv d"
  shows "uvc_inv (outcome_state (uvc_apply E e d)) \<and> u_ctx (outcome_state (uvc_apply E e d)) = u_ctx d \<and>
    u_frame_buffer (outcome_state (uvc_apply E e d)) = u_frame_buffer d"
  using assms by (cases e)
    (simp_all add: uvc_imageSubscribedCallback_def uvc_imageUnsubscribedCallback_def toggleUVCCamera_def
      startStreaming_inv stopStreaming_keeps startStreaming_rest stopStreaming_rest)

lemma uvc_run_inv:
  assumes "fold_outcome (uvc_apply E) es d = Inr e" "uvc_inv d"
  shows "uvc_inv e \<and> u_ctx e = u_ctx d \<and> u_frame_buffer e = u_frame_buffer d"
  using fold_outcome_invariant [of "\<lambda>e. uvc_inv e \<and> u_ctx e = u_ctx d \<and> u_frame_buffer e = u_frame_buffer d"
      d es "uvc_apply E"] uvc_apply_inv assms by simp

lemma find_device_life:
  "u_handle (snd (find_device E s d)) = u_handle d" "u_streaming (snd (find_device E s d)) = u_streaming d"
  "u_ctx (snd (find_device E s d)) = u_ctx d" "u_frame_buffer (snd (find_device E s d)) = u_frame_buffer d"
  "u_device (snd (find_device E s d)) = (u_device d \<or> fst (find_device E s d) = 0)"
  by (simp_all add: find_device_def Let_def)

text \<open>A search that succeeds leaves a device, one that fails leaves none.\<close>

definition search_ok :: "Uvc \<Rightarrow> int \<times> Uvc \<Rightarrow> bool" where
  "search_ok d rd \<longleftrightarrow> u_handle (snd rd) = u_handle d \<and> u_streaming (snd rd) = u_streaming d \<and>
     u_ctx (snd rd) = u_ctx d \<and> u_frame_buffer (snd rd) = u_frame_buffer d \<and> u_device (snd rd) = (fst rd = 0)"

lemma search_ok_find: "search_ok d rd \<Longrightarrow> fst rd \<noteq> 0 \<Longrightarrow> search_ok d (find_device E s (snd rd))"
  by (simp add: search_ok_def find_device_life)

lemma search_ok_retry: "search_ok d rd \<Longrightarrow> fst rd \<noteq> 0 \<Longrightarrow> search_ok d (retry_sleep (find_device E s) i n rd)"
proof (induction n arbitrary: i rd)
  case (Suc n)
  obtain rc e where e: "find_device E s (snd rd) = (rc, e)" by fastforce
  have ok: "search_ok d (rc, e)" using search_ok_find [OF Suc.prems, of E s] e by simp
  show ?case
  proof (cases "rc = 0")
    case False
    have "search_ok d (rc, ucall (Usleep (100 * i)) e)" using ok by (simp add: search_ok_def)
    from Suc.IH [OF this] False show ?thesis by (simp add: e)
  qed (use ok e in simp)
qed simp

lemma search_device_ok:
  assumes "\<not> u_device d"
  shows "search_ok d (search_device E d)"
proof -
  let ?s = "if cfg_serial_number (u_config d) = [] then None else Some (cfg_serial_number (u_config d))"
  let ?rd = "find_device E ?s d"
  have a: "search_ok d ?rd" using assms by (simp add: search_ok_def find_device_life)
  let ?rd2 = "if fst ?rd \<noteq> 0 \<and> u_device_num (snd ?rd) = 1 then find_device E None (snd ?rd) else ?rd"
  have "search_ok d ?rd2" using a search_ok_find [OF a, of E None] by simp
  from search_ok_retry [OF this, of E ?s 0] this show ?thesis
    by (simp add: search_device_def Let_def)
qed

lemma openCamera_spec:
  assumes "\<not> u_device d" "\<not> u_handle d" "\<not> u_streaming d"
  shows "case openCamera E d of
      Inr e \<Rightarrow> uvc_inv e \<and> u_handle e \<and> u_ctx e = u_ctx d \<and> u_frame_buffer e = u_frame_buffer d
    | Inl (f, e) \<Rightarrow> (\<exists>msg. f = Thrown msg) \<and> \<not> u_device e \<and> \<not> u_handle e \<and> u_ctx e = u_ctx d \<and>
        u_frame_buffer e = u_frame_buffer d"
proof -
  obtain err e where e: "search_device E d = (err, e)" by fastforce
  have "search_ok d (err, e)" using search_device_ok [OF assms(1), of E] e by simp
  then show ?thesis
    using assms e by (auto simp: openCamera_def search_ok_def uvc_inv_def Let_def)
qed

lemma setup_life [simp]:
  "life (setup_exposure E d) = life d" "life (setup_gain E d) = life d" "life (setup_backlight E d) = life d"
  by (simp_all add: setup_exposure_def setup_gain_def setup_backlight_def Let_def)

lemma setupCameraParams_life:
  assumes "u_handle d"
  shows "\<exists>e. setupCameraParams E d = Inr e \<and> life e = life d"
  using assms by (simp add: setupCameraParams_def with_handle_def)

lemma fresh_uvc_fields [simp]:
  "\<not> u_device fresh_uvc" "\<not> u_handle fresh_uvc" "\<not> u_streaming fresh_uvc" "\<not> u_opened fresh_uvc"
  "\<not> u_ctx fresh_uvc" "\<not> u_frame_buffer fresh_uvc"
  by (simp_all add: fresh_uvc_def)

lemma fresh_uvc_simps [simp]:
  "u_log fresh_uvc = []" "life fresh_uvc = (False, False, False, False, False, False)"
  by (simp_all add: fresh_uvc_def life_def)

lemma read_uvc_params_life [simp]: "life (read_uvc_params P s d) = life d"
  by (simp add: read_uvc_params_def Let_def life_def)

lemma ctor_spec:
  "case UVCCameraDriver E P serial of
     Inr d \<Rightarrow> uvc_inv d \<and> u_handle d \<and> u_ctx d \<and> u_frame_buffer d
   | Inl (f, d) \<Rightarrow> \<not> u_device d \<and> \<not> u_handle d \<and> u_ctx d = (uvc_rc E [] UvcInit = 0) \<and>
       u_frame_buffer d = (uvc_rc E [] UvcInit = 0 \<and> frame_alloc_ok E)"
proof (cases "uvc_rc E [] UvcInit = 0 \<and> frame_alloc_ok E")
  case True
  let ?p = "read_uvc_params P serial ((ucall UvcInit fresh_uvc)\<lparr>u_ctx := True\<rparr>)"
  let ?d = "?p\<lparr>u_frame_buffer := True, u_services := uvc_services\<rparr>"
  have "life ?p = life ((ucall UvcInit fresh_uvc)\<lparr>u_ctx := True\<rparr>)" by simp
  then have d: "\<not> u_device ?d" "\<not> u_handle ?d" "\<not> u_streaming ?d" "u_ctx ?d" "u_frame_buffer ?d"
    using fresh_uvc_simps(2) by (simp_all add: life_def)
  have eq: "UVCCameraDriver E P serial = and_then (openCamera E ?d) (\<lambda>d. and_then (setupCameraParams E d)
      (\<lambda>d. Inr (d\<lparr>u_initialized := True\<rparr>)))"
    using True by (simp add: UVCCameraDriver_def Let_def urc_def)
  show ?thesis
  proof (cases "openCamera E ?d")
    case (Inl fe)
    then show ?thesis using openCamera_spec [OF d(1-3), of E] d True unfolding eq by (cases fe) simp
  next
    case (Inr e)
    then have e: "uvc_inv e" "u_handle e" "u_ctx e" "u_frame_buffer e"
      using openCamera_spec [OF d(1-3), of E] d by simp_all
    obtain g where g: "setupCameraParams E e = Inr g" "life g = life e"
      using setupCameraParams_life [OF e(2)] by blast
    show ?thesis using Inr g e uvc_inv_life [OF g(2)] unfolding eq by (simp add: life_def uvc_inv_def)
  qed
next
  case False
  let ?p = "read_uvc_params P serial ((ucall UvcInit fresh_uvc)\<lparr>u_ctx := True\<rparr>)"
  have "life ?p = life ((ucall UvcInit fresh_uvc)\<lparr>u_ctx := True\<rparr>)" by simp
  then have p: "life ?p = (False, False, False, False, True, False)"
    using fresh_uvc_simps(2) by (simp add: life_def)
  show ?thesis
  proof (cases "uvc_rc E [] UvcInit = 0")
    case True
    then have "UVCCameraDriver E P serial = Inl (CheckFailed ''frame_buffer_'', ?p)"
      using False by (simp add: UVCCameraDriver_def Let_def urc_def)
    then show ?thesis using p True False by (simp add: life_def)
  next
    case F: False
    then have "UVCCameraDriver E P serial = Inl (Thrown ''init uvc context failed'', ucall UvcInit fresh_uvc)"
      by (simp add: UVCCameraDriver_def Let_def urc_def)
    then show ?thesis using F fresh_uvc_simps(2) by (simp add: life_def)
  qed
qed

text \<open>
  Claim C13.  The driver's life cycle: after a successful construction and any sequence of
  subscriptions, unsubscriptions and toggles that does not fault, the device and its handle are
  both live or both gone and streaming only happens on a live handle; destruction does not fault,
  stops the stream before it closes the handle, and releases each resource exactly once.
\<close>

theorem uvc_life_cycle:
  assumes "UVCCameraDriver E P serial = Inr d0" and "fold_outcome (uvc_apply E) es d0 = Inr d"
  shows "uvc_inv d \<and>
    (\<exists>e. UVCCameraDriver_dtor d = Inr e \<and> life e = (False, False, False, u_opened d, False, False) \<and>
      u_log e = u_log d @ (if u_streaming d then [UvcStopStreaming] else []) @
        (if u_handle d then [UvcClose, UvcUnref] else []) @ [UvcExit, UvcFreeFrame])"
proof -
  have d0: "uvc_inv d0" "u_ctx d0" "u_frame_buffer d0" using ctor_spec [of E P serial] assms(1) by simp_all
  have d: "uvc_inv d" "u_ctx d" "u_frame_buffer d" using uvc_run_inv [OF assms(2) d0(1)] d0 by simp_all
  let ?g = "if u_streaming d then (ucall UvcStopStreaming d)\<lparr>u_streaming := False\<rparr> else d"
  have g: "u_handle ?g = u_handle d" "u_device ?g = u_handle d" "u_ctx ?g" "u_frame_buffer ?g" "\<not> u_streaming ?g"
    "u_log ?g = u_log d @ (if u_streaming d then [UvcStopStreaming] else [])" "u_opened ?g = u_opened d"
    using d by (auto simp: uvc_inv_def)
  have "UVCCameraDriver_dtor d = Inr (release_all ?g)"
    by (simp add: UVCCameraDriver_dtor_def stopStreaming_inv [OF d(1)])
  moreover have "life (release_all x) = (False, False, False, u_opened x, False, False) \<and>
      u_log (release_all x) = u_log x @ (if u_handle x then [UvcClose, UvcUnref] else []) @ [UvcExit, UvcFreeFrame]"
    if "u_device x = u_handle x" "u_ctx x" "u_frame_buffer x" "\<not> u_streaming x" for x
    using that by (cases "u_handle x") (simp_all add: release_all_def Let_def life_def)
  ultimately show ?thesis using d(1) g by simp
qed

definition ok_uvc :: uvc_env where
  "ok_uvc = \<lparr>uvc_rc = (\<lambda>_ _. 0), uvc_val = (\<lambda>_ _. 0), uvc_octets = (\<lambda>_ _. []), uvc_strerror = (\<lambda>_. []),
     uvc_location = (\<lambda>_. []),
     frame_alloc_ok = True\<rparr>"

lemma ok_uvc_simps [simp]: "urc ok_uvc k d = 0" "uval ok_uvc k d = 0" "frame_alloc_ok ok_uvc"
  "uvc_rc ok_uvc h k = 0"
  by (simp_all add: ok_uvc_def urc_def uval_def)

lemma ok_uvc_opens: "\<exists>d. UVCCameraDriver ok_uvc empty_params [] = Inr d"
proof -
  have "\<exists>e. openCamera ok_uvc d = Inr e \<and> u_handle e" if "\<not> u_device d" "\<not> u_handle d" for d
    using that by (simp add: openCamera_def search_device_def find_device_def Let_def)
  moreover have "\<exists>e. setupCameraParams ok_uvc d = Inr e" if "u_handle d" for d
    using setupCameraParams_life [OF that] by blast
  moreover let ?p = "read_uvc_params empty_params [] ((ucall UvcInit fresh_uvc)\<lparr>u_ctx := True\<rparr>)"
  have "life ?p = (False, False, False, False, True, False)" by simp (simp add: life_def)
  then have "\<not> u_device (?p\<lparr>u_frame_buffer := True, u_services := uvc_services\<rparr>)"
    "\<not> u_handle (?p\<lparr>u_frame_buffer := True, u_services := uvc_services\<rparr>)" by (simp_all add: life_def)
  ultimately obtain e g where "openCamera ok_uvc (?p\<lparr>u_frame_buffer := True, u_services := uvc_services\<rparr>) = Inr e"
    "setupCameraParams ok_uvc e = Inr g" by blast
  then show ?thesis by (simp add: UVCCameraDriver_def Let_def)
qed

theorem uvc_life_cycle_witness:
  "\<exists>d0 d e. UVCCameraDriver ok_uvc empty_params [] = Inr d0 \<and> uvc_apply ok_uvc UvcSubscribed d0 = Inr d \<and>
     UVCCameraDriver_dtor d = Inr e \<and> \<not> u_handle e"
proof -
  obtain d0 where d0: "UVCCameraDriver ok_uvc empty_params [] = Inr d0" using ok_uvc_opens by blast
  have i: "uvc_inv d0" "u_handle d0" "u_initialized d0"
    using ctor_spec [of ok_uvc empty_params "[]"] d0
    by (auto simp: UVCCameraDriver_def Let_def and_then_eq_Inr)
  have "\<exists>d. uvc_apply ok_uvc UvcSubscribed d0 = Inr d"
    using i by (simp add: uvc_imageSubscribedCallback_def startStreaming_def setVideoMode_def ctrl_attempt_def
        start_stream_retrying_def start_attempt_def with_handle_def uvc_inv_def numeral_eq_Suc Let_def)
  then obtain d where d: "uvc_apply ok_uvc UvcSubscribed d0 = Inr d" by blast
  then have "fold_outcome (uvc_apply ok_uvc) [UvcSubscribed] d0 = Inr d" by simp
  from uvc_life_cycle [OF d0 this] d0 d show ?thesis by (auto simp: life_def)
qed

section \<open>When the camera does not start\<close>

lemma retry_all_fail:
  assumes "\<And>h. uvc_rc E h k \<noteq> 0" "\<And>d. f d = (urc E k d, ucall k d)"
  shows "r \<noteq> 0 \<Longrightarrow> \<exists>r'. r' \<noteq> 0 \<and> retry f n (r, d) = (r', d\<lparr>u_log := u_log d @ replicate n k\<rparr>)"
proof (induction n arbitrary: r d)
  case (Suc n)
  have "urc E k d \<noteq> 0" using assms(1) by (simp add: urc_def)
  from Suc.IH [OF this, of "ucall k d"] this show ?case by (simp add: assms(2) ucall_def)
qed simp

text \<open>The calls of a retry loop that fails throughout: \<open>n\<close> attempts with growing pauses.\<close>

definition failing_rounds :: "uvc_call \<Rightarrow> nat \<Rightarrow> nat \<Rightarrow> uvc_call list" where
  "failing_rounds k i n = concat (map (\<lambda>j. [k, Usleep (100 * j)]) [i..<i + n])"

lemma failing_rounds_Suc: "failing_rounds k i (Suc n) = [k, Usleep (100 * i)] @ failing_rounds k (Suc i) n"
  by (simp add: failing_rounds_def upt_rec [of i])

lemma retry_sleep_all_fail:
  assumes "\<And>h. uvc_rc E h k \<noteq> 0" "\<And>d. f d = (urc E k d, ucall k d)"
  shows "r \<noteq> 0 \<Longrightarrow> \<exists>r'. r' \<noteq> 0 \<and> retry_sleep f i n (r, d) = (r', d\<lparr>u_log := u_log d @ failing_rounds k i n\<rparr>)"
proof (induction n arbitrary: i r d)
  case 0
  then show ?case by (simp add: failing_rounds_def)
next
  case (Suc n)
  have "urc E k d \<noteq> 0" using assms(1) by (simp add: urc_def)
  from Suc.IH [OF this, of "Suc i" "ucall (Usleep (100 * i)) (ucall k d)"] this
  show ?case by (simp add: assms(2) ucall_def failing_rounds_Suc)
qed

definition mode_call :: "Uvc \<Rightarrow> uvc_call" where
  "mode_call d = (let c = u_config d
     in UvcGetStreamCtrl (UVCFrameFormatString (cfg_format c)) (cfg_width c) (cfg_height c) (cfg_fps c))"

text \<open>
  A camera that refuses the video mode is asked five times, then closed and released;
  but the start goes on with the null handle, which is undefined behaviour, instead of returning.
\<close>

theorem refused_mode_uses_null_handle:
  assumes "u_opened d" and "u_device d" and "u_handle d" and "\<not> u_streaming d"
    and "\<And>h. uvc_rc E h (mode_call d) \<noteq> 0"
  shows "\<exists>e. startStreaming E d = Inl (NullDeref ''device_handle_'', e) \<and>
    u_log e = u_log d @ replicate 5 (mode_call d) @ [UvcClose, UvcUnref] \<and>
    \<not> u_handle e \<and> \<not> u_device e \<and> u_opened e"
proof -
  have f: "ctrl_attempt E x = (urc E (mode_call d) x, ucall (mode_call d) x)" if "u_config x = u_config d" for x
    using that by (simp add: ctrl_attempt_def mode_call_def Let_def)
  have "\<exists>r'. r' \<noteq> 0 \<and> retry (ctrl_attempt E) n (r, x) = (r', x\<lparr>u_log := u_log x @ replicate n (mode_call d)\<rparr>)"
    if "u_config x = u_config d" "r \<noteq> 0" for n r x
    using that
  proof (induction n arbitrary: r x)
    case (Suc n)
    have "urc E (mode_call d) x \<noteq> 0" using assms(5) by (simp add: urc_def)
    then show ?case using Suc.IH [of "ucall (mode_call d) x" "urc E (mode_call d) x"] Suc.prems f [of x]
      by (simp add: ucall_def)
  qed simp
  from this [of d 1 5] obtain r' where "r' \<noteq> 0"
    "retry (ctrl_attempt E) 5 (1, d) = (r', d\<lparr>u_log := u_log d @ replicate 5 (mode_call d)\<rparr>)" by auto
  then show ?thesis
    using assms(1-4) by (simp add: startStreaming_def setVideoMode_def start_stream_retrying_def with_handle_def)
qed

definition open_uvc :: Uvc where
  "open_uvc = fresh_uvc\<lparr>u_opened := True, u_device := True, u_handle := True, u_ctx := True\<rparr>"

lemma open_uvc_simps [simp]: "u_opened open_uvc" "u_device open_uvc" "u_handle open_uvc" "\<not> u_streaming open_uvc"
  "u_log open_uvc = []"
  by (simp_all add: open_uvc_def fresh_uvc_def)

theorem refused_mode_uses_null_handle_witness:
  "\<exists>e. startStreaming (ok_uvc\<lparr>uvc_rc := (\<lambda>_ _. -1)\<rparr>) open_uvc = Inl (NullDeref ''device_handle_'', e) \<and>
     length (u_log e) = 7"
  using refused_mode_uses_null_handle [of open_uvc "ok_uvc\<lparr>uvc_rc := (\<lambda>_ _. -1)\<rparr>"] by auto

text \<open>
  A camera that accepts the mode but never starts: the driver makes \<open>retry_count + 1\<close>
  attempts, sleeping \<open>100 i\<close> microseconds after the \<open>i\<close>-th retry, then closes and releases the
  camera.  It still counts as opened, so the next subscriber does not find it closed but aborts the
  process at the check of the device.
\<close>

theorem failed_start_aborts_next_start:
  assumes "u_opened d" and "u_device d" and "u_handle d" and "\<not> u_streaming d"
    and "\<And>h. uvc_rc E h (mode_call d) = 0" and "\<And>h. uvc_rc E h UvcStartStreaming \<noteq> 0"
  shows "\<exists>e. startStreaming E d = Inr e \<and> \<not> u_streaming e \<and>
    u_log e = u_log d @ [mode_call d, UvcStartStreaming] @
      concat (map (\<lambda>i. [UvcStartStreaming, Usleep (100 * i)]) [0..<nat (retry_count (u_config d))]) @
      [UvcClose, UvcUnref] \<and>
    startStreaming E e = Inl (CheckFailed ''device_'', e)"
proof -
  let ?m = "ucall (mode_call d) d" and ?n = "nat (retry_count (u_config d))"
  have mode: "retry (ctrl_attempt E) 5 (1, d) = (0, ?m)"
    using assms(5) by (simp add: numeral_eq_Suc ctrl_attempt_def mode_call_def urc_def Let_def)
  have nz: "urc E UvcStartStreaming x \<noteq> 0" for x using assms(6) by (simp add: urc_def)
  let ?s = "ucall UvcStartStreaming ?m"
  obtain r' where r': "r' \<noteq> 0" "retry_sleep (start_attempt E) 0 ?n (urc E UvcStartStreaming ?m, ?s) =
      (r', ?s\<lparr>u_log := u_log ?s @ failing_rounds UvcStartStreaming 0 ?n\<rparr>)"
    using retry_sleep_all_fail [of E UvcStartStreaming "start_attempt E", OF assms(6) start_attempt_def nz] by blast
  have "startStreaming E d = Inr (drop_device (?s\<lparr>u_log := u_log ?s @ failing_rounds UvcStartStreaming 0 ?n\<rparr>))"
    using assms(1-4) mode nz r'
    by (simp add: startStreaming_def setVideoMode_def start_stream_retrying_def with_handle_def
        start_attempt_def Let_def)
  moreover have "startStreaming E e = Inl (CheckFailed ''device_'', e)"
    if "e = drop_device (?s\<lparr>u_log := u_log ?s @ failing_rounds UvcStartStreaming 0 ?n\<rparr>)" for e
    unfolding that using assms(1,4) by (simp add: startStreaming_def)
  ultimately show ?thesis
    using assms(4) by (simp add: failing_rounds_def)
qed

theorem failed_start_aborts_next_start_witness:
  "\<exists>e. startStreaming (ok_uvc\<lparr>uvc_rc := (\<lambda>_ k. if k = UvcStartStreaming then -1 else 0)\<rparr>) open_uvc = Inr e \<and>
     startStreaming (ok_uvc\<lparr>uvc_rc := (\<lambda>_ k. if k = UvcStartStreaming then -1 else 0)\<rparr>) e =
       Inl (CheckFailed ''device_'', e)"
proof -
  let ?E = "ok_uvc\<lparr>uvc_rc := (\<lambda>_ k. if k = UvcStartStreaming then -1 else 0)\<rparr>"
  have "uvc_rc ?E h (mode_call open_uvc) = 0" "uvc_rc ?E h UvcStartStreaming \<noteq> 0" for h
    by (simp_all add: mode_call_def Let_def)
  from failed_start_aborts_next_start [of open_uvc ?E, OF _ _ _ _ this] show ?thesis by auto
qed

text \<open>
  A constructor that cannot open the camera throws without giving back what it holds:
  the libuvc context and the frame buffer stay allocated, and no call releases them.
\<close>

theorem failed_construction_leaks:
  assumes "UVCCameraDriver E P serial = Inl (f, d)" and "uvc_rc E [] UvcInit = 0" and "frame_alloc_ok E"
  shows "u_ctx d \<and> u_frame_buffer d \<and> \<not> u_device d \<and> \<not> u_handle d"
  using ctor_spec [of E P serial] assms by simp

theorem failed_construction_leaks_witness:
  "\<exists>f d. UVCCameraDriver (ok_uvc\<lparr>uvc_rc := (\<lambda>_ k. if k = UvcOpen then -1 else 0)\<rparr>) empty_params [] = Inl (f, d) \<and>
     u_ctx d \<and> u_frame_buffer d"
proof -
  let ?E = "ok_uvc\<lparr>uvc_rc := (\<lambda>_ k. if k = UvcOpen then -1 else 0)\<rparr>"
  have op: "\<exists>f e. openCamera ?E d = Inl (f, e)" if "\<not> u_device d" "\<not> u_handle d" for d
    using that by (simp add: openCamera_def search_device_def find_device_def urc_def Let_def)
  let ?p = "read_uvc_params empty_params [] ((ucall UvcInit fresh_uvc)\<lparr>u_ctx := True\<rparr>)"
  have "life ?p = (False, False, False, False, True, False)" by simp (simp add: life_def)
  then obtain f e where "openCamera ?E (?p\<lparr>u_frame_buffer := True, u_services := uvc_services\<rparr>) = Inl (f, e)"
    using op [of "?p\<lparr>u_frame_buffer := True, u_services := uvc_services\<rparr>"] by (auto simp: life_def)
  then have u: "UVCCameraDriver ?E empty_params [] = Inl (f, e)"
    by (simp add: UVCCameraDriver_def Let_def urc_def)
  from failed_construction_leaks [OF u] u show ?thesis by (auto simp: ok_uvc_def)
qed

end
