(* ===== verification/Uvc_Service.thy ===== *)
theory Uvc_Service
  imports Uvc_Driver Camera_Types
begin

unbundle bit_operations_syntax

text \<open>
  The control services and the frame callback of the UVC camera (\<open>uvc_camera_driver.cpp\<close>), with the
  octet macros of libuvc that the code copies.
\<close>

section \<open>Octets\<close>

text \<open>\<open>INT_TO_DW\<close>, \<open>DW_TO_INT\<close>, \<open>SW_TO_SHORT\<close>: the last one is an \<open>int\<close> expression.\<close>

definition INT_TO_DW :: "32 word \<Rightarrow> 8 word list" where
  "INT_TO_DW i = [ucast i, ucast (drop_bit 8 i), ucast (drop_bit 16 i), ucast (drop_bit 24 i)]"

definition DW_TO_INT :: "8 word list \<Rightarrow> 32 word" where
  "DW_TO_INT p = ucast (p ! 0) OR push_bit 8 (ucast (p ! 1)) OR push_bit 16 (ucast (p ! 2)) OR
     push_bit 24 (ucast (p ! 3))"

definition SHORT_TO_SW :: "16 word \<Rightarrow> 8 word list" where
  "SHORT_TO_SW s = [ucast s, ucast (drop_bit 8 s)]"

definition SW_TO_SHORT :: "8 word list \<Rightarrow> int" where
  "SW_TO_SHORT p = sint (ucast (p ! 0) OR push_bit 8 (ucast (p ! 1)) :: 32 word)"

section \<open>Replies\<close>

record uvc_reply =
  ur_ok :: bool
  ur_message :: string
  ur_data :: int

definition ur_fail :: "string \<Rightarrow> int \<Rightarrow> uvc_reply" where
  "ur_fail msg data = \<lparr>ur_ok = False, ur_message = msg, ur_data = data\<rparr>"

definition ur_done :: "int \<Rightarrow> uvc_reply" where
  "ur_done data = \<lparr>ur_ok = True, ur_message = [], ur_data = data\<rparr>"

type_synonym uvc_handled = "(fault \<times> Uvc) + (uvc_reply \<times> Uvc)"

text \<open>Reading one control: the value is delivered when the call succeeds.\<close>

definition getUVCExposureCb :: "uvc_env \<Rightarrow> Uvc \<Rightarrow> uvc_handled" where
  "getUVCExposureCb E d =
     with_handle d
       (let k = UvcGetExposure UVC_GET_CUR; err = urc E k d; data = uval E k d; d = ucall k d
        in if err \<noteq> 0 then Inr (ur_fail (uvc_strerror E err) 0, d) else Inr (ur_done (s32 data), d))"

definition setUVCExposureCb :: "uvc_env \<Rightarrow> int \<Rightarrow> Uvc \<Rightarrow> uvc_handled" where
  "setUVCExposureCb E data d =
     with_handle d
       (if data = 0 then Inr (ur_done 0, ucall (UvcSetAeMode 8) d)
        else let max_expo = uval E (UvcGetExposure UVC_GET_MAX) d; d = ucall (UvcGetExposure UVC_GET_MAX) d;
                 min_expo = uval E (UvcGetExposure UVC_GET_MIN) d; d = ucall (UvcGetExposure UVC_GET_MIN) d
             in if data < s32 min_expo \<or> data > s32 max_expo
                then Inr (ur_fail (''Exposure value out of range. Min: '' @ show_int (min_expo mod 2 ^ 32) @
                       '', Max: '' @ show_int (max_expo mod 2 ^ 32)) 0, d)
                else let d = ucall (UvcSetAeMode 1) d; k = UvcSetExposure (data mod 2 ^ 32);
                         err = urc E k d; d = ucall k d
                     in if err \<noteq> 0 then Inr (ur_fail (uvc_strerror E err) 0, d) else Inr (ur_done 0, d))"

definition getUVCGainCb :: "uvc_env \<Rightarrow> Uvc \<Rightarrow> uvc_handled" where
  "getUVCGainCb E d =
     with_handle d
       (let k = UvcGetGain UVC_GET_CUR; err = urc E k d; gain = uval E k d mod 2 ^ 16; d = ucall k d
        in if err \<noteq> 0 then Inr (ur_fail (uvc_strerror E err) gain, d) else Inr (ur_done gain, d))"

definition setUVCGainCb :: "uvc_env \<Rightarrow> int \<Rightarrow> Uvc \<Rightarrow> uvc_handled" where
  "setUVCGainCb E data d =
     with_handle d
       (let min_gain = uval E (UvcGetGain UVC_GET_MIN) d mod 2 ^ 16; d = ucall (UvcGetGain UVC_GET_MIN) d;
            max_gain = uval E (UvcGetGain UVC_GET_MAX) d mod 2 ^ 16; d = ucall (UvcGetGain UVC_GET_MAX) d
        in if data < min_gain \<or> data > max_gain
           then Inr (ur_fail (''Gain must be between '' @ show_int min_gain @ '' and '' @ show_int max_gain) 0, d)
           else let k = UvcSetGain (data mod 2 ^ 16); err = urc E k d; d = ucall k d
                in if err \<noteq> 0 then Inr (ur_fail (uvc_strerror E err) 0, d) else Inr (ur_done 0, d))"

definition getUVCWhiteBalanceCb :: "uvc_env \<Rightarrow> Uvc \<Rightarrow> uvc_handled" where
  "getUVCWhiteBalanceCb E d =
     with_handle d
       (let k = UvcGetWhiteBalance UVC_GET_CUR; err = urc E k d; data = uval E k d mod 2 ^ 16; d = ucall k d
        in if err \<noteq> 0 then Inr (ur_fail (uvc_strerror E err) data, d) else Inr (ur_done data, d))"

text \<open>\<open>UVCGetControl\<close>: the four local octets are uninitialised before the call fills them.\<close>

definition UVCGetControl :: "uvc_env \<Rightarrow> int \<Rightarrow> nat \<Rightarrow> uvc_req \<Rightarrow> Uvc \<Rightarrow> int \<times> Uvc" where
  "UVCGetControl E unit len req_code d =
     (let k = UvcGetCtrl unit len req_code; ret = urc E k d; data = uvc_octets E (u_log d) k
      in (if ret < 0 then -1 else SW_TO_SHORT data, ucall k d))"

definition setUVCWhiteBalanceCb :: "uvc_env \<Rightarrow> int \<Rightarrow> Uvc \<Rightarrow> uvc_handled" where
  "setUVCWhiteBalanceCb E data d =
     with_handle d
       (if data = 0 then Inr (ur_done 0, ucall (UvcSetWhiteBalanceAuto 1) d)
        else let d = ucall (UvcSetWhiteBalanceAuto 0) d;
                 unit = uval E UvcGetProcessingUnits d; d = ucall UvcGetProcessingUnits d;
                 (min_white_balance, d) = UVCGetControl E unit 2 UVC_GET_MIN d;
                 (max_white_balance, d) = UVCGetControl E unit 2 UVC_GET_MAX d
             in if data < min_white_balance \<or> data > max_white_balance
                then Inr (ur_fail (''Please set white balance between '' @ show_int min_white_balance @ '' and '' @
                       show_int max_white_balance) 0, d)
                else let k = UvcSetCtrl unit (INT_TO_DW (word_of_int data)); ret = urc E k d; d = ucall k d
                     in if ret \<noteq> 4
                        then Inr (ur_fail (''set white balance failed '' @ uvc_strerror E ret) 0, d)
                        else Inr (ur_done 0, d))"

definition setUVCAutoExposureCb :: "bool \<Rightarrow> Uvc \<Rightarrow> uvc_handled" where
  "setUVCAutoExposureCb data d = with_handle d (Inr (ur_done 0, ucall (UvcSetAeMode (if data then 8 else 1)) d))"

definition setUVCAutoWhiteBalanceCb :: "bool \<Rightarrow> Uvc \<Rightarrow> uvc_handled" where
  "setUVCAutoWhiteBalanceCb data d =
     with_handle d (Inr (ur_done 0, ucall (UvcSetWhiteBalanceAuto (if data then 1 else 0)) d))"

definition s16 :: "int \<Rightarrow> int" where
  "s16 v = (if v mod 2 ^ 16 < 2 ^ 15 then v mod 2 ^ 16 else v mod 2 ^ 16 - 2 ^ 16)"

definition getUVCMirrorCb :: "uvc_env \<Rightarrow> Uvc \<Rightarrow> uvc_handled" where
  "getUVCMirrorCb E d =
     with_handle d
       (let k = UvcGetRoll UVC_GET_CUR; err = urc E k d; mirror = s16 (uval E k d); d = ucall k d
        in if err \<noteq> 0 then Inr (ur_fail (uvc_strerror E err) mirror, d) else Inr (ur_done mirror, d))"

definition setUVCMirrorCb :: "bool \<Rightarrow> Uvc \<Rightarrow> uvc_handled" where
  "setUVCMirrorCb data d = Inr (ur_done 0, d\<lparr>u_uvc_flip := data\<rparr>)"

definition uvc_saveImageCallback :: "Uvc \<Rightarrow> Uvc" where
  "uvc_saveImageCallback d = d\<lparr>u_save_image := True\<rparr>"

section \<open>Frames\<close>

datatype frame_format = FRAME_BGR | FRAME_RGB | FRAME_UYVY | FRAME_YUYV | FRAME_MJPEG | FRAME_ANY

record uvc_frame =
  fr_width :: nat
  fr_height :: nat
  fr_format :: frame_format
  fr_data :: "8 word list"

text \<open>
  The conversions of libuvc deliver a result and the octets of the frame buffer; cropping to a
  region and mirroring are done by OpenCV.
\<close>

record frame_env =
  uvc_yuyv2bgr :: "uvc_frame \<Rightarrow> int \<times> 8 word list"
  uvc_mjpeg2rgb :: "uvc_frame \<Rightarrow> int \<times> 8 word list"
  uvc_any2bgr :: "uvc_frame \<Rightarrow> int \<times> 8 word list"
  cv_crop :: "ImageROI \<Rightarrow> Image \<Rightarrow> Image"
  cv_flip :: "Image \<Rightarrow> Image"

text \<open>\<open>memcpy(&(image.data[0]), src, n)\<close> into a vector that was resized to \<open>height * step\<close>.\<close>

definition copy_into :: "8 word list \<Rightarrow> Image \<Rightarrow> fault + Image" where
  "copy_into src img =
     (if length (im_data img) < length src then Inl (OutOfBounds ''memcpy image.data'')
      else Inr (img\<lparr>im_data := src @ drop (length src) (im_data img)\<rparr>))"

definition blank_image :: "uvc_frame \<Rightarrow> Image" where
  "blank_image frame =
     \<lparr>im_width = fr_width frame, im_height = fr_height frame, im_step = fr_width frame * 3, im_encoding = [],
      im_data = replicate (fr_height frame * (fr_width frame * 3)) 0\<rparr>"

text \<open>\<open>Inr None\<close> is the early return after a failed conversion.\<close>

definition convert_frame :: "frame_env \<Rightarrow> uvc_frame \<Rightarrow> fault + Image option" where
  "convert_frame V frame =
     (let img = blank_image frame;
          put = (\<lambda>enc src. and_then (copy_into src (img\<lparr>im_encoding := enc\<rparr>)) (\<lambda>i. Inr (Some i)));
          conv = (\<lambda>enc r. if fst r \<noteq> 0 then Inr None else put enc (snd r))
      in case fr_format frame of
           FRAME_BGR \<Rightarrow> put ''bgr8'' (fr_data frame)
         | FRAME_RGB \<Rightarrow> put ''rgb8'' (fr_data frame)
         | FRAME_UYVY \<Rightarrow> put ''yuv422'' (fr_data frame)
         | FRAME_YUYV \<Rightarrow> conv ''bgr8'' (uvc_yuyv2bgr V frame)
         | FRAME_MJPEG \<Rightarrow> conv ''rgb8'' (uvc_mjpeg2rgb V frame)
         | FRAME_ANY \<Rightarrow> conv ''bgr8'' (uvc_any2bgr V frame))"

text \<open>
  \<open>getCameraInfo\<close>: the calibration of the manager when it has one, else the one of the node; with the
  frame the message is stamped with.
\<close>

definition uvc_getCameraInfo :: "CameraInfo option \<Rightarrow> CameraInfo \<Rightarrow> Uvc \<Rightarrow> string \<times> CameraInfo" where
  "uvc_getCameraInfo calibrated camera_info d =
     (cfg_optical_frame_id (u_config d), case calibrated of Some i \<Rightarrow> i | None \<Rightarrow> camera_info)"

text \<open>The published img, whether it is saved to a file, and the new state.\<close>

definition frameCallback ::
    "frame_env \<Rightarrow> uvc_frame option \<Rightarrow> Uvc \<Rightarrow> (fault \<times> Uvc) + ((Image \<times> bool) option \<times> Uvc)" where
  "frameCallback V frame d =
     (case frame of
        None \<Rightarrow> Inl (CheckFailed ''frame'', d)
      | Some fr \<Rightarrow>
          if \<not> u_frame_buffer d then Inl (CheckFailed ''frame_buffer_'', d)
          else case convert_frame V fr of
                 Inl e \<Rightarrow> Inl (e, d)
               | Inr None \<Rightarrow> Inr (None, d)
               | Inr (Some img) \<Rightarrow>
                   let roi = u_roi d;
                       img = (if roi_x roi \<noteq> -1 \<and> roi_y roi \<noteq> -1 \<and> roi_width roi \<noteq> -1 \<and> roi_height roi \<noteq> -1
                                then cv_crop V roi img else img);
                       img = (if u_uvc_flip d \<or> u_flip_color d then cv_flip V img else img)
                   in Inr (Some (img, u_save_image d), d\<lparr>u_save_image := False\<rparr>))"

text \<open>\<open>autoControlsCallback\<close> checks the length of the data and logs.\<close>

definition autoControlsCallback :: "nat \<Rightarrow> Uvc \<Rightarrow> Uvc outcome" where
  "autoControlsCallback data_len d = (if data_len < 256 then Inr d else Inl (CheckFailed ''data_len < 256'', d))"

section \<open>Facts\<close>

text \<open>The macros convert an integer to octets and back without loss.\<close>

lemma DW_TO_INT_TO_DW: "DW_TO_INT (INT_TO_DW i) = i"
proof (rule bit_word_eqI)
  fix n
  assume "n < LENGTH(32)"
  then show "bit (DW_TO_INT (INT_TO_DW i)) n = bit i n"
    by (cases "n < 8"; cases "n < 16"; cases "n < 24") (auto simp: DW_TO_INT_def INT_TO_DW_def bit_simps)
qed

text \<open>
  A 16-bit control with the high bit set is read as a positive number: \<open>SW_TO_SHORT\<close> is not a
  \<open>short\<close>.
\<close>

lemma SW_TO_SHORT_unsigned: "SW_TO_SHORT [a, b] = uint a + 256 * uint b"
proof -
  let ?w = "ucast a OR push_bit 8 (ucast b) :: 32 word"
  have high: "\<not> bit (x :: 8 word) n" if "8 \<le> n" for x n
    using bit_imp_le_length [of x n] that by auto
  have disj: "(ucast a :: 32 word) AND push_bit 8 (ucast b) = 0"
    by (rule bit_word_eqI) (auto simp: bit_simps high)
  have w: "?w = ucast a + push_bit 8 (ucast b)"
    using disj by (simp add: disjunctive_add_eq_or)
  have a: "uint a < 2 ^ 8" "uint b < 2 ^ 8" using uint_lt2p [of a] uint_lt2p [of b] by simp_all
  have u: "uint ?w = uint a + 256 * uint b"
    unfolding w using a by (simp add: push_bit_eq_mult uint_word_ariths uint_up_ucast is_up mod_pos_pos_trivial)
  then have "uint ?w < 2 ^ 31" using a by simp
  then have "sint ?w = uint ?w"
  proof -
    have "- (2 ^ 31) \<le> uint ?w" by (rule order_trans [of _ 0]) simp_all
    then show ?thesis
      using signed_take_bit_int_eq_self [of 31 "uint ?w"] \<open>uint ?w < 2 ^ 31\<close> by (simp only: sint_uint) simp
  qed
  then show ?thesis using u by (simp add: SW_TO_SHORT_def)
qed

text \<open>The payload that is copied into the image, if any.\<close>

definition payload :: "frame_env \<Rightarrow> uvc_frame \<Rightarrow> (string \<times> 8 word list) option" where
  "payload V frame =
     (let conv = (\<lambda>enc r. if fst r \<noteq> 0 then None else Some (enc, snd r))
      in case fr_format frame of
           FRAME_BGR \<Rightarrow> Some (''bgr8'', fr_data frame)
         | FRAME_RGB \<Rightarrow> Some (''rgb8'', fr_data frame)
         | FRAME_UYVY \<Rightarrow> Some (''yuv422'', fr_data frame)
         | FRAME_YUYV \<Rightarrow> conv ''bgr8'' (uvc_yuyv2bgr V frame)
         | FRAME_MJPEG \<Rightarrow> conv ''rgb8'' (uvc_mjpeg2rgb V frame)
         | FRAME_ANY \<Rightarrow> conv ''bgr8'' (uvc_any2bgr V frame))"

lemma convert_frame_payload:
  "convert_frame V frame =
     (case payload V frame of
        None \<Rightarrow> Inr None
      | Some (enc, src) \<Rightarrow> and_then (copy_into src ((blank_image frame)\<lparr>im_encoding := enc\<rparr>)) (\<lambda>i. Inr (Some i)))"
  by (simp add: convert_frame_def payload_def Let_def split: frame_format.split)


lemma with_handle_lost: "\<not> u_handle d \<Longrightarrow> with_handle d r = Inl (NullDeref ''device_handle_'', d)"
  by (simp add: with_handle_def)

text \<open>Without a handle every control service except the mirror switch and the save request faults.\<close>

lemma services_fault_without_handle:
  assumes "\<not> u_handle e"
  shows "list_all (\<lambda>service. service e = Inl (NullDeref ''device_handle_'', e))
    [getUVCExposureCb E, setUVCExposureCb E i, getUVCGainCb E, setUVCGainCb E i, getUVCWhiteBalanceCb E,
     setUVCWhiteBalanceCb E i, setUVCAutoExposureCb b, setUVCAutoWhiteBalanceCb b, getUVCMirrorCb E]"
  using assms
  by (simp add: getUVCExposureCb_def setUVCExposureCb_def getUVCGainCb_def setUVCGainCb_def
      getUVCWhiteBalanceCb_def setUVCWhiteBalanceCb_def setUVCAutoExposureCb_def setUVCAutoWhiteBalanceCb_def
      getUVCMirrorCb_def with_handle_lost)

text \<open>A manual exposure is written exactly when the service accepts the request.\<close>

lemma manual_range:
  assumes "\<And>h k. uvc_rc E h k = 0" "u_handle d" "data \<noteq> 0"
  shows "\<exists>r d'. setUVCExposureCb E data d = Inr (r, d') \<and>
    (ur_ok r \<longleftrightarrow> UvcSetExposure (data mod 2 ^ 32) \<in> set (drop (length (u_log d)) (u_log d')))"
  using assms by (simp add: setUVCExposureCb_def with_handle_def urc_def ur_done_def ur_fail_def Let_def)

end
