(* ===== verification/Depth_Cloud.thy ===== *)
theory Depth_Cloud
  imports Camera_Types
begin

unbundle bit_operations_syntax

text \<open>
  From depth images to point clouds: \<open>DepthTraits\<close> (\<open>depth_traits.h\<close>), the conversion loop shared by the
  drivers (\<open>depth_conversions.h\<close>) and the coloured loop of \<open>PointCloudXyzrgbNode::convert\<close>
  (\<open>point_cloud_xyzrgb.cpp\<close>).  The loops walk raw buffers by pointer arithmetic; an access outside a
  buffer is the fault \<open>OutOfBounds\<close>.  Single-precision arithmetic is the parameter \<open>F\<close>.
\<close>

section \<open>Element access\<close>

record fp32_env = fp_env +
  f_of_int :: "int \<Rightarrow> float32"
  f_of_double :: "float64 \<Rightarrow> float32"
  f_sub :: "float32 \<Rightarrow> float32 \<Rightarrow> float32"
  f_mul :: "float32 \<Rightarrow> float32 \<Rightarrow> float32"
  f_div :: "float32 \<Rightarrow> float32 \<Rightarrow> float32"
  f_lround :: "float32 \<Rightarrow> int"
  f_trunc :: "float32 \<Rightarrow> int"

text \<open>Loading a 16- or 32-bit value from octets, low octet first.\<close>

definition load16 :: "8 word list \<Rightarrow> 16 word" where
  "load16 p = ucast (p ! 0) OR push_bit 8 (ucast (p ! 1))"

definition load32 :: "8 word list \<Rightarrow> 32 word" where
  "load32 p = ucast (p ! 0) OR push_bit 8 (ucast (p ! 1)) OR push_bit 16 (ucast (p ! 2)) OR
     push_bit 24 (ucast (p ! 3))"

definition isfinite32 :: "float32 \<Rightarrow> bool" where
  "isfinite32 x \<longleftrightarrow> x AND 0x7f800000 \<noteq> 0x7f800000"

definition f_thousandth :: float32 where "f_thousandth = 0x3a83126f"
definition f_thousand :: float32 where "f_thousand = 0x447a0000"

text \<open>
  The template parameter \<open>T\<close> as a dictionary: \<open>sizeof(T)\<close>, the load, \<open>T(1)\<close>, the implicit conversion
  to \<open>float\<close> and the members of \<open>DepthTraits<T>\<close>.
\<close>

record 't depth_traits =
  dt_size :: nat
  dt_load :: "8 word list \<Rightarrow> 't"
  dt_one :: 't
  dt_float :: "'t \<Rightarrow> float32"
  dt_valid :: "'t \<Rightarrow> bool"
  dt_toMeters :: "'t \<Rightarrow> float32"
  dt_fromMeters :: "float32 \<Rightarrow> 't"

definition traits_u16 :: "fp32_env \<Rightarrow> 16 word depth_traits" where
  "traits_u16 F =
     \<lparr>dt_size = 2, dt_load = load16, dt_one = 1, dt_float = (\<lambda>d. f_of_int F (uint d)),
      dt_valid = (\<lambda>d. d \<noteq> 0), dt_toMeters = (\<lambda>d. f_mul F (f_of_int F (uint d)) f_thousandth),
      dt_fromMeters = (\<lambda>m. word_of_int (f_lround F (f_mul F m f_thousand)))\<rparr>"

definition traits_f32 :: "fp32_env \<Rightarrow> float32 depth_traits" where
  "traits_f32 F =
     \<lparr>dt_size = 4, dt_load = load32, dt_one = one32, dt_float = (\<lambda>d. d),
      dt_valid = isfinite32, dt_toMeters = (\<lambda>d. d), dt_fromMeters = (\<lambda>m. m)\<rparr>"

text \<open>\<open>initializeBuffer\<close> fills a buffer with not-a-number; the 16-bit variant does nothing.\<close>

definition initializeBuffer_f32 :: "8 word list \<Rightarrow> 8 word list" where
  "initializeBuffer_f32 buffer =
     concat (replicate (length buffer div 4) [0, 0, 0xc0, 0x7f]) @ drop (length buffer div 4 * 4) buffer"

text \<open>\<open>ptr[i]\<close> for a pointer to \<open>T\<close> at the start of the octets.\<close>

definition elem :: "'t depth_traits \<Rightarrow> 8 word list \<Rightarrow> nat \<Rightarrow> 't" where
  "elem T data i = dt_load T (take (dt_size T) (drop (i * dt_size T) data))"

definition elem_at :: "'t depth_traits \<Rightarrow> 8 word list \<Rightarrow> nat \<Rightarrow> fault + 't" where
  "elem_at T data i =
     (if (i + 1) * dt_size T \<le> length data then Inr (elem T data i) else Inl (OutOfBounds ''depth_row''))"

section \<open>A loop that appends one result per round\<close>

fun collect :: "('a \<Rightarrow> 'e + 'b) \<Rightarrow> 'a list \<Rightarrow> 'e + 'b list" where
  "collect f [] = Inr []"
| "collect f (x # xs) = and_then (f x) (\<lambda>y. and_then (collect f xs) (\<lambda>ys. Inr (y # ys)))"

lemma collect_guarded:
  "collect (\<lambda>x. if ok x then Inr (g x) else Inl e) xs = (if list_all ok xs then Inr (map g xs) else Inl e)"
  by (induction xs) simp_all

section \<open>Points\<close>

record pinhole =
  pin_cx :: float64
  pin_cy :: float64
  pin_fx :: float64
  pin_fy :: float64

record point =
  pt_x :: float32
  pt_y :: float32
  pt_z :: float32

record colour_point = point +
  pt_r :: "8 word"
  pt_g :: "8 word"
  pt_b :: "8 word"
  pt_a :: "8 word"

definition bad_point :: point where
  "bad_point = \<lparr>pt_x = nan32, pt_y = nan32, pt_z = nan32\<rparr>"

definition unit_constant :: "fp32_env \<Rightarrow> 't depth_traits \<Rightarrow> float64 \<Rightarrow> float32" where
  "unit_constant F T f = f_of_double F (fp_div F (fp_widen F (dt_toMeters T (dt_one T))) f)"

definition fill_xyz :: "fp32_env \<Rightarrow> 't depth_traits \<Rightarrow> pinhole \<Rightarrow> nat \<Rightarrow> nat \<Rightarrow> 't \<Rightarrow> point" where
  "fill_xyz F T M v u depth =
     \<lparr>pt_x = f_mul F (f_mul F (f_sub F (f_of_int F (int u)) (f_of_double F (pin_cx M))) (dt_float T depth))
               (unit_constant F T (pin_fx M)),
      pt_y = f_mul F (f_mul F (f_sub F (f_of_int F (int v)) (f_of_double F (pin_cy M))) (dt_float T depth))
               (unit_constant F T (pin_fy M)),
      pt_z = dt_toMeters T depth\<rparr>"

text \<open>\<open>range_max != 0.0\<close> is false for both zeros.\<close>

definition is_zero64 :: "float64 \<Rightarrow> bool" where
  "is_zero64 x \<longleftrightarrow> x = 0 \<or> x = 0x8000000000000000"

definition xyz_pixel :: "fp32_env \<Rightarrow> 't depth_traits \<Rightarrow> pinhole \<Rightarrow> float64 \<Rightarrow> nat \<Rightarrow> nat \<Rightarrow> 't \<Rightarrow> point" where
  "xyz_pixel F T M range_max v u depth =
     (if \<not> dt_valid T depth
      then if \<not> is_zero64 range_max then fill_xyz F T M v u (dt_fromMeters T (f_of_double F range_max))
           else bad_point
      else fill_xyz F T M v u depth)"

section \<open>The loop of \<open>depth_conversions.h\<close>\<close>

text \<open>\<open>n\<close> rows to go, at row \<open>v\<close> with \<open>depth_row\<close> at element \<open>row\<close>.\<close>

fun xyz_rows :: "(nat \<Rightarrow> nat \<Rightarrow> nat \<Rightarrow> fault + 'p) \<Rightarrow> nat \<Rightarrow> nat \<Rightarrow> nat \<Rightarrow> nat \<Rightarrow> nat \<Rightarrow> fault + 'p list" where
  "xyz_rows px width row_step v row 0 = Inr []"
| "xyz_rows px width row_step v row (Suc n) =
     and_then (collect (\<lambda>u. px v u (row + u)) [0..<width]) (\<lambda>ps.
     and_then (xyz_rows px width row_step (Suc v) (row + row_step) n) (\<lambda>qs. Inr (ps @ qs)))"

definition xyz_at ::
    "fp32_env \<Rightarrow> 't depth_traits \<Rightarrow> pinhole \<Rightarrow> float64 \<Rightarrow> 8 word list \<Rightarrow> nat \<Rightarrow> nat \<Rightarrow> nat \<Rightarrow> fault + point" where
  "xyz_at F T M range_max data v u i =
     and_then (elem_at T data i) (\<lambda>depth. Inr (xyz_pixel F T M range_max v u depth))"

definition convert ::
    "fp32_env \<Rightarrow> 't depth_traits \<Rightarrow> Image \<Rightarrow> pinhole \<Rightarrow> float64 \<Rightarrow> fault + point list" where
  "convert F T depth_msg model range_max =
     xyz_rows (xyz_at F T model range_max (im_data depth_msg)) (im_width depth_msg)
       (im_step depth_msg div dt_size T) 0 0 (im_height depth_msg)"

section \<open>The coloured loop\<close>

record colour_layout =
  red_offset :: nat
  green_offset :: nat
  blue_offset :: nat
  color_step :: nat

definition rgb_at :: "8 word list \<Rightarrow> int \<Rightarrow> fault + 8 word" where
  "rgb_at rgb i = (if 0 \<le> i \<and> i < int (length rgb) then Inr (rgb ! nat i) else Inl (OutOfBounds ''rgb''))"

definition colour_pixel :: "point \<Rightarrow> 8 word \<Rightarrow> 8 word \<Rightarrow> 8 word \<Rightarrow> colour_point" where
  "colour_pixel p r g b = point.extend p \<lparr>pt_r = r, pt_g = g, pt_b = b, pt_a = 255\<rparr>"

definition colour_at ::
    "fp32_env \<Rightarrow> 't depth_traits \<Rightarrow> pinhole \<Rightarrow> 8 word list \<Rightarrow> 8 word list \<Rightarrow> colour_layout \<Rightarrow>
       nat \<Rightarrow> nat \<Rightarrow> nat \<Rightarrow> int \<Rightarrow> fault + colour_point" where
  "colour_at F T M data rgb L v u i off =
     and_then (elem_at T data i) (\<lambda>depth.
       let p = (if \<not> dt_valid T depth then bad_point else fill_xyz F T M v u depth)
       in and_then (rgb_at rgb (off + int (red_offset L))) (\<lambda>r.
          and_then (rgb_at rgb (off + int (green_offset L))) (\<lambda>g.
          and_then (rgb_at rgb (off + int (blue_offset L))) (\<lambda>b. Inr (colour_pixel p r g b)))))"

text \<open>The inner loop also advances \<open>rgb\<close>; the outer one skips the padding of the row.\<close>

fun colour_cols ::
    "(nat \<Rightarrow> nat \<Rightarrow> int \<Rightarrow> fault + 'p) \<Rightarrow> nat \<Rightarrow> nat \<Rightarrow> nat \<Rightarrow> int \<Rightarrow> nat \<Rightarrow> fault + ('p list \<times> int)" where
  "colour_cols px cstep row u rgb 0 = Inr ([], rgb)"
| "colour_cols px cstep row u rgb (Suc n) =
     and_then (px u (row + u) rgb) (\<lambda>p.
     and_then (colour_cols px cstep row (Suc u) (rgb + int cstep) n) (\<lambda>(ps, rgb). Inr (p # ps, rgb)))"

fun colour_rows ::
    "(nat \<Rightarrow> nat \<Rightarrow> nat \<Rightarrow> int \<Rightarrow> fault + 'p) \<Rightarrow> nat \<Rightarrow> nat \<Rightarrow> int \<Rightarrow> nat \<Rightarrow> nat \<Rightarrow> nat \<Rightarrow> int \<Rightarrow> nat \<Rightarrow> fault + 'p list"
  where
  "colour_rows px width cstep rgb_skip row_step v row rgb 0 = Inr []"
| "colour_rows px width cstep rgb_skip row_step v row rgb (Suc n) =
     and_then (colour_cols (px v) cstep row 0 rgb width) (\<lambda>(ps, rgb).
     and_then (colour_rows px width cstep rgb_skip row_step (Suc v) (row + row_step) (rgb + rgb_skip) n) (\<lambda>qs.
     Inr (ps @ qs)))"

definition convert_rgb ::
    "fp32_env \<Rightarrow> 't depth_traits \<Rightarrow> pinhole \<Rightarrow> Image \<Rightarrow> Image \<Rightarrow> colour_layout \<Rightarrow> fault + colour_point list" where
  "convert_rgb F T M depth_msg rgb_msg L =
     colour_rows (colour_at F T M (im_data depth_msg) (im_data rgb_msg) L) (im_width depth_msg) (color_step L)
       (int (im_step rgb_msg) - int (im_width rgb_msg * color_step L)) (im_step depth_msg div dt_size T)
       0 0 0 (im_height depth_msg)"

section \<open>What the loops compute\<close>

lemma upt_Suc_map: "[0..<Suc n] = 0 # map Suc [0..<n]"
  by (simp add: upt_conv_Cons map_Suc_upt del: upt_Suc)

lemma xyz_rows_spec:
  assumes "\<And>v u i. px v u i = (if ok i then Inr (g v u i) else Inl e)"
  shows "xyz_rows px w rs v row n =
    (if list_all (\<lambda>k. list_all (\<lambda>u. ok (row + k * rs + u)) [0..<w]) [0..<n]
     then Inr (concat (map (\<lambda>k. map (\<lambda>u. g (v + k) u (row + k * rs + u)) [0..<w]) [0..<n])) else Inl e)"
proof (induction n arbitrary: v row)
  case (Suc n)
  show ?case
    unfolding upt_Suc_map using Suc.IH [of "Suc v" "row + rs"]
    by (simp add: assms collect_guarded list.pred_map comp_def ac_simps)
qed simp

text \<open>The cells of a \<open>w\<close> by \<open>h\<close> picture, row by row.\<close>

definition pixels :: "nat \<Rightarrow> nat \<Rightarrow> (nat \<Rightarrow> nat \<Rightarrow> 'p) \<Rightarrow> 'p list" where
  "pixels w h f = concat (map (\<lambda>v. map (f v) [0..<w]) [0..<h])"

lemma length_pixels [simp]: "length (pixels w h f) = h * w"
  by (induction h) (simp_all add: pixels_def)

lemma map_pixels: "map t (pixels w h f) = pixels w h (\<lambda>v u. t (f v u))"
  by (simp add: pixels_def map_concat comp_def)

lemma pixels_cong: "(\<And>v u. v < h \<Longrightarrow> u < w \<Longrightarrow> f v u = g v u) \<Longrightarrow> pixels w h f = pixels w h g"
  unfolding pixels_def by (intro arg_cong [where f = concat] map_cong) auto

text \<open>The last element read decides whether every read is inside the buffer.\<close>

definition depth_fits :: "'t depth_traits \<Rightarrow> Image \<Rightarrow> bool" where
  "depth_fits T img \<longleftrightarrow> im_height img = 0 \<or> im_width img = 0 \<or>
     ((im_height img - 1) * (im_step img div dt_size T) + im_width img) * dt_size T \<le> length (im_data img)"

lemma last_read_bounds_all:
  "list_all (\<lambda>k. list_all (\<lambda>u. (k * rs + u + 1) * sz \<le> len) [0..<w]) [0..<h] \<longleftrightarrow>
     h = 0 \<or> w = 0 \<or> ((h - 1) * rs + w) * sz \<le> (len :: nat)"
proof (cases "h = 0 \<or> w = 0")
  case False
  have le: "(k * rs + u + 1) * sz \<le> ((h - 1) * rs + w) * sz" if "k < h" "u < w" for k u
  proof -
    have "k * rs \<le> (h - 1) * rs" using that by (intro mult_le_mono1) simp
    then show ?thesis using that by (intro mult_le_mono1) linarith
  qed
  have last: "(h - 1) * rs + (w - 1) + 1 = (h - 1) * rs + w" using False by simp
  have "((h - 1) * rs + w) * sz \<le> len"
    if a: "list_all (\<lambda>k. list_all (\<lambda>u. (k * rs + u + 1) * sz \<le> len) [0..<w]) [0..<h]"
  proof -
    have "h - 1 \<in> set [0..<h]" "w - 1 \<in> set [0..<w]" using False by simp_all
    then have "((h - 1) * rs + (w - 1) + 1) * sz \<le> len" using a by (simp only: list_all_iff)
    then show ?thesis by (simp only: last)
  qed
  moreover have "list_all (\<lambda>k. list_all (\<lambda>u. (k * rs + u + 1) * sz \<le> len) [0..<w]) [0..<h]"
    if "((h - 1) * rs + w) * sz \<le> len"
    unfolding list_all_iff using order_trans [OF le that] by simp
  ultimately show ?thesis using False by blast
qed (auto simp: list_all_iff)

lemma convert_pixels:
  "convert F T img M range_max =
     (if depth_fits T img
      then Inr (pixels (im_width img) (im_height img) (\<lambda>v u.
             xyz_pixel F T M range_max v u (elem T (im_data img) (v * (im_step img div dt_size T) + u))))
      else Inl (OutOfBounds ''depth_row''))"
proof -
  have px: "xyz_at F T M range_max (im_data img) v u i =
      (if (i + 1) * dt_size T \<le> length (im_data img) then Inr (xyz_pixel F T M range_max v u (elem T (im_data img) i))
       else Inl (OutOfBounds ''depth_row''))" for v u i
    by (simp add: xyz_at_def elem_at_def)
  show ?thesis
    unfolding convert_def xyz_rows_spec [OF px]
    by (simp only: last_read_bounds_all depth_fits_def pixels_def add_0)
qed

text \<open>
  Claim C15.  The conversion of a depth image is pixelwise: if the last pixel lies inside the buffer the
  cloud is, row by row, the point of each pixel, with the pixel of row \<open>v\<close> and column \<open>u\<close> loaded at
  row \<open>v\<close> of the image's own step; otherwise the loop reads outside the buffer.
\<close>

theorem depth_cloud_pixelwise:
  "convert F T img M range_max =
     (if depth_fits T img
      then Inr (pixels (im_width img) (im_height img) (\<lambda>v u.
             xyz_pixel F T M range_max v u (elem T (im_data img) (v * (im_step img div dt_size T) + u))))
      else Inl (OutOfBounds ''depth_row''))"
  by (rule convert_pixels)

section \<open>The coloured cloud\<close>

lemma colour_cols_spec:
  assumes "\<And>j. j < n \<Longrightarrow> px (u + j) (row + u + j) (rgb + int (j * cs)) = Inr (g (u + j))"
  shows "colour_cols px cs row u rgb n = Inr (map (\<lambda>j. g (u + j)) [0..<n], rgb + int (n * cs))"
  using assms
proof (induction n arbitrary: u rgb)
  case (Suc n)
  have "px u (row + u) rgb = Inr (g u)" using Suc.prems [of 0] by simp
  moreover have "colour_cols px cs row (Suc u) (rgb + int cs) n =
      Inr (map (\<lambda>j. g (Suc u + j)) [0..<n], rgb + int cs + int (n * cs))"
  proof (rule Suc.IH)
    fix j assume "j < n"
    then show "px (Suc u + j) (row + Suc u + j) (rgb + int cs + int (j * cs)) = Inr (g (Suc u + j))"
      using Suc.prems [of "Suc j"] by (simp add: algebra_simps)
  qed
  ultimately show ?case
    unfolding upt_Suc_map by (simp add: comp_def algebra_simps)
qed simp

lemma colour_rows_spec:
  assumes "\<And>k u. k < n \<Longrightarrow> u < w \<Longrightarrow>
      px (v + k) u (row + k * rs + u) (rgb + int k * (int (w * cs) + skip) + int (u * cs)) = Inr (g (v + k) u)"
  shows "colour_rows px w cs skip rs v row rgb n = Inr (concat (map (\<lambda>k. map (g (v + k)) [0..<w]) [0..<n]))"
  using assms
proof (induction n arbitrary: v row rgb)
  case (Suc n)
  have "colour_cols (px v) cs row 0 rgb w = Inr (map (\<lambda>j. g v (0 + j)) [0..<w], rgb + int (w * cs))"
    using Suc.prems [of 0] by (intro colour_cols_spec) simp
  moreover have "colour_rows px w cs skip rs (Suc v) (row + rs) (rgb + int (w * cs) + skip) n =
      Inr (concat (map (\<lambda>k. map (g (Suc v + k)) [0..<w]) [0..<n]))"
  proof (rule Suc.IH)
    fix k u assume "k < n" "u < w"
    then show "px (Suc v + k) u (row + rs + k * rs + u)
        (rgb + int (w * cs) + skip + int k * (int (w * cs) + skip) + int (u * cs)) = Inr (g (Suc v + k) u)"
      using Suc.prems [of "Suc k" u] by (simp add: algebra_simps)
  qed
  ultimately show ?case
    unfolding upt_Suc_map by (simp add: comp_def)
qed simp

lemma colour_pixel_simps [simp]:
  "point.truncate (colour_pixel p r g b) = p" "pt_r (colour_pixel p r g b) = r" "pt_g (colour_pixel p r g b) = g"
  "pt_b (colour_pixel p r g b) = b" "pt_a (colour_pixel p r g b) = 255"
  by (simp_all add: colour_pixel_def point.defs)

text \<open>
  A colour image that fits the layout and the size: every row holds its pixels, the channels lie
  inside a pixel and the data holds every row.
\<close>

definition colour_fits :: "colour_layout \<Rightarrow> Image \<Rightarrow> bool" where
  "colour_fits L img \<longleftrightarrow> im_width img * color_step L \<le> im_step img \<and>
     im_height img * im_step img \<le> length (im_data img) \<and>
     red_offset L < color_step L \<and> green_offset L < color_step L \<and> blue_offset L < color_step L"

lemma rgb_at_int: "n < length rgb \<Longrightarrow> rgb_at rgb (int n) = Inr (rgb ! n)"
  by (simp add: rgb_at_def)

lemma channel_in_bounds:
  assumes "colour_fits L img" "v < im_height img" "u < im_width img" "c < color_step L"
  shows "rgb_at (im_data img) (int v * int (im_step img) + int (u * color_step L) + int c) =
    Inr (im_data img ! (v * im_step img + u * color_step L + c))"
proof -
  have "u * color_step L + c < im_width img * color_step L"
    using assms(3,4) mult_le_mono1 [of "Suc u" "im_width img" "color_step L"] by simp
  moreover have "(v + 1) * im_step img \<le> im_height img * im_step img"
    using assms(2) by (intro mult_le_mono1) simp
  ultimately have "v * im_step img + u * color_step L + c < length (im_data img)"
    using assms(1) by (simp add: colour_fits_def)
  moreover have "int v * int (im_step img) + int (u * color_step L) + int c =
      int (v * im_step img + u * color_step L + c)" by simp
  ultimately show ?thesis by (simp only: rgb_at_int)
qed

text \<open>The coloured conversion on pictures that hold their pixels.\<close>

definition colour_of_cell ::
    "fp32_env \<Rightarrow> 't depth_traits \<Rightarrow> pinhole \<Rightarrow> Image \<Rightarrow> Image \<Rightarrow> colour_layout \<Rightarrow> nat \<Rightarrow> nat \<Rightarrow> colour_point" where
  "colour_of_cell F T M depth rgb L v u =
     (let ch = (\<lambda>c. im_data rgb ! (v * im_step rgb + u * color_step L + c))
      in colour_pixel (xyz_pixel F T M 0 v u (elem T (im_data depth) (v * (im_step depth div dt_size T) + u)))
           (ch (red_offset L)) (ch (green_offset L)) (ch (blue_offset L)))"

lemma depth_read_ok:
  assumes "depth_fits T depth" "k < im_height depth" "u < im_width depth"
  shows "elem_at T (im_data depth) (k * (im_step depth div dt_size T) + u) =
    Inr (elem T (im_data depth) (k * (im_step depth div dt_size T) + u))"
proof -
  let ?rs = "im_step depth div dt_size T"
  have "list_all (\<lambda>k. list_all (\<lambda>u. (k * ?rs + u + 1) * dt_size T \<le> length (im_data depth)) [0..<im_width depth])
      [0..<im_height depth]"
    unfolding last_read_bounds_all using assms by (simp add: depth_fits_def)
  then have "(k * ?rs + u + 1) * dt_size T \<le> length (im_data depth)" using assms by (simp add: list_all_iff)
  then show ?thesis by (simp only: elem_at_def if_True)
qed

lemma convert_rgb_pixels:
  assumes "depth_fits T depth" "colour_fits L rgb" "im_width rgb = im_width depth" "im_height rgb = im_height depth"
  shows "convert_rgb F T M depth rgb L = Inr (pixels (im_width rgb) (im_height rgb) (colour_of_cell F T M depth rgb L))"
proof -
  let ?w = "im_width rgb" and ?h = "im_height rgb" and ?rs = "im_step depth div dt_size T"
  have skip: "int (?w * color_step L) + (int (im_step rgb) - int (?w * color_step L)) = int (im_step rgb)" by simp
  have "colour_at F T M (im_data depth) (im_data rgb) L k u (k * ?rs + u)
      (int k * int (im_step rgb) + int (u * color_step L)) = Inr (colour_of_cell F T M depth rgb L k u)"
    if "k < ?h" "u < ?w" for k u
    using assms(2-4) channel_in_bounds [OF assms(2) that] depth_read_ok [OF assms(1), of k u] that
    by (simp add: colour_at_def colour_fits_def xyz_pixel_def is_zero64_def Let_def colour_of_cell_def)
  then show ?thesis
    unfolding convert_rgb_def pixels_def
    using colour_rows_spec [where v = 0 and row = 0 and rgb = 0 and g = "colour_of_cell F T M depth rgb L"
        and n = ?h and w = ?w and cs = "color_step L" and rs = ?rs
        and skip = "int (im_step rgb) - int (?w * color_step L)"
        and px = "colour_at F T M (im_data depth) (im_data rgb) L"] assms(3,4) by (simp add: skip del: of_nat_mult)
qed

lemma colour_cols_length:
  "colour_cols px cs row u rgb n = Inr (ps, r) \<Longrightarrow> length ps = n"
  by (induction n arbitrary: u rgb ps r) (auto simp: and_then_eq_Inr)

lemma colour_rows_length:
  "colour_rows px w cs skip rs v row rgb n = Inr ps \<Longrightarrow> length ps = n * w"
  by (induction n arbitrary: v row rgb ps) (auto simp: and_then_eq_Inr dest: colour_cols_length)

lemma convert_rgb_length:
  "convert_rgb F T M depth rgb L = Inr ps \<Longrightarrow> length ps = im_height depth * im_width depth"
  unfolding convert_rgb_def by (rule colour_rows_length)

text \<open>
  The coloured cloud is the uncoloured one with colours: on a depth image and a colour image
  of the same size that hold their pixels, the coloured conversion does not fault, the coordinates of
  its points are exactly the cloud that \<open>depth_conversions.h\<close> computes from the same depth image, and
  the colour of the point at \<open>(u, v)\<close> is the pixel \<open>(u, v)\<close> of the colour image, whatever the padding
  of its rows, with alpha 255.
\<close>

theorem coloured_cloud_extends_plain:
  assumes "depth_fits T depth" and "colour_fits L rgb"
    and "im_width rgb = im_width depth" and "im_height rgb = im_height depth"
  shows "\<exists>cloud. convert_rgb F T M depth rgb L = Inr cloud \<and>
    convert F T depth M 0 = Inr (map point.truncate cloud) \<and>
    map (\<lambda>p. (pt_r p, pt_g p, pt_b p, pt_a p)) cloud =
      pixels (im_width rgb) (im_height rgb) (\<lambda>v u.
        let px = (\<lambda>c. im_data rgb ! (v * im_step rgb + u * color_step L + c))
        in (px (red_offset L), px (green_offset L), px (blue_offset L), 255))"
proof -
  have "convert F T depth M 0 = Inr (pixels (im_width rgb) (im_height rgb) (\<lambda>v u.
      point.truncate (colour_of_cell F T M depth rgb L v u)))"
    using assms by (simp add: convert_pixels colour_of_cell_def Let_def)
  then show ?thesis
    unfolding convert_rgb_pixels [OF assms] by (simp add: map_pixels colour_of_cell_def Let_def)
qed

text \<open>A processor for the examples, and a pair of pictures of two pixels, the colour rows padded.\<close>

definition fp_example :: fp32_env where
  "fp_example = \<lparr>fp_widen = ucast, fp_of_int = word_of_int, fp_sub = (-), fp_mul = (*), fp_div = (\<lambda>a b. a),
     fp_tan_half = ucast, fp_neg = (\<lambda>x. x),
     setRPY = (\<lambda>r p y. (r, p, y, 0)), eigen_quat = (\<lambda>_. (0, 0, 0, 0)), q_mul = (\<lambda>p _. p), q_inverse = (\<lambda>q. q),
     tf_inverse = (\<lambda>t. t), f_of_int = word_of_int, f_of_double = ucast, f_sub = (-), f_mul = (*),
     f_div = (\<lambda>a b. a), f_lround = uint, f_trunc = uint\<rparr>"

definition depth_example :: Image where
  "depth_example = \<lparr>im_width = 2, im_height = 1, im_step = 4, im_encoding = ''16UC1'', im_data = [0, 0, 7, 0]\<rparr>"

definition colour_example :: Image where
  "colour_example = \<lparr>im_width = 2, im_height = 1, im_step = 8, im_encoding = ''bgr8'',
     im_data = [1, 2, 3, 4, 5, 6, 0, 0]\<rparr>"

definition pinhole_example :: pinhole where
  "pinhole_example = \<lparr>pin_cx = 0, pin_cy = 0, pin_fx = 1, pin_fy = 1\<rparr>"

theorem coloured_cloud_extends_plain_witness:
  "\<exists>cloud. convert_rgb fp_example (traits_u16 fp_example) pinhole_example depth_example colour_example
       \<lparr>red_offset = 2, green_offset = 1, blue_offset = 0, color_step = 3\<rparr> = Inr cloud \<and>
     map (\<lambda>p. (pt_r p, pt_g p, pt_b p, pt_a p)) cloud = [(3, 2, 1, 255), (6, 5, 4, 255)]"
proof -
  let ?L = "\<lparr>red_offset = 2, green_offset = 1, blue_offset = 0, color_step = 3\<rparr>"
  have "depth_fits (traits_u16 fp_example) depth_example" "colour_fits ?L colour_example"
    "im_width colour_example = im_width depth_example" "im_height colour_example = im_height depth_example"
    by (simp_all add: depth_fits_def colour_fits_def traits_u16_def depth_example_def colour_example_def)
  from coloured_cloud_extends_plain [OF this, of fp_example pinhole_example] obtain cloud where
    c: "convert_rgb fp_example (traits_u16 fp_example) pinhole_example depth_example colour_example ?L = Inr cloud"
    and m: "map (\<lambda>p. (pt_r p, pt_g p, pt_b p, pt_a p)) cloud =
      pixels (im_width colour_example) (im_height colour_example) (\<lambda>v u.
        let px = (\<lambda>c. im_data colour_example ! (v * im_step colour_example + u * color_step ?L + c))
        in (px (red_offset ?L), px (green_offset ?L), px (blue_offset ?L), 255))"
    by (elim exE conjE) (rule that)
  have "map (\<lambda>p. (pt_r p, pt_g p, pt_b p, pt_a p)) cloud = [(3, 2, 1, 255), (6, 5, 4, 255)]"
    unfolding m by (simp add: pixels_def colour_example_def upt_conv_Cons)
  then show ?thesis by (intro exI conjI) (rule c)
qed

end
