(* ===== verification/On_Demand.thy ===== *)
theory On_Demand
  imports Stream_Switch
begin

text \<open>
  A switch that starting always turns on, driven by a publisher that counts its subscribers: ROS calls
  one callback for every new subscriber and another, with the number of those left, for every one
  that goes.
\<close>

text \<open>\<open>True\<close> is a subscriber that arrives, \<open>False\<close> one that leaves.\<close>

fun subscriber_event :: "('s \<Rightarrow> 's) \<Rightarrow> (nat \<Rightarrow> 's \<Rightarrow> 's) \<Rightarrow> bool \<Rightarrow> nat \<times> 's \<Rightarrow> nat \<times> 's" where
  "subscriber_event connect disconnect True (n, s) = (Suc n, connect s)"
| "subscriber_event connect disconnect False (n, s) = (n - 1, disconnect (n - 1) s)"

locale on_demand = stream_switch +
  fixes disconnect :: "nat \<Rightarrow> 'a \<Rightarrow> 'a"
  assumes disconnect_last: "disconnect 0 s = stop s"
    and disconnect_others: "0 < n \<Longrightarrow> disconnect n s = s"
    and start_starts: "invar s \<Longrightarrow> on (start s)"
begin

lemma on_iff_subscribed:
  assumes "invar s" and "on s \<longleftrightarrow> 0 < n" and "fold (subscriber_event start disconnect) bs (n, s) = (m, t)"
  shows "invar t \<and> (on t \<longleftrightarrow> 0 < m)"
  using assms
proof (induction bs arbitrary: n s)
  case (Cons b bs)
  show ?case
  proof (cases b)
    case True
    then show ?thesis
      using Cons.prems Cons.IH [of "start s" "Suc n"] by (simp add: invar_start start_starts)
  next
    case False
    show ?thesis
    proof (cases "n - 1 = 0")
      case last: True
      then show ?thesis
        using Cons.prems Cons.IH [of "stop s" 0] False
        by (simp add: disconnect_last invar_stop stop_stops)
    next
      case others: False
      then show ?thesis
        using Cons.prems Cons.IH [of s "n - 1"] False by (simp add: disconnect_others)
    qed
  qed
qed simp

end

end
