(* ===== verification/Point_Cloud.thy ===== *)
theory Point_Cloud
  imports Depth_Cloud On_Demand
begin

text \<open>
  The two point cloud nodes (\<open>point_cloud_xyz.cpp\<close>, \<open>point_cloud_xyzrgb.cpp\<close>), the writers of PLY files
  (\<open>utils.cpp\<close>) and the overlay of depth on colour (\<open>d2c_viewer.cpp\<close>).  The camera model of
  \<open>image_geometry\<close> and the conversions of \<open>cv_bridge\<close> and OpenCV are parameters; a conversion that
  throws answers \<open>None\<close>.
\<close>

section \<open>PLY files\<close>

text \<open>A file is its list of lines; \<open>fmt3\<close> renders a number with \<open>%.3f\<close>.\<close>

record file_env =
  fopen_ok :: bool
  fmt3 :: "float32 \<Rightarrow> string"

definition ply_valid :: "('a) point_scheme \<Rightarrow> bool" where
  "ply_valid p \<longleftrightarrow> \<not> isnan32 (pt_x p) \<and> \<not> isnan32 (pt_y p) \<and> \<not> isnan32 (pt_z p)"

definition ply_header :: "string list \<Rightarrow> nat \<Rightarrow> string list" where
  "ply_header properties point_size =
     [''ply'', ''format ascii 1.0'', ''element vertex '' @ show_nat point_size,
      ''property float x'', ''property float y'', ''property float z''] @ properties @ [''end_header'']"

definition xyz_text :: "file_env \<Rightarrow> ('a) point_scheme \<Rightarrow> string" where
  "xyz_text io p = fmt3 io (pt_x p) @ '' '' @ fmt3 io (pt_y p) @ '' '' @ fmt3 io (pt_z p)"

definition savePointToPly :: "file_env \<Rightarrow> point list \<Rightarrow> fault + string list" where
  "savePointToPly io cloud =
     (if \<not> fopen_ok io then Inl (NullDeref ''fp'')
      else let point_size = fold (\<lambda>p n. if ply_valid p then Suc n else n) cloud 0
           in Inr (ply_header [] point_size @
                   concat (map (\<lambda>p. if ply_valid p then [xyz_text io p] else []) cloud)))"

record rgb_cloud =
  cl_width :: nat
  cl_height :: nat
  cl_points :: "colour_point list"

text \<open>
  The selected points and their colours are gathered in two vectors, which a second loop prints side
  by side.  The number of cells is a 32-bit product.
\<close>

definition gather_point ::
    "colour_point \<Rightarrow> point list \<times> (8 word \<times> 8 word \<times> 8 word) list \<Rightarrow> point list \<times> (8 word \<times> 8 word \<times> 8 word) list"
  where
  "gather_point c acc =
     (let (points, rgb) = acc
      in if ply_valid c then (points @ [point.truncate c], rgb @ [(pt_r c, pt_g c, pt_b c)]) else (points, rgb))"

definition ply_colour_line :: "file_env \<Rightarrow> point \<Rightarrow> 8 word \<times> 8 word \<times> 8 word \<Rightarrow> string" where
  "ply_colour_line io p c =
     xyz_text io p @ '' '' @ show_nat (unat (fst c)) @ '' '' @ show_nat (unat (fst (snd c))) @ '' '' @
       show_nat (unat (snd (snd c)))"

definition saveRGBPointToPly :: "file_env \<Rightarrow> rgb_cloud \<Rightarrow> fault + string list" where
  "saveRGBPointToPly io cloud =
     (let cells = cl_width cloud * cl_height cloud mod 2 ^ 32
      in if length (cl_points cloud) < cells then Inl (OutOfBounds ''PointCloud2Iterator'')
         else let (points, rgb) = fold gather_point (take cells (cl_points cloud)) ([], []);
                  point_size = length points
              in if \<not> fopen_ok io then Inl (NullDeref ''fp'')
                 else Inr (ply_header [''property uchar red'', ''property uchar green'', ''property uchar blue'']
                             point_size @ map (\<lambda>i. ply_colour_line io (points ! i) (rgb ! i)) [0..<point_size]))"

section \<open>\<open>PointCloudXyzNode\<close>\<close>

record XyzNode =
  xyz_subscribed :: bool
  xyz_save_cloud :: bool
  xyz_queue_size :: int
  xyz_camera_info :: CameraInfo
  xyz_device_pid :: int

definition fresh_xyz :: "ros_params \<Rightarrow> XyzNode" where
  "fresh_xyz P = \<lparr>xyz_subscribed = False, xyz_save_cloud = False, xyz_queue_size = p_int P ''queue_size'' 5,
     xyz_camera_info = empty_info, xyz_device_pid = 0\<rparr>"

definition SetCameraInfo :: "CameraInfo \<Rightarrow> int \<Rightarrow> XyzNode \<Rightarrow> XyzNode" where
  "SetCameraInfo new_info pid x = x\<lparr>xyz_camera_info := new_info, xyz_device_pid := pid mod 2 ^ 16\<rparr>"

definition xyz_connectCb :: "XyzNode \<Rightarrow> XyzNode" where
  "xyz_connectCb x = (if \<not> xyz_subscribed x then x\<lparr>xyz_subscribed := True\<rparr> else x)"

definition xyz_disconnectCb :: "nat \<Rightarrow> XyzNode \<Rightarrow> XyzNode" where
  "xyz_disconnectCb subscribers x = (if subscribers = 0 then x\<lparr>xyz_subscribed := False\<rparr> else x)"

definition SavePointCloudXyzCallback :: "XyzNode \<Rightarrow> XyzNode" where
  "SavePointCloudXyzCallback x = x\<lparr>xyz_save_cloud := True\<rparr>"

text \<open>
  Converting by encoding: 16-bit and single-precision depth are supported.  \<open>depthCb\<close> returns the
  published cloud and the written file, if any.
\<close>

definition convert_depth :: "fp32_env \<Rightarrow> Image \<Rightarrow> pinhole \<Rightarrow> (fault + point list) option" where
  "convert_depth F depth_msg M =
     (if im_encoding depth_msg = ''16UC1'' \<or> im_encoding depth_msg = ''mono16''
      then Some (convert F (traits_u16 F) depth_msg M 0)
      else if im_encoding depth_msg = ''32FC1'' then Some (convert F (traits_f32 F) depth_msg M 0)
      else None)"

definition depthCb ::
    "fp32_env \<Rightarrow> (CameraInfo \<Rightarrow> pinhole) \<Rightarrow> file_env \<Rightarrow> Image \<Rightarrow> CameraInfo \<Rightarrow> XyzNode \<Rightarrow>
       (fault \<times> XyzNode) + (point list option \<times> string list option \<times> XyzNode)" where
  "depthCb F fromCameraInfo io depth_msg info_msg x =
     (let model = fromCameraInfo (if xyz_device_pid x = DABAI_MAX_PID then xyz_camera_info x else info_msg)
      in case convert_depth F depth_msg model of
           None \<Rightarrow> Inr (None, None, x)
         | Some (Inl e) \<Rightarrow> Inl (e, x)
         | Some (Inr cloud) \<Rightarrow>
             if xyz_save_cloud x
             then let x = x\<lparr>xyz_save_cloud := False\<rparr>
                  in (case savePointToPly io cloud of
                        Inl e \<Rightarrow> Inl (e, x)
                      | Inr f \<Rightarrow> Inr (Some cloud, Some f, x))
             else Inr (Some cloud, None, x))"

section \<open>\<open>PointCloudXyzrgbNode\<close>\<close>

record stamped_image = Image +
  im_frame :: string

record XyzrgbNode =
  rgb_sub_depth :: bool
  rgb_sub_rgb :: bool
  rgb_sub_info :: bool
  rgb_save_cloud :: bool

definition fresh_xyzrgb :: XyzrgbNode where
  "fresh_xyzrgb = \<lparr>rgb_sub_depth = False, rgb_sub_rgb = False, rgb_sub_info = False, rgb_save_cloud = False\<rparr>"

definition xyzrgb_connectCb :: "XyzrgbNode \<Rightarrow> XyzrgbNode" where
  "xyzrgb_connectCb x = x\<lparr>rgb_sub_depth := True, rgb_sub_rgb := True, rgb_sub_info := True\<rparr>"

definition xyzrgb_disconnectCb :: "nat \<Rightarrow> XyzrgbNode \<Rightarrow> XyzrgbNode" where
  "xyzrgb_disconnectCb subscribers x =
     (if subscribers = 0 then x\<lparr>rgb_sub_depth := False, rgb_sub_rgb := False, rgb_sub_info := False\<rparr> else x)"

definition SavePointCloudXyzrgbCallback :: "XyzrgbNode \<Rightarrow> XyzrgbNode" where
  "SavePointCloudXyzrgbCallback x = x\<lparr>rgb_save_cloud := True\<rparr>"

text \<open>
  \<open>cv_share enc img\<close> and \<open>cv_copy enc img\<close> are \<open>toCvShare\<close> and \<open>toCvCopy\<close> with the target encoding;
  \<open>cv_resize end_row w h img\<close> scales the first \<open>end_row\<close> rows to \<open>w\<close> by \<open>h\<close>.
\<close>

record cv_env =
  cv_share :: "string \<Rightarrow> Image \<Rightarrow> Image option"
  cv_copy :: "string \<Rightarrow> Image \<Rightarrow> Image option"
  cv_resize :: "int \<Rightarrow> nat \<Rightarrow> nat \<Rightarrow> Image \<Rightarrow> Image option"

definition times_ratio :: "fp32_env \<Rightarrow> float32 \<Rightarrow> nat \<Rightarrow> float64 list \<Rightarrow> float64 list" where
  "times_ratio F ratio i xs = xs[i := fp_mul F (xs ! i) (fp_widen F ratio)]"

definition scale_info :: "fp32_env \<Rightarrow> float32 \<Rightarrow> Image \<Rightarrow> CameraInfo \<Rightarrow> CameraInfo" where
  "scale_info F ratio depth_msg info =
     (let t = times_ratio F ratio
      in info\<lparr>ci_width := int (im_width depth_msg), ci_height := int (im_height depth_msg),
              ci_K := t 5 (t 4 (t 2 (t 0 (ci_K info)))), ci_P := t 6 (t 5 (t 2 (t 0 (ci_P info))))\<rparr>)"

text \<open>
  A colour image of another size is resized.  \<open>Inr None\<close> is the early return after the exception
  that is caught, \<open>Inl\<close> the one that is not.
\<close>

definition fit_colour ::
    "fp32_env \<Rightarrow> cv_env \<Rightarrow> Image \<Rightarrow> Image \<Rightarrow> CameraInfo \<Rightarrow> fault + (Image \<times> CameraInfo) option" where
  "fit_colour F cv depth_msg rgb_msg info_msg =
     (if im_width depth_msg \<noteq> im_width rgb_msg \<or> im_height depth_msg \<noteq> im_height rgb_msg
      then let ratio = f_div F (f_of_int F (int (im_width depth_msg))) (f_of_int F (int (im_width rgb_msg)));
               info_msg_tmp = scale_info F ratio depth_msg info_msg
           in case cv_share cv (im_encoding rgb_msg) rgb_msg of
                None \<Rightarrow> Inr None
              | Some shared \<Rightarrow>
                  let end_row = min (f_trunc F (f_div F (f_of_int F (int (im_height depth_msg))) ratio))
                                    (int (im_height rgb_msg))
                  in case cv_resize cv end_row (im_width depth_msg) (im_height depth_msg) shared of
                       None \<Rightarrow> Inl (Thrown ''cv::Exception'')
                     | Some cv_rsz \<Rightarrow>
                         if im_encoding rgb_msg = ''rgb8'' \<or> im_encoding rgb_msg = ''bgr8'' \<or>
                            im_encoding rgb_msg = ''mono8''
                         then Inr (Some (cv_rsz, info_msg_tmp))
                         else (case cv_copy cv ''rgb8'' cv_rsz of
                                 None \<Rightarrow> Inl (Thrown ''cv_bridge::Exception'')
                               | Some img \<Rightarrow> Inr (Some (img, info_msg_tmp)))
      else Inr (Some (rgb_msg, info_msg)))"

text \<open>
  The channel offsets.  The test for \<open>rgb8\<close> stands before the chain and is not part of it, so an
  \<open>rgb8\<close> image also falls through to the last branch.
\<close>

definition rgb8_layout :: colour_layout where
  "rgb8_layout = \<lparr>red_offset = 0, green_offset = 1, blue_offset = 2, color_step = 3\<rparr>"

definition bgr8_layout :: colour_layout where
  "bgr8_layout = \<lparr>red_offset = 2, green_offset = 1, blue_offset = 0, color_step = 3\<rparr>"

definition colour_layout_of :: "cv_env \<Rightarrow> Image \<Rightarrow> (Image \<times> colour_layout) option" where
  "colour_layout_of cv rgb_msg =
     (if im_encoding rgb_msg = ''rgba8'' then Some (rgb_msg, rgb8_layout\<lparr>color_step := 4\<rparr>)
      else if im_encoding rgb_msg = ''bgr8''
      then Some (rgb_msg, bgr8_layout)
      else if im_encoding rgb_msg = ''bgra8''
      then Some (rgb_msg, bgr8_layout\<lparr>color_step := 4\<rparr>)
      else if im_encoding rgb_msg = ''mono8''
      then Some (rgb_msg, \<lparr>red_offset = 0, green_offset = 0, blue_offset = 0, color_step = 1\<rparr>)
      else (case cv_copy cv ''rgb8'' rgb_msg of None \<Rightarrow> None | Some img \<Rightarrow> Some (img, rgb8_layout)))"

definition convert_colour ::
    "fp32_env \<Rightarrow> Image \<Rightarrow> Image \<Rightarrow> colour_layout \<Rightarrow> pinhole \<Rightarrow> (fault + colour_point list) option" where
  "convert_colour F depth_msg rgb_msg L M =
     (if im_encoding depth_msg = ''16UC1'' \<or> im_encoding depth_msg = ''mono16''
      then Some (convert_rgb F (traits_u16 F) M depth_msg rgb_msg L)
      else if im_encoding depth_msg = ''32FC1'' then Some (convert_rgb F (traits_f32 F) M depth_msg rgb_msg L)
      else None)"

definition imageCb ::
    "fp32_env \<Rightarrow> cv_env \<Rightarrow> (CameraInfo \<Rightarrow> pinhole) \<Rightarrow> file_env \<Rightarrow> stamped_image \<Rightarrow> stamped_image \<Rightarrow> CameraInfo \<Rightarrow>
       XyzrgbNode \<Rightarrow> (fault \<times> XyzrgbNode) + (colour_point list option \<times> string list option \<times> XyzrgbNode)" where
  "imageCb F cv fromCameraInfo io depth_msg rgb_msg_in info_msg x =
     (if im_frame depth_msg \<noteq> im_frame rgb_msg_in then Inr (None, None, x)
      else let depth = Image.truncate depth_msg in
        case fit_colour F cv depth (Image.truncate rgb_msg_in) info_msg of
          Inl e \<Rightarrow> Inl (e, x)
        | Inr None \<Rightarrow> Inr (None, None, x)
        | Inr (Some (rgb_msg, info)) \<Rightarrow>
            case colour_layout_of cv rgb_msg of
              None \<Rightarrow> Inr (None, None, x)
            | Some (rgb_msg, L) \<Rightarrow>
                case convert_colour F depth rgb_msg L (fromCameraInfo info) of
                  None \<Rightarrow> Inr (None, None, x)
                | Some (Inl e) \<Rightarrow> Inl (e, x)
                | Some (Inr cloud) \<Rightarrow>
                    if rgb_save_cloud x
                    then let x = x\<lparr>rgb_save_cloud := False\<rparr>
                         in (case saveRGBPointToPly io \<lparr>cl_width = im_width depth, cl_height = im_height depth,
                                    cl_points = cloud\<rparr> of
                               Inl e \<Rightarrow> Inl (e, x)
                             | Inr f \<Rightarrow> Inr (Some cloud, Some f, x))
                    else Inr (Some cloud, None, x))"

section \<open>\<open>D2CViewer\<close>\<close>

definition saturate_u8 :: "16 word \<Rightarrow> 8 word" where
  "saturate_u8 d = (if 255 < d then 255 else ucast d)"

text \<open>\<open>convertTo(CV_8UC1)\<close>, \<open>cvtColor(GRAY2RGB)\<close> and \<open>bitwise_or\<close>, pixel by pixel.\<close>

definition gray_depth :: "Image \<Rightarrow> 8 word list" where
  "gray_depth depth_img =
     map (\<lambda>i. saturate_u8 (load16 (take 2 (drop (2 * i) (im_data depth_img)))))
       [0..<im_width depth_img * im_height depth_img]"

definition messageCallback :: "cv_env \<Rightarrow> Image \<Rightarrow> Image \<Rightarrow> fault + Image option" where
  "messageCallback cv rgb_msg depth_msg =
     (if im_width rgb_msg \<noteq> im_width depth_msg \<or> im_height rgb_msg \<noteq> im_height depth_msg then Inr None
      else case cv_copy cv ''rgb8'' rgb_msg of
             None \<Rightarrow> Inl (Thrown ''cv_bridge::Exception'')
           | Some rgb_img \<Rightarrow>
               case cv_copy cv ''16UC1'' depth_msg of
                 None \<Rightarrow> Inl (Thrown ''cv_bridge::Exception'')
               | Some depth_img \<Rightarrow>
                   let depth_rgb = concat (map (\<lambda>g. [g, g, g]) (gray_depth depth_img))
                   in Inr (Some \<lparr>im_width = im_width rgb_img, im_height = im_height rgb_img,
                        im_step = 3 * im_width rgb_img, im_encoding = ''rgb8'',
                        im_data = map2 (OR) (im_data rgb_img) depth_rgb\<rparr>))"

section \<open>The files describe the clouds\<close>

lemma count_valid: "fold (\<lambda>p n. if ply_valid p then Suc n else n) cloud k = k + length (filter ply_valid cloud)"
  by (induction cloud arbitrary: k) auto

lemma concat_if_single: "concat (map (\<lambda>p. if ok p then [f p] else []) xs) = map f (filter ok xs)"
  by (induction xs) auto

lemma savePointToPly_lines:
  "savePointToPly io cloud =
     (if fopen_ok io
      then Inr (ply_header [] (length (filter ply_valid cloud)) @ map (xyz_text io) (filter ply_valid cloud))
      else Inl (NullDeref ''fp''))"
  by (simp add: savePointToPly_def count_valid concat_if_single Let_def)

definition colour_of :: "colour_point \<Rightarrow> 8 word \<times> 8 word \<times> 8 word" where
  "colour_of c = (pt_r c, pt_g c, pt_b c)"

lemma fold_gather:
  "fold gather_point cs (ps, rs) =
     (ps @ map point.truncate (filter ply_valid cs), rs @ map colour_of (filter ply_valid cs))"
  by (induction cs arbitrary: ps rs) (simp_all add: gather_point_def colour_of_def Let_def)

definition rgb_file :: "file_env \<Rightarrow> colour_point list \<Rightarrow> string list" where
  "rgb_file io cloud =
     (let vs = filter ply_valid cloud
      in ply_header [''property uchar red'', ''property uchar green'', ''property uchar blue''] (length vs) @
           map (\<lambda>p. ply_colour_line io (point.truncate p) (colour_of p)) vs)"

lemma saveRGBPointToPly_lines:
  assumes "length (cl_points cloud) = cl_width cloud * cl_height cloud" "cl_width cloud * cl_height cloud < 2 ^ 32"
  shows "saveRGBPointToPly io cloud =
    (if fopen_ok io then Inr (rgb_file io (cl_points cloud)) else Inl (NullDeref ''fp''))"
proof -
  let ?vs = "filter ply_valid (cl_points cloud)"
  have "map (\<lambda>i. ply_colour_line io (map point.truncate ?vs ! i) (map colour_of ?vs ! i)) [0..<length ?vs] =
      map (\<lambda>p. ply_colour_line io (point.truncate p) (colour_of p)) ?vs"
    by (rule nth_equalityI) simp_all
  then show ?thesis
    using assms by (simp add: saveRGBPointToPly_def fold_gather rgb_file_def Let_def)
qed

lemma convert_colour_length:
  "convert_colour F depth rgb L M = Some (Inr cloud) \<Longrightarrow> length cloud = im_height depth * im_width depth"
  by (auto simp: convert_colour_def dest: convert_rgb_length split: if_splits)

text \<open>
  Whatever the images, a cloud that is published has one point per depth pixel; the pending
  request to save is consumed by exactly this cloud; and the file then holds, in order, one line for
  each point of the published cloud that is a number, as many as its header announces, each with the
  coordinates and the colour of the same point.
\<close>

theorem published_cloud_is_saved:
  assumes "imageCb F cv fromCameraInfo io depth_msg rgb_msg info_msg x = Inr (Some cloud, file, x')"
    and "im_width depth_msg * im_height depth_msg < 2 ^ 32"
  shows "length cloud = im_width depth_msg * im_height depth_msg \<and> \<not> rgb_save_cloud x' \<and>
    file = (if rgb_save_cloud x then Some (rgb_file io cloud) else None)"
proof -
  let ?depth = "Image.truncate depth_msg"
  have dims: "im_width ?depth = im_width depth_msg" "im_height ?depth = im_height depth_msg"
    by (simp_all add: Image.defs)
  obtain rgb L M where conv: "convert_colour F ?depth rgb L M = Some (Inr cloud)"
    and save: "if rgb_save_cloud x
      then \<exists>f. saveRGBPointToPly io \<lparr>cl_width = im_width ?depth, cl_height = im_height ?depth, cl_points = cloud\<rparr> = Inr f \<and>
        file = Some f \<and> x' = x\<lparr>rgb_save_cloud := False\<rparr>
      else file = None \<and> x' = x"
    using assms(1) unfolding imageCb_def
    by (auto simp: Let_def split: if_splits sum.splits option.splits prod.splits)
  have len: "length cloud = im_width ?depth * im_height ?depth"
    using convert_colour_length [OF conv] by simp
  have "saveRGBPointToPly io \<lparr>cl_width = im_width ?depth, cl_height = im_height ?depth, cl_points = cloud\<rparr> =
      (if fopen_ok io then Inr (rgb_file io cloud) else Inl (NullDeref ''fp''))"
    using saveRGBPointToPly_lines [of "\<lparr>cl_width = im_width ?depth, cl_height = im_height ?depth, cl_points = cloud\<rparr>" io]
      len assms(2) by (simp add: dims)
  then show ?thesis
    using save len dims by (auto split: if_splits)
qed

definition stamp :: "string \<Rightarrow> Image \<Rightarrow> stamped_image" where
  "stamp frame img = Image.extend img \<lparr>im_frame = frame\<rparr>"

lemma stamp_simps [simp]:
  "Image.truncate (stamp f img) = img" "im_frame (stamp f img) = f"
  "im_width (stamp f img) = im_width img" "im_height (stamp f img) = im_height img"
  by (simp_all add: stamp_def Image.defs)

definition no_cv :: cv_env where
  "no_cv = \<lparr>cv_share = (\<lambda>_ _. None), cv_copy = (\<lambda>_ _. None), cv_resize = (\<lambda>_ _ _ _. None)\<rparr>"

definition file_example :: file_env where
  "file_example = \<lparr>fopen_ok = True, fmt3 = (\<lambda>_. ''0.000'')\<rparr>"

lemma examples_fit:
  "depth_fits (traits_u16 fp_example) depth_example"
  "colour_fits bgr8_layout colour_example"
  "im_width colour_example = im_width depth_example" "im_height colour_example = im_height depth_example"
  by (simp_all add: depth_fits_def colour_fits_def traits_u16_def depth_example_def colour_example_def
      bgr8_layout_def)

theorem published_cloud_is_saved_witness:
  "\<exists>cloud file x'. imageCb fp_example no_cv (\<lambda>_. pinhole_example) file_example (stamp ''color'' depth_example)
       (stamp ''color'' colour_example) empty_info (fresh_xyzrgb\<lparr>rgb_save_cloud := True\<rparr>) = Inr (Some cloud, file, x') \<and>
     length cloud = 2 \<and> \<not> rgb_save_cloud x' \<and> file = Some (rgb_file file_example cloud)"
proof -
  let ?x = "fresh_xyzrgb\<lparr>rgb_save_cloud := True\<rparr>"
  obtain cloud where c: "convert_rgb fp_example (traits_u16 fp_example) pinhole_example depth_example colour_example bgr8_layout = Inr cloud"
    using convert_rgb_pixels [OF examples_fit] by simp
  have fit: "fit_colour fp_example no_cv depth_example colour_example empty_info = Inr (Some (colour_example, empty_info))"
    by (simp add: fit_colour_def examples_fit)
  have lay: "colour_layout_of no_cv colour_example = Some (colour_example, bgr8_layout)"
    by (simp add: colour_layout_of_def colour_example_def)
  have conv: "convert_colour fp_example depth_example colour_example bgr8_layout pinhole_example = Some (Inr cloud)"
    using c by (simp add: convert_colour_def) (simp add: depth_example_def)
  have len: "length cloud = im_width depth_example * im_height depth_example"
    using convert_rgb_length [OF c] by simp
  obtain f where "saveRGBPointToPly file_example \<lparr>cl_width = im_width depth_example, cl_height = im_height depth_example,
      cl_points = cloud\<rparr> = Inr f"
    using saveRGBPointToPly_lines [of "\<lparr>cl_width = im_width depth_example, cl_height = im_height depth_example,
      cl_points = cloud\<rparr>" file_example] len by (auto simp: file_example_def depth_example_def)
  then have run: "imageCb fp_example no_cv (\<lambda>_. pinhole_example) file_example (stamp ''color'' depth_example)
      (stamp ''color'' colour_example) empty_info ?x = Inr (Some cloud, Some f, fresh_xyzrgb)"
    by (simp add: imageCb_def fit lay conv Let_def) (simp add: fresh_xyzrgb_def)
  from published_cloud_is_saved [OF this] have "length cloud = 2 \<and> \<not> rgb_save_cloud fresh_xyzrgb \<and>
      Some f = Some (rgb_file file_example cloud)"
    by (simp add: depth_example_def)
  with run show ?thesis by blast
qed

section \<open>Clouds are computed on demand\<close>

definition rgb_all :: "bool \<Rightarrow> XyzrgbNode \<Rightarrow> bool" where
  "rgb_all b x \<longleftrightarrow> rgb_sub_depth x = b \<and> rgb_sub_rgb x = b \<and> rgb_sub_info x = b"

interpretation xyz_demand: on_demand xyz_connectCb "xyz_disconnectCb 0" xyz_subscribed "\<lambda>_. True" xyz_disconnectCb
  by unfold_locales (simp_all add: xyz_connectCb_def xyz_disconnectCb_def)

interpretation xyzrgb_demand: on_demand xyzrgb_connectCb "xyzrgb_disconnectCb 0" rgb_sub_info
    "\<lambda>x. rgb_all True x \<or> rgb_all False x" xyzrgb_disconnectCb
  by unfold_locales (auto simp: xyzrgb_connectCb_def xyzrgb_disconnectCb_def rgb_all_def intro!: XyzrgbNode.equality)

text \<open>
  Claim C16.  Point clouds are computed on demand: after any history of subscribers coming and going,
  each node is subscribed to its input topics (the coloured one to all three) exactly when somebody is
  subscribed to its cloud.
\<close>

theorem clouds_on_demand:
  assumes "fold (subscriber_event xyz_connectCb xyz_disconnectCb) bs (0, fresh_xyz P) = (m, x)"
    and "fold (subscriber_event xyzrgb_connectCb xyzrgb_disconnectCb) cs (0, fresh_xyzrgb) = (k, y)"
  shows "xyz_subscribed x = (0 < m) \<and> rgb_all (0 < k) y"
proof
  show "xyz_subscribed x = (0 < m)"
    using xyz_demand.on_iff_subscribed [OF _ _ assms(1)] by (simp add: fresh_xyz_def)
  show "rgb_all (0 < k) y"
    using xyzrgb_demand.on_iff_subscribed [OF _ _ assms(2)] by (auto simp: fresh_xyzrgb_def rgb_all_def)
qed

theorem clouds_on_demand_witness:
  "\<exists>x y. fold (subscriber_event xyz_connectCb xyz_disconnectCb) [True, True, False] (0, fresh_xyz empty_params) = (1, x) \<and>
     fold (subscriber_event xyzrgb_connectCb xyzrgb_disconnectCb) [True, False] (0, fresh_xyzrgb) = (0, y) \<and>
     xyz_subscribed x \<and> rgb_all False y"
proof -
  obtain x where x: "fold (subscriber_event xyz_connectCb xyz_disconnectCb) [True, True, False]
      (0, fresh_xyz empty_params) = (1, x)"
    by (simp add: xyz_connectCb_def xyz_disconnectCb_def)
  obtain y where y: "fold (subscriber_event xyzrgb_connectCb xyzrgb_disconnectCb) [True, False] (0, fresh_xyzrgb) = (0, y)"
    by (simp add: xyzrgb_connectCb_def xyzrgb_disconnectCb_def)
  from clouds_on_demand [OF x y] x y show ?thesis by auto
qed

section \<open>The overlay\<close>

lemma nth_triples:
  "i < length gs \<Longrightarrow> c < 3 \<Longrightarrow> concat (map (\<lambda>g. [g, g, g]) gs) ! (3 * i + c) = gs ! i"
proof (induction gs arbitrary: i)
  case (Cons g gs)
  show ?case
  proof (cases i)
    case 0
    moreover have "c = 0 \<or> c = 1 \<or> c = 2" using Cons.prems(2) by linarith
    ultimately show ?thesis by auto
  next
    case (Suc j)
    then have "3 * i + c = Suc (Suc (Suc (3 * j + c)))" by simp
    then show ?thesis using Cons.IH [of j] Cons.prems Suc by simp
  qed
qed simp

lemma length_triples [simp]: "length (concat (map (\<lambda>g. [g, g, g]) gs)) = 3 * length gs"
  by (induction gs) simp_all

text \<open>
  The overlay of depth on colour: images of different sizes are dropped; otherwise, when the
  conversions keep the size, every channel of every published pixel is the colour channel combined
  with the depth of the pixel, which saturates at 255 instead of wrapping.
\<close>

theorem overlay_pixels:
  assumes "messageCallback cv rgb_msg depth_msg = Inr (Some out)"
    and "cv_copy cv ''rgb8'' rgb_msg = Some rgb" and "cv_copy cv ''16UC1'' depth_msg = Some depth"
    and "length (im_data rgb) = 3 * (im_width depth * im_height depth)"
    and "i < im_width depth * im_height depth" and "c < 3"
  shows "im_width rgb_msg = im_width depth_msg \<and> im_height rgb_msg = im_height depth_msg \<and>
    length (im_data out) = length (im_data rgb) \<and>
    im_data out ! (3 * i + c) = im_data rgb ! (3 * i + c) OR
      (let d = load16 (take 2 (drop (2 * i) (im_data depth))) in if 255 < d then 255 else ucast d)"
proof -
  have "length (gray_depth depth) = im_width depth * im_height depth" by (simp add: gray_depth_def)
  moreover have "gray_depth depth ! i = saturate_u8 (load16 (take 2 (drop (2 * i) (im_data depth))))"
    using assms(5) by (simp add: gray_depth_def)
  ultimately show ?thesis
    using assms by (auto simp: messageCallback_def nth_triples saturate_u8_def Let_def split: if_splits)
qed

theorem overlay_pixels_witness:
  "\<exists>out. messageCallback (no_cv\<lparr>cv_copy := (\<lambda>_ img. Some img)\<rparr>)
       \<lparr>im_width = 1, im_height = 1, im_step = 3, im_encoding = ''rgb8'', im_data = [1, 2, 3]\<rparr>
       \<lparr>im_width = 1, im_height = 1, im_step = 2, im_encoding = ''16UC1'', im_data = [44, 1]\<rparr> = Inr (Some out) \<and>
     im_data out ! 2 = 255"
proof -
  let ?cv = "no_cv\<lparr>cv_copy := (\<lambda>_ img. Some img)\<rparr>"
  let ?rgb = "\<lparr>im_width = 1, im_height = 1, im_step = 3, im_encoding = ''rgb8'', im_data = [1, 2, 3]\<rparr>"
  let ?d = "\<lparr>im_width = 1, im_height = 1, im_step = 2, im_encoding = ''16UC1'', im_data = [44, 1]\<rparr>"
  obtain out where o: "messageCallback ?cv ?rgb ?d = Inr (Some out)" by (simp add: messageCallback_def Let_def)
  have "cv_copy ?cv ''rgb8'' ?rgb = Some ?rgb" "cv_copy ?cv ''16UC1'' ?d = Some ?d"
    "length (im_data ?rgb) = 3 * (im_width ?d * im_height ?d)" "0 < im_width ?d * im_height ?d" "2 < (3 :: nat)"
    by simp_all
  from overlay_pixels [OF o this] have "im_data out ! Suc (Suc 0) = 255" by (simp add: load16_def)
  then have "im_data out ! 2 = 255" by (simp only: numeral_2_eq_2)
  then show ?thesis by (intro exI conjI) (rule o)
qed

end
