(* ===== verification/Rs_Types.thy ===== *)
theory Rs_Types
  imports Floats Std_Map "HOL-Library.Product_Lexorder"
begin

text \<open>
  Vocabulary of the RealSense node (\<open>realsense2_camera\<close>): streams and their order as keys of a
  \<open>std::map\<close>, the names of streams and topics, the clock that turns the
  time stamps of the camera into ROS time.
\<close>

section \<open>Streams\<close>

text \<open>The enumeration of librealsense in its order; the index of a stream is an \<open>int\<close>.\<close>

datatype rs2_stream =
    RS2_STREAM_ANY | RS2_STREAM_DEPTH | RS2_STREAM_COLOR | RS2_STREAM_INFRARED | RS2_STREAM_FISHEYE
  | RS2_STREAM_GYRO | RS2_STREAM_ACCEL | RS2_STREAM_GPIO | RS2_STREAM_POSE | RS2_STREAM_CONFIDENCE

fun stream_id :: "rs2_stream \<Rightarrow> nat" where
  "stream_id RS2_STREAM_ANY = 0"
| "stream_id RS2_STREAM_DEPTH = 1"
| "stream_id RS2_STREAM_COLOR = 2"
| "stream_id RS2_STREAM_INFRARED = 3"
| "stream_id RS2_STREAM_FISHEYE = 4"
| "stream_id RS2_STREAM_GYRO = 5"
| "stream_id RS2_STREAM_ACCEL = 6"
| "stream_id RS2_STREAM_GPIO = 7"
| "stream_id RS2_STREAM_POSE = 8"
| "stream_id RS2_STREAM_CONFIDENCE = 9"

lemma stream_id_inject: "stream_id s = stream_id t \<Longrightarrow> s = t"
  by (cases s; cases t) simp_all

instantiation rs2_stream :: linorder
begin

definition less_eq_rs2_stream :: "rs2_stream \<Rightarrow> rs2_stream \<Rightarrow> bool" where
  "less_eq_rs2_stream s t \<longleftrightarrow> stream_id s \<le> stream_id t"

definition less_rs2_stream :: "rs2_stream \<Rightarrow> rs2_stream \<Rightarrow> bool" where
  "less_rs2_stream s t \<longleftrightarrow> stream_id s < stream_id t"

instance
  by standard (auto simp: less_eq_rs2_stream_def less_rs2_stream_def intro: stream_id_inject)

end

type_synonym sip = "rs2_stream \<times> int"

definition COLOR_sip :: sip where "COLOR_sip = (RS2_STREAM_COLOR, 0)"
definition DEPTH_sip :: sip where "DEPTH_sip = (RS2_STREAM_DEPTH, 0)"
definition INFRA0_sip :: sip where "INFRA0_sip = (RS2_STREAM_INFRARED, 0)"
definition INFRA1_sip :: sip where "INFRA1_sip = (RS2_STREAM_INFRARED, 1)"
definition INFRA2_sip :: sip where "INFRA2_sip = (RS2_STREAM_INFRARED, 2)"
definition FISHEYE_sip :: sip where "FISHEYE_sip = (RS2_STREAM_FISHEYE, 0)"
definition FISHEYE1_sip :: sip where "FISHEYE1_sip = (RS2_STREAM_FISHEYE, 1)"
definition FISHEYE2_sip :: sip where "FISHEYE2_sip = (RS2_STREAM_FISHEYE, 2)"
definition GYRO_sip :: sip where "GYRO_sip = (RS2_STREAM_GYRO, 0)"
definition ACCEL_sip :: sip where "ACCEL_sip = (RS2_STREAM_ACCEL, 0)"
definition POSE_sip :: sip where "POSE_sip = (RS2_STREAM_POSE, 0)"
definition CONFIDENCE_sip :: sip where "CONFIDENCE_sip = (RS2_STREAM_CONFIDENCE, 0)"

lemmas stream_defs = COLOR_sip_def DEPTH_sip_def INFRA0_sip_def INFRA1_sip_def INFRA2_sip_def FISHEYE_sip_def
  FISHEYE1_sip_def
  FISHEYE2_sip_def GYRO_sip_def ACCEL_sip_def POSE_sip_def CONFIDENCE_sip_def

definition IMAGE_STREAMS_rs :: "sip list" where
  "IMAGE_STREAMS_rs = [DEPTH_sip, INFRA0_sip, INFRA1_sip, INFRA2_sip, COLOR_sip, FISHEYE_sip,
     FISHEYE1_sip, FISHEYE2_sip, CONFIDENCE_sip]"

definition HID_STREAMS :: "sip list" where
  "HID_STREAMS = [GYRO_sip, ACCEL_sip, POSE_sip]"

lemma gyro_not_accel [simp]: "GYRO_sip \<noteq> ACCEL_sip" "ACCEL_sip \<noteq> GYRO_sip"
  by (simp_all add: stream_defs)

text \<open>\<open>_stream_name\<close> of the constructor (an empty string for a stream it does not name).\<close>

fun stream_name :: "rs2_stream \<Rightarrow> string" where
  "stream_name RS2_STREAM_DEPTH = ''depth''"
| "stream_name RS2_STREAM_CONFIDENCE = ''confidence''"
| "stream_name RS2_STREAM_INFRARED = ''infra''"
| "stream_name RS2_STREAM_COLOR = ''color''"
| "stream_name RS2_STREAM_FISHEYE = ''fisheye''"
| "stream_name RS2_STREAM_GYRO = ''gyro''"
| "stream_name RS2_STREAM_ACCEL = ''accel''"
| "stream_name RS2_STREAM_POSE = ''pose''"
| "stream_name _ = ''''"

definition STREAM_NAME :: "sip \<Rightarrow> string" where
  "STREAM_NAME s = stream_name (fst s) @ (if 0 < snd s then show_int (snd s) else '''')"

definition FRAME_ID :: "sip \<Rightarrow> string" where
  "FRAME_ID s = ''camera_'' @ STREAM_NAME s @ ''_frame''"

definition OPTICAL_FRAME_ID :: "sip \<Rightarrow> string" where
  "OPTICAL_FRAME_ID s = ''camera_'' @ STREAM_NAME s @ ''_optical_frame''"

definition ALIGNED_DEPTH_TO_FRAME_ID :: "sip \<Rightarrow> string" where
  "ALIGNED_DEPTH_TO_FRAME_ID s = ''camera_aligned_depth_to_'' @ STREAM_NAME s @ ''_frame''"

section \<open>Names of ROS resources\<close>

text \<open>\<open>isalnum\<close> and \<open>tolower\<close> of the C locale.\<close>

definition isalnum :: "char \<Rightarrow> bool" where
  "isalnum c = (let n = of_char c :: nat in
     48 \<le> n \<and> n \<le> 57 \<or> 65 \<le> n \<and> n \<le> 90 \<or> 97 \<le> n \<and> n \<le> 122)"

definition ctolower :: "char \<Rightarrow> char" where
  "ctolower c = (let n = of_char c :: nat in if 65 \<le> n \<and> n \<le> 90 then char_of (n + 32) else c)"

definition isValidCharInName :: "char \<Rightarrow> bool" where
  "isValidCharInName c \<longleftrightarrow> isalnum c \<or> c = CHR ''/'' \<or> c = CHR ''_''"

definition create_graph_resource_name :: "string \<Rightarrow> string" where
  "create_graph_resource_name original_name =
     map (\<lambda>c. if isValidCharInName c then c else CHR ''_'') (map ctolower original_name)"

lemma of_char_lower: "of_char (ctolower c) = (let n = of_char c :: nat in
    if 65 \<le> n \<and> n \<le> 90 then n + 32 else n)"
  by (simp add: ctolower_def Let_def)

lemma ctolower_idem [simp]: "ctolower (ctolower c) = ctolower c"
  by (simp add: ctolower_def Let_def)

text \<open>
  Whatever the device calls itself, the name is one that ROS accepts character by character, without
  capitals, as long as the original; a name that is already valid is kept.
\<close>

lemma resource_name_valid:
  "c \<in> set (create_graph_resource_name s) \<Longrightarrow> isValidCharInName c \<and> ctolower c = c"
  by (auto simp: create_graph_resource_name_def isValidCharInName_def ctolower_def Let_def)

lemma resource_name_length [simp]: "length (create_graph_resource_name s) = length s"
  by (simp add: create_graph_resource_name_def)

lemma resource_name_fixed:
  "(\<forall>c \<in> set s. isValidCharInName c \<and> ctolower c = c) \<Longrightarrow> create_graph_resource_name s = s"
  by (simp add: create_graph_resource_name_def map_idI)

lemma resource_name_idem: "create_graph_resource_name (create_graph_resource_name s) =
    create_graph_resource_name s"
  by (rule resource_name_fixed) (simp add: resource_name_valid)

section \<open>The clock\<close>

datatype timestamp_domain = HARDWARE_CLOCK | SYSTEM_TIME | GLOBAL_TIME

text \<open>\<open>_is_initialized_time_base\<close>, \<open>_ros_time_base\<close> (seconds), \<open>_camera_time_base\<close>, \<open>_previous_frame_time\<close>.\<close>

record time_base =
  tb_init :: bool
  tb_ros :: float64
  tb_camera :: float64
  tb_previous :: float64

text \<open>What a frame says of itself, and the reading of \<open>ros::Time::now()\<close> while it is handled.\<close>

record frame_time =
  ft_stamp :: float64
  ft_domain :: timestamp_domain
  ft_now :: float64

definition setBaseTime :: "frame_time \<Rightarrow> time_base \<Rightarrow> bool \<times> time_base" where
  "setBaseTime f b =
     (if ft_domain f = HARDWARE_CLOCK
      then (True, b\<lparr>tb_ros := ft_now f, tb_camera := ft_stamp f, tb_previous := ft_stamp f\<rparr>)
      else (False, b))"

text \<open>
  \<open>if (_is_initialized_time_base.compare_exchange_strong(false, true)) _is_initialized_time_base =
  setBaseTime(...)\<close>, the first lines of every callback.
\<close>

definition init_time_base :: "frame_time \<Rightarrow> time_base \<Rightarrow> time_base" where
  "init_time_base f b =
     (if tb_init b then b
      else case setBaseTime f (b\<lparr>tb_init := True\<rparr>) of (ok, b') \<Rightarrow> b'\<lparr>tb_init := ok\<rparr>)"

definition frameSystemTimeSec :: "rs_fp \<Rightarrow> frame_time \<Rightarrow> time_base \<Rightarrow> float64 \<times> time_base" where
  "frameSystemTimeSec F f b =
     (if ft_domain f = HARDWARE_CLOCK
      then let b1 = (if fp_less (ft_stamp f) (tb_previous b)
                     then b\<lparr>tb_ros := ft_now f, tb_camera := ft_stamp f\<rparr> else b);
               b2 = b1\<lparr>tb_previous := ft_stamp f\<rparr>;
               elapsed = fp_div F (fp_sub F (ft_stamp f) (tb_camera b2)) d_1000
           in (fp_add F (tb_ros b2) elapsed, b2)
      else (fp_div F (ft_stamp f) d_1000, b))"

text \<open>The time of a frame: initialise the base, then convert.\<close>

definition frame_clock :: "rs_fp \<Rightarrow> frame_time \<Rightarrow> time_base \<Rightarrow> float64 \<times> time_base" where
  "frame_clock F f b = frameSystemTimeSec F f (init_time_base f b)"

text \<open>The camera's own time base never lies after the latest frame, so the elapsed time that is added to
  the ROS base is the difference to an earlier or equal stamp.\<close>

definition base_ok :: "time_base \<Rightarrow> bool" where
  "base_ok b \<longleftrightarrow> tb_init b \<longrightarrow> fp_le (tb_camera b) (tb_previous b)"

lemma fp_le_refl: "\<not> isnan64 x \<Longrightarrow> fp_le x x"
  by (simp add: fp_le_def)

lemma fp_not_less: "\<not> isnan64 x \<Longrightarrow> \<not> isnan64 y \<Longrightarrow> \<not> fp_less x y \<longleftrightarrow> fp_le y x"
  by (auto simp: fp_le_def fp_less_def)

lemma fp_le_trans: "fp_le x y \<Longrightarrow> fp_le y z \<Longrightarrow> fp_le x z"
  by (simp add: fp_le_def)

lemma frame_clock_base_ok:
  assumes "base_ok b" "\<not> isnan64 (ft_stamp f)"
  shows "base_ok (snd (frame_clock F f b))"
  using assms
  by (auto simp: base_ok_def frame_clock_def frameSystemTimeSec_def init_time_base_def
      setBaseTime_def Let_def fp_le_refl fp_not_less dest: fp_le_trans
      intro: fp_le_trans split: if_splits)
     (metis fp_le_def fp_not_less fp_le_trans)

section \<open>Metadata messages\<close>

text \<open>
  What librealsense says of a frame: its profile, number, the name of its time domain, its time stamp as
  \<open>std::fixed\<close> prints it, and for every metadata attribute that the frame supports (in the order of the
  enumeration) whether it is \<open>RS2_FRAME_METADATA_FRAME_TIMESTAMP\<close>, its name and its value.
\<close>

record frame_meta =
  fm_stream :: sip
  fm_number :: nat
  fm_domain_name :: string
  fm_timestamp :: string
  fm_values :: "(bool \<times> string \<times> int) list"

record Metadata =
  md_frame_id :: string
  md_stamp :: float64
  md_json_data :: string

definition quoted :: "string \<Rightarrow> string" where
  "quoted s = CHR 0x22 # s @ [CHR 0x22]"

fun metadata_field :: "bool \<times> string \<times> int \<Rightarrow> string" where
  "metadata_field (hw, name, val) =
     '','' @ quoted (if hw then ''hw_timestamp'' else create_graph_resource_name name) @ '':'' @ show_int val"

definition metadata_json :: "frame_meta \<Rightarrow> string" where
  "metadata_json f =
     ''{'' @ quoted ''frame_number'' @ '':'' @ show_nat (fm_number f) @
     '','' @ quoted ''clock_domain'' @ '':'' @ quoted (create_graph_resource_name (fm_domain_name f)) @
     '','' @ quoted ''frame_timestamp'' @ '':'' @ fm_timestamp f @
     concat (map metadata_field (fm_values f)) @ ''}''"

text \<open>\<open>pubs\<close> gives the number of subscribers of the metadata topic of a stream that has one.\<close>

definition publishMetadata :: "(sip \<Rightarrow> nat option) \<Rightarrow> frame_meta \<Rightarrow> float64 \<Rightarrow> string \<Rightarrow> Metadata list" where
  "publishMetadata pubs f header_time frame_id =
     (case pubs (fm_stream f) of
        None \<Rightarrow> []
      | Some n \<Rightarrow> if n = 0 then []
          else [\<lparr>md_frame_id = frame_id, md_stamp = header_time, md_json_data = metadata_json f\<rparr>])"

end
