(* ===== verification/Rs_Imu.thy ===== *)
theory Rs_Imu
  imports Rs_Types
begin

text \<open>
  The inertial path of the RealSense node (\<open>base_realsense_node.cpp\<close>): \<open>SyncedImuPublisher\<close>, which holds
  messages back while a frame is handled, the two ways of uniting gyroscope and accelerometer samples,
  and the callbacks.
\<close>

section \<open>Messages and samples\<close>

record Imu =
  im_seq :: int
  im_stamp :: float64
  im_frame_id :: string
  im_orientation :: "float64 list"
  im_orientation_cov :: "float64 list"
  im_angular_velocity :: vec3
  im_angular_cov :: "float64 list"
  im_linear_acceleration :: vec3
  im_linear_cov :: "float64 list"

definition zero3 :: vec3 where "zero3 = (d_zero, d_zero, d_zero)"

definition empty_imu :: Imu where
  "empty_imu = \<lparr>im_seq = 0, im_stamp = d_zero, im_frame_id = [],
     im_orientation = replicate 4 d_zero, im_orientation_cov = replicate 9 d_zero,
     im_angular_velocity = zero3, im_angular_cov = replicate 9 d_zero,
     im_linear_acceleration = zero3, im_linear_cov = replicate 9 d_zero\<rparr>"

record CimuData =
  m_type :: sip
  m_data :: vec3
  m_time :: float64

definition is_set :: "CimuData \<Rightarrow> bool" where
  "is_set c \<longleftrightarrow> fp_less d_zero (m_time c)"

text \<open>\<open>CimuData()\<close>: only the time is initialised.\<close>

definition unset_imu :: CimuData where
  "unset_imu = \<lparr>m_type = (RS2_STREAM_ANY, 0), m_data = zero3, m_time = d_minus_one\<rparr>"

lemma unset_imu_unset [simp]: "\<not> is_set unset_imu"
  by (simp add: is_set_def unset_imu_def)

section \<open>\<open>SyncedImuPublisher\<close>\<close>

text \<open>\<open>sp_published\<close> is everything handed to \<open>_publisher.publish\<close>, oldest first.\<close>

record SyncedImuPublisher =
  sp_published :: "Imu list"
  sp_pause_mode :: bool
  sp_pending :: "Imu list"
  sp_waiting_list_size :: nat
  sp_is_enabled :: bool

text \<open>
  The constructor with a publisher leaves \<open>_is_enabled\<close> uninitialised (the argument \<open>e\<close>); \<open>Enable\<close> is
  called right after it.  The default constructor leaves the mode and the size uninitialised.
\<close>

definition new_publisher :: "nat \<Rightarrow> bool \<Rightarrow> SyncedImuPublisher" where
  "new_publisher waiting_list_size e = \<lparr>sp_published = [], sp_pause_mode = False, sp_pending = [],
     sp_waiting_list_size = waiting_list_size, sp_is_enabled = e\<rparr>"

definition default_publisher :: "bool \<Rightarrow> nat \<Rightarrow> SyncedImuPublisher" where
  "default_publisher p n = \<lparr>sp_published = [], sp_pause_mode = p, sp_pending = [],
     sp_waiting_list_size = n, sp_is_enabled = False\<rparr>"

definition Enable :: "bool \<Rightarrow> SyncedImuPublisher \<Rightarrow> SyncedImuPublisher" where
  "Enable b p = p\<lparr>sp_is_enabled := b\<rparr>"

fun publish_pending :: "Imu list \<Rightarrow> SyncedImuPublisher \<Rightarrow> SyncedImuPublisher" where
  "publish_pending [] p = p\<lparr>sp_pending := []\<rparr>"
| "publish_pending (msg # q) p =
     publish_pending q (p\<lparr>sp_published := sp_published p @ [msg], sp_pending := q\<rparr>)"

definition PublishPendingMessages :: "SyncedImuPublisher \<Rightarrow> SyncedImuPublisher" where
  "PublishPendingMessages p = publish_pending (sp_pending p) p"

definition Publish :: "Imu \<Rightarrow> SyncedImuPublisher \<Rightarrow> SyncedImuPublisher outcome" where
  "Publish imu_msg p =
     (if sp_pause_mode p
      then if sp_waiting_list_size p \<le> length (sp_pending p)
           then Inl (Thrown ''SyncedImuPublisher inner list reached maximum size'', p)
           else Inr (p\<lparr>sp_pending := sp_pending p @ [imu_msg]\<rparr>)
      else Inr (p\<lparr>sp_published := sp_published p @ [imu_msg]\<rparr>))"

definition Pause :: "SyncedImuPublisher \<Rightarrow> SyncedImuPublisher" where
  "Pause p = (if \<not> sp_is_enabled p then p else p\<lparr>sp_pause_mode := True\<rparr>)"

definition Resume :: "SyncedImuPublisher \<Rightarrow> SyncedImuPublisher" where
  "Resume p = (PublishPendingMessages p)\<lparr>sp_pause_mode := False\<rparr>"

text \<open>The destructor publishes what is still waiting.\<close>

definition destroy_publisher :: "SyncedImuPublisher \<Rightarrow> SyncedImuPublisher" where
  "destroy_publisher p = PublishPendingMessages p"

lemma publish_pending_eq:
  "publish_pending q p = p\<lparr>sp_published := sp_published p @ q, sp_pending := []\<rparr>"
  by (induction q arbitrary: p) simp_all

lemma PublishPendingMessages_eq:
  "PublishPendingMessages p = p\<lparr>sp_published := sp_published p @ sp_pending p, sp_pending := []\<rparr>"
  by (simp add: PublishPendingMessages_def publish_pending_eq)

section \<open>The interface: a channel that may hold messages back\<close>

text \<open>
  \<open>stream\<close> is what the receivers will have seen once nothing is held back.  Sending appends to it or
  is refused without an effect; everything else leaves it alone.
\<close>

locale holding_channel =
  fixes send :: "'m \<Rightarrow> 'c \<Rightarrow> 'c outcome"
    and hold :: "'c \<Rightarrow> 'c"
    and release :: "'c \<Rightarrow> 'c"
    and sent :: "'c \<Rightarrow> 'm list"
    and held :: "'c \<Rightarrow> 'm list"
    and invar :: "'c \<Rightarrow> bool"
  assumes send_ok: "invar c \<Longrightarrow> send m c = Inr c' \<Longrightarrow> sent c' @ held c' = (sent c @ held c) @ [m] \<and> invar c'"
    and send_refused: "send m c = Inl (e, c') \<Longrightarrow> c' = c"
    and hold_stream: "invar c \<Longrightarrow> sent (hold c) = sent c \<and> held (hold c) = held c \<and> invar (hold c)"
    and release_stream: "invar c \<Longrightarrow> sent (release c) = sent c @ held c \<and> held (release c) = [] \<and> invar (release c)"
begin

definition stream :: "'c \<Rightarrow> 'm list" where
  "stream c = sent c @ held c"

lemma send_stream:
  assumes "invar c"
  shows "invar (outcome_state (send m c))"
    and "stream (outcome_state (send m c)) = stream c @ (if faulted (send m c) then [] else [m])"
proof -
  have "invar (outcome_state (send m c)) \<and>
      stream (outcome_state (send m c)) = stream c @ (if faulted (send m c) then [] else [m])"
  proof (cases "send m c")
    case (Inl e)
    then show ?thesis using send_refused [of m c "fst e" "snd e"] assms by (cases e) simp
  next
    case (Inr c')
    then show ?thesis using send_ok [OF assms Inr] by (simp add: stream_def)
  qed
  then show "invar (outcome_state (send m c))"
    and "stream (outcome_state (send m c)) = stream c @ (if faulted (send m c) then [] else [m])"
    by simp_all
qed

text \<open>A sender that stops at the first refusal has sent a prefix of its messages, in order.\<close>

lemma send_all_prefix:
  assumes "invar c"
  obtains ms' where "prefix ms' ms" "stream (outcome_state (fold_outcome send ms c)) = stream c @ ms'"
    "invar (outcome_state (fold_outcome send ms c))"
    "\<not> faulted (fold_outcome send ms c) \<longrightarrow> ms' = ms"
  using assms
proof (induction ms arbitrary: c thesis)
  case Nil
  then show ?case by simp
next
  case (Cons m ms)
  note s = send_stream [OF Cons.prems(2), of m]
  show ?case
  proof (cases "send m c")
    case (Inl e)
    then obtain f c' where e: "send m c = Inl (f, c')" by (cases e) auto
    show ?thesis by (rule Cons.prems(1) [of "[]"]) (use s e in auto)
  next
    case (Inr c')
    have "invar c'" using s Inr by simp
    then obtain ms' where "prefix ms' ms" "stream (outcome_state (fold_outcome send ms c')) = stream c' @ ms'"
      "invar (outcome_state (fold_outcome send ms c'))"
      "\<not> faulted (fold_outcome send ms c') \<longrightarrow> ms' = ms"
      using Cons.IH by metis
    then show ?thesis
      by (intro Cons.prems(1) [of "m # ms'"]) (use s Inr in simp_all)
  qed
qed

end

definition sp_ok :: "SyncedImuPublisher \<Rightarrow> bool" where
  "sp_ok p \<longleftrightarrow> (sp_pause_mode p \<or> sp_pending p = []) \<and> length (sp_pending p) \<le> sp_waiting_list_size p"

interpretation imu: holding_channel Publish Pause Resume sp_published sp_pending sp_ok
  by unfold_locales
     (auto simp: Publish_def Pause_def Resume_def PublishPendingMessages_eq sp_ok_def split: if_splits)

lemma new_publisher_ok [simp]: "sp_ok (new_publisher n e)" "imu.stream (new_publisher n e) = []"
  by (simp_all add: sp_ok_def new_publisher_def imu.stream_def)

lemma Enable_channel [simp]: "sp_ok (Enable b p) = sp_ok p" "imu.stream (Enable b p) = imu.stream p"
  by (simp_all add: sp_ok_def Enable_def imu.stream_def)

lemma hold_release [simp]:
  "sp_ok p \<Longrightarrow> sp_ok (Pause p)" "imu.stream (Pause p) = imu.stream p"
  "sp_ok p \<Longrightarrow> sp_ok (Resume p)" "imu.stream (Resume p) = imu.stream p"
  by (auto simp: sp_ok_def Pause_def Resume_def PublishPendingMessages_eq imu.stream_def)

section \<open>Uniting gyroscope and accelerometer\<close>

text \<open>\<open>CreateUnitedMessage\<close>: the message has the time and rates of the gyroscope sample.\<close>

definition CreateUnitedMessage :: "CimuData \<Rightarrow> CimuData \<Rightarrow> Imu" where
  "CreateUnitedMessage accel_data gyro_data =
     empty_imu\<lparr>im_seq := 0, im_stamp := m_time gyro_data, im_angular_velocity := m_data gyro_data,
       im_linear_acceleration := m_data accel_data\<rparr>"

fun lerp :: "rs_fp \<Rightarrow> vec3 \<Rightarrow> vec3 \<Rightarrow> float64 \<Rightarrow> vec3" where
  "lerp F (ax, ay, az) (bx, by, bz) t =
     (let u = fp_sub F d_one t; f = (\<lambda>a b. fp_add F (fp_mul F a u) (fp_mul F b t))
      in (f ax bx, f ay by, f az bz))"

text \<open>The message for a gyroscope sample between two accelerometer samples.\<close>

definition between :: "rs_fp \<Rightarrow> CimuData \<Rightarrow> CimuData \<Rightarrow> CimuData \<Rightarrow> Imu" where
  "between F accel0 accel1 crnt_gyro =
     (let dt = fp_sub F (m_time accel1) (m_time accel0);
          alpha = fp_div F (fp_sub F (m_time crnt_gyro) (m_time accel0)) dt;
          crnt_accel = \<lparr>m_type = ACCEL_sip, m_data = lerp F (m_data accel0) (m_data accel1) alpha,
                        m_time = m_time crnt_gyro\<rparr>
      in CreateUnitedMessage crnt_accel crnt_gyro)"

text \<open>The loop over \<open>_imu_history\<close>: \<open>accel0\<close>, \<open>gyros_data\<close>, \<open>crnt_imu\<close> and \<open>imu_msgs\<close> are its variables.\<close>

fun interpolate :: "rs_fp \<Rightarrow> CimuData list \<Rightarrow> CimuData \<Rightarrow> CimuData list \<Rightarrow> CimuData \<Rightarrow> Imu list
    \<Rightarrow> CimuData \<times> Imu list" where
  "interpolate F [] accel0 gyros_data crnt_imu imu_msgs = (crnt_imu, imu_msgs)"
| "interpolate F (c # history) accel0 gyros_data crnt_imu imu_msgs =
     (if \<not> is_set accel0 \<and> m_type c = ACCEL_sip then interpolate F history c gyros_data c imu_msgs
      else if is_set accel0 \<and> m_type c = ACCEL_sip
      then interpolate F history c [] c (imu_msgs @ map (between F accel0 c) gyros_data)
      else if is_set accel0 \<and> fp_le (m_time accel0) (m_time c) \<and> m_type c = GYRO_sip
      then interpolate F history accel0 (gyros_data @ [c]) c imu_msgs
      else interpolate F history accel0 gyros_data c imu_msgs)"

definition FillImuData_LinearInterpolation ::
  "rs_fp \<Rightarrow> CimuData \<Rightarrow> CimuData list \<Rightarrow> Imu list \<times> CimuData list" where
  "FillImuData_LinearInterpolation F imu_data history =
     (let h = history @ [imu_data]
      in if m_type imu_data \<noteq> ACCEL_sip \<or> length h < 3 then ([], h)
         else case interpolate F h unset_imu [] unset_imu [] of
           (crnt_imu, imu_msgs) \<Rightarrow> (imu_msgs, [crnt_imu]))"

text \<open>\<open>_accel_data\<close> is the state of \<open>FillImuData_Copy\<close>; its first value has the time -1.\<close>

definition no_accel :: CimuData where
  "no_accel = \<lparr>m_type = ACCEL_sip, m_data = zero3, m_time = d_minus_one\<rparr>"

definition FillImuData_Copy :: "CimuData \<Rightarrow> CimuData \<Rightarrow> Imu list \<times> CimuData" where
  "FillImuData_Copy imu_data accel_data =
     (if m_type imu_data = ACCEL_sip then ([], imu_data)
      else if fp_less (m_time accel_data) d_zero then ([], accel_data)
      else ([CreateUnitedMessage accel_data imu_data], accel_data))"

subsection \<open>The batches are an online interpolation\<close>

text \<open>
  A reference without a history: remember the last accelerometer sample and the gyroscope samples since,
  and emit them when the next accelerometer sample arrives.
\<close>

fun online :: "rs_fp \<Rightarrow> CimuData \<Rightarrow> CimuData \<times> CimuData list \<Rightarrow> Imu list \<times> CimuData \<times> CimuData list" where
  "online F c (a, gs) =
     (if m_type c = ACCEL_sip then (map (between F a c) gs, c, [])
      else if is_set a \<and> fp_le (m_time a) (m_time c) \<and> m_type c = GYRO_sip then ([], a, gs @ [c])
      else ([], a, gs))"

fun online_all :: "rs_fp \<Rightarrow> CimuData list \<Rightarrow> CimuData \<times> CimuData list \<Rightarrow> Imu list list" where
  "online_all F [] st = []"
| "online_all F (c # cs) st = (case online F c st of (ms, st') \<Rightarrow> ms # online_all F cs st')"

fun online_state :: "rs_fp \<Rightarrow> CimuData list \<Rightarrow> CimuData \<times> CimuData list \<Rightarrow> CimuData \<times> CimuData list" where
  "online_state F [] st = st"
| "online_state F (c # cs) st = online_state F cs (snd (online F c st))"

fun batches :: "rs_fp \<Rightarrow> CimuData list \<Rightarrow> CimuData list \<Rightarrow> Imu list list" where
  "batches F [] history = []"
| "batches F (c # cs) history =
     (case FillImuData_LinearInterpolation F c history of (ms, h) \<Rightarrow> ms # batches F cs h)"

definition waiting_ok :: "CimuData \<times> CimuData list \<Rightarrow> bool" where
  "waiting_ok st \<longleftrightarrow> (is_set (fst st) \<or> snd st = [])"

lemma online_waiting_ok: "waiting_ok st \<Longrightarrow> waiting_ok (snd (online F c st))"
  by (cases st) (auto simp: waiting_ok_def)

lemma interpolate_online:
  "waiting_ok (a, gs) \<Longrightarrow> interpolate F h a gs c ms =
     (last (c # h), ms @ concat (online_all F h (a, gs)))"
proof (induction F h a gs c ms rule: interpolate.induct)
  case (2 F c h a gs cr ms)
  show ?case
  proof (cases "\<not> is_set a \<and> m_type c = ACCEL_sip")
    case True
    then have "gs = []" using "2.prems" by (simp add: waiting_ok_def)
    with True "2.IH"(1) show ?thesis by (simp add: waiting_ok_def)
  next
    case False
    with "2.prems" "2.IH"(2-4) show ?thesis by (auto simp: waiting_ok_def)
  qed
qed simp

lemma online_all_append:
  "online_all F (h @ cs) st = online_all F h st @ online_all F cs (online_state F h st)"
  by (induction h arbitrary: st) (auto split: prod.split)

lemma online_state_append: "online_state F (h @ cs) st = online_state F cs (online_state F h st)"
  by (induction h arbitrary: st) auto

lemma online_state_waiting_ok: "waiting_ok st \<Longrightarrow> waiting_ok (online_state F h st)"
  by (induction h arbitrary: st) (auto simp: online_waiting_ok)

text \<open>The history is what the online machine has seen since it last emitted.\<close>

definition pending_history :: "rs_fp \<Rightarrow> CimuData list \<Rightarrow> CimuData \<times> CimuData list \<Rightarrow> bool" where
  "pending_history F h st \<longleftrightarrow> concat (online_all F h (unset_imu, [])) = [] \<and>
     online_state F h (unset_imu, []) = st"

lemma start_waiting_ok [simp]: "waiting_ok (unset_imu, [])"
  by (simp add: waiting_ok_def)

lemma short_history_waits:
  "length h < 2 \<Longrightarrow> snd (online_state F h (unset_imu, [])) = []"
  by (cases h) auto

lemma batch_step:
  assumes "pending_history F h st"
  shows "fst (FillImuData_LinearInterpolation F c h) = fst (online F c st)"
    and "pending_history F (snd (FillImuData_LinearInterpolation F c h)) (snd (online F c st))"
proof -
  let ?st0 = "(unset_imu, [] :: CimuData list)"
  obtain a gs where st: "st = (a, gs)" by (cases st)
  have st0: "online_state F h ?st0 = (a, gs)" using assms st by (simp add: pending_history_def)
  have all: "concat (online_all F (h @ [c]) ?st0) = fst (online F c st)"
    using assms st by (simp add: online_all_append pending_history_def split: prod.split)
  have stt: "online_state F (h @ [c]) ?st0 = snd (online F c st)"
    using st0 st by (simp add: online_state_append)
  have "fst (FillImuData_LinearInterpolation F c h) = fst (online F c st) \<and>
      pending_history F (snd (FillImuData_LinearInterpolation F c h)) (snd (online F c st))"
  proof (cases "m_type c = ACCEL_sip")
    case False
    then have "fst (online F c st) = []" by (simp add: st)
    then show ?thesis
      using False all stt by (simp add: FillImuData_LinearInterpolation_def pending_history_def)
  next
    case True
    show ?thesis
    proof (cases "length (h @ [c]) < 3")
      case short: True
      then have "gs = []" using short_history_waits [of h F] st0 by simp
      then have "fst (online F c st) = []" using True by (simp add: st)
      then show ?thesis
        using short all stt by (simp add: FillImuData_LinearInterpolation_def pending_history_def)
    next
      case False
      have "interpolate F (h @ [c]) unset_imu [] unset_imu [] = (c, fst (online F c st))"
        using all by (simp add: interpolate_online)
      moreover have "pending_history F [c] (snd (online F c st))"
        using True by (simp add: pending_history_def st)
      ultimately show ?thesis
        using True False by (simp add: FillImuData_LinearInterpolation_def)
    qed
  qed
  then show "fst (FillImuData_LinearInterpolation F c h) = fst (online F c st)"
    and "pending_history F (snd (FillImuData_LinearInterpolation F c h)) (snd (online F c st))"
    by simp_all
qed

lemma batches_online:
  "pending_history F h st \<Longrightarrow> batches F cs h = online_all F cs st"
proof (induction cs arbitrary: h st)
  case (Cons c cs)
  note step = batch_step [OF Cons.prems, of c]
  show ?case
    using step Cons.IH [OF step(2)]
    by (simp add: case_prod_beta)
qed simp

text \<open>Between two accelerometer samples.\<close>

lemma online_segment:
  assumes "is_set a" "\<forall>g \<in> set gs. m_type g = GYRO_sip"
  shows "online_all F gs (a, ws) = replicate (length gs) [] \<and>
    online_state F gs (a, ws) = (a, ws @ filter (\<lambda>g. fp_le (m_time a) (m_time g)) gs)"
  using assms by (induction gs arbitrary: ws) auto

text \<open>
  Claim C20.  Linear interpolation, over any history of samples: between two accelerometer samples \<open>a\<close>
  and \<open>b\<close> (the first with a positive time) nothing is published while the gyroscope samples arrive, and
  when \<open>b\<close> arrives exactly one message per gyroscope sample that is not older than \<open>a\<close> is published, in
  the order of arrival, with the accelerations of \<open>a\<close> and \<open>b\<close> blended at the time of the sample.  The
  bound of three samples in the code and the way it empties its history never lose, repeat or delay one.
\<close>

theorem interpolation_between_accelerations:
  assumes a: "m_type a = ACCEL_sip" "is_set a"
    and gs: "\<forall>g \<in> set gs. m_type g = GYRO_sip"
    and b: "m_type b = ACCEL_sip"
  shows "batches F (ds @ a # gs @ [b]) [] =
    batches F (ds @ [a]) [] @ replicate (length gs) [] @
      [map (between F a b) (filter (\<lambda>g. fp_le (m_time a) (m_time g)) gs)]"
proof -
  let ?st = "(unset_imu, [] :: CimuData list)"
  have 0: "pending_history F [] ?st" by (simp add: pending_history_def)
  have st: "online_state F (ds @ [a]) ?st = (a, [])"
    using a by (cases "online_state F ds ?st") (simp add: online_state_append)
  have "online_all F ((ds @ [a]) @ gs @ [b]) ?st = online_all F (ds @ [a]) ?st @
      online_all F (gs @ [b]) (a, [])"
    by (simp only: online_all_append st)
  then show ?thesis
    using online_segment [OF a(2) gs, of F "[]"] b
    by (simp add: batches_online [OF 0] online_all_append)
qed

section \<open>The callbacks\<close>

datatype imu_sync_method = NONE | COPY | LINEAR_INTERPOLATION

record imu_frame = frame_time +
  if_stream :: rs2_stream
  if_reading :: "float32 \<times> float32 \<times> float32"

text \<open>
  The part of the node that the inertial callbacks use.  \<open>in_locked\<close>, \<open>in_sync_seq\<close>, \<open>in_history\<close> and
  \<open>in_accel\<close> are the \<open>static\<close> variables of \<open>imu_callback_sync\<close> and of the functions that fill the messages.
\<close>

record imu_node =
  in_locked :: bool
  in_sync_seq :: int
  in_history :: "CimuData list"
  in_accel :: CimuData
  in_base :: time_base
  in_publisher :: SyncedImuPublisher
  in_seq :: "sip \<Rightarrow> int"
  in_single :: "(sip \<times> Imu) list"
  in_optical_frame_id :: "sip \<Rightarrow> string"
  in_linear_accel_cov :: float64
  in_angular_velocity_cov :: float64

definition diagonal :: "float64 \<Rightarrow> float64 list" where
  "diagonal c = [c, d_zero, d_zero, d_zero, c, d_zero, d_zero, d_zero, c]"

definition ImuMessage_AddDefaultValues :: "imu_node \<Rightarrow> Imu \<Rightarrow> Imu" where
  "ImuMessage_AddDefaultValues s imu_msg = imu_msg\<lparr>im_frame_id := in_optical_frame_id s GYRO_sip,
     im_orientation := replicate 4 d_zero,
     im_orientation_cov := d_minus_one # replicate 8 d_zero,
     im_linear_cov := diagonal (in_linear_accel_cov s),
     im_angular_cov := diagonal (in_angular_velocity_cov s)\<rparr>"

fun widen3 :: "rs_fp \<Rightarrow> float32 \<times> float32 \<times> float32 \<Rightarrow> vec3" where
  "widen3 F (x, y, z) = (fp_widen F x, fp_widen F y, fp_widen F z)"

definition imu_stream_index :: "imu_frame \<Rightarrow> sip" where
  "imu_stream_index f = (if if_stream f = fst GYRO_sip then GYRO_sip else ACCEL_sip)"

text \<open>The switch over the method.\<close>

fun fill_messages :: "rs_fp \<Rightarrow> imu_sync_method \<Rightarrow> CimuData \<Rightarrow> imu_node \<Rightarrow> Imu list \<times> imu_node" where
  "fill_messages F LINEAR_INTERPOLATION d s =
     (case FillImuData_LinearInterpolation F d (in_history s) of (ms, h) \<Rightarrow> (ms, s\<lparr>in_history := h\<rparr>))"
| "fill_messages F _ d s =
     (case FillImuData_Copy d (in_accel s) of (ms, a) \<Rightarrow> (ms, s\<lparr>in_accel := a\<rparr>))"

text \<open>
  \<open>imu_callback_sync\<close> up to its last loop: the messages that the frame gives rise to, with the number
  and the default values that the loop adds to each.  \<open>n\<close> is the number of subscribers.
\<close>

definition unite_frame :: "rs_fp \<Rightarrow> imu_sync_method \<Rightarrow> nat \<Rightarrow> imu_frame \<Rightarrow> imu_node \<Rightarrow> Imu list \<times> imu_node" where
  "unite_frame F sync_method n f s =
     (let s1 = s\<lparr>in_base := init_time_base (frame_time.truncate f) (in_base s),
                 in_sync_seq := in_sync_seq s + 1\<rparr>
      in if n = 0 then ([], s1)
         else case frameSystemTimeSec F (frame_time.truncate f) (in_base s1) of (t, b) \<Rightarrow>
           let imu_data = \<lparr>m_type = imu_stream_index f, m_data = widen3 F (if_reading f), m_time = t\<rparr>
           in case fill_messages F sync_method imu_data (s1\<lparr>in_base := b\<rparr>) of (ms, s2) \<Rightarrow>
             (map (\<lambda>m. ImuMessage_AddDefaultValues s2 (m\<lparr>im_seq := in_sync_seq s2\<rparr>)) ms, s2))"

definition send_imu :: "Imu \<Rightarrow> imu_node \<Rightarrow> imu_node outcome" where
  "send_imu m s = (case Publish m (in_publisher s) of
     Inl (e, p) \<Rightarrow> Inl (e, s\<lparr>in_publisher := p\<rparr>) | Inr p \<Rightarrow> Inr (s\<lparr>in_publisher := p\<rparr>))"

text \<open>
  \<open>m_mutex\<close> is locked and unlocked by hand: a frame that finds it locked by a callback that has been left
  waits for ever, and an exception of \<open>Publish\<close> leaves it locked.
\<close>

definition imu_callback_sync :: "rs_fp \<Rightarrow> imu_sync_method \<Rightarrow> nat \<Rightarrow> imu_frame \<Rightarrow> imu_node \<Rightarrow> imu_node outcome" where
  "imu_callback_sync F sync_method n f s =
     (if in_locked s then Inl (Blocked ''m_mutex'', s)
      else case unite_frame F sync_method n f (s\<lparr>in_locked := True\<rparr>) of (ms, s1) \<Rightarrow>
        and_then (fold_outcome send_imu ms s1) (\<lambda>s2. Inr (s2\<lparr>in_locked := False\<rparr>)))"

text \<open>
  \<open>imu_callback\<close>: no uniting, a topic for each sensor.  \<open>n\<close> is the number of its subscribers, \<open>pubs\<close> that
  of the metadata topics.
\<close>

definition single_message :: "rs_fp \<Rightarrow> imu_frame \<Rightarrow> imu_node \<Rightarrow> Imu" where
  "single_message F f s =
     (let m1 = (ImuMessage_AddDefaultValues s empty_imu)
            \<lparr>im_frame_id := in_optical_frame_id s (imu_stream_index f)\<rparr>
      in if imu_stream_index f = GYRO_sip then m1\<lparr>im_angular_velocity := widen3 F (if_reading f)\<rparr>
         else m1\<lparr>im_linear_acceleration := widen3 F (if_reading f)\<rparr>)"

definition imu_callback :: "rs_fp \<Rightarrow> nat \<Rightarrow> (sip \<Rightarrow> nat option) \<Rightarrow> imu_frame \<Rightarrow> frame_meta \<Rightarrow>
    imu_node \<Rightarrow> imu_node \<times> Metadata list" where
  "imu_callback F n pubs f g s =
     (let stream_index = imu_stream_index f
      in case frame_clock F (frame_time.truncate f) (in_base s) of (t, b) \<Rightarrow>
        let s1 = s\<lparr>in_base := b\<rparr>;
            seq = in_seq s1 stream_index + 1;
            s2 = (if n = 0 then s1
                  else s1\<lparr>in_seq := (in_seq s1)(stream_index := seq),
                     in_single := in_single s1 @
                       [(stream_index, (single_message F f s1)\<lparr>im_seq := seq, im_stamp := t\<rparr>)]\<rparr>)
        in (s2, publishMetadata pubs g t (in_optical_frame_id s2 stream_index)))"

text \<open>
  Without uniting every frame that has a subscriber is published on the topic of its sensor, and the
  numbers of a topic count its messages.
\<close>

lemma imu_callback_numbers:
  assumes "\<forall>i. in_seq s i = int (length (filter (\<lambda>e. fst e = i) (in_single s)))"
  shows "\<forall>i. in_seq (fst (imu_callback F n pubs f g s)) i =
    int (length (filter (\<lambda>e. fst e = i) (in_single (fst (imu_callback F n pubs f g s)))))"
  using assms
  by (cases "imu_stream_index f") (simp add: imu_callback_def Let_def split: prod.split)

subsection \<open>Histories\<close>

text \<open>
  Frames of the inertial sensors arrive on one thread, frames of the imagers on others, which hold the
  messages back from the beginning to the end of \<open>frame_callback\<close>.  librealsense catches whatever a
  callback throws, so the next event finds the state that was left.
\<close>

datatype imu_event = ImuFrame imu_frame nat | FrameBegin | FrameEnd

fun imu_step :: "rs_fp \<Rightarrow> imu_sync_method \<Rightarrow> imu_event \<Rightarrow> imu_node \<Rightarrow> imu_node outcome" where
  "imu_step F sync_method (ImuFrame f n) s = imu_callback_sync F sync_method n f s"
| "imu_step F sync_method FrameBegin s = Inr (s\<lparr>in_publisher := Pause (in_publisher s)\<rparr>)"
| "imu_step F sync_method FrameEnd s = Inr (s\<lparr>in_publisher := Resume (in_publisher s)\<rparr>)"

fun imu_run :: "rs_fp \<Rightarrow> imu_sync_method \<Rightarrow> imu_event list \<Rightarrow> imu_node \<Rightarrow> imu_node" where
  "imu_run F sync_method [] s = s"
| "imu_run F sync_method (e # es) s = imu_run F sync_method es (outcome_state (imu_step F sync_method e s))"

text \<open>
  The reference: the messages that the inertial frames alone give rise to, one list per frame, as if
  nothing were ever held back.
\<close>

fun produced :: "rs_fp \<Rightarrow> imu_sync_method \<Rightarrow> imu_event list \<Rightarrow> imu_node \<Rightarrow> Imu list" where
  "produced F sync_method [] s = []"
| "produced F sync_method (ImuFrame f n # es) s =
     (case unite_frame F sync_method n f s of (ms, s') \<Rightarrow> ms @ produced F sync_method es s')"
| "produced F sync_method (_ # es) s = produced F sync_method es s"

subsection \<open>What the publisher does not influence\<close>

definition with_channel :: "SyncedImuPublisher \<Rightarrow> bool \<Rightarrow> imu_node \<Rightarrow> imu_node" where
  "with_channel p l s = s\<lparr>in_publisher := p, in_locked := l\<rparr>"

lemma with_channel_simps [simp]:
  "in_publisher (with_channel p l s) = p" "in_locked (with_channel p l s) = l"
  "with_channel p l (with_channel p' l' s) = with_channel p l s"
  "with_channel (in_publisher s) (in_locked s) s = s"
  by (simp_all add: with_channel_def)

lemma channel_updates:
  "s\<lparr>in_publisher := p\<rparr> = with_channel p (in_locked s) s"
  "s\<lparr>in_locked := l\<rparr> = with_channel (in_publisher s) l s"
  by (simp_all add: with_channel_def)

lemma fill_messages_channel:
  "fill_messages F m d (with_channel p l s) =
     (fst (fill_messages F m d s), with_channel p l (snd (fill_messages F m d s)))"
  "in_publisher (snd (fill_messages F m d s)) = in_publisher s"
  "in_locked (snd (fill_messages F m d s)) = in_locked s"
  by (cases m; simp add: with_channel_def split: prod.split)+

lemma unite_frame_channel:
  "unite_frame F m n f (with_channel p l s) =
     (fst (unite_frame F m n f s), with_channel p l (snd (unite_frame F m n f s)))"
  "in_publisher (snd (unite_frame F m n f s)) = in_publisher s"
  "in_locked (snd (unite_frame F m n f s)) = in_locked s"
proof -
  show "in_publisher (snd (unite_frame F m n f s)) = in_publisher s"
    and "in_locked (snd (unite_frame F m n f s)) = in_locked s"
    by (simp_all add: unite_frame_def Let_def case_prod_beta fill_messages_channel)
  have upd: "(with_channel p l s)\<lparr>in_sync_seq := k\<rparr> = with_channel p l (s\<lparr>in_sync_seq := k\<rparr>)"
    "(with_channel p l s)\<lparr>in_base := b\<rparr> = with_channel p l (s\<lparr>in_base := b\<rparr>)" for s b k
    by (simp_all add: with_channel_def)
  have get: "in_base (with_channel p l s) = in_base s" "in_sync_seq (with_channel p l s) = in_sync_seq s"
    "ImuMessage_AddDefaultValues (with_channel p l s) = ImuMessage_AddDefaultValues s" for s
    by (auto simp: with_channel_def ImuMessage_AddDefaultValues_def fun_eq_iff)
  show "unite_frame F m n f (with_channel p l s) =
     (fst (unite_frame F m n f s), with_channel p l (snd (unite_frame F m n f s)))"
    by (simp add: unite_frame_def Let_def case_prod_beta get upd fill_messages_channel)
qed

lemma produced_channel: "produced F m es (with_channel p l s) = produced F m es s"
proof (induction F m es s arbitrary: p l rule: produced.induct)
  case (2 F m f n es s)
  then show ?case
    by (cases "unite_frame F m n f s") (simp add: unite_frame_channel)
qed simp_all

lemma send_imu_channel:
  "fold_outcome send_imu ms s =
     (case fold_outcome Publish ms (in_publisher s) of
        Inl (e, p) \<Rightarrow> Inl (e, with_channel p (in_locked s) s)
      | Inr p \<Rightarrow> Inr (with_channel p (in_locked s) s))"
proof (induction ms arbitrary: s)
  case (Cons m ms)
  have "send_imu m s = (case Publish m (in_publisher s) of
      Inl (e, p) \<Rightarrow> Inl (e, with_channel p (in_locked s) s)
    | Inr p \<Rightarrow> Inr (with_channel p (in_locked s) s))"
    by (auto simp: send_imu_def channel_updates split: sum.split)
  then show ?case
    by (cases "Publish m (in_publisher s)") (auto simp: Cons.IH split: sum.split)
qed simp

text \<open>A callback on an unlocked node: the outcome of sending its messages.\<close>

lemma imu_callback_sync_eq:
  assumes "\<not> in_locked s"
  shows "outcome_state (imu_callback_sync F m n f s) =
    (case unite_frame F m n f s of (ms, s1) \<Rightarrow>
       let r = fold_outcome Publish ms (in_publisher s) in with_channel (outcome_state r) (faulted r) s1)"
    and "faulted (imu_callback_sync F m n f s) \<longleftrightarrow>
      faulted (fold_outcome Publish (fst (unite_frame F m n f s)) (in_publisher s))"
  using assms
  by (auto simp: imu_callback_sync_def unite_frame_channel send_imu_channel case_prod_beta Let_def
      channel_updates split: sum.split)

lemma locked_run:
  assumes "in_locked s" "sp_ok (in_publisher s)"
  shows "in_locked (imu_run F m es s) \<and> sp_ok (in_publisher (imu_run F m es s)) \<and>
    imu.stream (in_publisher (imu_run F m es s)) = imu.stream (in_publisher s)"
  using assms
proof (induction es arbitrary: s)
  case (Cons e es)
  let ?t = "outcome_state (imu_step F m e s)"
  have "in_locked ?t \<and> sp_ok (in_publisher ?t) \<and> imu.stream (in_publisher ?t) = imu.stream (in_publisher s)"
    using Cons.prems by (cases e) (simp_all add: imu_callback_sync_def)
  then show ?case using Cons.IH [of ?t] by simp
qed simp

lemma run_prefix:
  assumes "sp_ok (in_publisher s)" "\<not> in_locked s"
  shows "\<exists>ms. prefix ms (produced F m es s) \<and>
    imu.stream (in_publisher (imu_run F m es s)) = imu.stream (in_publisher s) @ ms \<and>
    sp_ok (in_publisher (imu_run F m es s)) \<and>
    (\<not> in_locked (imu_run F m es s) \<longrightarrow> ms = produced F m es s)"
  using assms
proof (induction es arbitrary: s)
  case Nil
  then show ?case by simp
next
  case (Cons e es)
  show ?case
  proof (cases e)
    case (ImuFrame f n)
    obtain ms s1 where u: "unite_frame F m n f s = (ms, s1)" by (cases "unite_frame F m n f s")
    let ?r = "fold_outcome Publish ms (in_publisher s)"
    let ?t = "with_channel (outcome_state ?r) (faulted ?r) s1"
    have t: "outcome_state (imu_step F m e s) = ?t"
      using ImuFrame u by (simp add: imu_callback_sync_eq [OF Cons.prems(2)] Let_def)
    obtain ms' where ms': "prefix ms' ms" "imu.stream (outcome_state ?r) = imu.stream (in_publisher s) @ ms'"
      "sp_ok (outcome_state ?r)" "\<not> faulted ?r \<longrightarrow> ms' = ms"
      by (rule imu.send_all_prefix [OF Cons.prems(1), of ms])
    have prod: "produced F m (e # es) s = ms @ produced F m es ?t"
      using ImuFrame u by (simp add: produced_channel)
    show ?thesis
    proof (cases "faulted ?r")
      case True
      then have "in_locked ?t" by simp
      note l = locked_run [OF this, of F m es]
      have "prefix ms' (produced F m (e # es) s)"
        using ms'(1) by (simp only: prod) (auto simp: prefix_def)
      then show ?thesis using l ms' t by auto
    next
      case False
      then have "\<exists>k. prefix k (produced F m es ?t) \<and>
        imu.stream (in_publisher (imu_run F m es ?t)) = imu.stream (in_publisher ?t) @ k \<and>
        sp_ok (in_publisher (imu_run F m es ?t)) \<and>
        (\<not> in_locked (imu_run F m es ?t) \<longrightarrow> k = produced F m es ?t)"
        by (intro Cons.IH) (use ms' in simp_all)
      then obtain k where k: "prefix k (produced F m es ?t)"
        "imu.stream (in_publisher (imu_run F m es ?t)) = imu.stream (in_publisher ?t) @ k"
        "sp_ok (in_publisher (imu_run F m es ?t))"
        "\<not> in_locked (imu_run F m es ?t) \<longrightarrow> k = produced F m es ?t" by blast
      show ?thesis
        using k ms' False t by (intro exI [of _ "ms @ k"]) (simp add: prod)
    qed
  next
    case FrameBegin
    then show ?thesis using Cons.IH [of "outcome_state (imu_step F m e s)"] Cons.prems
      by (simp add: channel_updates produced_channel)
  next
    case FrameEnd
    then show ?thesis using Cons.IH [of "outcome_state (imu_step F m e s)"] Cons.prems
      by (simp add: channel_updates produced_channel)
  qed
qed

section \<open>Holding back delays and nothing else\<close>

lemma run_append: "imu_run F m (es @ es') s = imu_run F m es' (imu_run F m es s)"
  by (induction es arbitrary: s) simp_all

definition imu_started :: "bool \<Rightarrow> imu_node \<Rightarrow> bool" where
  "imu_started hold_back s \<longleftrightarrow> \<not> in_locked s \<and>
     (\<exists>e. in_publisher s = Enable hold_back (new_publisher 1000 e))"

lemma started_channel:
  "imu_started h s \<Longrightarrow> sp_ok (in_publisher s) \<and> imu.stream (in_publisher s) = [] \<and> \<not> in_locked s"
  by (auto simp: imu_started_def)


definition demo_imu_node :: imu_node where
  "demo_imu_node = \<lparr>in_locked = False, in_sync_seq = 0, in_history = [],
     in_accel = \<lparr>m_type = ACCEL_sip, m_data = zero3, m_time = d_one\<rparr>,
     in_base = \<lparr>tb_init = True, tb_ros = 0, tb_camera = 0, tb_previous = 0\<rparr>,
     in_publisher = Enable True (new_publisher 1000 False), in_seq = (\<lambda>_. 0), in_single = [],
     in_optical_frame_id = OPTICAL_FRAME_ID, in_linear_accel_cov = 0, in_angular_velocity_cov = 0\<rparr>"

definition demo_gyro_frame :: imu_frame where
  "demo_gyro_frame = \<lparr>ft_stamp = d_one, ft_domain = GLOBAL_TIME, ft_now = 0,
     if_stream = RS2_STREAM_GYRO, if_reading = (0, 0, 0)\<rparr>"

lemma demo_imu_started [simp]: "imu_started True demo_imu_node" "\<not> in_locked demo_imu_node"
  by (auto simp: imu_started_def demo_imu_node_def)

lemma demo_produces:
  "length (fst (unite_frame bits_fp COPY 1 demo_gyro_frame (with_channel p l demo_imu_node))) = 1"
  by (simp add: unite_frame_channel)
     (simp add: unite_frame_def demo_gyro_frame_def demo_imu_node_def Let_def frame_time.defs
      frameSystemTimeSec_def init_time_base_def FillImuData_Copy_def imu_stream_index_def
      fp_less_def fp_key_def d_one_def d_zero_def GYRO_sip_def ACCEL_sip_def)


section \<open>Where holding back goes wrong\<close>

lemma Publish_full:
  "sp_pause_mode p \<Longrightarrow> sp_waiting_list_size p \<le> length (sp_pending p) \<Longrightarrow> ms \<noteq> [] \<Longrightarrow>
    fold_outcome Publish ms p = Inl (Thrown ''SyncedImuPublisher inner list reached maximum size'', p)"
  by (cases ms) (simp_all add: Publish_def)

text \<open>
  The list is full while a frame is being handled: the next inertial frame that gives rise to
  a message leaves \<open>imu_callback_sync\<close> by an exception with \<open>m_mutex\<close> locked.  After any further history,
  the end of the image frame included, every inertial frame waits for that mutex for ever, and no message
  is added to those that were published or waiting.
\<close>

theorem full_waiting_list_wedges_imu:
  assumes "\<not> in_locked s" "sp_ok (in_publisher s)"
    and full: "sp_pause_mode (in_publisher s)"
      "sp_waiting_list_size (in_publisher s) \<le> length (sp_pending (in_publisher s))"
    and msg: "fst (unite_frame F m n f s) \<noteq> []"
    and t: "t = outcome_state (imu_callback_sync F m n f s)"
  shows "imu_callback_sync F m n f s =
      Inl (Thrown ''SyncedImuPublisher inner list reached maximum size'', t) \<and> in_locked t \<and>
    (\<forall>es f' n'. let u = imu_run F m es t in
      imu_callback_sync F m n' f' u = Inl (Blocked ''m_mutex'', u) \<and>
      sp_published (in_publisher u) @ sp_pending (in_publisher u) =
        sp_published (in_publisher s) @ sp_pending (in_publisher s))"
proof -
  obtain ms s1 where u: "unite_frame F m n f s = (ms, s1)" by (cases "unite_frame F m n f s")
  have e: "imu_callback_sync F m n f s =
      Inl (Thrown ''SyncedImuPublisher inner list reached maximum size'',
        with_channel (in_publisher s) True s1)"
    using assms(1) msg u unite_frame_channel(2) [of F m n f s]
    by (simp add: imu_callback_sync_def channel_updates unite_frame_channel send_imu_channel
        Publish_full [OF full])
  then have t': "t = with_channel (in_publisher s) True s1" by (simp add: t)
  have "in_locked (imu_run F m es t) \<and>
      imu.stream (in_publisher (imu_run F m es t)) = imu.stream (in_publisher s)" for es
    using locked_run [of t F m es] assms(2) by (simp add: t')
  then show ?thesis
    using e by (simp add: t' Let_def imu_callback_sync_def imu.stream_def)
qed

definition full_publisher :: SyncedImuPublisher where
  "full_publisher = (default_publisher True 0)\<lparr>sp_is_enabled := True\<rparr>"

lemma full_waiting_list_wedges_imu_witness:
  "in_locked (outcome_state (imu_callback_sync bits_fp COPY 1 demo_gyro_frame
     (with_channel full_publisher False demo_imu_node)))"
proof -
  have "fst (unite_frame bits_fp COPY 1 demo_gyro_frame
      (with_channel full_publisher False demo_imu_node)) \<noteq> []"
    using demo_produces [of full_publisher False] by (metis length_0_conv zero_neq_one)
  then show ?thesis
    using full_waiting_list_wedges_imu [OF _ _ _ _ _ refl, of "with_channel full_publisher False demo_imu_node"
        bits_fp COPY 1 demo_gyro_frame]
    by (simp add: full_publisher_def default_publisher_def sp_ok_def)
qed

text \<open>How many image frames are being handled at the end of a history.\<close>

definition frames_in_progress :: "imu_event list \<Rightarrow> nat" where
  "frames_in_progress es = length (filter ((=) FrameBegin) es) - length (filter ((=) FrameEnd) es)"

text \<open>
  The mode is a flag, not a count: when two image frames overlap, the end of the first
  releases everything, and an inertial frame that arrives while the second is still being handled is
  published at once, before that image.
\<close>

theorem overlapping_frames_release_imu:
  assumes "sp_ok (in_publisher s)" "\<not> in_locked s" "2 \<le> frames_in_progress es"
    and t: "t = imu_run F m (es @ [FrameEnd]) s" and "\<not> in_locked t"
  shows "1 \<le> frames_in_progress (es @ [FrameEnd]) \<and> sp_pending (in_publisher t) = [] \<and>
    \<not> faulted (imu_callback_sync F m n f t) \<and>
    sp_published (in_publisher (outcome_state (imu_callback_sync F m n f t))) =
      sp_published (in_publisher t) @ fst (unite_frame F m n f t)"
proof -
  let ?p = "in_publisher t"
  have p: "\<not> sp_pause_mode ?p" "sp_pending ?p = []"
    by (simp_all add: t run_append Resume_def PublishPendingMessages_eq)
  have all: "fold_outcome Publish ms p = Inr (p\<lparr>sp_published := sp_published p @ ms\<rparr>)"
    if "\<not> sp_pause_mode p" for ms p
    using that by (induction ms arbitrary: p) (simp_all add: Publish_def)
  show ?thesis
    using assms(3) p
    by (simp add: frames_in_progress_def imu_callback_sync_eq [OF assms(5)] all [OF p(1)]
        case_prod_beta Let_def)
qed

lemma overlapping_frames_release_imu_witness:
  "let t = imu_run bits_fp COPY [FrameBegin, FrameBegin, FrameEnd] demo_imu_node in
    1 \<le> frames_in_progress [FrameBegin, FrameBegin, FrameEnd] \<and>
    length (sp_published (in_publisher (outcome_state (imu_callback_sync bits_fp COPY 1 demo_gyro_frame t)))) = 1"
proof -
  let ?t = "imu_run bits_fp COPY [FrameBegin, FrameBegin, FrameEnd] demo_imu_node"
  have t: "?t = with_channel (Resume (Pause (Pause (in_publisher demo_imu_node)))) False demo_imu_node"
    by (simp add: channel_updates)
  have e: "sp_published (in_publisher ?t) = []"
    by (simp add: Resume_def PublishPendingMessages_eq Pause_def demo_imu_node_def Enable_def new_publisher_def)
  have u: "length (fst (unite_frame bits_fp COPY 1 demo_gyro_frame ?t)) = 1"
    unfolding t by (rule demo_produces)
  have app: "[FrameBegin, FrameBegin] @ [FrameEnd] = [FrameBegin, FrameBegin, FrameEnd]" by simp
  have "\<not> in_locked ?t" by (simp add: t)
  moreover have "2 \<le> frames_in_progress [FrameBegin, FrameBegin]" by (simp add: frames_in_progress_def)
  ultimately have "1 \<le> frames_in_progress [FrameBegin, FrameBegin, FrameEnd] \<and>
    sp_published (in_publisher (outcome_state (imu_callback_sync bits_fp COPY 1 demo_gyro_frame ?t))) =
      sp_published (in_publisher ?t) @ fst (unite_frame bits_fp COPY 1 demo_gyro_frame ?t)"
    using overlapping_frames_release_imu [of demo_imu_node "[FrameBegin, FrameBegin]" ?t bits_fp COPY 1
        demo_gyro_frame] started_channel [OF demo_imu_started(1)]
    unfolding app by blast
  then show ?thesis
    unfolding Let_def using u e by simp
qed

lemma interpolation_between_accelerations_witness:
  "let a = \<lparr>m_type = ACCEL_sip, m_data = zero3, m_time = d_one\<rparr>;
       g = \<lparr>m_type = GYRO_sip, m_data = zero3, m_time = d_two\<rparr> in
    batches bits_fp [a, g, a] [] = [[], [], [between bits_fp a a g]]"
  using interpolation_between_accelerations [of "\<lparr>m_type = ACCEL_sip, m_data = zero3, m_time = d_one\<rparr>"
      "[\<lparr>m_type = GYRO_sip, m_data = zero3, m_time = d_two\<rparr>]"
      "\<lparr>m_type = ACCEL_sip, m_data = zero3, m_time = d_one\<rparr>" bits_fp "[]"]
    fp_key_values
  by (simp add: is_set_def fp_le_def FillImuData_LinearInterpolation_def Let_def)

end
