(* ===== verification/Rs_Node.thy ===== *)
theory Rs_Node
  imports Rs_Imu
begin

text \<open>
  The state of \<open>BaseRealSenseNode\<close> and its first steps: the constructor's tables of formats and names and
  \<open>getParameters\<close> (\<open>base_realsense_node.cpp\<close>).
\<close>

section \<open>Devices, sensors and profiles\<close>

datatype rs2_format = RS2_FORMAT_ANY | RS2_FORMAT_Z16 | RS2_FORMAT_RGB8 | RS2_FORMAT_Y8 | RS2_FORMAT_OTHER nat

record profile =
  pf_stream :: rs2_stream
  pf_index :: int
  pf_format :: rs2_format
  pf_width :: int
  pf_height :: int
  pf_fps :: int
  pf_is_default :: bool

definition pf_sip :: "profile \<Rightarrow> sip" where
  "pf_sip p = (pf_stream p, pf_index p)"

datatype sensor_kind = Depth_Sensor | Color_Sensor | Fisheye_Sensor | Motion_Sensor | Pose_Sensor | Other_Sensor

record sensor =
  sn_id :: nat
  sn_name :: string
  sn_kind :: sensor_kind
  sn_profiles :: "profile list"
  sn_roi :: bool

text \<open>What is called when a frame of a sensor arrives.\<close>

datatype sensor_callback =
    Frame_Callback | Syncer_Callback | Imu_Callback | Imu_Sync_Callback imu_sync_method
  | Multiple_Message_Callback imu_sync_method

text \<open>OpenCV's codes of the image types.\<close>

definition CV_8UC1 :: int where "CV_8UC1 = 0"
definition CV_16UC1 :: int where "CV_16UC1 = 2"
definition CV_8UC3 :: int where "CV_8UC3 = 16"

text \<open>A matrix: rows, columns, type.\<close>

type_synonym mat = "int \<times> int \<times> int"

section \<open>The members of the node\<close>

text \<open>The members that the constructor and \<open>getParameters\<close> set.\<close>

record rs_config =
  rc_format :: "rs2_stream \<Rightarrow> rs2_format option"
  rc_image_format :: "rs2_stream \<Rightarrow> int"
  rc_encoding :: "rs2_stream \<Rightarrow> string option"
  rc_unit_step_size :: "rs2_stream \<Rightarrow> int"
  rc_depth_aligned_encoding :: "rs2_stream \<Rightarrow> string option"
  rc_align_depth :: bool
  rc_pointcloud :: bool
  rc_pointcloud_texture :: sip
  rc_filters_str :: string
  rc_publish_tf :: bool
  rc_tf_publish_rate :: rat
  rc_sync_frames :: bool
  rc_json_file_path :: string
  rc_width :: "sip \<Rightarrow> int"
  rc_height :: "sip \<Rightarrow> int"
  rc_fps :: "sip \<Rightarrow> int"
  rc_enable :: "(sip \<times> bool) list"
  rc_base_frame_id :: string
  rc_odom_frame_id :: string
  rc_frame_id :: "sip \<Rightarrow> string"
  rc_optical_frame_id :: "sip \<Rightarrow> string"
  rc_depth_aligned_frame_id :: "sip \<Rightarrow> string option"
  rc_imu_sync_method :: imu_sync_method
  rc_allow_no_texture_points :: bool
  rc_ordered_pc :: bool
  rc_clipping_distance :: rat
  rc_linear_accel_cov :: rat
  rc_angular_velocity_cov :: rat
  rc_hold_back_imu_for_frames :: bool
  rc_publish_odom_tf :: bool

text \<open>\<open>_enable\<close> is a \<open>std::map\<close>: reading a stream that is not there gives \<open>false\<close>.\<close>

definition enabled :: "'a rs_config_scheme \<Rightarrow> sip \<Rightarrow> bool" where
  "enabled s i \<longleftrightarrow> map_of (rc_enable s) i = Some True"

definition set_enable :: "sip \<Rightarrow> bool \<Rightarrow> 'a rs_config_scheme \<Rightarrow> 'a rs_config_scheme" where
  "set_enable i b s = s\<lparr>rc_enable := map_put i b (rc_enable s)\<rparr>"

text \<open>The tables of the constructor; a key that is missing from a map of numbers reads as 0.\<close>

definition TYPE_16UC1 :: string where "TYPE_16UC1 = ''16UC1''"
definition MONO8 :: string where "MONO8 = ''mono8''"
definition RGB8 :: string where "RGB8 = ''rgb8''"

definition init_format :: "rs2_stream \<Rightarrow> rs2_format option" where
  "init_format = [RS2_STREAM_DEPTH \<mapsto> RS2_FORMAT_Z16, RS2_STREAM_INFRARED \<mapsto> RS2_FORMAT_Y8]"

definition init_image_format :: "rs2_stream \<Rightarrow> int" where
  "init_image_format = (\<lambda>_. 0)(RS2_STREAM_DEPTH := CV_16UC1, RS2_STREAM_CONFIDENCE := CV_8UC1,
     RS2_STREAM_INFRARED := CV_8UC1, RS2_STREAM_COLOR := CV_8UC3, RS2_STREAM_FISHEYE := CV_8UC1)"

definition init_encoding :: "rs2_stream \<Rightarrow> string option" where
  "init_encoding = [RS2_STREAM_DEPTH \<mapsto> TYPE_16UC1, RS2_STREAM_CONFIDENCE \<mapsto> MONO8,
     RS2_STREAM_INFRARED \<mapsto> MONO8, RS2_STREAM_COLOR \<mapsto> RGB8, RS2_STREAM_FISHEYE \<mapsto> MONO8]"

definition init_unit_step_size :: "rs2_stream \<Rightarrow> int" where
  "init_unit_step_size = (\<lambda>_. 0)(RS2_STREAM_DEPTH := 2, RS2_STREAM_CONFIDENCE := 1,
     RS2_STREAM_INFRARED := 1, RS2_STREAM_COLOR := 3, RS2_STREAM_FISHEYE := 1)"

section \<open>\<open>getParameters\<close>\<close>

definition read_infra_rgb :: "ros_params \<Rightarrow> 'a rs_config_scheme \<Rightarrow> 'a rs_config_scheme" where
  "read_infra_rgb P s =
     (if p_bool P ''infra_rgb'' False
      then s\<lparr>rc_format := (rc_format s)(RS2_STREAM_INFRARED := Some RS2_FORMAT_RGB8),
             rc_image_format := (rc_image_format s)(RS2_STREAM_INFRARED := CV_8UC3),
             rc_encoding := (rc_encoding s)(RS2_STREAM_INFRARED := Some RGB8),
             rc_unit_step_size := (rc_unit_step_size s)(RS2_STREAM_INFRARED := 3)\<rparr>
      else s)"

definition rs2_string_to_stream :: "string \<Rightarrow> string + rs2_stream" where
  "rs2_string_to_stream str =
     (if str = ''RS2_STREAM_ANY'' then Inr RS2_STREAM_ANY
      else if str = ''RS2_STREAM_COLOR'' then Inr RS2_STREAM_COLOR
      else if str = ''RS2_STREAM_INFRARED'' then Inr RS2_STREAM_INFRARED
      else if str = ''RS2_STREAM_FISHEYE'' then Inr RS2_STREAM_FISHEYE
      else Inl (''Unknown stream string '' @ str))"

definition read_pointcloud :: "ros_params \<Rightarrow> 'a rs_config_scheme \<Rightarrow> 'a rs_config_scheme outcome" where
  "read_pointcloud P s =
     (let s1 = s\<lparr>rc_align_depth := p_bool P ''align_depth'' False,
                 rc_pointcloud := p_bool P ''enable_pointcloud'' False\<rparr>
      in case rs2_string_to_stream (p_str P ''pointcloud_texture_stream'' ''RS2_STREAM_COLOR'') of
           Inl e \<Rightarrow> Inl (Thrown e, s1)
         | Inr st \<Rightarrow> Inr (s1\<lparr>rc_pointcloud_texture := (st, p_int P ''pointcloud_texture_index'' 0)\<rparr>))"

definition read_filters :: "ros_params \<Rightarrow> 'a rs_config_scheme \<Rightarrow> 'a rs_config_scheme" where
  "read_filters P s =
     (let fs = p_str P ''filters'' '''';
          pc = rc_pointcloud s \<or> sublist ''pointcloud'' fs
      in s\<lparr>rc_filters_str := fs, rc_pointcloud := pc,
           rc_publish_tf := p_bool P ''publish_tf'' True,
           rc_tf_publish_rate := p_float P ''tf_publish_rate'' 0,
           rc_sync_frames := p_bool P ''enable_sync'' False \<or> pc \<or> rc_align_depth s \<or> fs \<noteq> [],
           rc_json_file_path := p_str P ''json_file_path'' ''''\<rparr>)"

definition read_image_stream :: "ros_params \<Rightarrow> sip \<Rightarrow> 'a rs_config_scheme \<Rightarrow> 'a rs_config_scheme" where
  "read_image_stream P i s =
     set_enable i (p_bool P (''enable_'' @ STREAM_NAME i) True)
      (s\<lparr>rc_width := (rc_width s)(i := p_int P (stream_name (fst i) @ ''_width'') 640),
         rc_height := (rc_height s)(i := p_int P (stream_name (fst i) @ ''_height'') 480),
         rc_fps := (rc_fps s)(i := p_int P (stream_name (fst i) @ ''_fps'') 30)\<rparr>)"

definition read_hid_stream :: "ros_params \<Rightarrow> sip \<Rightarrow> 'a rs_config_scheme \<Rightarrow> 'a rs_config_scheme" where
  "read_hid_stream P i s =
     set_enable i (p_bool P (''enable_'' @ STREAM_NAME i) True)
      (s\<lparr>rc_fps := (rc_fps s)(i := p_int P (stream_name (fst i) @ ''_fps'') 0)\<rparr>)"

definition read_frame_id :: "ros_params \<Rightarrow> sip \<Rightarrow> 'a rs_config_scheme \<Rightarrow> 'a rs_config_scheme" where
  "read_frame_id P i s =
     s\<lparr>rc_frame_id := (rc_frame_id s)(i := p_str P (STREAM_NAME i @ ''_frame_id'') (FRAME_ID i)),
       rc_optical_frame_id :=
         (rc_optical_frame_id s)(i := p_str P (STREAM_NAME i @ ''_optical_frame_id'') (OPTICAL_FRAME_ID i))\<rparr>"

definition unite_imu_method :: "string \<Rightarrow> imu_sync_method" where
  "unite_imu_method str =
     (if str = ''linear_interpolation'' then LINEAR_INTERPOLATION
      else if str = ''copy'' then COPY else NONE)"

definition read_imu :: "ros_params \<Rightarrow> 'a rs_config_scheme \<Rightarrow> 'a rs_config_scheme" where
  "read_imu P s =
     (let method = unite_imu_method (p_str P ''unite_imu_method'' '''');
          s1 = s\<lparr>rc_imu_sync_method := method\<rparr>
      in if method \<noteq> NONE
         then s1\<lparr>rc_optical_frame_id := (rc_optical_frame_id s1)
                  (GYRO_sip := p_str P ''imu_optical_frame_id'' ''camera_imu_optical_frame'')\<rparr>
         else s1)"

definition read_rest :: "ros_params \<Rightarrow> 'a rs_config_scheme \<Rightarrow> 'a rs_config_scheme" where
  "read_rest P s =
     s\<lparr>rc_depth_aligned_frame_id := (rc_depth_aligned_frame_id s)(COLOR_sip :=
         Some (p_str P (''aligned_depth_to_'' @ STREAM_NAME COLOR_sip @ ''_frame_id'')
           (ALIGNED_DEPTH_TO_FRAME_ID COLOR_sip))),
       rc_allow_no_texture_points := p_bool P ''allow_no_texture_points'' False,
       rc_ordered_pc := p_bool P ''ordered_pc'' False,
       rc_clipping_distance := p_float P ''clip_distance'' (-1),
       rc_linear_accel_cov := p_float P ''linear_accel_cov'' (1 / 100),
       rc_angular_velocity_cov := p_float P ''angular_velocity_cov'' (1 / 100),
       rc_hold_back_imu_for_frames := p_bool P ''hold_back_imu_for_frames'' False,
       rc_publish_odom_tf := p_bool P ''publish_odom_tf'' True\<rparr>"

definition read_frames :: "ros_params \<Rightarrow> 'a rs_config_scheme \<Rightarrow> 'a rs_config_scheme" where
  "read_frames P s =
     fold (read_frame_id P) (IMAGE_STREAMS_rs @ HID_STREAMS)
       (s\<lparr>rc_base_frame_id := p_str P ''base_frame_id'' ''camera_link'',
          rc_odom_frame_id := p_str P ''odom_frame_id'' ''odom_frame''\<rparr>)"

definition read_streams :: "ros_params \<Rightarrow> 'a rs_config_scheme \<Rightarrow> 'a rs_config_scheme" where
  "read_streams P s = fold (read_hid_stream P) HID_STREAMS (fold (read_image_stream P) IMAGE_STREAMS_rs s)"

definition getParameters_rs :: "ros_params \<Rightarrow> 'a rs_config_scheme \<Rightarrow> 'a rs_config_scheme outcome" where
  "getParameters_rs P s =
     and_then (read_pointcloud P (read_infra_rgb P s))
       (\<lambda>s1. Inr (read_rest P (read_imu P (read_frames P (read_streams P (read_filters P s1))))))"

end
