(* ===== verification/Rs_Setup.thy ===== *)
theory Rs_Setup
  imports Rs_Node
begin

text \<open>
  \<open>setupDevice\<close>, \<open>setupFilters\<close>, \<open>enable_devices\<close>, \<open>setupPublishers\<close> and \<open>SetBaseStream\<close>
  (\<open>base_realsense_node.cpp\<close>): which sensor and which profile serve a stream, in what order frames are
  filtered, and what is advertised.
\<close>

section \<open>State and device\<close>

datatype rs_call =
    Load_Json string
  | Syncer_Start
  | Sensor_Open nat "profile list"
  | Sensor_Start nat "sensor_callback option"
  | Sensor_Stop nat
  | Sensor_Close nat

datatype publisher =
    Image_Pub sip string | Info_Pub sip string | Metadata_Pub sip string
  | Aligned_Image_Pub sip string | Aligned_Info_Pub sip string
  | Cloud_Pub | United_Imu_Pub | Single_Imu_Pub sip string | Extrinsics_Pub sip string

record rs_node = rs_config +
  rn_dev_sensors :: "sensor list"
  rn_sensors :: "(sip \<times> sensor) list"
  rn_callbacks :: "(string \<times> sensor_callback) list"
  rn_filters :: "string list"
  rn_profiles :: "(sip \<times> profile list) list"
  rn_image :: "sip \<Rightarrow> mat option"
  rn_depth_aligned_image :: "sip \<Rightarrow> mat option"
  rn_depth_scaled_image :: "sip \<Rightarrow> mat option"
  rn_publishers :: "publisher list"
  rn_synced :: SyncedImuPublisher
  rn_base_stream :: sip
  rn_depth_scale_meters :: float32
  rn_calls :: "rs_call list"

text \<open>
  The device and the file system are outside the code: the sensors, whether the device takes a JSON
  configuration, the contents of a file that can be opened, the depth scale of a sensor, and the error, if any, that a call
  throws after the calls before it.
\<close>

record rs_device =
  dv_sensors :: "sensor list"
  dv_serializable :: bool
  dv_file :: "string \<Rightarrow> string option"
  dv_depth_scale :: "nat \<Rightarrow> float32"
  dv_error :: "rs_call list \<Rightarrow> rs_call \<Rightarrow> string option"

definition rs_do :: "rs_device \<Rightarrow> rs_call \<Rightarrow> rs_node \<Rightarrow> rs_node outcome" where
  "rs_do D c s =
     (let s' = s\<lparr>rn_calls := rn_calls s @ [c]\<rparr>
      in case dv_error D (rn_calls s) c of None \<Rightarrow> Inr s' | Some e \<Rightarrow> Inl (Thrown e, s'))"

section \<open>\<open>setupDevice\<close>\<close>

definition load_json_file :: "rs_device \<Rightarrow> rs_node \<Rightarrow> rs_node outcome" where
  "load_json_file D s =
     (if rc_json_file_path s = [] \<or> \<not> dv_serializable D then Inr s
      else case dv_file D (rc_json_file_path s) of
        None \<Rightarrow> Inr s | Some content \<Rightarrow> rs_do D (Load_Json content) s)"

definition frame_callback_function :: "rs_node \<Rightarrow> sensor_callback" where
  "frame_callback_function s = (if rc_sync_frames s then Syncer_Callback else Frame_Callback)"

definition imu_callback_function :: "rs_node \<Rightarrow> sensor_callback" where
  "imu_callback_function s =
     (if rc_imu_sync_method s = NONE then Imu_Callback else Imu_Sync_Callback (rc_imu_sync_method s))"

text \<open>The callback of a sensor; \<open>None\<close> is a kind that ends the process.\<close>

fun callback_of :: "sensor_kind \<Rightarrow> rs_node \<Rightarrow> sensor_callback option" where
  "callback_of Depth_Sensor s = Some (frame_callback_function s)"
| "callback_of Color_Sensor s = Some (frame_callback_function s)"
| "callback_of Fisheye_Sensor s = Some (frame_callback_function s)"
| "callback_of Motion_Sensor s = Some (imu_callback_function s)"
| "callback_of Pose_Sensor s = Some (Multiple_Message_Callback (rc_imu_sync_method s))"
| "callback_of Other_Sensor s = None"

definition add_stream :: "sensor \<Rightarrow> profile \<Rightarrow> (sip \<times> sensor) list \<Rightarrow> (sip \<times> sensor) list" where
  "add_stream sn p m = (if map_of m (pf_sip p) \<noteq> None then m else map_put (pf_sip p) sn m)"

definition setup_sensor :: "sensor \<Rightarrow> rs_node \<Rightarrow> rs_node outcome" where
  "setup_sensor sn s =
     (let s1 = s\<lparr>rn_sensors := fold (add_stream sn) (sn_profiles sn) (rn_sensors s)\<rparr>
      in case callback_of (sn_kind sn) s of
           None \<Rightarrow> Inl (Exited 1, s1)
         | Some cb \<Rightarrow> Inr (s1\<lparr>rn_callbacks := map_put (sn_name sn) cb (rn_callbacks s1)\<rparr>))"

definition disable_unsupported :: "sip \<times> bool \<Rightarrow> rs_node \<Rightarrow> rs_node" where
  "disable_unsupported e s =
     (if snd e \<and> map_of (rn_sensors s) (fst e) = None then set_enable (fst e) False s else s)"

definition setupDevice_rs :: "rs_device \<Rightarrow> rs_node \<Rightarrow> rs_node outcome" where
  "setupDevice_rs D s =
     and_then (load_json_file D s)
       (\<lambda>s1. let s2 = s1\<lparr>rn_dev_sensors := dv_sensors D\<rparr>
              in and_then (if rc_sync_frames s2 then rs_do D Syncer_Start s2 else Inr s2)
       (\<lambda>s3. and_then (fold_outcome setup_sensor (dv_sensors D) s3)
       (\<lambda>s4. Inr (fold disable_unsupported (rc_enable s4) s4))))"

section \<open>\<open>setupFilters\<close>\<close>

text \<open>\<open>boost::split\<close> at the commas: a string without comma is one field, the empty string one empty field.\<close>

fun split_at :: "char \<Rightarrow> string \<Rightarrow> string list" where
  "split_at d [] = [[]]"
| "split_at d (c # cs) =
     (if c = d then [] # split_at d cs
      else case split_at d cs of [] \<Rightarrow> [[c]] | f # fs \<Rightarrow> (c # f) # fs)"

definition isspace :: "char \<Rightarrow> bool" where
  "isspace c = (let n = of_char c :: nat in n = 32 \<or> 9 \<le> n \<and> n \<le> 13)"

record filter_flags =
  use_colorizer :: bool
  use_disparity :: bool
  use_decimation :: bool
  use_hdr :: bool

definition no_flags :: filter_flags where
  "no_flags = \<lparr>use_colorizer = False, use_disparity = False, use_decimation = False, use_hdr = False\<rparr>"

text \<open>
  One field.  The release build compiles \<open>assert(_pointcloud)\<close> to nothing; \<open>throw;\<close> with no exception in
  flight ends the process through \<open>std::terminate\<close>.
\<close>

definition read_filter :: "string \<Rightarrow> filter_flags \<times> rs_node \<Rightarrow> (filter_flags \<times> rs_node) outcome" where
  "read_filter field u =
     (case u of (g, s) \<Rightarrow> let name = filter (\<lambda>c. \<not> isspace c) field in
        if name = ''colorizer'' then Inr (g\<lparr>use_colorizer := True\<rparr>, s)
        else if name = ''disparity'' then Inr (g\<lparr>use_disparity := True\<rparr>, s)
        else if name \<in> {''spatial'', ''temporal'', ''hole_filling''}
        then Inr (g, s\<lparr>rn_filters := rn_filters s @ [name]\<rparr>)
        else if name = ''decimation'' then Inr (g\<lparr>use_decimation := True\<rparr>, s)
        else if name = ''pointcloud'' then Inr (g, s)
        else if name = ''hdr_merge'' then Inr (g\<lparr>use_hdr := True\<rparr>, s)
        else if name = [] then Inr (g, s)
        else Inl (CheckFailed ''std::terminate'', (g, s)))"

definition add_disparity :: "filter_flags \<Rightarrow> rs_node \<Rightarrow> rs_node" where
  "add_disparity g s =
     (if use_disparity g
      then s\<lparr>rn_filters := ''disparity_start'' # rn_filters s @ [''disparity_end'']\<rparr> else s)"

definition add_hdr :: "filter_flags \<Rightarrow> rs_node \<Rightarrow> rs_node" where
  "add_hdr g s =
     (if use_hdr g
      then s\<lparr>rn_filters := ''sequence_id_filter'' # ''hdr_merge'' # rn_filters s\<rparr> else s)"

definition add_decimation :: "filter_flags \<Rightarrow> rs_node \<Rightarrow> rs_node" where
  "add_decimation g s =
     (if use_decimation g then s\<lparr>rn_filters := ''decimation'' # rn_filters s\<rparr> else s)"

definition add_align :: "rs_node \<Rightarrow> rs_node" where
  "add_align s = (if rc_align_depth s then s\<lparr>rn_filters := rn_filters s @ [''align_to_color'']\<rparr> else s)"

text \<open>The colorizer also gives the depth stream the format and the size of the colour stream.\<close>

definition add_colorizer :: "filter_flags \<Rightarrow> rs_node \<Rightarrow> rs_node" where
  "add_colorizer g s =
     (if use_colorizer g
      then let d = fst DEPTH_sip; c = fst COLOR_sip;
               w = rc_width s COLOR_sip; h = rc_height s COLOR_sip;
               s1 = s\<lparr>rn_filters := rn_filters s @ [''colorizer''],
                      rc_image_format := (rc_image_format s)(d := rc_image_format s c),
                      rc_encoding := (rc_encoding s)(d := rc_encoding s c),
                      rc_unit_step_size := (rc_unit_step_size s)(d := rc_unit_step_size s c),
                      rc_depth_aligned_encoding :=
                        (rc_depth_aligned_encoding s)(RS2_STREAM_COLOR := rc_encoding s c),
                      rc_width := (rc_width s)(DEPTH_sip := w),
                      rc_height := (rc_height s)(DEPTH_sip := h)\<rparr>
           in s1\<lparr>rn_image := (rn_image s1)(DEPTH_sip := Some (max 0 h, max 0 w, rc_image_format s1 d))\<rparr>
      else s)"

definition add_pointcloud :: "rs_node \<Rightarrow> rs_node" where
  "add_pointcloud s = (if rc_pointcloud s then s\<lparr>rn_filters := rn_filters s @ [''pointcloud'']\<rparr> else s)"

definition finish_filters :: "filter_flags \<times> rs_node \<Rightarrow> rs_node" where
  "finish_filters u =
     (case u of (g, s) \<Rightarrow> add_pointcloud (add_colorizer g (add_align
        (add_decimation g (add_hdr g (add_disparity g s))))))"

definition setupFilters :: "rs_node \<Rightarrow> rs_node outcome" where
  "setupFilters s =
     (case fold_outcome read_filter (split_at (CHR '','') (rc_filters_str s)) (no_flags, s) of
        Inl (e, (_, t)) \<Rightarrow> Inl (e, t)
      | Inr u \<Rightarrow> Inr (finish_filters u))"

section \<open>\<open>enable_devices\<close>\<close>

definition fits_image :: "rs_node \<Rightarrow> sip \<Rightarrow> profile \<Rightarrow> bool" where
  "fits_image s elem p \<longleftrightarrow>
     (rc_width s elem = 0 \<or> pf_width p = rc_width s elem) \<and>
     (rc_height s elem = 0 \<or> pf_height p = rc_height s elem) \<and>
     (rc_fps s elem = 0 \<or> pf_fps p = rc_fps s elem) \<and>
     (rc_format s (fst elem) = None \<or> Some (pf_format p) = rc_format s (fst elem))"

definition fits_hid :: "rs_node \<Rightarrow> sip \<Rightarrow> profile \<Rightarrow> bool" where
  "fits_hid s elem p \<longleftrightarrow> rc_fps s elem = 0 \<or> pf_fps p = rc_fps s elem"

text \<open>
  The loop over the profiles, for both kinds of stream: \<open>ours\<close> is the test on stream and index, \<open>fits\<close>
  the test on the request; the second result is \<open>selected_profile\<close>.
\<close>

fun scan_profiles :: "(profile \<Rightarrow> bool) \<Rightarrow> (profile \<Rightarrow> bool) \<Rightarrow> profile list \<Rightarrow> profile option
    \<Rightarrow> profile option \<times> profile option" where
  "scan_profiles ours fits [] dflt = (dflt, None)"
| "scan_profiles ours fits (p # ps) dflt =
     (if ours p
      then let dflt' = (if pf_is_default p then Some p else dflt)
           in if fits p then (dflt', Some p) else scan_profiles ours fits ps dflt'
      else scan_profiles ours fits ps dflt)"

definition select_profile :: "(profile \<Rightarrow> bool) \<Rightarrow> (profile \<Rightarrow> bool) \<Rightarrow> profile list \<Rightarrow> profile option" where
  "select_profile ours fits ps =
     (case scan_profiles ours fits ps None of (dflt, selected) \<Rightarrow>
        if selected = None then dflt else selected)"

definition push_profile :: "sip \<Rightarrow> profile \<Rightarrow> rs_node \<Rightarrow> rs_node" where
  "push_profile elem p s =
     s\<lparr>rn_profiles := map_put elem ((case map_of (rn_profiles s) elem of None \<Rightarrow> [] | Some ps \<Rightarrow> ps) @ [p])
        (rn_profiles s)\<rparr>"

definition use_image_profile :: "sip \<Rightarrow> profile \<Rightarrow> rs_node \<Rightarrow> rs_node" where
  "use_image_profile elem p s =
     (let s1 = push_profile elem p (s\<lparr>rc_width := (rc_width s)(elem := pf_width p),
            rc_height := (rc_height s)(elem := pf_height p), rc_fps := (rc_fps s)(elem := pf_fps p)\<rparr>)
      in s1\<lparr>rn_image := (rn_image s1)(elem := Some (pf_height p, pf_width p, rc_image_format s1 (fst elem)))\<rparr>)"

definition enable_image_stream :: "sip \<Rightarrow> rs_node \<Rightarrow> rs_node outcome" where
  "enable_image_stream elem s =
     (if \<not> enabled s elem then Inr s
      else case map_of (rn_sensors s) elem of
        None \<Rightarrow> Inl (Thrown ''null pointer passed for argument sensor'', s)
      | Some sens \<Rightarrow>
          (case select_profile (\<lambda>p. pf_sip p = elem) (fits_image s elem) (sn_profiles sens) of
             Some p \<Rightarrow> Inr (use_image_profile elem p s)
           | None \<Rightarrow> Inr (set_enable elem False s)))"

definition enable_hid_stream :: "sip \<Rightarrow> rs_node \<Rightarrow> rs_node outcome" where
  "enable_hid_stream elem s =
     (if \<not> enabled s elem then Inr s
      else case map_of (rn_sensors s) elem of
        None \<Rightarrow> Inl (Thrown ''null pointer passed for argument sensor'', s)
      | Some sens \<Rightarrow>
          (case select_profile (\<lambda>p. pf_stream p = fst elem) (fits_hid s elem) (sn_profiles sens) of
             Some p \<Rightarrow> Inr (push_profile elem p (s\<lparr>rc_fps := (rc_fps s)(elem := pf_fps p)\<rparr>))
           | None \<Rightarrow> Inr (set_enable elem False s)))"

definition aligned_images :: "rs_node \<Rightarrow> rs_node" where
  "aligned_images s =
     (if rc_align_depth s
      then let m = Some (rc_height s DEPTH_sip, rc_width s DEPTH_sip, rc_image_format s (fst DEPTH_sip));
               upd = (\<lambda>f. fold (\<lambda>e g. g(fst e := m)) (rn_profiles s) f)
           in s\<lparr>rn_depth_aligned_image := upd (rn_depth_aligned_image s),
                rn_depth_scaled_image := upd (rn_depth_scaled_image s)\<rparr>
      else s)"

definition enable_devices :: "rs_node \<Rightarrow> rs_node outcome" where
  "enable_devices s =
     and_then (fold_outcome enable_image_stream IMAGE_STREAMS_rs s)
       (\<lambda>s1. fold_outcome enable_hid_stream HID_STREAMS (aligned_images s1))"

section \<open>\<open>setupPublishers\<close>\<close>

definition add_pubs :: "publisher list \<Rightarrow> rs_node \<Rightarrow> rs_node" where
  "add_pubs ps s = s\<lparr>rn_publishers := rn_publishers s @ ps\<rparr>"

definition image_topic :: "sip \<Rightarrow> string" where
  "image_topic i = STREAM_NAME i @ ''/image_'' @
     (if i \<in> {DEPTH_sip, CONFIDENCE_sip, INFRA1_sip, INFRA2_sip} then ''rect_'' else '''') @ ''raw''"

definition image_publishers :: "sip \<Rightarrow> rs_node \<Rightarrow> rs_node" where
  "image_publishers i s =
     (if \<not> enabled s i then s
      else add_pubs
        ([Image_Pub i (image_topic i), Info_Pub i (STREAM_NAME i @ ''/camera_info''),
          Metadata_Pub i (STREAM_NAME i @ ''/metadata'')] @
         (if rc_align_depth s \<and> i = COLOR_sip
          then [Aligned_Image_Pub i (''aligned_depth_to_'' @ STREAM_NAME i @ ''/image_raw''),
                Aligned_Info_Pub i (''aligned_depth_to_'' @ STREAM_NAME i @ ''/camera_info'')] else []) @
         (if i = DEPTH_sip \<and> rc_pointcloud s then [Cloud_Pub] else [])) s)"

text \<open>
  \<open>junk\<close> is what the memory of the uninitialised members holds.  The synchronised publisher with no
  topic is the default one, whose \<open>getNumSubscribers\<close> is 0.
\<close>

definition imu_publishers :: "bool \<times> nat \<Rightarrow> rs_node \<Rightarrow> rs_node" where
  "imu_publishers junk s =
     (if rc_imu_sync_method s \<noteq> NONE \<and> enabled s GYRO_sip \<and> enabled s ACCEL_sip
      then add_pubs [United_Imu_Pub]
        (s\<lparr>rn_synced := Enable (rc_hold_back_imu_for_frames s) (new_publisher 1000 (fst junk))\<rparr>)
      else add_pubs
        ((if enabled s GYRO_sip
          then [Single_Imu_Pub GYRO_sip ''gyro/sample'', Metadata_Pub GYRO_sip ''gyro/metadata''] else []) @
         (if enabled s ACCEL_sip
          then [Single_Imu_Pub ACCEL_sip ''accel/sample'', Metadata_Pub ACCEL_sip ''accel/metadata''] else []))
        (s\<lparr>rn_synced := default_publisher (fst junk) (snd junk)\<rparr>))"

definition other_publishers :: "rs_node \<Rightarrow> rs_node" where
  "other_publishers s =
     (let ext = (\<lambda>i t. if enabled s i \<and> enabled s DEPTH_sip then [Extrinsics_Pub i t] else [])
      in add_pubs
        ((if enabled s POSE_sip
          then [Single_Imu_Pub POSE_sip ''odom/sample'', Metadata_Pub POSE_sip ''odom/metadata''] else []) @
         ext FISHEYE_sip ''extrinsics/depth_to_fisheye'' @ ext COLOR_sip ''extrinsics/depth_to_color'' @
         ext INFRA1_sip ''extrinsics/depth_to_infra1'' @ ext INFRA2_sip ''extrinsics/depth_to_infra2'') s)"

definition setupPublishers_rs :: "bool \<times> nat \<Rightarrow> rs_node \<Rightarrow> rs_node" where
  "setupPublishers_rs junk s = other_publishers (imu_publishers junk (fold image_publishers IMAGE_STREAMS_rs s))"

section \<open>\<open>SetBaseStream\<close>\<close>

text \<open>
  The loop tests the stream under the iterator before it tests for the end: when neither base is there,
  the element behind the last is read.
\<close>

fun find_base :: "sip list \<Rightarrow> (sip \<times> sensor) list \<Rightarrow> sip option" where
  "find_base [] m = None"
| "find_base (i # is) m = (if map_of m i = None then find_base is m else Some i)"

definition SetBaseStream :: "rs_node \<Rightarrow> rs_node outcome" where
  "SetBaseStream s =
     (case find_base [DEPTH_sip, POSE_sip] (rn_sensors s) of
        None \<Rightarrow> Inl (OutOfBounds ''base_stream_priority'', s)
      | Some i \<Rightarrow> Inr (s\<lparr>rn_base_stream := i\<rparr>))"

section \<open>The constructor\<close>

text \<open>
  \<open>junk\<close> is the memory of the members that the constructor leaves uninitialised.  Maps start empty, and an
  empty map of numbers or strings reads as 0 or the empty string.
\<close>

definition BaseRealSenseNode :: "rs_node \<Rightarrow> rs_node" where
  "BaseRealSenseNode junk = junk
     \<lparr>rc_format := init_format, rc_image_format := init_image_format, rc_encoding := init_encoding,
      rc_unit_step_size := init_unit_step_size,
      rc_depth_aligned_encoding := [RS2_STREAM_COLOR \<mapsto> TYPE_16UC1],
      rc_json_file_path := [], rc_base_frame_id := [], rc_odom_frame_id := [], rc_filters_str := [],
      rc_width := (\<lambda>_. 0), rc_height := (\<lambda>_. 0), rc_fps := (\<lambda>_. 0), rc_enable := [],
      rc_frame_id := (\<lambda>_. []), rc_optical_frame_id := (\<lambda>_. []), rc_depth_aligned_frame_id := Map.empty,
      rn_dev_sensors := [], rn_sensors := [], rn_callbacks := [], rn_filters := [], rn_profiles := [],
      rn_image := Map.empty, rn_depth_aligned_image := Map.empty, rn_depth_scaled_image := Map.empty,
      rn_publishers := [], rn_calls := []\<rparr>"

text \<open>A node with nothing in it, for the examples.\<close>

definition blank_node :: rs_node where
  "blank_node = \<lparr>rc_format = (\<lambda>_. None), rc_image_format = (\<lambda>_. 0), rc_encoding = (\<lambda>_. None),
     rc_unit_step_size = (\<lambda>_. 0), rc_depth_aligned_encoding = (\<lambda>_. None), rc_align_depth = False,
     rc_pointcloud = False, rc_pointcloud_texture = COLOR_sip, rc_filters_str = [], rc_publish_tf = False,
     rc_tf_publish_rate = 0, rc_sync_frames = False, rc_json_file_path = [], rc_width = (\<lambda>_. 0),
     rc_height = (\<lambda>_. 0), rc_fps = (\<lambda>_. 0), rc_enable = [], rc_base_frame_id = [], rc_odom_frame_id = [],
     rc_frame_id = (\<lambda>_. []), rc_optical_frame_id = (\<lambda>_. []), rc_depth_aligned_frame_id = (\<lambda>_. None),
     rc_imu_sync_method = NONE, rc_allow_no_texture_points = False, rc_ordered_pc = False,
     rc_clipping_distance = 0, rc_linear_accel_cov = 0, rc_angular_velocity_cov = 0,
     rc_hold_back_imu_for_frames = False, rc_publish_odom_tf = False,
     rn_dev_sensors = [], rn_sensors = [], rn_callbacks = [], rn_filters = [], rn_profiles = [],
     rn_image = (\<lambda>_. None), rn_depth_aligned_image = (\<lambda>_. None), rn_depth_scaled_image = (\<lambda>_. None),
     rn_publishers = [], rn_synced = default_publisher False 0, rn_base_stream = DEPTH_sip,
     rn_depth_scale_meters = one32, rn_calls = []\<rparr>"

end
