(* ===== verification/Rs_Setup_Props.thy ===== *)
theory Rs_Setup_Props
  imports Rs_Setup
begin

text \<open>
  What the set-up of the RealSense node amounts to: the sensor and the profile that serve a stream, the
  chain of filters, the topics of the inertial sensors and the base of the transforms.
\<close>

section \<open>The sensor of a stream\<close>

definition offers :: "sip \<Rightarrow> sensor \<Rightarrow> bool" where
  "offers i sn \<longleftrightarrow> i \<in> pf_sip ` set (sn_profiles sn)"

lemma fold_add_stream:
  assumes "map_ok m"
  shows "map_ok (fold (add_stream sn) ps m) \<and>
    map_of (fold (add_stream sn) ps m) i =
      (if map_of m i = None \<and> i \<in> pf_sip ` set ps then Some sn else map_of m i)"
  using assms
proof (induction ps arbitrary: m)
  case (Cons p ps)
  have "map_ok (add_stream sn p m)"
    using Cons.prems by (simp add: add_stream_def map_ok_put)
  moreover have "map_of (add_stream sn p m) i =
      (if map_of m i = None \<and> i = pf_sip p then Some sn else map_of m i)"
    using Cons.prems by (auto simp: add_stream_def map_of_put)
  ultimately show ?case using Cons.IH [of "add_stream sn p m"] by auto
qed simp

lemma setup_sensors:
  assumes "map_ok (rn_sensors s)" "fold_outcome setup_sensor sns s = Inr t"
  shows "map_ok (rn_sensors t) \<and> rc_enable t = rc_enable s \<and> rn_profiles t = rn_profiles s \<and>
    rn_filters t = rn_filters s \<and>
    map_of (rn_sensors t) i = (case map_of (rn_sensors s) i of Some x \<Rightarrow> Some x | None \<Rightarrow> find (offers i) sns)"
  using assms
proof (induction sns arbitrary: s)
  case Nil
  then show ?case by (simp split: option.split)
next
  case (Cons sn sns)
  let ?m = "fold (add_stream sn) (sn_profiles sn) (rn_sensors s)"
  from Cons.prems(2) obtain s' where s': "setup_sensor sn s = Inr s'" "fold_outcome setup_sensor sns s' = Inr t"
    by (auto simp: and_then_eq_Inr)
  then have f: "rn_sensors s' = ?m" "rc_enable s' = rc_enable s" "rn_profiles s' = rn_profiles s"
    "rn_filters s' = rn_filters s"
    by (auto simp: setup_sensor_def Let_def split: option.splits)
  note a = fold_add_stream [OF Cons.prems(1), of sn "sn_profiles sn"]
  have "map_of (rn_sensors s') i = (case map_of (rn_sensors s) i of Some x \<Rightarrow> Some x
      | None \<Rightarrow> if offers i sn then Some sn else None)"
    using a by (auto simp: f offers_def split: option.split)
  then show ?case
    using Cons.IH [OF _ s'(2)] a by (auto simp: f split: option.splits)
qed

lemma enabled_set:
  "map_ok (rc_enable s) \<Longrightarrow> enabled (set_enable i b s) j = (if j = i then b else enabled s j)"
  "map_ok (rc_enable s) \<Longrightarrow> map_ok (rc_enable (set_enable i b s))"
  by (auto simp: enabled_def set_enable_def map_of_put map_ok_put)

lemma rs_do_frame:
  "rs_do D c s = Inr t \<Longrightarrow> rc_enable t = rc_enable s \<and> rn_profiles t = rn_profiles s \<and> rn_sensors t = rn_sensors s \<and>
    rn_filters t = rn_filters s"
  by (auto simp: rs_do_def Let_def split: option.splits)

text \<open>\<open>disable_unsupported\<close> over all entries: exactly the streams without a sensor are off.\<close>

lemma fold_disable:
  assumes "map_ok (rc_enable s)"
  shows "map_ok (rc_enable (fold disable_unsupported es s)) \<and>
    rn_sensors (fold disable_unsupported es s) = rn_sensors s \<and>
    rn_profiles (fold disable_unsupported es s) = rn_profiles s \<and>
    rn_filters (fold disable_unsupported es s) = rn_filters s \<and>
    enabled (fold disable_unsupported es s) i =
      (enabled s i \<and> \<not> ((i, True) \<in> set es \<and> map_of (rn_sensors s) i = None))"
  using assms
proof (induction es arbitrary: s)
  case (Cons e es)
  have "map_ok (rc_enable (disable_unsupported e s))" "rn_sensors (disable_unsupported e s) = rn_sensors s"
    "rn_profiles (disable_unsupported e s) = rn_profiles s" "rn_filters (disable_unsupported e s) = rn_filters s"
    "enabled (disable_unsupported e s) i =
      (enabled s i \<and> \<not> (e = (i, True) \<and> map_of (rn_sensors s) i = None))"
    using Cons.prems
    by (cases e; auto simp: disable_unsupported_def enabled_set; simp add: set_enable_def)+
  with Cons.IH [of "disable_unsupported e s"] show ?case by auto
qed simp

definition fresh_node :: "rs_node \<Rightarrow> bool" where
  "fresh_node s \<longleftrightarrow> rn_sensors s = [] \<and> rn_profiles s = [] \<and> rn_filters s = [] \<and> map_ok (rc_enable s)"

lemma setupDevice_result:
  assumes "fresh_node s" "setupDevice_rs D s = Inr t"
  shows "map_ok (rc_enable t) \<and> rn_profiles t = [] \<and> rn_filters t = [] \<and>
    map_of (rn_sensors t) i = find (offers i) (dv_sensors D) \<and>
    (enabled t i \<longleftrightarrow> enabled s i \<and> find (offers i) (dv_sensors D) \<noteq> None)"
proof -
  from assms(2) obtain s1 s3 s4 where 1: "load_json_file D s = Inr s1"
    and 3: "(if rc_sync_frames s1 then rs_do D Syncer_Start (s1\<lparr>rn_dev_sensors := dv_sensors D\<rparr>)
        else Inr (s1\<lparr>rn_dev_sensors := dv_sensors D\<rparr>)) = Inr s3"
    and 4: "fold_outcome setup_sensor (dv_sensors D) s3 = Inr s4"
    and t: "t = fold disable_unsupported (rc_enable s4) s4"
    by (auto simp: setupDevice_rs_def and_then_eq_Inr Let_def)
  have "rc_enable s1 = rc_enable s \<and> rn_profiles s1 = rn_profiles s \<and> rn_sensors s1 = rn_sensors s \<and>
      rn_filters s1 = rn_filters s"
    using 1 by (auto simp: load_json_file_def split: if_splits option.splits dest: rs_do_frame)
  moreover have "rc_enable s3 = rc_enable s1 \<and> rn_profiles s3 = rn_profiles s1 \<and> rn_sensors s3 = rn_sensors s1 \<and>
      rn_filters s3 = rn_filters s1"
    using 3 by (auto split: if_splits dest: rs_do_frame)
  ultimately have s3: "rc_enable s3 = rc_enable s" "rn_profiles s3 = []" "rn_sensors s3 = []" "rn_filters s3 = []"
    "map_ok (rc_enable s)"
    using assms(1) by (simp_all add: fresh_node_def)
  then have "map_ok (rn_sensors s3)" by (simp add: map_ok_def)
  note s4 = setup_sensors [OF this 4, of i]
  have s4e: "enabled s4 i = enabled s i" using s4 s3 by (simp add: enabled_def)
  have "map_ok (rc_enable s4)" using s4 s3 by simp
  note d = fold_disable [OF this, of "rc_enable s4" i]
  have "enabled s i \<Longrightarrow> (i, True) \<in> set (rc_enable s4)"
    using s4 s3 by (auto simp: enabled_def dest: map_of_SomeD)
  then show ?thesis using d s4 s3 s4e by (auto simp: t)
qed

section \<open>The profile of a stream\<close>

text \<open>The reference: the first profile that fits, otherwise the last default one.\<close>

definition best_profile :: "(profile \<Rightarrow> bool) \<Rightarrow> (profile \<Rightarrow> bool) \<Rightarrow> profile list \<Rightarrow> profile option" where
  "best_profile ours fits ps =
     (case find (\<lambda>p. ours p \<and> fits p) ps of
        Some p \<Rightarrow> Some p
      | None \<Rightarrow> find (\<lambda>p. ours p \<and> pf_is_default p) (rev ps))"

lemma find_append: "find P (xs @ ys) = (case find P xs of Some x \<Rightarrow> Some x | None \<Rightarrow> find P ys)"
  by (induction xs) auto

lemma scan_profiles_eq:
  "(case scan_profiles ours fits ps d of (dflt, selected) \<Rightarrow> if selected = None then dflt else selected) =
    (case find (\<lambda>p. ours p \<and> fits p) ps of
       Some p \<Rightarrow> Some p
     | None \<Rightarrow> (case find (\<lambda>p. ours p \<and> pf_is_default p) (rev ps) of Some p \<Rightarrow> Some p | None \<Rightarrow> d))"
proof (induction ours fits ps d rule: scan_profiles.induct)
  case (2 ours fits p ps d)
  show ?case
  proof (cases "ours p")
    case True
    show ?thesis
    proof (cases "fits p")
      case False
      then show ?thesis
        using "2.IH"(1) [OF True refl] True by (auto simp: find_append Let_def split: option.split)
    qed (use True in \<open>simp add: Let_def\<close>)
  next
    case False
    then show ?thesis using "2.IH"(2) by (auto simp: find_append split: option.split)
  qed
qed simp

lemma select_profile_eq: "select_profile ours fits ps = best_profile ours fits ps"
  unfolding select_profile_def scan_profiles_eq best_profile_def by (simp split: option.split)

lemma find_Some_iff: "find P xs = Some x \<Longrightarrow> x \<in> set xs \<and> P x"
  by (metis find_Some_iff nth_mem)

lemma best_profile_mem:
  "best_profile ours fits ps = Some p \<Longrightarrow> p \<in> set ps \<and> ours p"
  by (auto simp: best_profile_def split: option.splits dest!: find_Some_iff)

text \<open>The choice for an image stream and for an inertial stream.\<close>

definition image_choice :: "rs_node \<Rightarrow> sip \<Rightarrow> profile option" where
  "image_choice s i = (case map_of (rn_sensors s) i of None \<Rightarrow> None
     | Some sn \<Rightarrow> best_profile (\<lambda>p. pf_sip p = i) (fits_image s i) (sn_profiles sn))"

definition hid_choice :: "rs_node \<Rightarrow> sip \<Rightarrow> profile option" where
  "hid_choice s i = (case map_of (rn_sensors s) i of None \<Rightarrow> None
     | Some sn \<Rightarrow> best_profile (\<lambda>p. pf_stream p = fst i) (fits_hid s i) (sn_profiles sn))"

text \<open>What a stream needs of the node, and what one step leaves alone.\<close>

definition request :: "rs_node \<Rightarrow> sip \<Rightarrow> bool \<times> profile list option \<times> sensor option \<times> int \<times> int \<times> int \<times> rs2_format option" where
  "request s i = (enabled s i, map_of (rn_profiles s) i, map_of (rn_sensors s) i,
     rc_width s i, rc_height s i, rc_fps s i, rc_format s (fst i))"

definition maps_ok :: "rs_node \<Rightarrow> bool" where
  "maps_ok s \<longleftrightarrow> map_ok (rc_enable s) \<and> map_ok (rn_profiles s)"

lemma request_choice:
  "request s i = request t i \<Longrightarrow> image_choice s i = image_choice t i \<and> hid_choice s i = hid_choice t i"
  by (simp add: request_def image_choice_def hid_choice_def fits_image_def [abs_def] fits_hid_def [abs_def]
      split: option.split)

definition served :: "rs_node \<Rightarrow> sip \<Rightarrow> profile option \<Rightarrow> bool" where
  "served t i choice \<longleftrightarrow> (case choice of
     None \<Rightarrow> \<not> enabled t i \<and> map_of (rn_profiles t) i = None
   | Some p \<Rightarrow> enabled t i \<and> map_of (rn_profiles t) i = Some [p] \<and> rc_fps t i = pf_fps p)"

definition sized :: "rs_node \<Rightarrow> sip \<Rightarrow> bool" where
  "sized t i \<longleftrightarrow> (\<forall>p. map_of (rn_profiles t) i = Some [p] \<longrightarrow>
     rc_width t i = pf_width p \<and> rc_height t i = pf_height p)"

lemma image_step:
  assumes "maps_ok s" "map_of (rn_profiles s) i = None" "enabled s i \<longrightarrow> map_of (rn_sensors s) i \<noteq> None"
  obtains t where "enable_image_stream i s = Inr t" "maps_ok t" "\<forall>j. j \<noteq> i \<longrightarrow> request t j = request s j"
    "served t i (if enabled s i then image_choice s i else None)" "sized t i"
proof -
  have "\<exists>t. enable_image_stream i s = Inr t \<and> maps_ok t \<and> (\<forall>j. j \<noteq> i \<longrightarrow> request t j = request s j) \<and>
    served t i (if enabled s i then image_choice s i else None) \<and> sized t i"
  proof (cases "enabled s i")
    case False
    then show ?thesis using assms by (simp add: enable_image_stream_def served_def sized_def)
  next
    case True
    with assms(3) obtain sn where sn: "map_of (rn_sensors s) i = Some sn" by auto
    show ?thesis
    proof (cases "image_choice s i")
      case None
      then have "enable_image_stream i s = Inr (set_enable i False s)"
        using True sn by (simp add: enable_image_stream_def select_profile_eq image_choice_def)
      then show ?thesis using assms None
        by (simp add: maps_ok_def served_def sized_def enabled_set request_def)
           (simp add: set_enable_def)
    next
      case (Some p)
      then have "enable_image_stream i s = Inr (use_image_profile i p s)"
        using True sn by (simp add: enable_image_stream_def select_profile_eq image_choice_def)
      then show ?thesis using assms Some True
        by (simp add: maps_ok_def served_def sized_def request_def use_image_profile_def push_profile_def
            Let_def map_of_put map_ok_put enabled_def)
    qed
  qed
  then show ?thesis using that by blast
qed

lemma hid_step:
  assumes "maps_ok s" "map_of (rn_profiles s) i = None" "enabled s i \<longrightarrow> map_of (rn_sensors s) i \<noteq> None"
  obtains t where "enable_hid_stream i s = Inr t" "maps_ok t" "\<forall>j. j \<noteq> i \<longrightarrow> request t j = request s j"
    "served t i (if enabled s i then hid_choice s i else None)"
proof -
  have "\<exists>t. enable_hid_stream i s = Inr t \<and> maps_ok t \<and> (\<forall>j. j \<noteq> i \<longrightarrow> request t j = request s j) \<and>
    served t i (if enabled s i then hid_choice s i else None)"
  proof (cases "enabled s i")
    case False
    then show ?thesis using assms by (simp add: enable_hid_stream_def served_def)
  next
    case True
    with assms(3) obtain sn where sn: "map_of (rn_sensors s) i = Some sn" by auto
    show ?thesis
    proof (cases "hid_choice s i")
      case None
      then have "enable_hid_stream i s = Inr (set_enable i False s)"
        using True sn by (simp add: enable_hid_stream_def select_profile_eq hid_choice_def)
      then show ?thesis using assms None
        by (simp add: maps_ok_def served_def enabled_set request_def)
           (simp add: set_enable_def)
    next
      case (Some p)
      then have "enable_hid_stream i s = Inr (push_profile i p (s\<lparr>rc_fps := (rc_fps s)(i := pf_fps p)\<rparr>))"
        using True sn by (simp add: enable_hid_stream_def select_profile_eq hid_choice_def)
      then show ?thesis using assms Some True
        by (simp add: maps_ok_def served_def request_def push_profile_def
            Let_def map_of_put map_ok_put enabled_def)
    qed
  qed
  then show ?thesis using that by blast
qed

text \<open>A loop over distinct streams, each step of which concerns its own stream.\<close>

definition servable :: "rs_node \<Rightarrow> sip \<Rightarrow> bool" where
  "servable s i \<longleftrightarrow> map_of (rn_profiles s) i = None \<and> (enabled s i \<longrightarrow> map_of (rn_sensors s) i \<noteq> None)"

lemma servable_request: "request s i = request t i \<Longrightarrow> servable s i = servable t i"
  by (simp add: servable_def request_def)

lemma fold_streams:
  assumes step: "\<And>i s. maps_ok s \<Longrightarrow> servable s i \<Longrightarrow>
      \<exists>t. f i s = Inr t \<and> maps_ok t \<and> (\<forall>j. j \<noteq> i \<longrightarrow> request t j = request s j) \<and> Q i s t"
    and Q: "\<And>i s s' t t'. Q i s t \<Longrightarrow> request s i = request s' i \<Longrightarrow> request t i = request t' i \<Longrightarrow> Q i s' t'"
    and "distinct is" "maps_ok s" "\<forall>i \<in> set is. servable s i"
  shows "\<exists>t. fold_outcome f is s = Inr t \<and> maps_ok t \<and>
    (\<forall>j. j \<notin> set is \<longrightarrow> request t j = request s j) \<and> (\<forall>i \<in> set is. Q i s t)"
  using assms(3-5)
proof (induction "is" arbitrary: s)
  case (Cons i "is")
  from step [OF Cons.prems(2), of i] Cons.prems(3)
  obtain u where u: "f i s = Inr u" "maps_ok u" "\<forall>j. j \<noteq> i \<longrightarrow> request u j = request s j" "Q i s u"
    by auto
  have ne: "j \<noteq> i" if "j \<in> set is" for j using that Cons.prems(1) by auto
  have "\<forall>j \<in> set is. servable u j"
    using Cons.prems(3) u(3) ne servable_request [of u] by (metis list.set_intros(2))
  from Cons.IH [OF _ u(2) this] Cons.prems(1)
  obtain t where t: "fold_outcome f is u = Inr t" "maps_ok t"
    "\<forall>j. j \<notin> set is \<longrightarrow> request t j = request u j" "\<forall>j \<in> set is. Q j u t" by auto
  have "request u i = request t i" using t(3) [rule_format, of i] Cons.prems(1) by simp
  then have "Q i s t" by (rule Q [OF u(4) refl])
  moreover have "Q j s t" if "j \<in> set is" for j
    by (rule Q [of j u t]) (use t(4) u(3) [rule_format, OF ne [OF that]] that in auto)
  ultimately show ?case using u t by (intro exI [of _ t]) simp
qed simp

definition image_result :: "sip \<Rightarrow> rs_node \<Rightarrow> rs_node \<Rightarrow> bool" where
  "image_result i s t \<longleftrightarrow> served t i (if enabled s i then image_choice s i else None) \<and> sized t i"

definition hid_result :: "sip \<Rightarrow> rs_node \<Rightarrow> rs_node \<Rightarrow> bool" where
  "hid_result i s t \<longleftrightarrow> served t i (if enabled s i then hid_choice s i else None)"

lemma result_frame:
  assumes "request t i = request t' i"
  shows "served t i c = served t' i c" "sized t i = sized t' i" "enabled t i = enabled t' i"
  using assms by (simp_all add: served_def sized_def request_def split: option.split)

lemma result_request:
  "image_result i s t \<Longrightarrow> request s i = request s' i \<Longrightarrow> request t i = request t' i \<Longrightarrow> image_result i s' t'"
  "hid_result i s t \<Longrightarrow> request s i = request s' i \<Longrightarrow> request t i = request t' i \<Longrightarrow> hid_result i s' t'"
  using request_choice [of s i s'] result_frame [of s i s'] result_frame [of t i t']
  by (auto simp: image_result_def hid_result_def split: if_splits)

lemma image_loop:
  assumes "maps_ok s" "\<forall>i \<in> set IMAGE_STREAMS_rs. servable s i"
  shows "\<exists>t. fold_outcome enable_image_stream IMAGE_STREAMS_rs s = Inr t \<and> maps_ok t \<and>
    (\<forall>j. j \<notin> set IMAGE_STREAMS_rs \<longrightarrow> request t j = request s j) \<and>
    (\<forall>i \<in> set IMAGE_STREAMS_rs. image_result i s t)"
proof (rule fold_streams)
  show "\<exists>t. enable_image_stream i s = Inr t \<and> maps_ok t \<and>
      (\<forall>j. j \<noteq> i \<longrightarrow> request t j = request s j) \<and> image_result i s t"
    if "maps_ok s" "servable s i" for i s
    using image_step [OF that(1), of i] that(2) by (metis image_result_def servable_def)
qed (use assms in \<open>auto simp: IMAGE_STREAMS_rs_def stream_defs intro: result_request\<close>)

lemma hid_loop:
  assumes "maps_ok s" "\<forall>i \<in> set HID_STREAMS. servable s i"
  shows "\<exists>t. fold_outcome enable_hid_stream HID_STREAMS s = Inr t \<and> maps_ok t \<and>
    (\<forall>j. j \<notin> set HID_STREAMS \<longrightarrow> request t j = request s j) \<and>
    (\<forall>i \<in> set HID_STREAMS. hid_result i s t)"
proof (rule fold_streams)
  show "\<exists>t. enable_hid_stream i s = Inr t \<and> maps_ok t \<and>
      (\<forall>j. j \<noteq> i \<longrightarrow> request t j = request s j) \<and> hid_result i s t"
    if "maps_ok s" "servable s i" for i s
    using hid_step [OF that(1), of i] that(2) by (metis hid_result_def servable_def)
qed (use assms in \<open>auto simp: HID_STREAMS_def stream_defs intro: result_request\<close>)

lemma aligned_images_frame:
  "request (aligned_images s) i = request s i" "maps_ok (aligned_images s) = maps_ok s"
  by (simp_all add: aligned_images_def Let_def request_def enabled_def maps_ok_def)

lemma hid_not_image: "i \<in> set HID_STREAMS \<Longrightarrow> i \<notin> set IMAGE_STREAMS_rs"
  by (auto simp: HID_STREAMS_def IMAGE_STREAMS_rs_def stream_defs)

lemma enable_devices_result:
  assumes "maps_ok s" "\<forall>i. servable s i"
  shows "\<exists>t. enable_devices s = Inr t \<and>
    (\<forall>i \<in> set IMAGE_STREAMS_rs. image_result i s t) \<and> (\<forall>i \<in> set HID_STREAMS. hid_result i s t)"
proof -
  from image_loop [OF assms(1)] assms(2)
  obtain u where u: "fold_outcome enable_image_stream IMAGE_STREAMS_rs s = Inr u" "maps_ok u"
    "\<forall>j. j \<notin> set IMAGE_STREAMS_rs \<longrightarrow> request u j = request s j"
    "\<forall>i \<in> set IMAGE_STREAMS_rs. image_result i s u" by auto
  have hid: "request (aligned_images u) i = request s i" if "i \<in> set HID_STREAMS" for i
    unfolding aligned_images_frame by (rule u(3) [rule_format, OF hid_not_image [OF that]])
  have sv: "\<forall>i \<in> set HID_STREAMS. servable (aligned_images u) i"
    using hid assms(2) servable_request by blast
  from hid_loop [OF _ sv] u(2)
  obtain t where t: "fold_outcome enable_hid_stream HID_STREAMS (aligned_images u) = Inr t"
    "\<forall>j. j \<notin> set HID_STREAMS \<longrightarrow> request t j = request (aligned_images u) j"
    "\<forall>i \<in> set HID_STREAMS. hid_result i (aligned_images u) t" by (auto simp: aligned_images_frame)
  have "image_result i s t" if i: "i \<in> set IMAGE_STREAMS_rs" for i
  proof (rule result_request(1))
    show "image_result i s u" using u(4) i by blast
    show "request u i = request t i"
      using t(2) i hid_not_image by (metis aligned_images_frame(1))
  qed simp
  moreover have "hid_result i s t" if "i \<in> set HID_STREAMS" for i
    using result_request(2) [OF _ hid [OF that] refl] t(3) that by blast
  ultimately show ?thesis using u(1) t(1) by (simp add: enable_devices_def)
qed

section \<open>The chain of filters\<close>

definition filter_names :: "string \<Rightarrow> string list" where
  "filter_names fs = map (filter (\<lambda>c. \<not> isspace c)) (split_at (CHR '','') fs)"

definition known_filters :: "string set" where
  "known_filters = {''colorizer'', ''disparity'', ''spatial'', ''temporal'', ''hole_filling'',
     ''decimation'', ''pointcloud'', ''hdr_merge'', ''''}"

definition user_filters :: "string list \<Rightarrow> string list" where
  "user_filters = filter (\<lambda>n. n \<in> {''spatial'', ''temporal'', ''hole_filling''})"

text \<open>The order in which frames pass: reduction and merging first, the disparity domain around the user's
  own filters in the user's order, alignment, colours, cloud.\<close>

definition filter_chain :: "string list \<Rightarrow> bool \<Rightarrow> bool \<Rightarrow> string list" where
  "filter_chain names align cloud =
     (if ''decimation'' \<in> set names then [''decimation''] else []) @
     (if ''hdr_merge'' \<in> set names then [''sequence_id_filter'', ''hdr_merge''] else []) @
     (if ''disparity'' \<in> set names then [''disparity_start''] else []) @
     user_filters names @
     (if ''disparity'' \<in> set names then [''disparity_end''] else []) @
     (if align then [''align_to_color''] else []) @
     (if ''colorizer'' \<in> set names then [''colorizer''] else []) @
     (if cloud then [''pointcloud''] else [])"

definition flags_of :: "filter_flags \<Rightarrow> string list \<Rightarrow> filter_flags" where
  "flags_of g names = \<lparr>use_colorizer = use_colorizer g \<or> ''colorizer'' \<in> set names,
     use_disparity = use_disparity g \<or> ''disparity'' \<in> set names,
     use_decimation = use_decimation g \<or> ''decimation'' \<in> set names,
     use_hdr = use_hdr g \<or> ''hdr_merge'' \<in> set names\<rparr>"

lemma flags_of_Nil [simp]: "flags_of g [] = g"
  by (simp add: flags_of_def)

lemma flags_of_Cons: "flags_of g (n # ns) = flags_of (flags_of g [n]) ns"
  by (auto simp: flags_of_def)

lemma user_filters_Cons: "user_filters [n] @ user_filters ns = user_filters (n # ns)"
  by (simp add: user_filters_def)

lemma read_filter_known:
  assumes "n = filter (\<lambda>c. \<not> isspace c) f" "n \<in> known_filters"
  shows "read_filter f (g, s) = Inr (flags_of g [n], s\<lparr>rn_filters := rn_filters s @ user_filters [n]\<rparr>)"
  using assms(2) unfolding known_filters_def
  by (elim insertE emptyE; simp add: read_filter_def assms(1) [symmetric] Let_def flags_of_def user_filters_def)

lemma read_filter_unknown:
  "filter (\<lambda>c. \<not> isspace c) f \<notin> known_filters \<Longrightarrow>
    read_filter f (g, s) = Inl (CheckFailed ''std::terminate'', (g, s))"
  by (simp add: read_filter_def known_filters_def Let_def)

lemma read_filters_known:
  assumes "set (map (filter (\<lambda>c. \<not> isspace c)) fs) \<subseteq> known_filters"
  shows "fold_outcome read_filter fs (g, s) =
     Inr (flags_of g (map (filter (\<lambda>c. \<not> isspace c)) fs),
       s\<lparr>rn_filters := rn_filters s @ user_filters (map (filter (\<lambda>c. \<not> isspace c)) fs)\<rparr>)"
  using assms
proof (induction fs arbitrary: g s)
  case Nil
  then show ?case by (simp add: user_filters_def)
next
  case (Cons f fs)
  let ?n = "filter (\<lambda>c. \<not> isspace c) f" and ?ns = "map (filter (\<lambda>c. \<not> isspace c)) fs"
  have "read_filter f (g, s) = Inr (flags_of g [?n], s\<lparr>rn_filters := rn_filters s @ user_filters [?n]\<rparr>)"
    by (rule read_filter_known) (use Cons.prems in auto)
  then show ?case
    using Cons.IH Cons.prems by (simp add: flags_of_Cons [of g ?n ?ns] user_filters_Cons [of ?n ?ns, symmetric])
qed

lemma read_filters_unknown:
  "\<not> set (map (filter (\<lambda>c. \<not> isspace c)) fs) \<subseteq> known_filters \<Longrightarrow>
    \<exists>u. fold_outcome read_filter fs (g, s) = Inl (CheckFailed ''std::terminate'', u)"
proof (induction fs arbitrary: g s)
  case (Cons f fs)
  then show ?case
    by (cases "filter (\<lambda>c. \<not> isspace c) f \<in> known_filters")
       (auto simp: read_filter_known [OF refl] read_filter_unknown)
qed simp

lemma add_filter_steps:
  "rn_filters (add_disparity g s) = (if use_disparity g
     then ''disparity_start'' # rn_filters s @ [''disparity_end''] else rn_filters s)"
  "rn_filters (add_hdr g s) = (if use_hdr g then [''sequence_id_filter'', ''hdr_merge''] else []) @ rn_filters s"
  "rn_filters (add_decimation g s) = (if use_decimation g then [''decimation''] else []) @ rn_filters s"
  "rn_filters (add_align s) = rn_filters s @ (if rc_align_depth s then [''align_to_color''] else [])"
  "rn_filters (add_colorizer g s) = rn_filters s @ (if use_colorizer g then [''colorizer''] else [])"
  "rn_filters (add_pointcloud s) = rn_filters s @ (if rc_pointcloud s then [''pointcloud''] else [])"
  by (simp_all add: add_disparity_def add_hdr_def add_decimation_def add_align_def add_colorizer_def
      add_pointcloud_def Let_def)

lemma add_filter_config:
  "rc_align_depth (add_disparity g s) = rc_align_depth s" "rc_pointcloud (add_disparity g s) = rc_pointcloud s"
  "rc_align_depth (add_hdr g s) = rc_align_depth s" "rc_pointcloud (add_hdr g s) = rc_pointcloud s"
  "rc_align_depth (add_decimation g s) = rc_align_depth s" "rc_pointcloud (add_decimation g s) = rc_pointcloud s"
  "rc_pointcloud (add_align s) = rc_pointcloud s" "rc_pointcloud (add_colorizer g s) = rc_pointcloud s"
  by (simp_all add: add_disparity_def add_hdr_def add_decimation_def add_align_def add_colorizer_def Let_def)

lemma flags_of_fields:
  "use_colorizer (flags_of no_flags ns) \<longleftrightarrow> ''colorizer'' \<in> set ns"
  "use_disparity (flags_of no_flags ns) \<longleftrightarrow> ''disparity'' \<in> set ns"
  "use_decimation (flags_of no_flags ns) \<longleftrightarrow> ''decimation'' \<in> set ns"
  "use_hdr (flags_of no_flags ns) \<longleftrightarrow> ''hdr_merge'' \<in> set ns"
  by (simp_all add: flags_of_def no_flags_def)

lemma finish_filters_fields:
  assumes "rn_filters s = user_filters ns"
  shows "rn_filters (finish_filters (flags_of no_flags ns, s)) =
     filter_chain ns (rc_align_depth s) (rc_pointcloud s)"
  by (simp add: finish_filters_def add_filter_steps add_filter_config flags_of_fields assms filter_chain_def)


section \<open>From the parameters to the streams\<close>

text \<open>What reading the parameters leaves alone.\<close>

definition same_rest :: "rs_node \<Rightarrow> rs_node \<Rightarrow> bool" where
  "same_rest s t \<longleftrightarrow> rn_sensors t = rn_sensors s \<and> rn_profiles t = rn_profiles s \<and> rn_filters t = rn_filters s \<and>
     (map_ok (rc_enable s) \<longrightarrow> map_ok (rc_enable t))"

lemma same_rest_trans: "same_rest s t \<Longrightarrow> same_rest t u \<Longrightarrow> same_rest s u"
  by (simp add: same_rest_def)

lemma same_rest_fold: "(\<And>x s. same_rest s (f x s)) \<Longrightarrow> same_rest s (fold f xs s)"
proof (induction xs arbitrary: s)
  case Nil
  then show ?case by (simp add: same_rest_def)
next
  case (Cons x xs)
  have "same_rest (f x s) (fold f xs (f x s))" by (rule Cons.IH) (rule Cons.prems)
  from same_rest_trans [OF Cons.prems this] show ?case by simp
qed

lemma read_steps_rest:
  "same_rest s (read_infra_rgb P s)" "read_pointcloud P s = Inr t \<Longrightarrow> same_rest s t"
  "same_rest s (read_filters P s)" "same_rest s (read_image_stream P i s)"
  "same_rest s (read_hid_stream P i s)" "same_rest s (read_frame_id P i s)"
  "same_rest s (read_imu P s)" "same_rest s (read_rest P s)"
  by (auto simp: same_rest_def read_infra_rgb_def read_pointcloud_def read_filters_def read_image_stream_def
      read_hid_stream_def read_frame_id_def read_imu_def read_rest_def set_enable_def Let_def map_ok_put
      split: sum.splits)

lemma read_streams_rest: "same_rest s (read_streams P s)"
  unfolding read_streams_def by (rule same_rest_trans; rule same_rest_fold; rule read_steps_rest)

lemma read_frames_rest: "same_rest s (read_frames P s)"
  unfolding read_frames_def
  by (rule same_rest_trans [OF _ same_rest_fold [OF read_steps_rest(6)]]) (simp add: same_rest_def)

lemma getParameters_rest:
  assumes "getParameters_rs P s = Inr t"
  shows "same_rest s t"
proof -
  from assms obtain s1 where s1: "read_pointcloud P (read_infra_rgb P s) = Inr s1"
    and t: "t = read_rest P (read_imu P (read_frames P (read_streams P (read_filters P s1))))"
    by (auto simp: getParameters_rs_def and_then_eq_Inr)
  have "same_rest s s1"
    by (rule same_rest_trans [OF read_steps_rest(1) read_steps_rest(2) [OF s1]])
  moreover have "same_rest s1 t"
    unfolding t
    by (rule same_rest_trans [OF _ read_steps_rest(8)] same_rest_trans [OF _ read_steps_rest(7)]
        same_rest_trans [OF _ read_frames_rest] same_rest_trans [OF _ read_streams_rest]
        read_steps_rest(3))+
  ultimately show ?thesis by (rule same_rest_trans)
qed

lemma started_node_fresh:
  assumes "getParameters_rs P (BaseRealSenseNode junk) = Inr s"
  shows "fresh_node s"
  using getParameters_rest [OF assms]
  by (simp add: same_rest_def fresh_node_def BaseRealSenseNode_def map_ok_def)

lemma finish_filters_rest:
  "rc_enable (finish_filters (g, s)) = rc_enable s" "rn_sensors (finish_filters (g, s)) = rn_sensors s"
  "rn_profiles (finish_filters (g, s)) = rn_profiles s" "rc_fps (finish_filters (g, s)) = rc_fps s"
  by (simp_all add: finish_filters_def add_disparity_def add_hdr_def add_decimation_def add_align_def
      add_colorizer_def add_pointcloud_def Let_def)

lemma setupFilters_Inr:
  assumes "setupFilters s = Inr t" "rn_filters s = []"
  shows "t = finish_filters (flags_of no_flags (filter_names (rc_filters_str s)),
      s\<lparr>rn_filters := user_filters (filter_names (rc_filters_str s))\<rparr>)"
proof (cases "set (filter_names (rc_filters_str s)) \<subseteq> known_filters")
  case True
  then show ?thesis
    using read_filters_known [of "split_at (CHR '','') (rc_filters_str s)"] assms
    by (simp add: setupFilters_def filter_names_def)
next
  case False
  then obtain u where "fold_outcome read_filter (split_at (CHR '','') (rc_filters_str s)) (no_flags, s) =
      Inl (CheckFailed ''std::terminate'', u)"
    using read_filters_unknown unfolding filter_names_def by blast
  with assms(1) show ?thesis by (cases u) (simp add: setupFilters_def)
qed

text \<open>The first sensor of the device that offers the stream, and the profile of that sensor.\<close>

definition image_pick :: "rs_device \<Rightarrow> rs_node \<Rightarrow> sip \<Rightarrow> profile option" where
  "image_pick D s i = (case find (offers i) (dv_sensors D) of None \<Rightarrow> None
     | Some sn \<Rightarrow> best_profile (\<lambda>p. pf_sip p = i) (fits_image s i) (sn_profiles sn))"

definition hid_pick :: "rs_device \<Rightarrow> rs_node \<Rightarrow> sip \<Rightarrow> profile option" where
  "hid_pick D s i = (case find (offers i) (dv_sensors D) of None \<Rightarrow> None
     | Some sn \<Rightarrow> best_profile (\<lambda>p. pf_stream p = fst i) (fits_hid s i) (sn_profiles sn))"

text \<open>
  Claim C21.  From the parameters to the open profiles: after \<open>getParameters\<close>, \<open>setupDevice\<close> and
  \<open>setupFilters\<close> have returned, \<open>enable_devices\<close> returns, and a stream is enabled afterwards exactly when
  it was asked for and the first sensor of the device that offers it has a profile to give: the first one
  that matches the requested size, rate and format, otherwise the last default one.  The stream then has
  this one profile, and width, height and rate of the node are the profile's.  Every other stream is off
  and has no profile.
\<close>

theorem streams_served_by_first_sensor:
  assumes "getParameters_rs P (BaseRealSenseNode junk) = Inr s" "setupDevice_rs D s = Inr s1"
    "setupFilters s1 = Inr s2"
  shows "\<exists>t. enable_devices s2 = Inr t \<and>
    (\<forall>i \<in> set IMAGE_STREAMS_rs.
      served t i (if enabled s i then image_pick D s2 i else None) \<and> sized t i) \<and>
    (\<forall>i \<in> set HID_STREAMS. served t i (if enabled s i then hid_pick D s2 i else None))"
proof -
  note fresh = started_node_fresh [OF assms(1)]
  note s1 = setupDevice_result [OF fresh assms(2)]
  have "rn_filters s1 = []" using s1 by simp
  note s2 = setupFilters_Inr [OF assms(3) this]
  have f: "rc_enable s2 = rc_enable s1" "rn_sensors s2 = rn_sensors s1" "rn_profiles s2 = rn_profiles s1"
    by (simp_all add: s2 finish_filters_rest)
  have en: "enabled s2 i \<longleftrightarrow> enabled s i \<and> find (offers i) (dv_sensors D) \<noteq> None" for i
    using s1 [of i] by (simp add: enabled_def f)
  have picks: "image_choice s2 i = image_pick D s2 i" "hid_choice s2 i = hid_pick D s2 i" for i
    using s1 [of i] by (simp_all add: image_choice_def hid_choice_def image_pick_def hid_pick_def f)
  have none: "image_pick D s2 i = None \<and> hid_pick D s2 i = None" if "find (offers i) (dv_sensors D) = None" for i
    using that by (simp add: image_pick_def hid_pick_def)
  have "maps_ok s2" "\<forall>i. servable s2 i"
    using s1 by (simp_all add: maps_ok_def servable_def f en map_ok_def)
  from enable_devices_result [OF this] obtain t where t: "enable_devices s2 = Inr t"
    "\<forall>i \<in> set IMAGE_STREAMS_rs. image_result i s2 t" "\<forall>i \<in> set HID_STREAMS. hid_result i s2 t" by blast
  have pick: "(if enabled s2 i then image_choice s2 i else None) = (if enabled s i then image_pick D s2 i else None)"
    "(if enabled s2 i then hid_choice s2 i else None) = (if enabled s i then hid_pick D s2 i else None)" for i
    using en [of i] none [of i] picks by auto
  show ?thesis
    using t by (intro exI [of _ t]) (simp add: image_result_def hid_result_def pick)
qed

section \<open>Examples and consequences\<close>

definition demo_profile :: profile where
  "demo_profile = \<lparr>pf_stream = RS2_STREAM_DEPTH, pf_index = 0, pf_format = RS2_FORMAT_Z16, pf_width = 640,
     pf_height = 480, pf_fps = 30, pf_is_default = True\<rparr>"

definition demo_device :: rs_device where
  "demo_device = \<lparr>dv_sensors = [\<lparr>sn_id = 0, sn_name = ''Stereo Module'', sn_kind = Depth_Sensor,
       sn_profiles = [demo_profile], sn_roi = True\<rparr>],
     dv_serializable = False, dv_file = (\<lambda>_. None), dv_depth_scale = (\<lambda>_. one32), dv_error = (\<lambda>_ _. None)\<rparr>"

text \<open>The requested sizes on their way from the parameters.\<close>

definition sizes :: "'a rs_config_scheme \<Rightarrow> (sip \<Rightarrow> int) \<times> (sip \<Rightarrow> int) \<times> (sip \<Rightarrow> int) \<times> string" where
  "sizes s = (rc_width s, rc_height s, rc_fps s, rc_filters_str s)"

lemma read_image_streams:
  "rc_width (fold (read_image_stream P) is s) i =
     (if i \<in> set is then p_int P (stream_name (fst i) @ ''_width'') 640 else rc_width s i)"
  "rc_height (fold (read_image_stream P) is s) i =
     (if i \<in> set is then p_int P (stream_name (fst i) @ ''_height'') 480 else rc_height s i)"
  "rc_fps (fold (read_image_stream P) is s) i =
     (if i \<in> set is then p_int P (stream_name (fst i) @ ''_fps'') 30 else rc_fps s i)"
  "rc_filters_str (fold (read_image_stream P) is s) = rc_filters_str s"
  by (induction "is" arbitrary: s) (auto simp: read_image_stream_def set_enable_def)

lemma read_hid_streams:
  "rc_width (fold (read_hid_stream P) is s) = rc_width s"
  "rc_height (fold (read_hid_stream P) is s) = rc_height s"
  "rc_fps (fold (read_hid_stream P) is s) i =
     (if i \<in> set is then p_int P (stream_name (fst i) @ ''_fps'') 0 else rc_fps s i)"
  "rc_filters_str (fold (read_hid_stream P) is s) = rc_filters_str s"
  by (induction "is" arbitrary: s) (auto simp: read_hid_stream_def set_enable_def)

lemma read_last_sizes:
  "sizes (read_rest P s) = sizes s" "sizes (read_imu P s) = sizes s" "sizes (read_frames P s) = sizes s"
proof -
  show "sizes (read_rest P s) = sizes s" "sizes (read_imu P s) = sizes s"
    by (simp_all add: sizes_def read_rest_def read_imu_def Let_def)
  have "sizes (read_frames P s) = sizes (s\<lparr>rc_base_frame_id := p_str P ''base_frame_id'' ''camera_link'',
      rc_odom_frame_id := p_str P ''odom_frame_id'' ''odom_frame''\<rparr>)"
    unfolding read_frames_def by (rule fold_keeps) (simp add: sizes_def read_frame_id_def)
  then show "sizes (read_frames P s) = sizes s" by (simp add: sizes_def)
qed

lemma getParameters_sizes:
  assumes "getParameters_rs P s = Inr t" "i \<in> set IMAGE_STREAMS_rs"
  shows "rc_width t i = p_int P (stream_name (fst i) @ ''_width'') 640 \<and>
    rc_height t i = p_int P (stream_name (fst i) @ ''_height'') 480 \<and>
    rc_fps t i = p_int P (stream_name (fst i) @ ''_fps'') 30 \<and> rc_filters_str t = p_str P ''filters'' ''''"
proof -
  from assms(1) obtain s1 where t: "t = read_rest P (read_imu P (read_frames P (read_streams P (read_filters P s1))))"
    by (auto simp: getParameters_rs_def and_then_eq_Inr)
  have "sizes t = sizes (read_streams P (read_filters P s1))" by (simp add: t read_last_sizes)
  then have v: "rc_width t = rc_width (read_streams P (read_filters P s1))"
    "rc_height t = rc_height (read_streams P (read_filters P s1))"
    "rc_fps t = rc_fps (read_streams P (read_filters P s1))"
    "rc_filters_str t = rc_filters_str (read_streams P (read_filters P s1))" by (simp_all add: sizes_def)
  have "i \<notin> set HID_STREAMS" using assms(2) hid_not_image by blast
  then show ?thesis
    using assms(2)
    by (simp add: v read_streams_def read_image_streams read_hid_streams) (simp add: read_filters_def Let_def)
qed

lemma setupDevice_sizes:
  assumes "setupDevice_rs D s = Inr t"
  shows "sizes t = sizes s"
proof -
  from assms obtain s1 s3 s4 where 1: "load_json_file D s = Inr s1"
    and 3: "(if rc_sync_frames s1 then rs_do D Syncer_Start (s1\<lparr>rn_dev_sensors := dv_sensors D\<rparr>)
        else Inr (s1\<lparr>rn_dev_sensors := dv_sensors D\<rparr>)) = Inr s3"
    and 4: "fold_outcome setup_sensor (dv_sensors D) s3 = Inr s4"
    and t: "t = fold disable_unsupported (rc_enable s4) s4"
    by (auto simp: setupDevice_rs_def and_then_eq_Inr Let_def)
  have do: "sizes v = sizes u" if "rs_do D c u = Inr v" for c u v
    using that by (auto simp: rs_do_def sizes_def Let_def split: option.splits)
  have "sizes s1 = sizes s"
    using 1 by (auto simp: load_json_file_def split: if_splits option.splits dest: do)
  moreover have "sizes s3 = sizes s1"
    using 3 by (auto split: if_splits dest!: do) (simp_all add: sizes_def)
  moreover have "sizes s4 = sizes s3"
    by (rule fold_outcome_keeps [OF _ 4])
       (auto simp: setup_sensor_def sizes_def Let_def split: option.splits)
  moreover have "sizes t = sizes s4"
    unfolding t by (rule fold_keeps) (simp add: sizes_def disable_unsupported_def set_enable_def)
  ultimately show ?thesis by simp
qed

lemma add_colorizer_sizes:
  "use_colorizer g \<Longrightarrow> rc_width (finish_filters (g, s)) DEPTH_sip = rc_width s COLOR_sip"
  "use_colorizer g \<Longrightarrow> rc_height (finish_filters (g, s)) DEPTH_sip = rc_height s COLOR_sip"
  by (simp_all add: finish_filters_def add_disparity_def add_hdr_def add_decimation_def add_align_def
      add_colorizer_def add_pointcloud_def Let_def)

text \<open>
  With the \<open>colorizer\<close> filter the size parameters of the depth stream have no effect: the
  profile of the depth sensor is looked for with the width and the height that were asked for the colour
  stream (and with the rate and format of the depth stream).
\<close>

theorem colorizer_overrides_depth_size:
  assumes "getParameters_rs P (BaseRealSenseNode junk) = Inr s" "setupDevice_rs D s = Inr s1"
    "setupFilters s1 = Inr s2" and "''colorizer'' \<in> set (filter_names (p_str P ''filters'' ''''))"
  shows "rc_width s2 DEPTH_sip = p_int P ''color_width'' 640 \<and>
    rc_height s2 DEPTH_sip = p_int P ''color_height'' 480 \<and>
    rc_fps s2 DEPTH_sip = p_int P ''depth_fps'' 30"
proof -
  have im: "DEPTH_sip \<in> set IMAGE_STREAMS_rs" "COLOR_sip \<in> set IMAGE_STREAMS_rs"
    by (simp_all add: IMAGE_STREAMS_rs_def)
  have "rn_filters s1 = []"
    using setupDevice_result [OF started_node_fresh [OF assms(1)] assms(2)] by simp
  note s2 = setupFilters_Inr [OF assms(3) this]
  have v: "rc_width s1 = rc_width s" "rc_height s1 = rc_height s" "rc_fps s1 = rc_fps s"
    "rc_filters_str s1 = rc_filters_str s"
    using setupDevice_sizes [OF assms(2)] by (simp_all add: sizes_def)
  show ?thesis
    using getParameters_sizes [OF assms(1) im(1)] getParameters_sizes [OF assms(1) im(2)] assms(4)
    by (simp add: s2 add_colorizer_sizes finish_filters_rest flags_of_fields v)
       (simp add: COLOR_sip_def DEPTH_sip_def)
qed

lemma image_publishers_frame:
  "rc_enable (fold image_publishers is s) = rc_enable s"
  "rc_imu_sync_method (fold image_publishers is s) = rc_imu_sync_method s"
  "United_Imu_Pub \<in> set (rn_publishers (fold image_publishers is s)) \<longleftrightarrow> United_Imu_Pub \<in> set (rn_publishers s)"
  by (rule fold_keeps; auto simp: image_publishers_def add_pubs_def)+

text \<open>
  A uniting method with only the gyroscope enabled: \<open>setupPublishers\<close> advertises the
  gyroscope's own topic and no united one, but the frames go to \<open>imu_callback_sync\<close>, whose publisher has
  no topic and therefore no subscriber; no frame ever publishes anything.
\<close>

theorem united_imu_without_accel_is_silent:
  assumes "rc_imu_sync_method s \<noteq> NONE" "enabled s GYRO_sip" "\<not> enabled s ACCEL_sip"
    "rn_publishers s = []" and t: "t = setupPublishers_rs junk s"
  shows "Single_Imu_Pub GYRO_sip ''gyro/sample'' \<in> set (rn_publishers t) \<and>
    United_Imu_Pub \<notin> set (rn_publishers t) \<and>
    callback_of Motion_Sensor s = Some (Imu_Sync_Callback (rc_imu_sync_method s)) \<and>
    sp_published (rn_synced t) = [] \<and>
    (let v = outcome_state (imu_callback_sync F (rc_imu_sync_method s) 0 f u) in
      in_single v = in_single u \<and> in_publisher v = in_publisher u)"
proof -
  let ?s = "fold image_publishers IMAGE_STREAMS_rs s"
  have f: "rc_imu_sync_method ?s = rc_imu_sync_method s" "enabled ?s = enabled s"
    "United_Imu_Pub \<notin> set (rn_publishers ?s)"
    using assms(4) by (simp_all add: image_publishers_frame enabled_def fun_eq_iff)
  have "rn_synced t = default_publisher (fst junk) (snd junk) \<and>
      Single_Imu_Pub GYRO_sip ''gyro/sample'' \<in> set (rn_publishers t) \<and> United_Imu_Pub \<notin> set (rn_publishers t)"
    using assms(1-3) f by (simp add: t setupPublishers_rs_def imu_publishers_def other_publishers_def add_pubs_def Let_def)
  moreover have "in_single v = in_single u \<and> in_publisher v = in_publisher u"
    if "v = outcome_state (imu_callback_sync F (rc_imu_sync_method s) 0 f u)" for v
    by (simp add: that imu_callback_sync_def unite_frame_def Let_def)
  ultimately show ?thesis
    using assms(1) by (simp add: imu_callback_function_def default_publisher_def Let_def)
qed

section \<open>Examples\<close>

lemma rs_do_total: "dv_error D (rn_calls s) c = None \<Longrightarrow> \<exists>t. rs_do D c s = Inr t"
  by (simp add: rs_do_def Let_def)

lemma setup_sensors_total:
  "\<forall>sn \<in> set sns. sn_kind sn \<noteq> Other_Sensor \<Longrightarrow> \<exists>t. fold_outcome setup_sensor sns s = Inr t"
proof (induction sns arbitrary: s)
  case (Cons sn sns)
  then obtain t where "setup_sensor sn s = Inr t" by (cases "sn_kind sn") (auto simp: setup_sensor_def Let_def)
  then show ?case using Cons by simp
qed simp

lemma setupDevice_total:
  assumes "\<forall>cs c. dv_error D cs c = None" "\<forall>sn \<in> set (dv_sensors D). sn_kind sn \<noteq> Other_Sensor"
  shows "\<exists>t. setupDevice_rs D s = Inr t"
proof -
  have do: "\<exists>t. rs_do D c u = Inr t" for c u by (rule rs_do_total) (use assms(1) in blast)
  have "\<exists>s1. load_json_file D s = Inr s1"
    using do [of _ s] by (simp add: load_json_file_def split: option.split)
  then obtain s1 where 1: "load_json_file D s = Inr s1" by blast
  have opt: "\<exists>v. (if b then rs_do D c u else Inr u) = Inr v" for b c u
    using do by (cases b) simp_all
  let ?u = "s1\<lparr>rn_dev_sensors := dv_sensors D\<rparr>"
  obtain s3 where 3: "(if rc_sync_frames ?u then rs_do D Syncer_Start ?u else Inr ?u) = Inr s3"
    using opt by blast
  obtain s4 where 4: "fold_outcome setup_sensor (dv_sensors D) s3 = Inr s4"
    using setup_sensors_total [OF assms(2)] by blast
  show ?thesis
    unfolding setupDevice_rs_def 1 and_then_Inr Let_def 3 4 by blast
qed

lemma setup_on_demo:
  assumes "p_str P ''pointcloud_texture_stream'' ''RS2_STREAM_COLOR'' = ''RS2_STREAM_COLOR''"
    and "set (filter_names (p_str P ''filters'' '''')) \<subseteq> known_filters"
  obtains s s1 s2 where "getParameters_rs P (BaseRealSenseNode junk) = Inr s"
    "setupDevice_rs demo_device s = Inr s1" "setupFilters s1 = Inr s2"
proof -
  obtain s where s: "getParameters_rs P (BaseRealSenseNode junk) = Inr s"
    using assms(1) by (simp add: getParameters_rs_def read_pointcloud_def rs2_string_to_stream_def Let_def)
  obtain s1 where s1: "setupDevice_rs demo_device s = Inr s1"
    using setupDevice_total [of demo_device s] by (auto simp: demo_device_def)
  have n: "rn_filters s1 = []"
    using setupDevice_result [OF started_node_fresh [OF s] s1] by simp
  have "DEPTH_sip \<in> set IMAGE_STREAMS_rs" by (simp add: IMAGE_STREAMS_rs_def)
  then have "rc_filters_str s1 = p_str P ''filters'' ''''"
    using setupDevice_sizes [OF s1] getParameters_sizes [OF s] by (simp add: sizes_def)
  then have "\<exists>s2. setupFilters s1 = Inr s2"
    using read_filters_known [of "split_at (CHR '','') (rc_filters_str s1)"] assms(2)
    by (simp add: setupFilters_def filter_names_def)
  then show ?thesis using s s1 that by blast
qed

definition colorizer_params :: ros_params where
  "colorizer_params = empty_params\<lparr>p_str := (\<lambda>n d. if n = ''filters'' then ''decimation, colorizer'' else d)\<rparr>"

lemma colorizer_names:
  "filter_names (p_str colorizer_params ''filters'' '''') = [''decimation'', ''colorizer'']"
  by (simp add: colorizer_params_def filter_names_def isspace_def)

lemma streams_served_by_first_sensor_witness:
  "\<exists>s s2 t. getParameters_rs empty_params (BaseRealSenseNode blank_node) = Inr s \<and>
    enable_devices s2 = Inr t \<and>
    served t DEPTH_sip (if enabled s DEPTH_sip then image_pick demo_device s2 DEPTH_sip else None)"
proof -
  obtain s s1 s2 where s: "getParameters_rs empty_params (BaseRealSenseNode blank_node) = Inr s"
    "setupDevice_rs demo_device s = Inr s1" "setupFilters s1 = Inr s2"
    by (rule setup_on_demo [of empty_params blank_node]) (simp_all add: filter_names_def known_filters_def)
  have "DEPTH_sip \<in> set IMAGE_STREAMS_rs" by (simp add: IMAGE_STREAMS_rs_def)
  then show ?thesis using streams_served_by_first_sensor [OF s] s(1) by blast
qed

lemma colorizer_overrides_depth_size_witness:
  "\<exists>s2 :: rs_node. rn_filters s2 \<noteq> [] \<and> rc_width s2 DEPTH_sip = 640"
proof -
  obtain s s1 s2 where s: "getParameters_rs colorizer_params (BaseRealSenseNode blank_node) = Inr s"
    "setupDevice_rs demo_device s = Inr s1" "setupFilters s1 = Inr s2"
    by (rule setup_on_demo [of colorizer_params blank_node])
       (simp add: colorizer_params_def, simp only: colorizer_names, simp add: known_filters_def)
  have "''colorizer'' \<in> set (filter_names (p_str colorizer_params ''filters'' ''''))"
    by (simp add: colorizer_names)
  from colorizer_overrides_depth_size [OF s this]
  have w: "rc_width s2 DEPTH_sip = 640" by (simp add: colorizer_params_def)
  have "rn_filters s1 = []"
    using setupDevice_result [OF started_node_fresh [OF s(1)] s(2)] by simp
  moreover have "rc_filters_str s1 = p_str colorizer_params ''filters'' ''''"
    using setupDevice_sizes [OF s(2)] getParameters_sizes [OF s(1), of DEPTH_sip]
    by (simp add: sizes_def IMAGE_STREAMS_rs_def)
  ultimately have "rn_filters s2 = filter_chain [''decimation'', ''colorizer''] (rc_align_depth s1) (rc_pointcloud s1)"
    using setupFilters_Inr [OF s(3)] by (simp add: colorizer_names finish_filters_fields)
  then show ?thesis using w by (intro exI [of _ s2]) (simp add: filter_chain_def)
qed


lemma united_imu_without_accel_is_silent_witness:
  "United_Imu_Pub \<notin> set (rn_publishers (setupPublishers_rs (False, 0)
     (blank_node\<lparr>rc_imu_sync_method := COPY, rc_enable := [(GYRO_sip, True)]\<rparr>)))"
  using united_imu_without_accel_is_silent [OF _ _ _ _ refl,
      of "blank_node\<lparr>rc_imu_sync_method := COPY, rc_enable := [(GYRO_sip, True)]\<rparr>" "(False, 0)"]
  by (simp add: enabled_def blank_node_def)

end
