(* ===== verification/Rs_Streams.thy ===== *)
theory Rs_Streams
  imports Rs_Setup_Props
begin

text \<open>
  Starting and stopping the sensors of the RealSense node (\<open>base_realsense_node.cpp\<close>): the second half
  of \<open>setupStreams\<close>, \<open>toggleSensors\<close> and the destructor.
\<close>

section \<open>The operations\<close>

text \<open>
  \<open>_sensors[...]\<close> of a stream without a sensor inserts an empty one, whose methods throw.
\<close>

definition sensor_of :: "rs_node \<Rightarrow> sip \<Rightarrow> string + sensor" where
  "sensor_of s i = (case map_of (rn_sensors s) i of
     None \<Rightarrow> Inl ''null pointer passed for argument sensor'' | Some sn \<Rightarrow> Inr sn)"

text \<open>The local maps \<open>profiles\<close> and \<open>active_sensors\<close>; a profile list is inserted in front.\<close>

type_synonym modules = "(string \<times> profile list) list \<times> (string \<times> sensor) list"

definition find_profiles :: "(string \<times> profile list) list \<Rightarrow> string \<Rightarrow> profile list" where
  "find_profiles m k = (case map_of m k of None \<Rightarrow> [] | Some ps \<Rightarrow> ps)"

definition add_module :: "sensor \<Rightarrow> profile list \<Rightarrow> modules \<Rightarrow> modules" where
  "add_module sn ps m =
     (map_put (sn_name sn) (ps @ find_profiles (fst m) (sn_name sn)) (fst m), map_put (sn_name sn) sn (snd m))"

fun collect_modules :: "rs_node \<Rightarrow> (sip \<times> profile list) list \<Rightarrow> modules \<Rightarrow> string + modules" where
  "collect_modules s [] m = Inr m"
| "collect_modules s (e # es) m =
     (case sensor_of s (fst e) of Inl err \<Rightarrow> Inl err
      | Inr sn \<Rightarrow> collect_modules s es (add_module sn (snd e) m))"

definition start_module :: "rs_device \<Rightarrow> (string \<times> sensor) list \<Rightarrow> string \<times> profile list \<Rightarrow> rs_node \<Rightarrow> rs_node outcome" where
  "start_module D active e s =
     (case map_of active (fst e) of
        None \<Rightarrow> Inl (Thrown ''null pointer passed for argument sensor'', s)
      | Some sn \<Rightarrow>
          and_then (rs_do D (Sensor_Open (sn_id sn) (snd e)) s)
            (\<lambda>s1. and_then (rs_do D (Sensor_Start (sn_id sn) (map_of (rn_callbacks s1) (fst e))) s1)
            (\<lambda>s2. Inr (if sn_kind sn = Depth_Sensor
                        then s2\<lparr>rn_depth_scale_meters := dv_depth_scale D (sn_id sn)\<rparr> else s2))))"

definition start_streams :: "rs_device \<Rightarrow> rs_node \<Rightarrow> rs_node outcome" where
  "start_streams D s =
     (case collect_modules s (rn_profiles s) ([], []) of
        Inl err \<Rightarrow> Inl (Thrown err, s)
      | Inr (profiles, active) \<Rightarrow> fold_outcome (start_module D active) profiles s)"

text \<open>One round of the loop that stops: the names of the modules that have been stopped, and the node.\<close>

definition stop_module :: "rs_device \<Rightarrow> sip \<times> profile list \<Rightarrow> string set \<times> rs_node \<Rightarrow> (string set \<times> rs_node) outcome" where
  "stop_module D e u =
     (case sensor_of (snd u) (fst e) of
        Inl err \<Rightarrow> Inl (Thrown err, u)
      | Inr sn \<Rightarrow>
          if sn_name sn \<in> fst u then Inr u
          else let names = insert (sn_name sn) (fst u) in
            (case and_then (rs_do D (Sensor_Stop (sn_id sn)) (snd u)) (rs_do D (Sensor_Close (sn_id sn))) of
               Inl (err, s') \<Rightarrow> Inl (err, (names, s'))
             | Inr s' \<Rightarrow> Inr (names, s')))"

definition stop_streams :: "rs_device \<Rightarrow> rs_node \<Rightarrow> rs_node outcome" where
  "stop_streams D s =
     (case fold_outcome (stop_module D) (rn_profiles s) ({}, s) of
        Inl (err, u) \<Rightarrow> Inl (err, snd u) | Inr u \<Rightarrow> Inr (snd u))"

definition toggleSensors :: "rs_device \<Rightarrow> bool \<Rightarrow> rs_node \<Rightarrow> rs_node outcome" where
  "toggleSensors D on s = (if on then start_streams D s else stop_streams D s)"

text \<open>The destructor catches what a round throws and goes on with the next profile.\<close>

definition destroy_node :: "rs_device \<Rightarrow> rs_node \<Rightarrow> rs_node" where
  "destroy_node D s = snd (fold (\<lambda>e u. outcome_state (stop_module D e u)) (rn_profiles s) ({}, s))"

section \<open>What a sensor allows\<close>

text \<open>
  librealsense: a sensor is opened when it is closed, started when it is open, stopped when it streams
  and closed when it is open; everything else throws.
\<close>

datatype sensor_state = Closed | Opened | Streaming

fun allowed :: "rs_call \<Rightarrow> (nat \<Rightarrow> sensor_state) \<Rightarrow> (nat \<Rightarrow> sensor_state) option" where
  "allowed (Sensor_Open n ps) f = (if f n = Closed then Some (f(n := Opened)) else None)"
| "allowed (Sensor_Start n cb) f = (if f n = Opened then Some (f(n := Streaming)) else None)"
| "allowed (Sensor_Stop n) f = (if f n = Streaming then Some (f(n := Opened)) else None)"
| "allowed (Sensor_Close n) f = (if f n = Opened then Some (f(n := Closed)) else None)"
| "allowed _ f = Some f"

text \<open>What the calls have left: a call that is not allowed is refused and changes nothing.\<close>

definition settle :: "rs_call \<Rightarrow> (nat \<Rightarrow> sensor_state) \<Rightarrow> nat \<Rightarrow> sensor_state" where
  "settle c f = (case allowed c f of None \<Rightarrow> f | Some g \<Rightarrow> g)"

definition sensors_after :: "rs_call list \<Rightarrow> nat \<Rightarrow> sensor_state" where
  "sensors_after cs = fold settle cs (\<lambda>_. Closed)"

lemma sensors_after_snoc: "sensors_after (cs @ [c]) = settle c (sensors_after cs)"
  by (simp add: sensors_after_def)

text \<open>A device that refuses exactly what is not allowed.\<close>

definition strict_device :: "rs_device \<Rightarrow> bool" where
  "strict_device D \<longleftrightarrow> (\<forall>cs c. dv_error D cs c = None \<longleftrightarrow> allowed c (sensors_after cs) \<noteq> None)"

definition sensors_now :: "rs_node \<Rightarrow> nat \<Rightarrow> sensor_state" where
  "sensors_now s = sensors_after (rn_calls s)"

definition streaming :: "nat set \<Rightarrow> nat \<Rightarrow> sensor_state" where
  "streaming A n = (if n \<in> A then Streaming else Closed)"

text \<open>What starting and stopping read and do not change.\<close>

definition wiring :: "rs_node \<Rightarrow> (sip \<times> profile list) list \<times> (sip \<times> sensor) list" where
  "wiring s = (rn_profiles s, rn_sensors s)"

lemma rs_do_allowed:
  assumes "strict_device D" "allowed c (sensors_now s) = Some g"
  obtains t where "rs_do D c s = Inr t" "sensors_now t = g" "wiring t = wiring s"
proof -
  have "dv_error D (rn_calls s) c = None"
    using assms by (simp add: strict_device_def sensors_now_def)
  then show ?thesis
    using assms(2) by (intro that [of "s\<lparr>rn_calls := rn_calls s @ [c]\<rparr>"])
      (simp_all add: rs_do_def sensors_now_def sensors_after_snoc settle_def wiring_def)
qed

lemma rs_do_refused:
  assumes "strict_device D" "allowed c (sensors_now s) = None"
  obtains e t where "rs_do D c s = Inl (e, t)" "sensors_now t = sensors_now s" "wiring t = wiring s"
proof -
  have "dv_error D (rn_calls s) c \<noteq> None"
    using assms by (metis strict_device_def sensors_now_def)
  then obtain e where "dv_error D (rn_calls s) c = Some e" by auto
  then show ?thesis
    using assms(2) by (intro that [of "Thrown e" "s\<lparr>rn_calls := rn_calls s @ [c]\<rparr>"])
      (simp_all add: rs_do_def sensors_now_def sensors_after_snoc settle_def wiring_def)
qed

section \<open>The modules in use\<close>

definition used_sensor :: "rs_node \<Rightarrow> sip \<Rightarrow> sensor" where
  "used_sensor s i = the (map_of (rn_sensors s) i)"

definition used :: "rs_node \<Rightarrow> sensor list" where
  "used s = map (\<lambda>e. used_sensor s (fst e)) (rn_profiles s)"

definition module_ids :: "rs_node \<Rightarrow> nat set" where
  "module_ids s = sn_id ` set (used s)"

text \<open>Every stream with a profile has a sensor, and sensors are told apart by their names.\<close>

definition streams_ok :: "rs_node \<Rightarrow> bool" where
  "streams_ok s \<longleftrightarrow> (\<forall>e \<in> set (rn_profiles s). map_of (rn_sensors s) (fst e) \<noteq> None) \<and>
     (\<forall>a \<in> set (used s). \<forall>b \<in> set (used s). sn_name a = sn_name b \<longleftrightarrow> sn_id a = sn_id b)"

lemma wiring_cong:
  assumes "wiring t = wiring s"
  shows "rn_profiles t = rn_profiles s" "rn_sensors t = rn_sensors s" "used t = used s"
    "module_ids t = module_ids s" "streams_ok t = streams_ok s" "sensor_of t = sensor_of s"
    "used_sensor t = used_sensor s"
  using assms
  by (auto simp: wiring_def used_def used_sensor_def [abs_def] module_ids_def streams_ok_def sensor_of_def fun_eq_iff)

lemma sensor_of_used: "map_of (rn_sensors s) i \<noteq> None \<Longrightarrow> sensor_of s i = Inr (used_sensor s i)"
  by (auto simp: sensor_of_def used_sensor_def)

text \<open>The maps of the starting loop: their keys are the names of the modules.\<close>

definition modules_ok :: "sensor set \<Rightarrow> modules \<Rightarrow> bool" where
  "modules_ok U m \<longleftrightarrow> map_ok (fst m) \<and> map_ok (snd m) \<and> dom (map_of (fst m)) = sn_name ` U \<and>
     dom (map_of (snd m)) = sn_name ` U \<and> (\<forall>k sn. map_of (snd m) k = Some sn \<longrightarrow> sn \<in> U \<and> sn_name sn = k)"

lemma add_module_ok: "modules_ok U m \<Longrightarrow> modules_ok (insert sn U) (add_module sn ps m)"
  by (auto simp: modules_ok_def add_module_def map_ok_put map_of_put split: if_splits)

lemma collect_modules_ok:
  assumes "\<forall>e \<in> set es. map_of (rn_sensors s) (fst e) \<noteq> None" "modules_ok U m"
  obtains m' where "collect_modules s es m = Inr m'"
    "modules_ok (U \<union> (\<lambda>e. used_sensor s (fst e)) ` set es) m'"
  using assms
proof (induction es arbitrary: U m thesis)
  case (Cons e es)
  let ?sn = "used_sensor s (fst e)"
  have "modules_ok (insert ?sn U) (add_module ?sn (snd e) m)"
    by (rule add_module_ok) (rule Cons.prems(3))
  moreover have "\<forall>e \<in> set es. map_of (rn_sensors s) (fst e) \<noteq> None" using Cons.prems(2) by simp
  ultimately obtain m' where "collect_modules s es (add_module ?sn (snd e) m) = Inr m'"
    "modules_ok (insert ?sn U \<union> (\<lambda>e. used_sensor s (fst e)) ` set es) m'"
    using Cons.IH by blast
  then show ?case
    using Cons.prems(1,2) by (simp add: sensor_of_used)
qed simp

section \<open>Starting\<close>

lemma start_module_step:
  assumes "strict_device D" "map_of active (fst e) = Some sn" "sensors_now s (sn_id sn) = Closed"
  obtains t where "start_module D active e s = Inr t" "sensors_now t = (sensors_now s)(sn_id sn := Streaming)"
    "wiring t = wiring s"
proof -
  obtain s1 where s1: "rs_do D (Sensor_Open (sn_id sn) (snd e)) s = Inr s1"
    "sensors_now s1 = (sensors_now s)(sn_id sn := Opened)" "wiring s1 = wiring s"
    using rs_do_allowed [OF assms(1), of "Sensor_Open (sn_id sn) (snd e)" s] assms(3) by auto
  obtain s2 where s2: "rs_do D (Sensor_Start (sn_id sn) (map_of (rn_callbacks s1) (fst e))) s1 = Inr s2"
    "sensors_now s2 = (sensors_now s1)(sn_id sn := Streaming)" "wiring s2 = wiring s1"
    using rs_do_allowed [OF assms(1), of "Sensor_Start (sn_id sn) (map_of (rn_callbacks s1) (fst e))" s1] s1(2)
    by auto
  show ?thesis
    by (rule that [of "if sn_kind sn = Depth_Sensor
        then s2\<lparr>rn_depth_scale_meters := dv_depth_scale D (sn_id sn)\<rparr> else s2"])
       (use s1 s2 assms(2) in \<open>simp_all add: start_module_def sensors_now_def wiring_def\<close>)
qed

lemma start_fold:
  fixes active :: "(string \<times> sensor) list"
  defines "mid \<equiv> \<lambda>e :: string \<times> profile list. sn_id (the (map_of active (fst e)))"
  assumes "strict_device D" "\<forall>e \<in> set es. map_of active (fst e) \<noteq> None" "distinct (map mid es)"
    "\<forall>e \<in> set es. sensors_now s (mid e) = Closed"
  shows "\<exists>t. fold_outcome (start_module D active) es s = Inr t \<and> wiring t = wiring s \<and>
    sensors_now t = (\<lambda>n. if n \<in> mid ` set es then Streaming else sensors_now s n)"
  using assms(3-)
proof (induction es arbitrary: s)
  case (Cons e es)
  obtain sn where sn: "map_of active (fst e) = Some sn" using Cons.prems(1) by auto
  then have m: "mid e = sn_id sn" by (simp add: mid_def)
  obtain u where u: "start_module D active e s = Inr u"
    "sensors_now u = (sensors_now s)(sn_id sn := Streaming)" "wiring u = wiring s"
    using start_module_step [OF assms(2) sn, of s] Cons.prems(3) m by auto
  have "\<forall>e' \<in> set es. sensors_now u (mid e') = Closed"
  proof
    fix e' assume e': "e' \<in> set es"
    then have "mid e' \<noteq> mid e" using Cons.prems(2) by (metis distinct.simps(2) image_eqI list.simps(9) set_map)
    then show "sensors_now u (mid e') = Closed" using e' Cons.prems(3) by (simp add: u(2) m)
  qed
  then obtain t where t: "fold_outcome (start_module D active) es u = Inr t" "wiring t = wiring u"
    "sensors_now t = (\<lambda>n. if n \<in> mid ` set es then Streaming else sensors_now u n)"
    using Cons.IH [of u] Cons.prems(1,2) by auto
  have "sensors_now t = (\<lambda>n. if n \<in> mid ` set (e # es) then Streaming else sensors_now s n)"
    unfolding t(3) u(2) by (auto simp: m)
  then show ?case using t(1,2) u(1,3) by (intro exI [of _ t]) simp
qed simp

lemma start_from_closed:
  assumes "strict_device D" "streams_ok s" "sensors_now s = (\<lambda>_. Closed)"
  obtains t where "start_streams D s = Inr t" "wiring t = wiring s" "sensors_now t = streaming (module_ids s)"
proof -
  have sens: "\<forall>e \<in> set (rn_profiles s). map_of (rn_sensors s) (fst e) \<noteq> None"
    using assms(2) by (simp add: streams_ok_def)
  have U: "(\<lambda>e. used_sensor s (fst e)) ` set (rn_profiles s) = set (used s)" by (simp add: used_def)
  have "modules_ok {} ([], [])" by (simp add: modules_ok_def map_ok_def)
  from collect_modules_ok [OF sens this] obtain pm am where
    c: "collect_modules s (rn_profiles s) ([], []) = Inr (pm, am)" and ok: "modules_ok (set (used s)) (pm, am)"
    unfolding U by (metis prod.collapse sup_bot_left)
  define mid where "mid = (\<lambda>e :: string \<times> profile list. sn_id (the (map_of am (fst e))))"
  have keys: "fst ` set pm = sn_name ` set (used s)" "distinct (map fst pm)"
    using ok by (auto simp: modules_ok_def dom_map_of_conv_image_fst map_ok_def strict_sorted_iff)
  have am: "\<exists>sn \<in> set (used s). map_of am k = Some sn \<and> sn_name sn = k" if "k \<in> fst ` set pm" for k
    using ok that keys(1) by (auto simp: modules_ok_def) blast
  have inj: "inj_on (\<lambda>k. sn_id (the (map_of am k))) (fst ` set pm)"
    using am assms(2) unfolding inj_on_def streams_ok_def by (metis option.sel)
  have "distinct (map mid pm)"
    using keys(2) comp_inj_on [OF _ inj] by (simp add: mid_def distinct_map o_def)
  moreover have "mid ` set pm = module_ids s"
  proof
    show "mid ` set pm \<subseteq> module_ids s" using am by (fastforce simp: mid_def module_ids_def)
    show "module_ids s \<subseteq> mid ` set pm"
    proof
      fix n assume "n \<in> module_ids s"
      then obtain a where a: "a \<in> set (used s)" "n = sn_id a" by (auto simp: module_ids_def)
      then obtain e where e: "e \<in> set pm" "fst e = sn_name a" using keys(1) by (metis imageE imageI)
      then obtain b where "b \<in> set (used s)" "map_of am (fst e) = Some b" "sn_name b = sn_name a"
        using am by force
      then have "mid e = n" using a assms(2) by (auto simp: mid_def streams_ok_def)
      with e show "n \<in> mid ` set pm" by blast
    qed
  qed
  moreover have "\<forall>e \<in> set pm. map_of am (fst e) \<noteq> None" using am by force
  ultimately have "\<exists>t. fold_outcome (start_module D am) pm s = Inr t \<and> wiring t = wiring s \<and>
    sensors_now t = (\<lambda>n. if n \<in> module_ids s then Streaming else Closed)"
    using start_fold [OF assms(1), of pm am s, folded mid_def, unfolded assms(3)] by simp
  then obtain t where "fold_outcome (start_module D am) pm s = Inr t" "wiring t = wiring s"
    "sensors_now t = (\<lambda>n. if n \<in> module_ids s then Streaming else Closed)" by blast
  then show ?thesis
    using c by (intro that [of t]) (simp_all add: start_streams_def streaming_def [abs_def])
qed

text \<open>A running node: the first sensor is open already, and nothing happens.\<close>

lemma start_while_streaming:
  assumes "strict_device D" "streams_ok s" "sensors_now s = streaming (module_ids s)" "rn_profiles s \<noteq> []"
  obtains e t where "start_streams D s = Inl (e, t)" "wiring t = wiring s" "sensors_now t = sensors_now s"
proof -
  have sens: "\<forall>e \<in> set (rn_profiles s). map_of (rn_sensors s) (fst e) \<noteq> None"
    using assms(2) by (simp add: streams_ok_def)
  have U: "(\<lambda>e. used_sensor s (fst e)) ` set (rn_profiles s) = set (used s)" by (simp add: used_def)
  have "modules_ok {} ([], [])" by (simp add: modules_ok_def map_ok_def)
  from collect_modules_ok [OF sens this] obtain pm am where
    c: "collect_modules s (rn_profiles s) ([], []) = Inr (pm, am)" and ok: "modules_ok (set (used s)) (pm, am)"
    unfolding U by (metis prod.collapse sup_bot_left)
  have keys: "fst ` set pm = sn_name ` set (used s)"
    using ok by (auto simp: modules_ok_def dom_map_of_conv_image_fst)
  moreover have "used s \<noteq> []" using assms(4) by (simp add: used_def)
  ultimately obtain e pm' where pm: "pm = e # pm'" by (cases pm) auto
  have "fst e \<in> dom (map_of am)" using ok keys by (auto simp: modules_ok_def pm)
  then obtain a where a: "map_of am (fst e) = Some a" by auto
  then have "a \<in> set (used s)" using ok by (auto simp: modules_ok_def)
  then have "sensors_now s (sn_id a) = Streaming" by (simp add: assms(3) streaming_def module_ids_def)
  then have "allowed (Sensor_Open (sn_id a) (snd e)) (sensors_now s) = None" by simp
  from rs_do_refused [OF assms(1) this] obtain err t where
    "rs_do D (Sensor_Open (sn_id a) (snd e)) s = Inl (err, t)" "sensors_now t = sensors_now s" "wiring t = wiring s"
    by blast
  then show ?thesis
    using c a by (intro that [of err t]) (simp_all add: start_streams_def pm start_module_def)
qed

section \<open>Stopping\<close>

lemma stop_module_step:
  assumes "strict_device D" "sensor_of s (fst e) = Inr sn" "sn_name sn \<notin> N" "sensors_now s (sn_id sn) = Streaming"
  obtains t where "stop_module D e (N, s) = Inr (insert (sn_name sn) N, t)"
    "sensors_now t = (sensors_now s)(sn_id sn := Closed)" "wiring t = wiring s"
proof -
  obtain s1 where s1: "rs_do D (Sensor_Stop (sn_id sn)) s = Inr s1"
    "sensors_now s1 = (sensors_now s)(sn_id sn := Opened)" "wiring s1 = wiring s"
    using rs_do_allowed [OF assms(1), of "Sensor_Stop (sn_id sn)" s] assms(4) by auto
  obtain s2 where s2: "rs_do D (Sensor_Close (sn_id sn)) s1 = Inr s2"
    "sensors_now s2 = (sensors_now s1)(sn_id sn := Closed)" "wiring s2 = wiring s1"
    using rs_do_allowed [OF assms(1), of "Sensor_Close (sn_id sn)" s1] s1(2) by auto
  show ?thesis
    by (rule that [of s2]) (use s1 s2 assms(2,3) in \<open>simp_all add: stop_module_def Let_def\<close>)
qed

lemma stop_module_refused:
  assumes "strict_device D" "sensor_of s (fst e) = Inr sn" "sensors_now s (sn_id sn) \<noteq> Streaming" "sn_name sn \<notin> N"
  obtains err t where "stop_module D e (N, s) = Inl (err, (insert (sn_name sn) N, t))"
    "sensors_now t = sensors_now s" "wiring t = wiring s"
proof -
  have "allowed (Sensor_Stop (sn_id sn)) (sensors_now s) = None" using assms(3) by simp
  from rs_do_refused [OF assms(1) this] obtain err t where
    "rs_do D (Sensor_Stop (sn_id sn)) s = Inl (err, t)" "sensors_now t = sensors_now s" "wiring t = wiring s"
    by blast
  then show ?thesis
    using assms(2,4) by (intro that [of err t]) (simp_all add: stop_module_def Let_def)
qed

text \<open>
  The loop in a node whose sensors, those already stopped apart, all stream: the rest is stopped.  The
  names in \<open>N\<close> are those of the sensors in \<open>A\<close>.
\<close>

definition sensors_of :: "rs_node \<Rightarrow> (sip \<times> profile list) list \<Rightarrow> sensor set" where
  "sensors_of s es = (\<lambda>e. used_sensor s (fst e)) ` set es"

lemma stop_fold:
  assumes "strict_device D" "streams_ok s" "set es \<subseteq> set (rn_profiles s)" "A \<subseteq> set (used s)"
    "N = sn_name ` A" "sensors_now s = streaming (module_ids s - sn_id ` A)"
  shows "\<exists>M t. fold_outcome (stop_module D) es (N, s) = Inr (M, t) \<and> wiring t = wiring s \<and>
    sensors_now t = streaming (module_ids s - sn_id ` (A \<union> sensors_of s es))"
  using assms(2-)
proof (induction es arbitrary: s A N)
  case Nil
  then show ?case by (simp add: sensors_of_def)
next
  case (Cons e es)
  let ?sn = "used_sensor s (fst e)"
  have "e \<in> set (rn_profiles s)" using Cons.prems(2) by simp
  then have sn: "sensor_of s (fst e) = Inr ?sn" and u: "?sn \<in> set (used s)"
    using Cons.prems(1) by (auto simp: streams_ok_def used_def intro: sensor_of_used)
  have same: "sn_name ?sn \<in> N \<longleftrightarrow> sn_id ?sn \<in> sn_id ` A"
    using u Cons.prems(1,3,4) by (auto simp: streams_ok_def) blast+
  have so: "sensors_of s (e # es) = insert ?sn (sensors_of s es)" by (simp add: sensors_of_def)
  show ?case
  proof (cases "sn_name ?sn \<in> N")
    case True
    have "sn_id ` (A \<union> sensors_of s (e # es)) = sn_id ` (A \<union> sensors_of s es)"
      using True same by (auto simp: so)
    moreover have "fold_outcome (stop_module D) (e # es) (N, s) = fold_outcome (stop_module D) es (N, s)"
      using True sn by (simp add: stop_module_def)
    ultimately show ?thesis
      using Cons.IH [OF Cons.prems(1) _ Cons.prems(3,4,5)] Cons.prems(2) by simp
  next
    case False
    then have "sensors_now s (sn_id ?sn) = Streaming"
      using same u by (simp add: Cons.prems(5) streaming_def module_ids_def)
    from stop_module_step [OF assms(1) sn False this] obtain t where
      t: "stop_module D e (N, s) = Inr (insert (sn_name ?sn) N, t)"
      "sensors_now t = (sensors_now s)(sn_id ?sn := Closed)" "wiring t = wiring s" by blast
    note w = wiring_cong [OF t(3)]
    have now: "sensors_now t = streaming (module_ids t - sn_id ` insert ?sn A)"
      by (auto simp: t(2) Cons.prems(5) w(4) streaming_def fun_eq_iff)
    have "\<exists>M v. fold_outcome (stop_module D) es (insert (sn_name ?sn) N, t) = Inr (M, v) \<and>
        wiring v = wiring t \<and> sensors_now v = streaming (module_ids t - sn_id ` (insert ?sn A \<union> sensors_of t es))"
      by (rule Cons.IH [OF _ _ _ _ now]) (use Cons.prems u w in auto)
    moreover have "sensors_of t es = sensors_of s es" by (simp add: sensors_of_def w(7))
    ultimately show ?thesis using t w(4) by (auto simp: so)
  qed
qed

lemma sensors_of_all: "sensors_of s (rn_profiles s) = set (used s)"
  by (simp add: sensors_of_def used_def)

lemma stop_from_streaming:
  assumes "strict_device D" "streams_ok s" "sensors_now s = streaming (module_ids s)"
  obtains M t where "fold_outcome (stop_module D) (rn_profiles s) ({}, s) = Inr (M, t)" "wiring t = wiring s"
    "sensors_now t = (\<lambda>_. Closed)"
  using stop_fold [OF assms(1,2), of "rn_profiles s" "{}" "{}"] assms(3)
  by (auto simp: sensors_of_all module_ids_def streaming_def [abs_def])

text \<open>A node that does not stream refuses at the first sensor.\<close>

lemma stop_while_closed:
  assumes "strict_device D" "streams_ok s" "sensors_now s = (\<lambda>_. Closed)" "rn_profiles s \<noteq> []"
  obtains err t where "stop_streams D s = Inl (err, t)" "wiring t = wiring s" "sensors_now t = sensors_now s"
proof -
  obtain e es where p: "rn_profiles s = e # es" using assms(4) by (cases "rn_profiles s") auto
  then have sn: "sensor_of s (fst e) = Inr (used_sensor s (fst e))"
    using assms(2) by (intro sensor_of_used) (simp add: streams_ok_def)
  have "sensors_now s (sn_id (used_sensor s (fst e))) \<noteq> Streaming" by (simp add: assms(3))
  from stop_module_refused [OF assms(1) sn this, of "{}"] obtain err t where
    "stop_module D e ({}, s) = Inl (err, ({sn_name (used_sensor s (fst e))}, t))"
    "sensors_now t = sensors_now s" "wiring t = wiring s" by auto
  then show ?thesis by (intro that [of err t]) (simp_all add: stop_streams_def p)
qed

lemma fold_outcome_Inr: "fold_outcome f xs s = Inr t \<Longrightarrow> fold (\<lambda>x u. outcome_state (f x u)) xs s = t"
proof (induction xs arbitrary: s)
  case (Cons x xs)
  then obtain u where "f x s = Inr u" "fold_outcome f xs u = Inr t" by (auto simp: and_then_eq_Inr)
  then show ?case using Cons.IH by simp
qed simp

lemma destroy_closed_step:
  assumes "strict_device D" "map_of (rn_sensors s) (fst e) \<noteq> None" "sensors_now s = (\<lambda>_. Closed)"
  shows "sensors_now (snd (outcome_state (stop_module D e (N, s)))) = (\<lambda>_. Closed) \<and>
    wiring (snd (outcome_state (stop_module D e (N, s)))) = wiring s"
proof (cases "sn_name (used_sensor s (fst e)) \<in> N")
  case True
  then show ?thesis using sensor_of_used [OF assms(2)] assms(3) by (simp add: stop_module_def)
next
  case False
  have "sensors_now s (sn_id (used_sensor s (fst e))) \<noteq> Streaming" by (simp add: assms(3))
  from stop_module_refused [OF assms(1) sensor_of_used [OF assms(2)] this False]
  obtain err t where "stop_module D e (N, s) = Inl (err, (insert (sn_name (used_sensor s (fst e))) N, t))"
    "sensors_now t = sensors_now s" "wiring t = wiring s" by blast
  then show ?thesis using assms(3) by simp
qed

lemma destroy_closed:
  assumes "strict_device D" "\<forall>e \<in> set es. map_of (rn_sensors (snd u)) (fst e) \<noteq> None"
    "sensors_now (snd u) = (\<lambda>_. Closed)"
  shows "sensors_now (snd (fold (\<lambda>e u. outcome_state (stop_module D e u)) es u)) = (\<lambda>_. Closed)"
  using assms(2-)
proof (induction es arbitrary: u)
  case (Cons e es)
  let ?v = "outcome_state (stop_module D e u)"
  have v: "sensors_now (snd ?v) = (\<lambda>_. Closed)" "wiring (snd ?v) = wiring (snd u)"
    using destroy_closed_step [OF assms(1), of "snd u" e "fst u"] Cons.prems by simp_all
  then show ?case using Cons.IH [of ?v] Cons.prems(1) wiring_cong(2) [OF v(2)] by simp
qed simp

section \<open>Histories of requests\<close>

definition running :: "bool \<Rightarrow> rs_node \<Rightarrow> bool" where
  "running on s \<longleftrightarrow> streams_ok s \<and> sensors_now s = (if on then streaming (module_ids s) else (\<lambda>_. Closed))"

lemma no_streams:
  assumes "rn_profiles s = []"
  shows "toggleSensors D b s = Inr s" "streaming (module_ids s) = (\<lambda>_. Closed)"
  using assms
  by (simp_all add: toggleSensors_def start_streams_def stop_streams_def module_ids_def used_def
      streaming_def [abs_def])

lemma toggle_step:
  assumes "strict_device D" "running on s"
  shows "running b (outcome_state (toggleSensors D b s)) \<and>
    wiring (outcome_state (toggleSensors D b s)) = wiring s \<and>
    (faulted (toggleSensors D b s) \<longleftrightarrow> b = on \<and> rn_profiles s \<noteq> [])"
proof -
  have ok: "streams_ok s" and now: "sensors_now s = (if on then streaming (module_ids s) else (\<lambda>_. Closed))"
    using assms(2) by (simp_all add: running_def)
  have run: "running b t" if "wiring t = wiring s"
      "sensors_now t = (if b then streaming (module_ids s) else (\<lambda>_. Closed))" for t
    using that ok wiring_cong [OF that(1)] by (simp add: running_def)
  show ?thesis
  proof (cases "rn_profiles s = []")
    case True
    then show ?thesis using run [of s] now no_streams [OF True] by (cases on) simp_all
  next
    case False
    consider "b" "on" | "b" "\<not> on" | "\<not> b" "on" | "\<not> b" "\<not> on" by blast
    then show ?thesis
    proof cases
      case 1
      obtain e t where "start_streams D s = Inl (e, t)" "wiring t = wiring s" "sensors_now t = sensors_now s"
        using start_while_streaming [OF assms(1) ok _ False] now 1 by auto
      then show ?thesis using run [of t] now 1 False by (simp add: toggleSensors_def)
    next
      case 2
      obtain t where "start_streams D s = Inr t" "wiring t = wiring s" "sensors_now t = streaming (module_ids s)"
        using start_from_closed [OF assms(1) ok] now 2 by auto
      then show ?thesis using run [of t] 2 by (simp add: toggleSensors_def)
    next
      case 3
      obtain M t where "fold_outcome (stop_module D) (rn_profiles s) ({}, s) = Inr (M, t)"
        "wiring t = wiring s" "sensors_now t = (\<lambda>_. Closed)"
        using stop_from_streaming [OF assms(1) ok] now 3 by auto
      then show ?thesis using run [of t] 3 by (simp add: toggleSensors_def stop_streams_def)
    next
      case 4
      obtain e t where "stop_streams D s = Inl (e, t)" "wiring t = wiring s" "sensors_now t = sensors_now s"
        using stop_while_closed [OF assms(1) ok _ False] now 4 by auto
      then show ?thesis using run [of t] now 4 False by (simp add: toggleSensors_def)
    qed
  qed
qed

definition requests :: "rs_device \<Rightarrow> bool list \<Rightarrow> rs_node \<Rightarrow> rs_node" where
  "requests D bs s = fold (\<lambda>b s. outcome_state (toggleSensors D b s)) bs s"

lemma requests_running:
  assumes "strict_device D"
  shows "running on s \<Longrightarrow> running (last (on # bs)) (requests D bs s) \<and> wiring (requests D bs s) = wiring s"
proof (induction bs arbitrary: on s)
  case (Cons b bs)
  let ?t = "outcome_state (toggleSensors D b s)"
  note t = toggle_step [OF assms Cons.prems, of b]
  show ?case using Cons.IH [of b ?t] t by (simp add: requests_def)
qed (simp add: requests_def)

lemma destroy_running:
  assumes "strict_device D" "running on s"
  shows "sensors_now (destroy_node D s) = (\<lambda>_. Closed)"
proof (cases on)
  case True
  then have "streams_ok s" "sensors_now s = streaming (module_ids s)"
    using assms(2) by (simp_all add: running_def)
  then obtain M t where "fold_outcome (stop_module D) (rn_profiles s) ({}, s) = Inr (M, t)"
    "wiring t = wiring s" "sensors_now t = (\<lambda>_. Closed)"
    by (rule stop_from_streaming [OF assms(1)])
  then show ?thesis by (simp add: destroy_node_def fold_outcome_Inr)
next
  case False
  then show ?thesis
    using destroy_closed [OF assms(1), of "rn_profiles s" "({}, s)"] assms(2)
    by (simp add: destroy_node_def running_def streams_ok_def)
qed

text \<open>
  Claim C23.  On a device that refuses exactly the calls that do not fit the state of the sensor: the first
  start succeeds, and after any history of requests to switch the sensors on or off (a service call that
  throws included) either every sensor with an enabled stream streams and no other, or all are closed,
  according to the last request.  A request throws exactly when it repeats the previous one, and the
  destructor closes every sensor in either case.
\<close>

theorem toggle_follows_last_request:
  assumes "strict_device D" "streams_ok s0" "sensors_now s0 = (\<lambda>_. Closed)"
  shows "\<exists>s. start_streams D s0 = Inr s \<and> (\<forall>bs. let t = requests D bs s in
    sensors_now t = (if last (True # bs) then streaming (module_ids s0) else (\<lambda>_. Closed)) \<and>
    (\<forall>b. faulted (toggleSensors D b t) \<longleftrightarrow> b = last (True # bs) \<and> rn_profiles s0 \<noteq> []) \<and>
    sensors_now (destroy_node D t) = (\<lambda>_. Closed))"
proof -
  obtain s where s: "start_streams D s0 = Inr s" "wiring s = wiring s0"
    "sensors_now s = streaming (module_ids s0)"
    by (rule start_from_closed [OF assms])
  note w = wiring_cong [OF s(2)]
  have "running True s" using s(3) assms(2) w by (simp add: running_def)
  then have r: "running (last (True # bs)) (requests D bs s)" "wiring (requests D bs s) = wiring s0" for bs
    using requests_running [OF assms(1)] s(2) by auto
  have "let t = requests D bs s in
    sensors_now t = (if last (True # bs) then streaming (module_ids s0) else (\<lambda>_. Closed)) \<and>
    (\<forall>b. faulted (toggleSensors D b t) \<longleftrightarrow> b = last (True # bs) \<and> rn_profiles s0 \<noteq> []) \<and>
    sensors_now (destroy_node D t) = (\<lambda>_. Closed)" for bs
    using r [of bs] toggle_step [OF assms(1) r(1)] destroy_running [OF assms(1) r(1)]
      wiring_cong [OF r(2)]
    by (simp add: Let_def running_def)
  then show ?thesis using s(1) by blast
qed

definition strict_demo :: rs_device where
  "strict_demo = demo_device\<lparr>dv_error :=
     (\<lambda>cs c. if allowed c (sensors_after cs) = None then Some ''wrong state'' else None)\<rparr>"

definition demo_running :: rs_node where
  "demo_running = blank_node\<lparr>rn_sensors := [(DEPTH_sip, hd (dv_sensors demo_device))],
     rn_profiles := [(DEPTH_sip, [demo_profile])]\<rparr>"

lemma toggle_follows_last_request_witness:
  "\<exists>s. start_streams strict_demo demo_running = Inr s \<and>
    sensors_now (requests strict_demo [False] s) = (\<lambda>_. Closed) \<and>
    faulted (toggleSensors strict_demo False (requests strict_demo [False] s))"
proof -
  have "strict_device strict_demo" by (auto simp: strict_device_def strict_demo_def)
  moreover have "streams_ok demo_running"
    by (simp add: streams_ok_def demo_running_def used_def used_sensor_def)
  moreover have "sensors_now demo_running = (\<lambda>_. Closed)"
    by (simp add: sensors_now_def demo_running_def blank_node_def sensors_after_def)
  ultimately obtain s where s: "start_streams strict_demo demo_running = Inr s"
    "\<forall>bs. let t = requests strict_demo bs s in
      sensors_now t = (if last (True # bs) then streaming (module_ids demo_running) else (\<lambda>_. Closed)) \<and>
      (\<forall>b. faulted (toggleSensors strict_demo b t) \<longleftrightarrow> b = last (True # bs) \<and> rn_profiles demo_running \<noteq> []) \<and>
      sensors_now (destroy_node strict_demo t) = (\<lambda>_. Closed)"
    using toggle_follows_last_request by blast
  have "rn_profiles demo_running \<noteq> []" by (simp add: demo_running_def)
  then show ?thesis using s(1) s(2) [rule_format, of "[False]"] by (simp add: Let_def)
qed

end
