(* ===== verification/Rs_Calib.thy ===== *)
theory Rs_Calib
  imports Rs_Setup Ros_Messages
begin

text \<open>
  Calibration in the RealSense node (\<open>base_realsense_node.cpp\<close>): the members that exist once the streams
  are set up, \<open>getAProfile\<close>, \<open>updateStreamCalibData\<close>, the inertial calibration and the messages made of
  them.
\<close>

section \<open>Calibration data\<close>

datatype distortion = RS2_DISTORTION_KANNALA_BRANDT4 | Other_Distortion

record intrinsics =
  in_width :: nat
  in_height :: nat
  in_fx :: float32
  in_fy :: float32
  in_ppx :: float32
  in_ppy :: float32
  in_model :: distortion
  in_coeffs :: "float32 list"

text \<open>Nine numbers, column by column, and three.\<close>

record extrinsics =
  ex_rotation :: "float32 list"
  ex_translation :: "float32 list"

definition unity_extrinsics :: extrinsics where
  "unity_extrinsics = \<lparr>ex_rotation = [one32, 0, 0, 0, one32, 0, 0, 0, one32], ex_translation = [0, 0, 0]\<rparr>"

text \<open>Three rows of four numbers, and the variances.\<close>

record motion_intrinsics =
  mi_data :: "float32 list list"
  mi_noise :: "float32 list"
  mi_bias :: "float32 list"

definition unity_motion :: motion_intrinsics where
  "unity_motion = \<lparr>mi_data = [[one32, 0, 0, 0], [0, one32, 0, 0], [0, 0, one32, 0]],
     mi_noise = [0, 0, 0], mi_bias = [0, 0, 0]\<rparr>"

text \<open>\<open>sensor_msgs::CameraInfo\<close> with the fields of its header.\<close>

record rs_info = CameraInfo +
  ci_frame_id :: string
  ci_stamp :: float64
  ci_seq :: int

definition new_info :: rs_info where
  "new_info = CameraInfo.extend empty_info \<lparr>ci_frame_id = '''', ci_stamp = d_zero, ci_seq = 0\<rparr>"

record imu_info =
  ii_frame_id :: string
  ii_data :: "float64 list"
  ii_noise_variances :: "float64 list"
  ii_bias_variances :: "float64 list"

record extrinsics_msg =
  em_frame_id :: string
  em_rotation :: "float64 list"
  em_translation :: "float64 list"

section \<open>State\<close>

text \<open>The members that the set-up of the streams and the transforms adds; what is sent, in order.\<close>

record rs_rt = rs_node +
  rt_intrinsics :: "sip \<Rightarrow> intrinsics option"
  rt_camera_info :: "sip \<Rightarrow> rs_info option"
  rt_aligned_info :: "sip \<Rightarrow> rs_info option"
  rt_imu_infos :: "(sip \<times> imu_info) list"
  rt_static_tf :: "tf_msg list"
  rt_tf_thread :: bool
  rt_tf_sent :: "tf_msg list list"
  rt_extrinsics :: "sip \<Rightarrow> extrinsics option"
  rt_extrinsics_sent :: "(sip \<times> extrinsics_msg) list"

text \<open>The device's answers; the left summand is the message of the exception.\<close>

record calib_env =
  cb_intrinsics :: "profile \<Rightarrow> string + intrinsics"
  cb_extrinsics :: "profile \<Rightarrow> profile \<Rightarrow> string + extrinsics"
  cb_motion :: "profile \<Rightarrow> string + motion_intrinsics"

text \<open>Single-precision arithmetic.\<close>

record rt_fp = rs_fp +
  f32_neg :: "float32 \<Rightarrow> float32"
  f32_sub :: "float32 \<Rightarrow> float32 \<Rightarrow> float32"
  f32_mul :: "float32 \<Rightarrow> float32 \<Rightarrow> float32"
  f32_div :: "float32 \<Rightarrow> float32 \<Rightarrow> float32"
  f32_of_u16 :: "16 word \<Rightarrow> float32"
  f32_to_u16 :: "float32 \<Rightarrow> 16 word"
  f32_of_int :: "int \<Rightarrow> float32"
  f32_to_int :: "float32 \<Rightarrow> int"
  f32_of_rat :: "rat \<Rightarrow> float32"

section \<open>\<open>getAProfile\<close> and \<open>getEnabledProfile\<close>\<close>

text \<open>
  \<open>_sensors[stream]\<close> of a stream without sensor is an empty sensor, whose methods throw; the result of
  \<open>find_if\<close> is dereferenced without a test.
\<close>

definition getAProfile :: "'a rs_node_scheme \<Rightarrow> sip \<Rightarrow> fault + profile" where
  "getAProfile s stream =
     (case map_of (rn_sensors s) stream of
        None \<Rightarrow> Inl (Thrown ''null pointer passed for argument sensor'')
      | Some sn \<Rightarrow> (case find (\<lambda>p. pf_sip p = stream) (sn_profiles sn) of
          None \<Rightarrow> Inl (OutOfBounds ''profiles.end()'') | Some p \<Rightarrow> Inr p))"

definition getEnabledProfile :: "'a rs_node_scheme \<Rightarrow> sip \<Rightarrow> profile option" where
  "getEnabledProfile s stream_index =
     (case map_of (rn_profiles s) stream_index of
        None \<Rightarrow> None | Some ps \<Rightarrow> find (\<lambda>p. pf_stream p = fst stream_index) ps)"

section \<open>\<open>updateStreamCalibData\<close>\<close>

definition calib_K :: "rt_fp \<Rightarrow> intrinsics \<Rightarrow> float64 list \<Rightarrow> float64 list" where
  "calib_K F i K = K[0 := fp_widen F (in_fx i), 2 := fp_widen F (in_ppx i), 4 := fp_widen F (in_fy i),
     5 := fp_widen F (in_ppy i), 8 := d_one]"

definition calib_P :: "float64 list \<Rightarrow> float64 list" where
  "calib_P K = [K ! 0, d_zero, K ! 2, d_zero, d_zero, K ! 4, K ! 5, d_zero, d_zero, d_zero, d_one, d_zero]"

definition calib_R :: "float64 list" where
  "calib_R = [d_one, d_zero, d_zero, d_zero, d_one, d_zero, d_zero, d_zero, d_one]"

definition coeff_size :: "intrinsics \<Rightarrow> nat" where
  "coeff_size i = (if in_model i = RS2_DISTORTION_KANNALA_BRANDT4 then 4 else 5)"

definition model_name :: "intrinsics \<Rightarrow> string" where
  "model_name i = (if in_model i = RS2_DISTORTION_KANNALA_BRANDT4 then ''equidistant'' else ''plumb_bob'')"

definition calib_D :: "rt_fp \<Rightarrow> intrinsics \<Rightarrow> float64 list" where
  "calib_D F i = map (\<lambda>k. fp_widen F (in_coeffs i ! k)) [0..<coeff_size i]"

definition info_or_new :: "(sip \<Rightarrow> rs_info option) \<Rightarrow> sip \<Rightarrow> rs_info" where
  "info_or_new m i = (case m i of None \<Rightarrow> new_info | Some c \<Rightarrow> c)"

definition edit_info :: "sip \<Rightarrow> (rs_info \<Rightarrow> rs_info) \<Rightarrow> 'a rs_rt_scheme \<Rightarrow> 'a rs_rt_scheme" where
  "edit_info i f s = s\<lparr>rt_camera_info := (rt_camera_info s)(i := Some (f (info_or_new (rt_camera_info s) i)))\<rparr>"

definition set_intrinsics :: "rt_fp \<Rightarrow> sip \<Rightarrow> intrinsics \<Rightarrow> 'a rs_rt_scheme \<Rightarrow> 'a rs_rt_scheme" where
  "set_intrinsics F si i s =
     edit_info si (\<lambda>c. let K = calib_K F i (ci_K c) in
       c\<lparr>ci_width := int (in_width i), ci_height := int (in_height i), ci_frame_id := rc_optical_frame_id s si,
         ci_K := K, ci_P := calib_P K\<rparr>)
      (s\<lparr>rt_intrinsics := (rt_intrinsics s)(si := Some i)\<rparr>)"

text \<open>The second imager of a pair: its information is given in the frame of the first.\<close>

definition set_baseline :: "rt_fp \<Rightarrow> calib_env \<Rightarrow> sip \<Rightarrow> intrinsics \<Rightarrow> 'a rs_rt_scheme \<Rightarrow> 'a rs_rt_scheme outcome" where
  "set_baseline F C si i s =
     (let sip1 = (fst si, 1) in
      if snd si \<noteq> 2 \<or> \<not> enabled s sip1 then Inr s
      else case getAProfile s si of Inl e \<Rightarrow> Inl (e, s)
      | Inr p \<Rightarrow> (case getAProfile s sip1 of Inl e \<Rightarrow> Inl (e, s)
      | Inr p1 \<Rightarrow> (case cb_extrinsics C p p1 of Inl e \<Rightarrow> Inl (Thrown e, s)
      | Inr ex \<Rightarrow> Inr (edit_info si (\<lambda>c. c\<lparr>ci_frame_id := rc_optical_frame_id s sip1,
          ci_P := (ci_P c)[3 := fp_add F (fp_widen F (f32_mul F (f32_neg F (in_fx i)) (ex_translation ex ! 0))) d_zero,
                           7 := fp_add F (fp_widen F (f32_mul F (f32_neg F (in_fy i)) (ex_translation ex ! 1))) d_zero]\<rparr>) s))))"

definition set_distortion :: "rt_fp \<Rightarrow> sip \<Rightarrow> intrinsics \<Rightarrow> 'a rs_rt_scheme \<Rightarrow> 'a rs_rt_scheme" where
  "set_distortion F si i s =
     edit_info si (\<lambda>c. c\<lparr>ci_R := calib_R, ci_model := model_name i, ci_D := calib_D F i\<rparr>) s"

definition set_depth_origin :: "sip \<Rightarrow> 'a rs_rt_scheme \<Rightarrow> 'a rs_rt_scheme" where
  "set_depth_origin si s =
     (if si = DEPTH_sip \<and> enabled s DEPTH_sip \<and> enabled s COLOR_sip
      then edit_info si (\<lambda>c. c\<lparr>ci_P := (ci_P c)[3 := d_zero, 7 := d_zero]\<rparr>) s else s)"

text \<open>Reading \<open>_camera_info[i]\<close> inserts an empty message where there is none.\<close>

definition copy_aligned :: "profile \<Rightarrow> 'a rs_rt_scheme \<Rightarrow> 'a rs_rt_scheme" where
  "copy_aligned p s =
     (let i = pf_sip p; c = info_or_new (rt_camera_info s) i
      in s\<lparr>rt_camera_info := (rt_camera_info s)(i := Some c), rt_aligned_info := (rt_aligned_info s)(i := Some c)\<rparr>)"

definition updateStreamCalibData :: "rt_fp \<Rightarrow> calib_env \<Rightarrow> profile \<Rightarrow> 'a rs_rt_scheme \<Rightarrow> 'a rs_rt_scheme outcome" where
  "updateStreamCalibData F C p s =
     (case cb_intrinsics C p of
        Inl e \<Rightarrow> Inl (Thrown e, s)
      | Inr i \<Rightarrow>
          and_then (set_baseline F C (pf_sip p) i (set_intrinsics F (pf_sip p) i s))
            (\<lambda>s1. let s2 = set_depth_origin (pf_sip p) (set_distortion F (pf_sip p) i s1)
                   in Inr (if rc_align_depth s2
                           then fold copy_aligned (concat (map snd (rn_profiles s2))) s2 else s2)))"

text \<open>The first loop of \<open>setupStreams\<close>; \<open>is_video\<close> is \<open>profile.is<rs2::video_stream_profile>()\<close>.\<close>

definition is_video :: "profile \<Rightarrow> bool" where
  "is_video p \<longleftrightarrow> pf_stream p \<in> {RS2_STREAM_DEPTH, RS2_STREAM_COLOR, RS2_STREAM_INFRARED, RS2_STREAM_FISHEYE,
     RS2_STREAM_CONFIDENCE}"

definition calibrate_streams :: "rt_fp \<Rightarrow> calib_env \<Rightarrow> 'a rs_rt_scheme \<Rightarrow> 'a rs_rt_scheme outcome" where
  "calibrate_streams F C s =
     fold_outcome (\<lambda>p s. if is_video p then updateStreamCalibData F C p s else Inr s)
       (concat (map snd (rn_profiles s))) s"

section \<open>Inertial calibration\<close>

text \<open>\<open>front()\<close> of an empty vector is undefined.\<close>

definition getImuInfo :: "rt_fp \<Rightarrow> calib_env \<Rightarrow> 'a rs_node_scheme \<Rightarrow> sip \<Rightarrow> fault + imu_info" where
  "getImuInfo F C s i =
     (case map_of (rn_profiles s) i of
        None \<Rightarrow> Inl (OutOfBounds ''_enabled_profiles'')
      | Some [] \<Rightarrow> Inl (OutOfBounds ''_enabled_profiles'')
      | Some (p # _) \<Rightarrow>
          let mi = (case cb_motion C p of Inl _ \<Rightarrow> unity_motion | Inr mi \<Rightarrow> mi)
          in Inr \<lparr>ii_frame_id = rc_optical_frame_id s i,
                  ii_data = map (fp_widen F) (concat (map (take 4) (take 3 (mi_data mi)))),
                  ii_noise_variances = map (fp_widen F) (take 3 (mi_noise mi)),
                  ii_bias_variances = map (fp_widen F) (take 3 (mi_bias mi))\<rparr>)"

definition publish_imu_info :: "rt_fp \<Rightarrow> calib_env \<Rightarrow> sip \<Rightarrow> 'a rs_rt_scheme \<Rightarrow> 'a rs_rt_scheme outcome" where
  "publish_imu_info F C i s =
     (if \<not> enabled s i then Inr s
      else let s1 = s\<lparr>rn_publishers := rn_publishers s @ [Info_Pub i (stream_name (fst i) @ ''/imu_info'')]\<rparr>
        in case getImuInfo F C s1 i of
             Inl e \<Rightarrow> Inl (e, s1)
           | Inr info \<Rightarrow> Inr (s1\<lparr>rt_imu_infos := rt_imu_infos s1 @ [(i, info)]\<rparr>))"

definition publishIntrinsics :: "rt_fp \<Rightarrow> calib_env \<Rightarrow> 'a rs_rt_scheme \<Rightarrow> 'a rs_rt_scheme outcome" where
  "publishIntrinsics F C s =
     and_then (publish_imu_info F C GYRO_sip s) (publish_imu_info F C ACCEL_sip)"

definition rsExtrinsicsToMsg :: "rt_fp \<Rightarrow> extrinsics \<Rightarrow> string \<Rightarrow> extrinsics_msg" where
  "rsExtrinsicsToMsg F ex frame_id =
     \<lparr>em_frame_id = frame_id, em_rotation = map (fp_widen F) (take 9 (ex_rotation ex)),
      em_translation = map (fp_widen F) (take 3 (ex_translation ex))\<rparr>"

end
