(* ===== verification/Rs_Points.thy ===== *)
theory Rs_Points
  imports Rs_Calib
begin

unbundle bit_operations_syntax

text \<open>
  Frames of librealsense as the callbacks see them, and \<open>publishPointCloud\<close> (\<open>base_realsense_node.cpp\<close>):
  the vertices of a point cloud and the colours that its texture gives them.
\<close>

section \<open>Frames\<close>

text \<open>A depth frame is also a video frame; the pixels are octets.\<close>

datatype frame_kind = Depth_Kind | Video_Kind | Points_Kind | Other_Kind

type_synonym vertex = "float32 \<times> float32 \<times> float32"

record rs_frame =
  fr_profile :: profile
  fr_kind :: frame_kind
  fr_width :: nat
  fr_height :: nat
  fr_bpp :: nat
  fr_data :: "8 word list"
  fr_meta :: frame_meta
  fr_vertices :: "vertex list"
  fr_texture :: "(float32 \<times> float32) list"

text \<open>The order of \<open>float\<close> on the bits.\<close>

definition f32_key :: "float32 \<Rightarrow> int" where
  "f32_key x = (let m = uint (x AND 0x7fffffff) in if bit x 31 then - m else m)"

definition f32_le :: "float32 \<Rightarrow> float32 \<Rightarrow> bool" where
  "f32_le x y \<longleftrightarrow> \<not> isnan32 x \<and> \<not> isnan32 y \<and> f32_key x \<le> f32_key y"

definition f32_less :: "float32 \<Rightarrow> float32 \<Rightarrow> bool" where
  "f32_less x y \<longleftrightarrow> \<not> isnan32 x \<and> \<not> isnan32 y \<and> f32_key x < f32_key y"

section \<open>The loop over the points\<close>

definition reverse_memcpy :: "8 word list \<Rightarrow> 8 word list \<Rightarrow> nat \<Rightarrow> 8 word list" where
  "reverse_memcpy dst src n = fold (\<lambda>i d. d[n - 1 - i := src ! i]) [0..<n] dst"

text \<open>A point of the message: its coordinates and the four octets of its colour field.\<close>

record rs_point =
  rp_vertex :: vertex
  rp_colour :: "8 word list"

text \<open>
  The buffer of the message is a member that keeps its octets from frame to frame: slot \<open>k\<close> holds
  \<open>junk k\<close> before the loop writes it.  \<open>cap\<close> is the number of slots.
\<close>

record texture =
  tx_width :: nat
  tx_height :: nat
  tx_channels :: nat
  tx_data :: "8 word list"

definition valid_coordinate :: "float32 \<times> float32 \<Rightarrow> bool" where
  "valid_coordinate c \<longleftrightarrow>
     f32_le 0 (fst c) \<and> f32_le (fst c) one32 \<and> f32_le 0 (snd c) \<and> f32_le (snd c) one32"

definition pixel_of :: "rt_fp \<Rightarrow> texture \<Rightarrow> float32 \<times> float32 \<Rightarrow> int \<times> int" where
  "pixel_of F T c = (f32_to_int F (f32_mul F (fst c) (f32_of_int F (int (tx_width T)))),
                     f32_to_int F (f32_mul F (snd c) (f32_of_int F (int (tx_height T)))))"

definition texel_offset :: "rt_fp \<Rightarrow> texture \<Rightarrow> float32 \<times> float32 \<Rightarrow> int" where
  "texel_offset F T c =
     (case pixel_of F T c of (pixx, pixy) \<Rightarrow> (pixy * int (tx_width T) + pixx) * int (tx_channels T))"

definition copy_texel :: "rt_fp \<Rightarrow> texture \<Rightarrow> float32 \<times> float32 \<Rightarrow> 8 word list \<Rightarrow> fault + 8 word list" where
  "copy_texel F T c slot =
     (let offset = texel_offset F T c in
      if offset < 0 \<or> int (length (tx_data T)) < offset + int (tx_channels T) then Inl (OutOfBounds ''color_data'')
      else Inr (reverse_memcpy slot (drop (nat offset) (tx_data T)) (tx_channels T)))"

fun texture_loop :: "rt_fp \<Rightarrow> texture \<Rightarrow> bool \<Rightarrow> bool \<Rightarrow> nat \<Rightarrow> (nat \<Rightarrow> rs_point) \<Rightarrow>
    (vertex \<times> float32 \<times> float32) list \<Rightarrow> rs_point list \<Rightarrow> fault + rs_point list" where
  "texture_loop F T no_texture ordered cap junk [] out = Inr out"
| "texture_loop F T no_texture ordered cap junk ((v, c) # ps) out =
     (let valid_color_pixel = valid_coordinate c;
          valid_pixel = (f32_less 0 (snd (snd v)) \<and> (valid_color_pixel \<or> no_texture))
      in if \<not> (valid_pixel \<or> ordered) then texture_loop F T no_texture ordered cap junk ps out
         else if cap \<le> length out then Inl (OutOfBounds ''_msg_pointcloud.data'')
         else let slot = rp_colour (junk (length out)) in
           (case (if valid_color_pixel then copy_texel F T c slot else Inr slot) of
              Inl e \<Rightarrow> Inl e
            | Inr colour \<Rightarrow>
                texture_loop F T no_texture ordered cap junk ps (out @ [\<lparr>rp_vertex = v, rp_colour = colour\<rparr>])))"

fun plain_loop :: "bool \<Rightarrow> nat \<Rightarrow> vertex list \<Rightarrow> rs_point list \<Rightarrow> fault + rs_point list" where
  "plain_loop ordered cap [] out = Inr out"
| "plain_loop ordered cap (v # vs) out =
     (if \<not> (f32_less 0 (snd (snd v)) \<or> ordered) then plain_loop ordered cap vs out
      else if cap \<le> length out then Inl (OutOfBounds ''_msg_pointcloud.data'')
      else plain_loop ordered cap vs (out @ [\<lparr>rp_vertex = v, rp_colour = []\<rparr>]))"

section \<open>\<open>publishPointCloud\<close>\<close>

record rs_cloud =
  rcl_stamp :: float64
  rcl_frame_id :: string
  rcl_width :: nat
  rcl_height :: nat
  rcl_is_dense :: bool
  rcl_colour_field :: "string option"
  rcl_points :: "rs_point list"

definition texture_of :: "rs_frame \<Rightarrow> texture" where
  "texture_of f = \<lparr>tx_width = fr_width f, tx_height = fr_height f, tx_channels = fr_bpp f, tx_data = fr_data f\<rparr>"

definition find_texture :: "rs2_stream \<Rightarrow> rs_frame list \<Rightarrow> rs_frame option" where
  "find_texture source frameset =
     find (\<lambda>f. pf_stream (fr_profile f) = source \<and> pf_format (fr_profile f) \<in> {RS2_FORMAT_RGB8, RS2_FORMAT_Y8})
       frameset"

definition colour_field :: "rs2_format \<Rightarrow> string option" where
  "colour_field f = (case f of RS2_FORMAT_RGB8 \<Rightarrow> Some ''rgb'' | RS2_FORMAT_Y8 \<Rightarrow> Some ''intensity'' | _ \<Rightarrow> None)"

definition finish_cloud :: "'a rs_config_scheme \<Rightarrow> (nat \<Rightarrow> rs_point) \<Rightarrow> intrinsics \<Rightarrow> nat \<Rightarrow> float64 \<Rightarrow> string option \<Rightarrow> rs_point list \<Rightarrow> rs_cloud" where
  "finish_cloud s junk di cap t field out =
     \<lparr>rcl_stamp = t, rcl_frame_id = rc_optical_frame_id s (if rc_align_depth s then COLOR_sip else DEPTH_sip),
      rcl_width = (if rc_ordered_pc s then in_width di else length out),
      rcl_height = (if rc_ordered_pc s then in_height di else 1), rcl_is_dense = (\<not> rc_ordered_pc s),
      rcl_colour_field = field,
      rcl_points = (if rc_ordered_pc s then out @ map junk [length out..<cap] else out)\<rparr>"

text \<open>
  \<open>subs\<close>: the number of subscribers; \<open>source\<close>: the option \<open>RS2_OPTION_STREAM_FILTER\<close> of the filter.  The
  result is the message, if one is published.  A texture that is neither \<open>RGB8\<close> nor \<open>Y8\<close> is not found, so
  the \<open>throw\<close> behind the \<open>switch\<close> is never reached.
\<close>

definition publishPointCloud :: "rt_fp \<Rightarrow> calib_env \<Rightarrow> 'a rs_config_scheme \<Rightarrow> nat \<Rightarrow> rs2_stream \<Rightarrow> (nat \<Rightarrow> rs_point) \<Rightarrow>
    rs_frame \<Rightarrow> float64 \<Rightarrow> rs_frame list \<Rightarrow> fault + rs_cloud option" where
  "publishPointCloud F C s subs source junk pc t frameset =
     (let use_texture = (source \<noteq> RS2_STREAM_ANY); tf = find_texture source frameset;
          n = length (fr_vertices pc) in
      if subs = 0 \<or> use_texture \<and> tf = None then Inr None
      else case cb_intrinsics C (fr_profile pc) of
        Inl e \<Rightarrow> Inl (Thrown e)
      | Inr di \<Rightarrow>
          let cap = (if rc_ordered_pc s then in_width di * in_height di else n) in
          (case (if use_texture then tf else None) of
             Some f \<Rightarrow> (case colour_field (pf_format (fr_profile f)) of
                 None \<Rightarrow> Inl (Thrown ''Unhandled texture format passed in pointcloud'')
               | Some field \<Rightarrow>
                   and_then (texture_loop F (texture_of f) (rc_allow_no_texture_points s) (rc_ordered_pc s) cap junk
                       (zip (fr_vertices pc) (fr_texture pc)) [])
                     (\<lambda>out. Inr (Some (finish_cloud s junk di cap t (Some field) out))))
           | None \<Rightarrow>
               and_then (plain_loop (rc_ordered_pc s) cap (fr_vertices pc) [])
                 (\<lambda>out. Inr (Some (finish_cloud s junk di cap t None out)))))"

section \<open>Which points, which colours\<close>

lemma reverse_memcpy_steps:
  "k \<le> n \<Longrightarrow> n \<le> length dst \<Longrightarrow>
    length (fold (\<lambda>i d. d[n - 1 - i := src ! i]) [0..<k] dst) = length dst \<and>
    (\<forall>j < length dst. fold (\<lambda>i d. d[n - 1 - i := src ! i]) [0..<k] dst ! j =
      (if n - k \<le> j \<and> j < n then src ! (n - 1 - j) else dst ! j))"
proof (induction k)
  case (Suc k)
  let ?d = "fold (\<lambda>i d. d[n - 1 - i := src ! i]) [0..<k] dst"
  have len: "length ?d = length dst"
    and nth: "j < length dst \<Longrightarrow> ?d ! j = (if n - k \<le> j \<and> j < n then src ! (n - 1 - j) else dst ! j)" for j
    using Suc by simp_all
  have "(?d[n - 1 - k := src ! k]) ! j = (if n - Suc k \<le> j \<and> j < n then src ! (n - 1 - j) else dst ! j)"
    if "j < length dst" for j
  proof (cases "j = n - 1 - k")
    case True
    then have "n - 1 - j = k" "n - Suc k \<le> j" "j < n" using Suc.prems by linarith+
    then show ?thesis using True that len by simp
  next
    case False
    then have "n - k \<le> j \<longleftrightarrow> n - Suc k \<le> j" by linarith
    then show ?thesis using False that nth by simp
  qed
  then show ?case using len by simp
qed auto

text \<open>The copy turns the order of the channels around and leaves the rest of the slot.\<close>

lemma reverse_memcpy_eq:
  assumes "n \<le> length dst" "n \<le> length src"
  shows "reverse_memcpy dst src n = rev (take n src) @ drop n dst"
proof (rule nth_equalityI)
  note st = reverse_memcpy_steps [OF order_refl assms(1), of src]
  show "length (reverse_memcpy dst src n) = length (rev (take n src) @ drop n dst)"
    using st assms by (simp add: reverse_memcpy_def)
  fix j assume "j < length (reverse_memcpy dst src n)"
  then have j: "j < length dst" using st by (simp add: reverse_memcpy_def)
  then have "reverse_memcpy dst src n ! j = (if j < n then src ! (n - 1 - j) else dst ! j)"
    using st by (simp add: reverse_memcpy_def)
  also have "\<dots> = (rev (take n src) @ drop n dst) ! j"
    using assms by (simp add: nth_append rev_nth)
  finally show "reverse_memcpy dst src n ! j = (rev (take n src) @ drop n dst) ! j" .
qed

text \<open>The reference: which points are kept, and the colour of a point from the pixel it falls on.\<close>

definition kept :: "bool \<Rightarrow> bool \<Rightarrow> vertex \<times> float32 \<times> float32 \<Rightarrow> bool" where
  "kept no_texture ordered p \<longleftrightarrow>
     ordered \<or> f32_less 0 (snd (snd (fst p))) \<and> (valid_coordinate (snd p) \<or> no_texture)"

definition texel :: "texture \<Rightarrow> int \<times> int \<Rightarrow> 8 word list" where
  "texel T p = take (tx_channels T) (drop ((nat (snd p) * tx_width T + nat (fst p)) * tx_channels T) (tx_data T))"

definition coloured :: "rt_fp \<Rightarrow> texture \<Rightarrow> rs_point \<Rightarrow> vertex \<times> float32 \<times> float32 \<Rightarrow> rs_point" where
  "coloured F T j p = \<lparr>rp_vertex = fst p,
     rp_colour = (if valid_coordinate (snd p)
                  then rev (texel T (pixel_of F T (snd p))) @ drop (tx_channels T) (rp_colour j)
                  else rp_colour j)\<rparr>"

definition colour_points :: "rt_fp \<Rightarrow> texture \<Rightarrow> (nat \<Rightarrow> rs_point) \<Rightarrow> nat \<Rightarrow> (vertex \<times> float32 \<times> float32) list \<Rightarrow> rs_point list" where
  "colour_points F T junk k ps = map (\<lambda>(i, p). coloured F T (junk i) p) (enumerate k ps)"

text \<open>Every valid coordinate falls on a pixel, and the texture has all its pixels.\<close>

definition inside :: "rt_fp \<Rightarrow> texture \<Rightarrow> vertex \<times> float32 \<times> float32 \<Rightarrow> bool" where
  "inside F T p \<longleftrightarrow> (valid_coordinate (snd p) \<longrightarrow>
     (case pixel_of F T (snd p) of (x, y) \<Rightarrow> 0 \<le> x \<and> x < int (tx_width T) \<and> 0 \<le> y \<and> y < int (tx_height T)))"

definition texture_ok :: "texture \<Rightarrow> bool" where
  "texture_ok T \<longleftrightarrow> length (tx_data T) = tx_width T * tx_height T * tx_channels T"

lemma copy_texel_inside:
  assumes "inside F T (v, c)" "valid_coordinate c" "texture_ok T" "tx_channels T \<le> length slot"
  shows "copy_texel F T c slot = Inr (rev (texel T (pixel_of F T c)) @ drop (tx_channels T) slot)"
proof -
  obtain x y where xy: "pixel_of F T c = (int x, int y)" "x < tx_width T" "y < tx_height T"
  proof (cases "pixel_of F T c")
    case (Pair a b)
    with assms(1,2) have "0 \<le> a" "a < int (tx_width T)" "0 \<le> b" "b < int (tx_height T)"
      by (simp_all add: inside_def)
    then show ?thesis using Pair by (intro that [of "nat a" "nat b"]) auto
  qed
  have "y * tx_width T + x + 1 \<le> tx_width T * tx_height T"
  proof -
    have "y * tx_width T + x + 1 \<le> y * tx_width T + tx_width T" using xy(2) by simp
    also have "\<dots> = Suc y * tx_width T" by simp
    also have "\<dots> \<le> tx_height T * tx_width T" using xy(3) by (intro mult_le_mono1) simp
    finally show ?thesis by (simp add: mult.commute)
  qed
  then have "(y * tx_width T + x + 1) * tx_channels T \<le> length (tx_data T)"
    using assms(3) unfolding texture_ok_def by (metis mult_le_mono1)
  then have "(y * tx_width T + x) * tx_channels T + tx_channels T \<le> length (tx_data T)"
    by (simp add: algebra_simps)
  moreover obtain k where k: "k = (y * tx_width T + x) * tx_channels T" by blast
  ultimately have fits: "k + tx_channels T \<le> length (tx_data T)" by simp
  have off: "texel_offset F T c = int k" by (simp add: texel_offset_def xy(1) k)
  have "copy_texel F T c slot = Inr (reverse_memcpy slot (drop k (tx_data T)) (tx_channels T))"
    using fits by (simp add: copy_texel_def off)
  moreover have "texel T (pixel_of F T c) = take (tx_channels T) (drop k (tx_data T))"
    by (simp add: texel_def xy(1) k)
  ultimately show ?thesis using fits assms(4) by (simp add: reverse_memcpy_eq)
qed

lemma texture_loop_step:
  assumes "kept nt ord (v, c)" "length out < cap"
  shows "texture_loop F T nt ord cap junk ((v, c) # ps) out =
    (case (if valid_coordinate c then copy_texel F T c (rp_colour (junk (length out)))
           else Inr (rp_colour (junk (length out)))) of
       Inl e \<Rightarrow> Inl e
     | Inr colour \<Rightarrow> texture_loop F T nt ord cap junk ps (out @ [\<lparr>rp_vertex = v, rp_colour = colour\<rparr>]))"
  using assms by (auto simp: kept_def Let_def split: sum.split)

lemma texture_loop_skip:
  "\<not> kept nt ord (v, c) \<Longrightarrow>
    texture_loop F T nt ord cap junk ((v, c) # ps) out = texture_loop F T nt ord cap junk ps out"
  by (auto simp: kept_def Let_def)

lemma texture_loop_full:
  "kept nt ord (v, c) \<Longrightarrow> cap \<le> length out \<Longrightarrow>
    texture_loop F T nt ord cap junk ((v, c) # ps) out = Inl (OutOfBounds ''_msg_pointcloud.data'')"
  by (auto simp: kept_def Let_def)

declare texture_loop.simps(2) [simp del]

lemma texture_loop_append:
  "texture_loop F T nt ord cap junk (ps @ qs) out =
    and_then (texture_loop F T nt ord cap junk ps out) (texture_loop F T nt ord cap junk qs)"
proof (induction ps arbitrary: out)
  case (Cons p ps)
  obtain v c where p: "p = (v, c)" by (cases p)
  show ?case
  proof (cases "kept nt ord (v, c)")
    case True
    then show ?thesis
      using Cons.IH
      by (cases "length out < cap")
         (simp_all add: p texture_loop_step texture_loop_full split: sum.split)
  next
    case False
    then show ?thesis using Cons.IH by (simp add: p texture_loop_skip)
  qed
qed simp

lemma colour_points_Cons:
  "colour_points F T junk k (p # ps) = coloured F T (junk k) p # colour_points F T junk (Suc k) ps"
  by (simp add: colour_points_def)

lemma publish_textured:
  assumes "0 < subs" "source \<noteq> RS2_STREAM_ANY" "find_texture source frameset = Some f"
    and "cb_intrinsics C (fr_profile pc) = Inr di" "colour_field (pf_format (fr_profile f)) = Some field"
    and "(if rc_ordered_pc s then in_width di * in_height di else length (fr_vertices pc)) = cap"
  shows "publishPointCloud F C s subs source junk pc t frameset =
    and_then (texture_loop F (texture_of f) (rc_allow_no_texture_points s) (rc_ordered_pc s) cap junk
        (zip (fr_vertices pc) (fr_texture pc)) [])
      (\<lambda>out. Inr (Some (finish_cloud s junk di cap t (Some field) out)))"
  unfolding assms(6) [symmetric] publishPointCloud_def Let_def using assms(1-5) by simp

lemma texture_loop_eq:
  assumes "texture_ok T" "\<forall>k. tx_channels T \<le> length (rp_colour (junk k))"
    and "\<forall>p \<in> set ps. inside F T p" "length out + length (filter (kept nt ord) ps) \<le> cap"
  shows "texture_loop F T nt ord cap junk ps out =
    Inr (out @ colour_points F T junk (length out) (filter (kept nt ord) ps))"
  using assms(3,4)
proof (induction ps arbitrary: out)
  case Nil
  then show ?case by (simp add: colour_points_def)
next
  case (Cons p ps)
  obtain v c where p: "p = (v, c)" by (cases p) auto
  show ?case
  proof (cases "kept nt ord (v, c)")
    case False
    then show ?thesis using Cons p by (simp add: texture_loop_skip)
  next
    case True
    define j where "j = junk (length out)"
    have room: "length out < cap" using Cons.prems(2) True p by simp
    have slot: "tx_channels T \<le> length (rp_colour j)" using assms(2) by (simp add: j_def)
    have "inside F T (v, c)" using Cons.prems(1) p by simp
    then have eq: "(if valid_coordinate c then copy_texel F T c (rp_colour j) else Inr (rp_colour j)) =
        Inr (rp_colour (coloured F T j (v, c)))"
      using copy_texel_inside [OF _ _ assms(1) slot] by (simp add: coloured_def)
    have co: "\<lparr>rp_vertex = v, rp_colour = rp_colour (coloured F T j (v, c))\<rparr> = coloured F T j (v, c)"
      by (simp add: coloured_def)
    have "texture_loop F T nt ord cap junk (p # ps) out =
        texture_loop F T nt ord cap junk ps (out @ [coloured F T j (v, c)])"
      unfolding p texture_loop_step [OF True room] j_def [symmetric] eq by (simp add: co)
    also have "\<dots> = Inr ((out @ [coloured F T j (v, c)]) @
        colour_points F T junk (length (out @ [coloured F T j (v, c)])) (filter (kept nt ord) ps))"
      using Cons.prems True p by (intro Cons.IH) simp_all
    finally show ?thesis using True p by (simp add: colour_points_Cons j_def)
  qed
qed


text \<open>
  Claim C28.  A texture coordinate of exactly 1 counts as valid, but it falls on the pixel behind the last:
  in the vertical direction this is behind the end of the texture, which the copy reads.
\<close>

theorem texture_coordinate_one_reads_past_texture:
  assumes "0 < subs" "source \<noteq> RS2_STREAM_ANY" "find_texture source frameset = Some f"
    and "cb_intrinsics C (fr_profile pc) = Inr di" "\<not> rc_ordered_pc s"
    and "texture_ok (texture_of f)" "0 < fr_bpp f" "\<forall>k. fr_bpp f \<le> length (rp_colour (junk k))"
    and "zip (fr_vertices pc) (fr_texture pc) = ps @ (v, u, one32) # qs"
    and "\<forall>p \<in> set ps. inside F (texture_of f) p" "f32_less 0 (snd (snd v))" "valid_coordinate (u, one32)"
    and "0 \<le> f32_to_int F (f32_mul F u (f32_of_int F (int (fr_width f))))"
    and "f32_to_int F (f32_mul F one32 (f32_of_int F (int (fr_height f)))) = int (fr_height f)"
  shows "publishPointCloud F C s subs source junk pc t frameset = Inl (OutOfBounds ''color_data'')"
proof -
  let ?T = "texture_of f" and ?nt = "rc_allow_no_texture_points s" and ?n = "length (fr_vertices pc)"
  obtain field where field: "colour_field (pf_format (fr_profile f)) = Some field"
    using assms(3) by (auto simp: find_texture_def find_Some_iff colour_field_def)
  have n: "length ps < ?n"
    using arg_cong [OF assms(9), of length] by simp
  let ?out = "colour_points F ?T junk 0 (filter (kept ?nt False) ps)"
  have le: "length (filter (kept ?nt False) ps) < ?n" using n length_filter_le [of "kept ?nt False" ps] by linarith
  then have room: "length [] + length (filter (kept ?nt False) ps) \<le> ?n" by simp
  have slots: "\<forall>k. tx_channels ?T \<le> length (rp_colour (junk k))" using assms(8) by (simp add: texture_of_def)
  have out: "texture_loop F ?T ?nt False ?n junk ps [] = Inr ?out" "length ?out < ?n"
    using texture_loop_eq [OF assms(6) slots assms(10) room] le by (simp_all add: colour_points_def)
  have "int (tx_height ?T) * int (tx_width ?T) * int (tx_channels ?T) \<le> texel_offset F ?T (u, one32)"
    using assms(13,14) by (simp add: texel_offset_def pixel_of_def texture_of_def mult_right_mono)
  moreover have "int (length (tx_data ?T)) = int (tx_height ?T) * int (tx_width ?T) * int (tx_channels ?T)"
    using assms(6) by (simp add: texture_ok_def mult.commute)
  moreover have "0 < int (tx_channels ?T)" using assms(7) by (simp add: texture_of_def)
  ultimately have "copy_texel F ?T (u, one32) slot = Inl (OutOfBounds ''color_data'')" for slot
    by (simp add: copy_texel_def)
  moreover have "kept ?nt False (v, u, one32)" using assms(11,12) by (simp add: kept_def)
  ultimately have "texture_loop F ?T ?nt False ?n junk ((v, u, one32) # qs) ?out = Inl (OutOfBounds ''color_data'')"
    using assms(12) out(2) by (simp add: texture_loop_step)
  then have "texture_loop F ?T ?nt False ?n junk (zip (fr_vertices pc) (fr_texture pc)) [] = Inl (OutOfBounds ''color_data'')"
    unfolding assms(9) texture_loop_append out(1) by simp
  then show ?thesis
    by (simp add: publish_textured [OF assms(1-4) field refl] assms(5))
qed

section \<open>Examples\<close>

definition texture_profile :: profile where
  "texture_profile = \<lparr>pf_stream = RS2_STREAM_COLOR, pf_index = 0, pf_format = RS2_FORMAT_RGB8, pf_width = 1,
     pf_height = 1, pf_fps = 30, pf_is_default = True\<rparr>"

definition no_meta :: frame_meta where
  "no_meta = \<lparr>fm_stream = COLOR_sip, fm_number = 0, fm_domain_name = [], fm_timestamp = [], fm_values = []\<rparr>"

text \<open>A red pixel, and one point in front of the camera that is seen at \<open>c\<close>.\<close>

definition red_frame :: rs_frame where
  "red_frame = \<lparr>fr_profile = texture_profile, fr_kind = Video_Kind, fr_width = 1, fr_height = 1, fr_bpp = 3,
     fr_data = [255, 0, 1], fr_meta = no_meta, fr_vertices = [], fr_texture = []\<rparr>"

definition one_point :: "float32 \<times> float32 \<Rightarrow> rs_frame" where
  "one_point c = red_frame\<lparr>fr_kind := Points_Kind, fr_vertices := [(0, 0, one32)], fr_texture := [c]\<rparr>"

definition point_calib :: calib_env where
  "point_calib = \<lparr>cb_intrinsics = (\<lambda>_. Inr \<lparr>in_width = 1, in_height = 1, in_fx = one32, in_fy = one32, in_ppx = 0,
       in_ppy = 0, in_model = Other_Distortion, in_coeffs = replicate 5 0\<rparr>),
     cb_extrinsics = (\<lambda>_ _. Inr unity_extrinsics), cb_motion = (\<lambda>_. Inl ''none'')\<rparr>"

text \<open>An arithmetic in which 0 and 1 are what they are.\<close>

definition unit_rt :: rt_fp where
  "unit_rt = rs_fp.extend bits_fp \<lparr>f32_neg = uminus, f32_sub = (-),
     f32_mul = (\<lambda>x y. if x = one32 then y else 0), f32_div = (\<lambda>x y. x), f32_of_u16 = ucast, f32_to_u16 = ucast,
     f32_of_int = word_of_int, f32_to_int = uint, f32_of_rat = (\<lambda>_. 0)\<rparr>"

lemma unit_rt_simps [simp]:
  "f32_mul unit_rt x y = (if x = one32 then y else 0)" "f32_of_int unit_rt k = word_of_int k"
  "f32_to_int unit_rt x = uint x"
  by (simp_all add: unit_rt_def rs_fp.defs)

lemma unit_order [simp]: "f32_less 0 one32" "f32_le 0 one32" "f32_le 0 0" "f32_le one32 one32" "one32 \<noteq> 0"
  by (simp_all add: f32_less_def f32_le_def f32_key_def one32_def isnan32_def)

lemma red_frame_found: "find_texture RS2_STREAM_COLOR [red_frame] = Some red_frame"
  by (simp add: find_texture_def red_frame_def texture_profile_def)

lemma red_texture [simp]:
  "texture_of red_frame = \<lparr>tx_width = 1, tx_height = 1, tx_channels = 3, tx_data = [255, 0, 1]\<rparr>"
  by (simp add: texture_of_def red_frame_def)

lemma point_fields [simp]:
  "fr_bpp red_frame = 3" "fr_width red_frame = 1" "fr_height red_frame = 1"
  "fr_vertices (one_point c) = [(0, 0, one32)]" "fr_texture (one_point c) = [c]"
  "\<not> rc_ordered_pc blank_node" "\<not> rc_allow_no_texture_points blank_node"
  by (simp_all add: red_frame_def one_point_def blank_node_def)

lemma point_intrinsics: "\<exists>di. cb_intrinsics point_calib p = Inr di"
  by (simp add: point_calib_def)


lemma texture_coordinate_one_reads_past_texture_witness:
  "publishPointCloud unit_rt point_calib blank_node 1 RS2_STREAM_COLOR
      (\<lambda>_. \<lparr>rp_vertex = (0, 0, 0), rp_colour = [0, 0, 0, 7]\<rparr>) (one_point (0, one32)) d_zero [red_frame] =
    Inl (OutOfBounds ''color_data'')"
proof -
  obtain di where di: "cb_intrinsics point_calib (fr_profile (one_point (0, one32))) = Inr di"
    using point_intrinsics by blast
  show ?thesis
    by (rule texture_coordinate_one_reads_past_texture [OF _ _ red_frame_found di,
          where ps = "[]" and qs = "[]" and v = "(0, 0, one32)" and u = 0])
       (simp_all add: texture_ok_def valid_coordinate_def)
qed

end
