(* ===== verification/Rs_Frames.thy ===== *)
theory Rs_Frames
  imports Rs_Points
begin

unbundle bit_operations_syntax

text \<open>
  The frame callback of the RealSense node (\<open>base_realsense_node.cpp\<close>): clipping and scaling of depth,
  the filters, and the messages that every frame of a set gives rise to.
\<close>

section \<open>State\<close>

text \<open>The caller of \<open>publishFrame\<close> passes the members for the streams themselves or those for aligned depth.\<close>

datatype target = Plain | Aligned

record rs_image = Image +
  ri_frame_id :: string
  ri_stamp :: float64
  ri_seq :: int

datatype rs_sent =
    Sent_Info target sip rs_info
  | Sent_Image target sip rs_image
  | Sent_Metadata Metadata
  | Sent_Cloud rs_cloud

record rs_fr = rs_rt +
  fs_clock :: time_base
  fs_first :: "rs2_stream \<Rightarrow> bool"
  fs_functions :: "rs2_stream \<Rightarrow> sensor list"
  fs_threads :: "rs2_stream list"
  fs_seq :: "sip \<Rightarrow> int"
  fs_aligned_seq :: "sip \<Rightarrow> int"
  fs_sent :: "rs_sent list"

text \<open>
  What surrounds one callback: the subscribers, the filters and the colorizer (the left summand is the
  message of an exception), which frame of a set librealsense takes for its depth frame, whether it finds a
  colour frame, and the texture option and the old contents for \<open>publishPointCloud\<close>.
\<close>

record rs_frame_env =
  fe_info_subs :: "target \<Rightarrow> sip \<Rightarrow> nat"
  fe_image_subs :: "target \<Rightarrow> sip \<Rightarrow> nat"
  fe_metadata_subs :: "sip \<Rightarrow> nat option"
  fe_cloud_subs :: nat
  fe_process :: "string \<Rightarrow> rs_frame list \<Rightarrow> string + rs_frame list"
  fe_colorize :: "rs_frame \<Rightarrow> string + rs_frame"
  fe_get_depth :: "rs_frame list \<Rightarrow> nat option"
  fe_get_color :: "rs_frame list \<Rightarrow> bool"
  fe_texture :: rs2_stream
  fe_junk :: "nat \<Rightarrow> rs_point"

fun image_at :: "target \<Rightarrow> rs_fr \<Rightarrow> sip \<Rightarrow> mat" where
  "image_at Plain s i = (case rn_image s i of None \<Rightarrow> (0, 0, 0) | Some m \<Rightarrow> m)"
| "image_at Aligned s i = (case rn_depth_aligned_image s i of None \<Rightarrow> (0, 0, 0) | Some m \<Rightarrow> m)"

fun put_image :: "target \<Rightarrow> sip \<Rightarrow> mat \<Rightarrow> rs_fr \<Rightarrow> rs_fr" where
  "put_image Plain i m s = s\<lparr>rn_image := (rn_image s)(i := Some m)\<rparr>"
| "put_image Aligned i m s = s\<lparr>rn_depth_aligned_image := (rn_depth_aligned_image s)(i := Some m)\<rparr>"

fun info_at :: "target \<Rightarrow> rs_fr \<Rightarrow> sip \<Rightarrow> rs_info option" where
  "info_at Plain s = rt_camera_info s"
| "info_at Aligned s = rt_aligned_info s"

fun put_info :: "target \<Rightarrow> sip \<Rightarrow> rs_info \<Rightarrow> rs_fr \<Rightarrow> rs_fr" where
  "put_info Plain i c s = s\<lparr>rt_camera_info := (rt_camera_info s)(i := Some c)\<rparr>"
| "put_info Aligned i c s = s\<lparr>rt_aligned_info := (rt_aligned_info s)(i := Some c)\<rparr>"

fun seq_at :: "target \<Rightarrow> rs_fr \<Rightarrow> sip \<Rightarrow> int" where
  "seq_at Plain s = fs_seq s"
| "seq_at Aligned s = fs_aligned_seq s"

fun bump_seq :: "target \<Rightarrow> sip \<Rightarrow> rs_fr \<Rightarrow> rs_fr" where
  "bump_seq Plain i s = s\<lparr>fs_seq := (fs_seq s)(i := fs_seq s i + 1)\<rparr>"
| "bump_seq Aligned i s = s\<lparr>fs_aligned_seq := (fs_aligned_seq s)(i := fs_aligned_seq s i + 1)\<rparr>"

fun encoding_at :: "target \<Rightarrow> rs_fr \<Rightarrow> rs2_stream \<Rightarrow> string option" where
  "encoding_at Plain s = rc_encoding s"
| "encoding_at Aligned s = rc_depth_aligned_encoding s"

text \<open>\<open>info_publishers.at(stream)\<close> and \<open>image_publishers.at(stream)\<close> throw if there is no entry.\<close>

fun is_pub :: "target \<Rightarrow> sip \<Rightarrow> publisher \<Rightarrow> bool \<times> bool" where
  "is_pub Plain i (Info_Pub j _) = (i = j, False)"
| "is_pub Plain i (Image_Pub j _) = (False, i = j)"
| "is_pub Aligned i (Aligned_Info_Pub j _) = (i = j, False)"
| "is_pub Aligned i (Aligned_Image_Pub j _) = (False, i = j)"
| "is_pub _ _ _ = (False, False)"

definition has_pubs :: "target \<Rightarrow> rs_fr \<Rightarrow> sip \<Rightarrow> bool" where
  "has_pubs tg s i \<longleftrightarrow>
     list_ex (\<lambda>p. fst (is_pub tg i p)) (rn_publishers s) \<and> list_ex (\<lambda>p. snd (is_pub tg i p)) (rn_publishers s)"

definition send :: "rs_sent list \<Rightarrow> rs_fr \<Rightarrow> rs_fr" where
  "send ms s = s\<lparr>fs_sent := fs_sent s @ ms\<rparr>"

section \<open>Pixels\<close>

text \<open>OpenCV's type code: the depth in the low three bits, then the number of channels less one.\<close>

definition mat_type :: "mat \<Rightarrow> int" where
  "mat_type m = snd (snd m)"

definition mat_depth :: "int \<Rightarrow> int" where
  "mat_depth ty = ty mod 8"

definition elem_size :: "int \<Rightarrow> nat" where
  "elem_size ty = nat (ty div 8 + 1) * [1, 1, 2, 2, 4, 4, 8, 2] ! nat (ty mod 8)"

text \<open>Depth values are 16 bits, low octet first.\<close>

fun u16s :: "8 word list \<Rightarrow> 16 word list" where
  "u16s (a # b # cs) = (ucast a OR push_bit 8 (ucast b)) # u16s cs"
| "u16s _ = []"

definition octets :: "16 word list \<Rightarrow> 8 word list" where
  "octets ws = concat (map (\<lambda>w. [ucast w, ucast (drop_bit 8 w)]) ws)"

definition map_u16 :: "(16 word \<Rightarrow> 16 word) \<Rightarrow> nat \<Rightarrow> 8 word list \<Rightarrow> 8 word list" where
  "map_u16 f n data = octets (map f (u16s (take (2 * n) data))) @ drop (2 * n) data"

text \<open>\<open>clip_depth\<close> writes into the buffer of the frame.\<close>

definition clip_depth :: "rt_fp \<Rightarrow> 'a rs_node_scheme \<Rightarrow> rs_frame \<Rightarrow> fault + rs_frame" where
  "clip_depth F s f =
     (let clipping_value = f32_to_u16 F (f32_div F (f32_of_rat F (rc_clipping_distance s)) (rn_depth_scale_meters s));
          n = fr_width f * fr_height f
      in if length (fr_data f) < 2 * n then Inl (OutOfBounds ''p_depth_frame'')
         else Inr (f\<lparr>fr_data := map_u16 (\<lambda>d. if clipping_value < d then 0 else d) n (fr_data f)\<rparr>))"

definition meter_to_mm :: float32 where "meter_to_mm = 0x3a83126f"
definition d_1em6 :: float64 where "d_1em6 = 0x3eb0c6f7a0b5ed8d"

text \<open>
  \<open>fix_depth_scale\<close> on the matrix \<open>m\<close> with the octets \<open>data\<close>, into \<open>_depth_scaled_image[stream]\<close>.  That image is
  created here or in \<open>enable_devices\<close>, with two octets for each value.
\<close>

definition fix_depth_scale :: "rt_fp \<Rightarrow> sip \<Rightarrow> mat \<Rightarrow> 8 word list \<Rightarrow> rs_fr \<Rightarrow> (fault \<times> rs_fr) + (mat \<times> 8 word list \<times> rs_fr)" where
  "fix_depth_scale F stream m data s =
     (if fp_less (fp_widen F (f32_sub F (rn_depth_scale_meters s) meter_to_mm AND 0x7fffffff)) d_1em6
      then Inr (m, data, s\<lparr>rn_depth_scaled_image := (rn_depth_scaled_image s)(stream := Some m)\<rparr>)
      else let old = (case rn_depth_scaled_image s stream of None \<Rightarrow> (0, 0, 0) | Some m' \<Rightarrow> m');
               to = (if (fst old, fst (snd old)) \<noteq> (fst m, fst (snd m)) then m else old);
               s1 = s\<lparr>rn_depth_scaled_image := (rn_depth_scaled_image s)(stream := Some to)\<rparr>;
               n = nat (fst m * fst (snd m))
           in if mat_depth (mat_type m) \<noteq> rc_image_format s RS2_STREAM_DEPTH
              then Inl (Thrown ''from_image.depth() == _image_format[RS2_STREAM_DEPTH]'', s1)
              else if length data < 2 * n \<or> n * elem_size (mat_type to) < 2 * n then Inl (OutOfBounds ''p_from, p_to'', s1)
              else Inr (to, map_u16 (\<lambda>d. f32_to_u16 F
                    (f32_div F (f32_mul F (f32_of_u16 F d) (rn_depth_scale_meters s)) meter_to_mm)) n (take (2 * n) data), s1))"

section \<open>\<open>publishFrame\<close>\<close>

definition frame_size :: "rs_frame \<Rightarrow> nat \<times> nat \<times> nat" where
  "frame_size f = (if fr_kind f \<in> {Depth_Kind, Video_Kind} then (fr_width f, fr_height f, fr_bpp f) else (0, 0, 1))"

text \<open>\<open>images[stream]\<close> takes the size of the frame and points to its octets.\<close>

definition resized :: "mat \<Rightarrow> nat \<Rightarrow> nat \<Rightarrow> mat" where
  "resized m w h = (if (fst m, fst (snd m)) = (int h, int w) then m else (int h, int w, mat_type m))"

text \<open>\<open>cv_bridge\<close> copies the rows of the matrix.\<close>

definition mat_octets :: "mat \<Rightarrow> nat" where
  "mat_octets m = nat (fst m * fst (snd m)) * elem_size (mat_type m)"

definition publish_messages :: "rt_fp \<Rightarrow> calib_env \<Rightarrow> rs_frame \<Rightarrow> float64 \<Rightarrow> target \<Rightarrow> sip \<Rightarrow> mat \<times> 8 word list \<Rightarrow> rs_fr \<Rightarrow> rs_fr outcome" where
  "publish_messages F C f t tg stream im s =
     (case info_at tg s stream of
        None \<Rightarrow> Inl (Thrown ''map::at'', s)
      | Some c0 \<Rightarrow>
          (case frame_size f of (w, h, bpp) \<Rightarrow>
          and_then (if ci_width c0 \<noteq> int w then updateStreamCalibData F C (fr_profile f) s else Inr s)
            (\<lambda>s1. let c = (info_or_new (info_at tg s1) stream)\<lparr>ci_stamp := t, ci_seq := seq_at tg s1 stream\<rparr>;
                       s2 = send [Sent_Info tg stream c] (put_info tg stream c s1)
              in case encoding_at tg s2 (fst stream) of
                   None \<Rightarrow> Inl (Thrown ''map::at'', s2)
                 | Some enc \<Rightarrow>
                     if length (snd im) < mat_octets (fst im) then Inl (OutOfBounds ''toImageMsg'', s2)
                     else Inr (send [Sent_Image tg stream
                       \<lparr>im_width = w, im_height = h, im_step = w * bpp, im_encoding = enc,
                        im_data = take (mat_octets (fst im)) (snd im), ri_frame_id = ci_frame_id c,
                        ri_stamp = t, ri_seq = seq_at tg s2 stream\<rparr>] s2))))"

definition publish_meta :: "rs_frame_env \<Rightarrow> rs_frame \<Rightarrow> float64 \<Rightarrow> target \<Rightarrow> sip \<Rightarrow> rs_fr \<Rightarrow> rs_fr outcome" where
  "publish_meta E f t tg stream s =
     (case info_at tg s stream of
        None \<Rightarrow> Inl (Thrown ''map::at'', s)
      | Some c \<Rightarrow> Inr (send (map Sent_Metadata (publishMetadata (fe_metadata_subs E) (fr_meta f) t (ci_frame_id c))) s))"

definition publishFrame_rs :: "rt_fp \<Rightarrow> calib_env \<Rightarrow> rs_frame_env \<Rightarrow> rs_frame \<Rightarrow> float64 \<Rightarrow> sip \<Rightarrow> target \<Rightarrow> bool \<Rightarrow> rs_fr \<Rightarrow> rs_fr outcome" where
  "publishFrame_rs F C E f t stream tg is_publishMetadata s =
     (case frame_size f of (w, h, bpp) \<Rightarrow>
      let m = resized (image_at tg s stream) w h; s1 = put_image tg stream m s in
      case (if fr_kind f = Depth_Kind then fix_depth_scale F stream m (fr_data f) s1 else Inr (m, fr_data f, s1)) of
        Inl e \<Rightarrow> Inl e
      | Inr (m', data, s2) \<Rightarrow>
          let s3 = bump_seq tg stream (put_image tg stream m' s2) in
          if \<not> has_pubs tg s3 stream then Inl (Thrown ''map::at'', s3)
          else and_then
            (if fe_info_subs E tg stream \<noteq> 0 \<or> fe_image_subs E tg stream \<noteq> 0
             then publish_messages F C f t tg stream (m', data) s3 else Inr s3)
            (\<lambda>s4. if is_publishMetadata then publish_meta E f t tg stream s4 else Inr s4))"

section \<open>\<open>frame_callback\<close>\<close>

text \<open>
  The first frame of a stream starts a thread that calls the waiting functions (here: setting the region of
  interest of a sensor), the last one first.
\<close>

definition runFirstFrameInitialization :: "rs2_stream \<Rightarrow> rs_fr \<Rightarrow> rs_fr" where
  "runFirstFrameInitialization stream_type s =
     (if \<not> fs_first s stream_type then s
      else let s1 = s\<lparr>fs_first := (fs_first s)(stream_type := False)\<rparr>
        in if fs_functions s1 stream_type = [] then s1
           else s1\<lparr>fs_threads := fs_threads s1 @ [stream_type]\<rparr>)"

definition clip_frameset :: "rt_fp \<Rightarrow> 'a rs_node_scheme \<Rightarrow> nat option \<Rightarrow> rs_frame list \<Rightarrow> fault + rs_frame list" where
  "clip_frameset F s d fs =
     (case d of
        None \<Rightarrow> Inr fs
      | Some k \<Rightarrow>
          if \<not> f32_less 0 (f32_of_rat F (rc_clipping_distance s)) then Inr fs
          else (case clip_depth F s (fs ! k) of Inl e \<Rightarrow> Inl e | Inr f \<Rightarrow> Inr (fs[k := f])))"

fun apply_filters :: "rs_frame_env \<Rightarrow> bool \<Rightarrow> bool \<Rightarrow> string list \<Rightarrow> rs_frame list \<Rightarrow> fault + rs_frame list" where
  "apply_filters E depth color [] fs = Inr fs"
| "apply_filters E depth color (n # ns) fs =
     (if n = ''pointcloud'' \<and> \<not> depth \<or> n = ''align_to_color'' \<and> \<not> color then apply_filters E depth color ns fs
      else case fe_process E n fs of Inl e \<Rightarrow> Inl (Thrown e) | Inr fs' \<Rightarrow> apply_filters E depth color ns fs')"

definition frame_sip :: "rs_frame \<Rightarrow> sip" where
  "frame_sip f = pf_sip (fr_profile f)"

definition publish_cloud :: "rt_fp \<Rightarrow> calib_env \<Rightarrow> rs_frame_env \<Rightarrow> rs_frame \<Rightarrow> float64 \<Rightarrow> rs_frame list \<Rightarrow> rs_fr \<Rightarrow> rs_fr outcome" where
  "publish_cloud F C E f t frameset s =
     (case publishPointCloud F C s (fe_cloud_subs E) (fe_texture E) (fe_junk E) f t frameset of
        Inl e \<Rightarrow> Inl (e, s)
      | Inr None \<Rightarrow> Inr s
      | Inr (Some c) \<Rightarrow> Inr (send [Sent_Cloud c] s))"

text \<open>The loop over the filtered set; \<open>sent\<close> is \<open>sent_depth_frame\<close>.\<close>

fun publish_frames :: "rt_fp \<Rightarrow> calib_env \<Rightarrow> rs_frame_env \<Rightarrow> float64 \<Rightarrow> rs_frame list \<Rightarrow> bool \<Rightarrow> rs_frame list \<Rightarrow> bool \<Rightarrow> rs_fr \<Rightarrow> rs_fr outcome" where
  "publish_frames F C E t frameset color [] sent s = Inr s"
| "publish_frames F C E t frameset color (f # fs) sent s =
     (if fr_kind f = Points_Kind
      then and_then (publish_cloud F C E f t frameset s) (publish_frames F C E t frameset color fs sent)
      else if fst (frame_sip f) = RS2_STREAM_DEPTH \<and> sent then publish_frames F C E t frameset color fs sent s
      else if fst (frame_sip f) = RS2_STREAM_DEPTH \<and> rc_align_depth s \<and> color
      then and_then (publishFrame_rs F C E f t COLOR_sip Aligned False s) (publish_frames F C E t frameset color fs True)
      else and_then (publishFrame_rs F C E f t (frame_sip f) Plain True s)
        (publish_frames F C E t frameset color fs (sent \<or> fst (frame_sip f) = RS2_STREAM_DEPTH)))"

text \<open>The frame that is sent in addition when depth is aligned.\<close>

definition publish_original :: "rt_fp \<Rightarrow> calib_env \<Rightarrow> rs_frame_env \<Rightarrow> float64 \<Rightarrow> rs_frame option \<Rightarrow> rs_fr \<Rightarrow> rs_fr outcome" where
  "publish_original F C E t original s =
     (case original of
        None \<Rightarrow> Inr s
      | Some d \<Rightarrow>
          if \<not> rc_align_depth s then Inr s
          else (case (if ''colorizer'' \<in> set (rn_filters s) then fe_colorize E d else Inr d) of
             Inl e \<Rightarrow> Inl (Thrown e, s)
           | Inr f \<Rightarrow> publishFrame_rs F C E f t DEPTH_sip Plain True s))"

definition frameset_callback :: "rt_fp \<Rightarrow> calib_env \<Rightarrow> rs_frame_env \<Rightarrow> float64 \<Rightarrow> rs_frame list \<Rightarrow> rs_fr \<Rightarrow> rs_fr outcome" where
  "frameset_callback F C E t frames s =
     (let s1 = fold (\<lambda>f. runFirstFrameInitialization (fst (frame_sip f))) frames s;
          d = fe_get_depth E frames; color = fe_get_color E frames
      in case clip_frameset F s1 d frames of
           Inl e \<Rightarrow> Inl (e, s1)
         | Inr clipped \<Rightarrow> (case apply_filters E (d \<noteq> None) color (rn_filters s1) clipped of
             Inl e \<Rightarrow> Inl (e, s1)
           | Inr frameset \<Rightarrow>
               and_then (publish_frames F C E t frameset color frameset False s1)
                 (publish_original F C E t (map_option (\<lambda>k. clipped ! k) d))))"

definition video_callback :: "rt_fp \<Rightarrow> calib_env \<Rightarrow> rs_frame_env \<Rightarrow> float64 \<Rightarrow> rs_frame \<Rightarrow> rs_fr \<Rightarrow> rs_fr outcome" where
  "video_callback F C E t f s =
     (let s1 = runFirstFrameInitialization (fst (frame_sip f)) s in
      case (if fr_kind f = Depth_Kind \<and> f32_less 0 (f32_of_rat F (rc_clipping_distance s1)) then clip_depth F s1 f else Inr f) of
        Inl e \<Rightarrow> Inl (e, s1)
      | Inr f' \<Rightarrow> publishFrame_rs F C E f' t (frame_sip f) Plain True s1)"

datatype incoming = Frameset "rs_frame list" | Single rs_frame

definition handle_frame :: "rt_fp \<Rightarrow> calib_env \<Rightarrow> rs_frame_env \<Rightarrow> frame_time \<Rightarrow> incoming \<Rightarrow> rs_fr \<Rightarrow> rs_fr outcome" where
  "handle_frame F C E ft x s =
     (case frame_clock (rs_fp.truncate F) ft (fs_clock s) of (t, clock) \<Rightarrow>
      let s1 = s\<lparr>fs_clock := clock\<rparr> in
      case x of
        Frameset frames \<Rightarrow> frameset_callback F C E t frames s1
      | Single f \<Rightarrow>
          if fr_kind f \<in> {Depth_Kind, Video_Kind} then video_callback F C E t f s1 else Inr s1)"

text \<open>Only exceptions are caught.\<close>

definition frame_callback :: "rt_fp \<Rightarrow> calib_env \<Rightarrow> rs_frame_env \<Rightarrow> frame_time \<Rightarrow> incoming \<Rightarrow> rs_fr \<Rightarrow> rs_fr outcome" where
  "frame_callback F C E ft x s =
     (case handle_frame F C E ft x (s\<lparr>rn_synced := Pause (rn_synced s)\<rparr>) of
        Inl (Thrown m, s') \<Rightarrow> Inr (s'\<lparr>rn_synced := Resume (rn_synced s')\<rparr>)
      | Inl (e, s') \<Rightarrow> Inl (e, s')
      | Inr s' \<Rightarrow> Inr (s'\<lparr>rn_synced := Resume (rn_synced s')\<rparr>))"

section \<open>Frames that fit their stream\<close>

text \<open>
  What the set-up establishes for a stream and a frame of it: publishers, an encoding, camera information of
  the width of the frame, a matrix whose elements have the size of the pixels, and all the octets.
\<close>

definition types :: "rs_fr \<Rightarrow> target \<Rightarrow> sip \<Rightarrow> int" where
  "types s tg i = mat_type (image_at tg s i)"

definition widths :: "rs_fr \<Rightarrow> target \<Rightarrow> sip \<Rightarrow> int option" where
  "widths s tg i = map_option ci_width (info_at tg s i)"

definition fits :: "target \<Rightarrow> rs_fr \<Rightarrow> sip \<Rightarrow> rs_frame \<Rightarrow> bool" where
  "fits tg s i f \<longleftrightarrow> fr_kind f \<in> {Depth_Kind, Video_Kind} \<and> has_pubs tg s i \<and>
     widths s tg i = Some (int (fr_width f)) \<and> encoding_at tg s (fst i) \<noteq> None \<and>
     length (fr_data f) = fr_width f * fr_height f * fr_bpp f \<and> elem_size (types s tg i) = fr_bpp f \<and>
     (fr_kind f = Depth_Kind \<longrightarrow> 0 < fr_width f \<and> types s tg i = CV_16UC1 \<and> rc_image_format s RS2_STREAM_DEPTH = CV_16UC1)"

definition scaled_ok :: "rs_fr \<Rightarrow> bool" where
  "scaled_ok s \<longleftrightarrow> (\<forall>i m. rn_depth_scaled_image s i = Some m \<longrightarrow> mat_type m = CV_16UC1)"

text \<open>The part of the node that decides what fits; the messages do not change it.\<close>

definition same_streams :: "rs_fr \<Rightarrow> rs_fr \<Rightarrow> bool" where
  "same_streams s t \<longleftrightarrow> rn_publishers t = rn_publishers s \<and> rc_encoding t = rc_encoding s \<and>
     rc_depth_aligned_encoding t = rc_depth_aligned_encoding s \<and> rc_image_format t = rc_image_format s \<and>
     rc_align_depth t = rc_align_depth s \<and> rn_filters t = rn_filters s \<and>
     rn_depth_scale_meters t = rn_depth_scale_meters s \<and> rc_clipping_distance t = rc_clipping_distance s \<and>
     types t = types s \<and> widths t = widths s"

lemma same_streams_refl [simp]: "same_streams s s"
  by (simp add: same_streams_def)

lemma same_streams_trans: "same_streams s t \<Longrightarrow> same_streams t u \<Longrightarrow> same_streams s u"
  by (simp add: same_streams_def)

lemma fits_same:
  assumes "same_streams s t"
  shows "fits tg t i f = fits tg s i f"
proof -
  have "encoding_at tg t = encoding_at tg s" "has_pubs tg t i = has_pubs tg s i"
    using assms by (cases tg; simp add: same_streams_def has_pubs_def)+
  then show ?thesis using assms by (simp add: fits_def same_streams_def)
qed

lemma image_info_updates [simp]:
  "image_at g (send ms t) = image_at g t" "image_at g (bump_seq tg i t) = image_at g t"
  "image_at g (t\<lparr>rn_depth_scaled_image := x\<rparr>) = image_at g t" "image_at g (t\<lparr>fs_clock := c\<rparr>) = image_at g t"
  "image_at g (t\<lparr>rn_synced := p\<rparr>) = image_at g t" "image_at g (t\<lparr>fs_first := b, fs_threads := us\<rparr>) = image_at g t"
  "image_at g (t\<lparr>fs_first := b\<rparr>) = image_at g t" "image_at g (put_info tg i v t) = image_at g t"
  "info_at g (send ms t) = info_at g t" "info_at g (bump_seq tg i t) = info_at g t"
  "info_at g (t\<lparr>rn_depth_scaled_image := x\<rparr>) = info_at g t" "info_at g (t\<lparr>fs_clock := c\<rparr>) = info_at g t"
  "info_at g (t\<lparr>rn_synced := p\<rparr>) = info_at g t" "info_at g (t\<lparr>fs_first := b, fs_threads := us\<rparr>) = info_at g t"
  "info_at g (t\<lparr>fs_first := b\<rparr>) = info_at g t" "info_at g (put_image tg i m t) = info_at g t"
  by (cases g; cases tg; simp add: send_def fun_eq_iff)+

lemma types_updates [simp]:
  "types (send ms t) = types t" "types (bump_seq tg i t) = types t" "types (t\<lparr>rn_depth_scaled_image := x\<rparr>) = types t"
  "types (t\<lparr>fs_clock := c\<rparr>) = types t" "types (t\<lparr>rn_synced := p\<rparr>) = types t" "types (t\<lparr>fs_first := b\<rparr>) = types t"
  "types (t\<lparr>fs_first := b, fs_threads := us\<rparr>) = types t" "types (put_info tg i v t) = types t"
  "widths (send ms t) = widths t" "widths (bump_seq tg i t) = widths t" "widths (t\<lparr>rn_depth_scaled_image := x\<rparr>) = widths t"
  "widths (t\<lparr>fs_clock := c\<rparr>) = widths t" "widths (t\<lparr>rn_synced := p\<rparr>) = widths t" "widths (t\<lparr>fs_first := b\<rparr>) = widths t"
  "widths (t\<lparr>fs_first := b, fs_threads := us\<rparr>) = widths t" "widths (put_image tg i m t) = widths t"
  by (simp_all add: fun_eq_iff types_def widths_def)

lemma image_put_image [simp]:
  "image_at g (put_image tg i m s) j = (if g = tg \<and> j = i then m else image_at g s j)"
  by (cases g; cases tg) auto

lemma info_put_info [simp]:
  "info_at g (put_info tg i c s) j = (if g = tg \<and> j = i then Some c else info_at g s j)"
  by (cases g; cases tg) auto

lemma types_put_image [simp]: "mat_type m = types s tg i \<Longrightarrow> types (put_image tg i m s) = types s"
  by (auto simp: types_def fun_eq_iff)

lemma widths_put_info [simp]: "widths s tg i = Some (ci_width c) \<Longrightarrow> widths (put_info tg i c s) = widths s"
  by (auto simp: widths_def fun_eq_iff)

lemma put_fields [simp]:
  "rn_publishers (put_image tg i m s) = rn_publishers s" "rc_encoding (put_image tg i m s) = rc_encoding s"
  "rc_depth_aligned_encoding (put_image tg i m s) = rc_depth_aligned_encoding s"
  "rc_image_format (put_image tg i m s) = rc_image_format s" "rc_align_depth (put_image tg i m s) = rc_align_depth s"
  "rn_filters (put_image tg i m s) = rn_filters s" "rc_clipping_distance (put_image tg i m s) = rc_clipping_distance s"
  "rn_depth_scale_meters (put_image tg i m s) = rn_depth_scale_meters s"
  "rn_publishers (put_info tg i c s) = rn_publishers s" "rc_encoding (put_info tg i c s) = rc_encoding s"
  "rc_depth_aligned_encoding (put_info tg i c s) = rc_depth_aligned_encoding s"
  "rc_image_format (put_info tg i c s) = rc_image_format s" "rc_align_depth (put_info tg i c s) = rc_align_depth s"
  "rn_filters (put_info tg i c s) = rn_filters s" "rc_clipping_distance (put_info tg i c s) = rc_clipping_distance s"
  "rn_depth_scale_meters (put_info tg i c s) = rn_depth_scale_meters s"
  "rn_publishers (bump_seq tg i s) = rn_publishers s" "rc_encoding (bump_seq tg i s) = rc_encoding s"
  "rc_depth_aligned_encoding (bump_seq tg i s) = rc_depth_aligned_encoding s"
  "rc_image_format (bump_seq tg i s) = rc_image_format s" "rc_align_depth (bump_seq tg i s) = rc_align_depth s"
  "rn_filters (bump_seq tg i s) = rn_filters s" "rc_clipping_distance (bump_seq tg i s) = rc_clipping_distance s"
  "rn_depth_scale_meters (bump_seq tg i s) = rn_depth_scale_meters s"
  "fs_sent (put_image tg i m s) = fs_sent s" "fs_sent (put_info tg i c s) = fs_sent s" "fs_sent (bump_seq tg i s) = fs_sent s"
  "rn_depth_scaled_image (put_image tg i m s) = rn_depth_scaled_image s"
  "rn_depth_scaled_image (put_info tg i c s) = rn_depth_scaled_image s"
  "rn_depth_scaled_image (bump_seq tg i s) = rn_depth_scaled_image s"
  by (cases tg; simp)+

lemma same_streams_steps [simp]:
  "same_streams s (send ms t) = same_streams s t" "same_streams s (bump_seq tg i t) = same_streams s t"
  "same_streams s (t\<lparr>rn_depth_scaled_image := x\<rparr>) = same_streams s t"
  "same_streams s (t\<lparr>fs_clock := c\<rparr>) = same_streams s t" "same_streams s (t\<lparr>rn_synced := p\<rparr>) = same_streams s t"
  "same_streams s (t\<lparr>fs_first := b\<rparr>) = same_streams s t"
  "same_streams s (t\<lparr>fs_first := b, fs_threads := us\<rparr>) = same_streams s t"
  by (simp add: same_streams_def, simp add: send_def) (simp_all add: same_streams_def)

lemma same_put_image: "mat_type m = types t tg i \<Longrightarrow> same_streams s (put_image tg i m t) = same_streams s t"
  by (simp add: same_streams_def)

lemma same_put_info: "widths t tg i = Some (ci_width c) \<Longrightarrow> same_streams s (put_info tg i c t) = same_streams s t"
  by (simp add: same_streams_def)

section \<open>One frame\<close>

lemma length_u16s: "length (u16s xs) = length xs div 2"
  by (induction xs rule: u16s.induct) simp_all

lemma length_octets: "length (octets ws) = 2 * length ws"
  by (induction ws) (simp_all add: octets_def)

lemma length_map_u16 [simp]: "2 * n \<le> length xs \<Longrightarrow> length (map_u16 f n xs) = length xs"
  by (simp add: map_u16_def length_octets length_u16s)

lemma send_send: "send b (send a s) = send (a @ b) s"
  by (simp add: send_def)

lemma seq_send [simp]: "seq_at tg (send ms s) = seq_at tg s" "seq_at tg (put_info g i c s) = seq_at tg s"
    "seq_at tg (put_image g i m s) = seq_at tg s" "seq_at tg (s\<lparr>rn_depth_scaled_image := x\<rparr>) = seq_at tg s"
    "seq_at tg (bump_seq tg i s) i = seq_at tg s i + 1"
  by (cases tg; cases g; simp add: send_def)+

lemma encoding_send [simp]:
  "encoding_at tg (send ms s) = encoding_at tg s" "encoding_at tg (put_info g i c s) = encoding_at tg s"
  "encoding_at tg (put_image g i m s) = encoding_at tg s" "encoding_at tg (s\<lparr>rn_depth_scaled_image := x\<rparr>) = encoding_at tg s"
  "encoding_at tg (bump_seq g i s) = encoding_at tg s"
  by (cases tg; cases g; simp add: send_def)+

lemma has_pubs_send [simp]:
  "has_pubs tg (put_image g i m s) j = has_pubs tg s j" "has_pubs tg (bump_seq g i s) j = has_pubs tg s j"
  "has_pubs tg (s\<lparr>rn_depth_scaled_image := x\<rparr>) j = has_pubs tg s j"
  by (simp_all add: has_pubs_def)

text \<open>The octets that are published: those of the frame, or the depth values in millimetres.\<close>

definition in_millimetres :: "rt_fp \<Rightarrow> rs_fr \<Rightarrow> bool" where
  "in_millimetres F s \<longleftrightarrow>
     fp_less (fp_widen F (f32_sub F (rn_depth_scale_meters s) meter_to_mm AND 0x7fffffff)) d_1em6"

definition shown :: "rt_fp \<Rightarrow> rs_fr \<Rightarrow> rs_frame \<Rightarrow> 8 word list" where
  "shown F s f =
     (if fr_kind f = Depth_Kind \<and> \<not> in_millimetres F s
      then map_u16 (\<lambda>d. f32_to_u16 F (f32_div F (f32_mul F (f32_of_u16 F d) (rn_depth_scale_meters s)) meter_to_mm))
        (fr_width f * fr_height f) (fr_data f)
      else fr_data f)"

lemma publish_messages_ok:
  assumes "widths s tg i = Some (int (fr_width f))" "fr_kind f \<in> {Depth_Kind, Video_Kind}"
    and "encoding_at tg s (fst i) = Some enc" "mat_octets m = length data"
  obtains c where "info_at tg s i = Some c"
    "publish_messages F C f t tg i (m, data) s = Inr (send
       [Sent_Info tg i (c\<lparr>ci_stamp := t, ci_seq := seq_at tg s i\<rparr>),
        Sent_Image tg i \<lparr>im_width = fr_width f, im_height = fr_height f, im_step = fr_width f * fr_bpp f,
          im_encoding = enc, im_data = data, ri_frame_id = ci_frame_id c, ri_stamp = t, ri_seq = seq_at tg s i\<rparr>]
       (put_info tg i (c\<lparr>ci_stamp := t, ci_seq := seq_at tg s i\<rparr>) s))"
    "ci_width c = int (fr_width f)"
proof -
  obtain c where c: "info_at tg s i = Some c" "ci_width c = int (fr_width f)"
    using assms(1) by (auto simp: widths_def)
  show ?thesis
    by (rule that [OF c(1) _ c(2)])
       (use assms(2-4) c in \<open>simp add: publish_messages_def frame_size_def info_or_new_def send_send Let_def\<close>)
qed

lemma elem_16UC1 [simp]: "elem_size CV_16UC1 = 2" "mat_depth CV_16UC1 = CV_16UC1"
  by (simp_all add: elem_size_def mat_depth_def CV_16UC1_def)

lemma resized_fields [simp]: "resized m w h = (int h, int w, mat_type m)" "mat_type (a, b, c) = c"
  by (cases m; simp add: resized_def mat_type_def)+

lemma scaled_ok_put:
  "scaled_ok s \<Longrightarrow> scaled_ok (s\<lparr>rn_depth_scaled_image := (rn_depth_scaled_image s)(i := Some (h, w, CV_16UC1))\<rparr>)"
  by (simp add: scaled_ok_def)

lemma fix_depth_scale_ok:
  assumes "scaled_ok s" "rc_image_format s RS2_STREAM_DEPTH = CV_16UC1"
    and "fr_kind f = Depth_Kind" "length (fr_data f) = 2 * (fr_height f * fr_width f)"
    and "0 < fr_width f"
  shows "\<exists>x. fix_depth_scale F i (int (fr_height f), int (fr_width f), CV_16UC1) (fr_data f) s =
      Inr ((int (fr_height f), int (fr_width f), CV_16UC1), shown F s f, s\<lparr>rn_depth_scaled_image := x\<rparr>) \<and>
    scaled_ok (s\<lparr>rn_depth_scaled_image := x\<rparr>)"
proof (cases "in_millimetres F s")
  case True
  then show ?thesis
    using assms by (intro exI) (auto simp: fix_depth_scale_def in_millimetres_def shown_def scaled_ok_put)
next
  case False
  let ?m = "(int (fr_height f), int (fr_width f), CV_16UC1)"
  let ?n = "fr_height f * fr_width f"
  define old where "old = (case rn_depth_scaled_image s i of None \<Rightarrow> (0, 0, 0) | Some m' \<Rightarrow> m')"
  have n: "nat (int (fr_height f) * int (fr_width f)) = ?n" by (simp add: nat_mult_distrib)
  have old: "old = (0, 0, 0) \<or> mat_type old = CV_16UC1"
    using assms(1) [unfolded scaled_ok_def, rule_format, of i]
    by (cases "rn_depth_scaled_image s i") (simp_all add: old_def)
  have to: "(if (fst old, fst (snd old)) \<noteq> (fst ?m, fst (snd ?m)) then ?m else old) = ?m"
    using old assms(5) by (cases old) (auto simp: mat_type_def)
  have "fix_depth_scale F i ?m (fr_data f) s =
      Inr (?m, shown F s f, s\<lparr>rn_depth_scaled_image := (rn_depth_scaled_image s)(i := Some ?m)\<rparr>)"
    using False assms(2-4) unfolding fix_depth_scale_def in_millimetres_def [symmetric] Let_def old_def [symmetric] to
    by (simp add: n shown_def mult.commute)
  then show ?thesis using scaled_ok_put [OF assms(1), of i] by blast
qed

text \<open>The frames that were published as images: on which topics.\<close>

definition images_sent :: "rs_fr \<Rightarrow> (target \<times> sip) list" where
  "images_sent s = List.map_filter (\<lambda>m. case m of Sent_Image tg i _ \<Rightarrow> Some (tg, i) | _ \<Rightarrow> None) (fs_sent s)"

lemma images_sent_send:
  "images_sent (send ms s) = images_sent s @
    List.map_filter (\<lambda>m. case m of Sent_Image tg i _ \<Rightarrow> Some (tg, i) | _ \<Rightarrow> None) ms"
  by (simp add: images_sent_def send_def map_filter_def)

lemma images_sent_same [simp]:
  "images_sent (put_image tg i m s) = images_sent s" "images_sent (put_info tg i c s) = images_sent s"
  "images_sent (bump_seq tg i s) = images_sent s" "images_sent (s\<lparr>rn_depth_scaled_image := x\<rparr>) = images_sent s"
  "images_sent (s\<lparr>rn_synced := p\<rparr>) = images_sent s" "images_sent (s\<lparr>fs_clock := k\<rparr>) = images_sent s"
  "images_sent (s\<lparr>fs_first := b\<rparr>) = images_sent s" "images_sent (s\<lparr>fs_first := b, fs_threads := us\<rparr>) = images_sent s"
  by (simp_all add: images_sent_def)

definition wanted :: "rs_frame_env \<Rightarrow> target \<times> sip \<Rightarrow> bool" where
  "wanted E x \<longleftrightarrow> fe_info_subs E (fst x) (snd x) \<noteq> 0 \<or> fe_image_subs E (fst x) (snd x) \<noteq> 0"

text \<open>What \<open>publishFrame\<close> does with a frame that fits, up to the messages.\<close>

definition placed :: "rt_fp \<Rightarrow> target \<Rightarrow> sip \<Rightarrow> rs_frame \<Rightarrow> rs_fr \<Rightarrow> rs_fr \<Rightarrow> bool" where
  "placed F tg i f s u \<longleftrightarrow> same_streams s u \<and> scaled_ok u \<and> fs_sent u = fs_sent s \<and> seq_at tg u i = seq_at tg s i + 1 \<and>
     info_at tg u = info_at tg s"

lemma publishFrame_placed:
  assumes "fits tg s i f" "scaled_ok s"
  obtains u m where "placed F tg i f s u" "mat_octets m = length (shown F s f)"
    "publishFrame_rs F C E f t i tg b s =
      and_then (if wanted E (tg, i) then publish_messages F C f t tg i (m, shown F s f) u else Inr u)
        (\<lambda>v. if b then publish_meta E f t tg i v else Inr v)"
proof -
  define m where "m = (int (fr_height f), int (fr_width f), types s tg i)"
  define s1 where "s1 = put_image tg i m s"
  have kind: "fr_kind f \<in> {Depth_Kind, Video_Kind}" and pubs: "has_pubs tg s i"
    and len: "length (fr_data f) = fr_width f * fr_height f * fr_bpp f" and elem: "elem_size (types s tg i) = fr_bpp f"
    and depth: "fr_kind f = Depth_Kind \<Longrightarrow> 0 < fr_width f \<and> types s tg i = CV_16UC1 \<and>
      rc_image_format s RS2_STREAM_DEPTH = CV_16UC1"
    using assms(1) unfolding fits_def by blast+
  have m: "resized (image_at tg s i) (fr_width f) (fr_height f) = m" by (simp add: m_def types_def)
  have s1: "same_streams s s1" "scaled_ok s1" "shown F s1 f = shown F s f"
    using assms(2) by (simp_all add: s1_def m_def same_put_image scaled_ok_def shown_def in_millimetres_def)
  have "\<exists>s2. (if fr_kind f = Depth_Kind then fix_depth_scale F i m (fr_data f) s1 else Inr (m, fr_data f, s1)) =
      Inr (m, shown F s f, s2) \<and> same_streams s s2 \<and> scaled_ok s2 \<and> fs_sent s2 = fs_sent s \<and> seq_at tg s2 = seq_at tg s \<and>
      info_at tg s2 = info_at tg s"
  proof (cases "fr_kind f = Depth_Kind")
    case True
    note d = depth [OF True]
    have "length (fr_data f) = 2 * (fr_height f * fr_width f)" using len elem d by simp
    moreover have "rc_image_format s1 RS2_STREAM_DEPTH = CV_16UC1" using d by (simp add: s1_def)
    moreover have me: "m = (int (fr_height f), int (fr_width f), CV_16UC1)" using d by (simp add: m_def)
    ultimately obtain x where
      x: "fix_depth_scale F i m (fr_data f) s1 = Inr (m, shown F s f, s1\<lparr>rn_depth_scaled_image := x\<rparr>)"
      "scaled_ok (s1\<lparr>rn_depth_scaled_image := x\<rparr>)"
      using fix_depth_scale_ok [OF s1(2) _ True, of F i] d s1(3) by auto
    then show ?thesis using True s1(1) by (auto simp: s1_def)
  next
    case False
    then show ?thesis using s1 by (auto simp: s1_def shown_def)
  qed
  then obtain s2 where s2: "(if fr_kind f = Depth_Kind then fix_depth_scale F i m (fr_data f) s1 else Inr (m, fr_data f, s1)) =
      Inr (m, shown F s f, s2)" "same_streams s s2" "scaled_ok s2" "fs_sent s2 = fs_sent s" "seq_at tg s2 = seq_at tg s"
      "info_at tg s2 = info_at tg s" by blast
  define u where "u = bump_seq tg i (put_image tg i m s2)"
  have ty: "mat_type m = types s2 tg i" using s2(2) by (simp add: m_def same_streams_def)
  have u: "placed F tg i f s u"
    using s2(2-6) ty by (simp add: placed_def u_def same_put_image scaled_ok_def)
  have size: "frame_size f = (fr_width f, fr_height f, fr_bpp f)" using kind by (simp add: frame_size_def)
  have "has_pubs tg u i" using pubs s2(2) by (simp add: u_def has_pubs_def same_streams_def)
  then have "publishFrame_rs F C E f t i tg b s =
      and_then (if wanted E (tg, i) then publish_messages F C f t tg i (m, shown F s f) u else Inr u)
        (\<lambda>v. if b then publish_meta E f t tg i v else Inr v)"
    unfolding publishFrame_rs_def size prod.case Let_def m s1_def [symmetric] s2(1) sum.case u_def [symmetric]
    by (simp add: wanted_def)
  moreover have "mat_octets m = length (shown F s f)"
  proof (cases "fr_kind f = Depth_Kind")
    case True
    with depth len elem show ?thesis
      by (simp add: m_def mat_octets_def shown_def nat_mult_distrib mult.commute mult.left_commute)
  next
    case False
    then show ?thesis using len elem by (simp add: m_def mat_octets_def shown_def nat_mult_distrib mult.commute)
  qed
  ultimately show ?thesis using u that by blast
qed

lemma sent_send [simp]: "fs_sent (send ms s) = fs_sent s @ ms"
  by (simp add: send_def)

lemma scaled_ok_updates [simp]:
  "scaled_ok (send ms s) = scaled_ok s" "scaled_ok (put_info tg i c s) = scaled_ok s"
  by (simp_all add: scaled_ok_def, simp add: send_def)

lemma publish_meta_ok:
  "info_at tg v i \<noteq> None \<Longrightarrow> \<exists>ms. (if b then publish_meta E f t tg i v else Inr v) = Inr (send (map Sent_Metadata ms) v)"
proof (cases b)
  case False
  then show ?thesis by (intro exI [of _ "[]"]) (simp add: send_def)
qed (auto simp: publish_meta_def)

text \<open>The pair of messages for a frame: what the image and the camera information have in common.\<close>

definition paired :: "rt_fp \<Rightarrow> rs_fr \<Rightarrow> target \<Rightarrow> sip \<Rightarrow> rs_frame \<Rightarrow> float64 \<Rightarrow> rs_info \<Rightarrow> rs_image \<Rightarrow> bool" where
  "paired F s tg i f t c img \<longleftrightarrow> im_data img = shown F s f \<and> im_step img * im_height img = length (im_data img) \<and>
     im_width img = fr_width f \<and> im_height img = fr_height f \<and> ci_width c = int (im_width img) \<and>
     encoding_at tg s (fst i) = Some (im_encoding img) \<and> ri_frame_id img = ci_frame_id c \<and>
     ri_stamp img = t \<and> ci_stamp c = t \<and> ri_seq img = ci_seq c \<and> ci_seq c = seq_at tg s i + 1"

lemma length_shown:
  assumes "fits tg s i f"
  shows "length (shown F s f) = fr_width f * fr_bpp f * fr_height f"
proof -
  have len: "length (fr_data f) = fr_width f * fr_height f * fr_bpp f" and elem: "elem_size (types s tg i) = fr_bpp f"
    and d: "fr_kind f = Depth_Kind \<longrightarrow> types s tg i = CV_16UC1"
    using assms unfolding fits_def by blast+
  have "length (shown F s f) = length (fr_data f)"
  proof (cases "fr_kind f = Depth_Kind")
    case True
    then have "fr_bpp f = 2" using d elem by simp
    then show ?thesis using len by (simp add: shown_def)
  qed (simp add: shown_def)
  then show ?thesis using len by simp
qed

lemma publishFrame_result:
  assumes "fits tg s i f" "scaled_ok s"
  obtains u ms where "publishFrame_rs F C E f t i tg b s = Inr u" "same_streams s u" "scaled_ok u"
    "if wanted E (tg, i)
     then \<exists>c img. fs_sent u = fs_sent s @ [Sent_Info tg i c, Sent_Image tg i img] @ map Sent_Metadata ms \<and>
       paired F s tg i f t c img
     else fs_sent u = fs_sent s @ map Sent_Metadata ms"
proof -
  from publishFrame_placed [OF assms] obtain u m where u: "placed F tg i f s u"
    "mat_octets m = length (shown F s f)"
    "publishFrame_rs F C E f t i tg b s =
      and_then (if wanted E (tg, i) then publish_messages F C f t tg i (m, shown F s f) u else Inr u)
        (\<lambda>v. if b then publish_meta E f t tg i v else Inr v)" by blast
  have ss: "same_streams s u" "scaled_ok u" "fs_sent u = fs_sent s" using u(1) by (auto simp: placed_def)
  have fu: "fits tg u i f" using fits_same [OF ss(1)] assms(1) by simp
  have kind: "fr_kind f \<in> {Depth_Kind, Video_Kind}" and w: "widths u tg i = Some (int (fr_width f))"
    using fu unfolding fits_def by blast+
  obtain enc where enc: "encoding_at tg u (fst i) = Some enc" using fu unfolding fits_def by auto
  have enc': "encoding_at tg s (fst i) = Some enc"
    using enc ss(1) by (cases tg) (simp_all add: same_streams_def)
  show ?thesis
  proof (cases "wanted E (tg, i)")
    case False
    have "info_at tg u i \<noteq> None" using w by (auto simp: widths_def)
    from publish_meta_ok [OF this, of b E f t] obtain ms where
      "(if b then publish_meta E f t tg i u else Inr u) = Inr (send (map Sent_Metadata ms) u)" by blast
    then have "publishFrame_rs F C E f t i tg b s = Inr (send (map Sent_Metadata ms) u)"
      using u(3) False by simp
    then show ?thesis
      using False ss by (intro that [of "send (map Sent_Metadata ms) u" ms]) simp_all
  next
    case True
    from publish_messages_ok [OF w kind enc u(2)] obtain c where c: "info_at tg u i = Some c"
      "ci_width c = int (fr_width f)" and pm: "publish_messages F C f t tg i (m, shown F s f) u = Inr (send
       [Sent_Info tg i (c\<lparr>ci_stamp := t, ci_seq := seq_at tg u i\<rparr>),
        Sent_Image tg i \<lparr>im_width = fr_width f, im_height = fr_height f, im_step = fr_width f * fr_bpp f,
          im_encoding = enc, im_data = shown F s f, ri_frame_id = ci_frame_id c, ri_stamp = t, ri_seq = seq_at tg u i\<rparr>]
       (put_info tg i (c\<lparr>ci_stamp := t, ci_seq := seq_at tg u i\<rparr>) u))" by blast
    let ?c = "c\<lparr>ci_stamp := t, ci_seq := seq_at tg u i\<rparr>"
    let ?img = "\<lparr>im_width = fr_width f, im_height = fr_height f, im_step = fr_width f * fr_bpp f,
          im_encoding = enc, im_data = shown F s f, ri_frame_id = ci_frame_id c, ri_stamp = t, ri_seq = seq_at tg u i\<rparr>"
    let ?v = "send [Sent_Info tg i ?c, Sent_Image tg i ?img] (put_info tg i ?c u)"
    have "info_at tg ?v i \<noteq> None" by simp
    from publish_meta_ok [OF this, of b E f t] obtain ms where
      "(if b then publish_meta E f t tg i ?v else Inr ?v) = Inr (send (map Sent_Metadata ms) ?v)" by blast
    then have "publishFrame_rs F C E f t i tg b s = Inr (send (map Sent_Metadata ms) ?v)"
      using u(3) True pm by simp
    moreover have "same_streams s (send (map Sent_Metadata ms) ?v)"
      using ss(1) w c by (simp add: same_put_info)
    moreover have "scaled_ok (send (map Sent_Metadata ms) ?v)"
      using ss(2) by simp
    moreover have "paired F s tg i f t ?c ?img"
      using c(2) u(1) enc' length_shown [OF assms(1)] by (simp add: paired_def placed_def)
    moreover have "fs_sent (send (map Sent_Metadata ms) ?v) =
        fs_sent s @ [Sent_Info tg i ?c, Sent_Image tg i ?img] @ map Sent_Metadata ms"
      using ss(3) by simp
    ultimately show ?thesis
      using True by (intro that [of "send (map Sent_Metadata ms) ?v" ms]) auto
  qed
qed

text \<open>
  Claim C30.  A frame that fits its stream is published as a consistent pair: the image has the octets of
  the frame (depth converted to millimetres), as many as its step and height say, and the camera information
  has its width; both carry the time of the frame, the same frame name and the next number of the stream.
\<close>

theorem image_carries_the_frame:
  assumes "fits tg s i f" "scaled_ok s" "wanted E (tg, i)"
  shows "\<exists>u c img ms. publishFrame_rs F C E f t i tg b s = Inr u \<and>
    fs_sent u = fs_sent s @ [Sent_Info tg i c, Sent_Image tg i img] @ map Sent_Metadata ms \<and>
    im_data img = (if fr_kind f = Depth_Kind \<and> \<not> in_millimetres F s
      then map_u16 (\<lambda>d. f32_to_u16 F (f32_div F (f32_mul F (f32_of_u16 F d) (rn_depth_scale_meters s)) meter_to_mm))
        (fr_width f * fr_height f) (fr_data f) else fr_data f) \<and>
    im_step img * im_height img = length (im_data img) \<and> im_width img = fr_width f \<and> im_height img = fr_height f \<and>
    ci_width c = int (im_width img) \<and> encoding_at tg s (fst i) = Some (im_encoding img) \<and>
    ri_frame_id img = ci_frame_id c \<and> ri_stamp img = t \<and> ci_stamp c = t \<and>
    ri_seq img = ci_seq c \<and> ci_seq c = seq_at tg s i + 1"
proof -
  from publishFrame_result [OF assms(1,2)] obtain u ms where u: "publishFrame_rs F C E f t i tg b s = Inr u"
    "if wanted E (tg, i)
     then \<exists>c img. fs_sent u = fs_sent s @ [Sent_Info tg i c, Sent_Image tg i img] @ map Sent_Metadata ms \<and>
       paired F s tg i f t c img
     else fs_sent u = fs_sent s @ map Sent_Metadata ms" by blast
  with assms(3) obtain c img where
    "fs_sent u = fs_sent s @ [Sent_Info tg i c, Sent_Image tg i img] @ map Sent_Metadata ms"
    "paired F s tg i f t c img" by auto
  then show ?thesis using u(1) unfolding paired_def shown_def by blast
qed

section \<open>A set of frames\<close>

definition on_depth :: "rs_frame \<Rightarrow> bool" where
  "on_depth f \<longleftrightarrow> fst (frame_sip f) = RS2_STREAM_DEPTH"

text \<open>Where a frame goes, and a set without its later depth frames.\<close>

definition place :: "bool \<Rightarrow> rs_frame \<Rightarrow> target \<times> sip" where
  "place aligning f = (if on_depth f \<and> aligning then (Aligned, COLOR_sip) else (Plain, frame_sip f))"

definition one_depth :: "rs_frame list \<Rightarrow> rs_frame list" where
  "one_depth fs = takeWhile (\<lambda>f. \<not> on_depth f) fs @
     (case dropWhile (\<lambda>f. \<not> on_depth f) fs of [] \<Rightarrow> [] | d # ds \<Rightarrow> d # filter (\<lambda>f. \<not> on_depth f) ds)"

lemma one_depth_Cons: "one_depth (f # fs) = f # (if on_depth f then filter (\<lambda>f. \<not> on_depth f) fs else one_depth fs)"
  by (simp add: one_depth_def)

lemma images_sent_pair:
  assumes "if wanted E (tg, i)
     then \<exists>c img. fs_sent u = fs_sent s @ [Sent_Info tg i c, Sent_Image tg i img] @ map Sent_Metadata ms \<and> P c img
     else fs_sent u = fs_sent s @ map Sent_Metadata ms"
  shows "images_sent u = images_sent s @ filter (wanted E) [(tg, i)]"
proof -
  have "List.map_filter (\<lambda>m. case m of Sent_Image tg i _ \<Rightarrow> Some (tg, i) | _ \<Rightarrow> None) (map Sent_Metadata ms) = []"
    by (induction ms) (simp_all add: List.map_filter_simps)
  then show ?thesis
    using assms by (cases "wanted E (tg, i)") (auto simp: images_sent_def map_filter_def)
qed

lemma publishFrame_images:
  assumes "fits tg s i f" "scaled_ok s"
  obtains u where "publishFrame_rs F C E f t i tg b s = Inr u" "same_streams s u" "scaled_ok u"
    "images_sent u = images_sent s @ filter (wanted E) [(tg, i)]"
  using publishFrame_result [OF assms] images_sent_pair by metis

lemma publish_frames_result:
  assumes "\<forall>f \<in> set fs. fr_kind f \<noteq> Points_Kind \<and>
      fits (fst (place (rc_align_depth s \<and> color) f)) s (snd (place (rc_align_depth s \<and> color) f)) f" "scaled_ok s"
  shows "\<exists>u. publish_frames F C E t frameset color fs sent s = Inr u \<and> same_streams s u \<and> scaled_ok u \<and>
    images_sent u = images_sent s @ filter (wanted E) (map (place (rc_align_depth s \<and> color))
      (if sent then filter (\<lambda>f. \<not> on_depth f) fs else one_depth fs))"
  using assms
proof (induction fs arbitrary: s sent)
  case Nil
  then show ?case by (simp add: one_depth_def)
next
  case (Cons f fs)
  let ?pl = "place (rc_align_depth s \<and> color)"
  have kind: "fr_kind f \<noteq> Points_Kind" and fit: "fits (fst (?pl f)) s (snd (?pl f)) f" using Cons.prems(1) by auto
  show ?case
  proof (cases "on_depth f \<and> sent")
    case True
    then show ?thesis
      using Cons.IH [of s True] Cons.prems kind by (auto simp: on_depth_def)
  next
    case False
    define b where "b = (\<not> (on_depth f \<and> rc_align_depth s \<and> color))"
    from publishFrame_images [OF fit Cons.prems(2)] obtain v where
      v: "publishFrame_rs F C E f t (snd (?pl f)) (fst (?pl f)) b s = Inr v" "same_streams s v" "scaled_ok v"
      "images_sent v = images_sent s @ filter (wanted E) [?pl f]" by (metis prod.collapse)
    have al: "rc_align_depth v = rc_align_depth s" using v(2) by (simp add: same_streams_def)
    have step: "publish_frames F C E t frameset color (f # fs) sent s =
        publish_frames F C E t frameset color fs (sent \<or> on_depth f) v"
      using v(1) kind False by (auto simp: place_def b_def on_depth_def split: if_splits)
    have "\<forall>f \<in> set fs. fr_kind f \<noteq> Points_Kind \<and>
      fits (fst (place (rc_align_depth v \<and> color) f)) v (snd (place (rc_align_depth v \<and> color) f)) f"
      using Cons.prems(1) fits_same [OF v(2)] al by simp
    from Cons.IH [OF this v(3), of "sent \<or> on_depth f"] obtain u where
      u: "publish_frames F C E t frameset color fs (sent \<or> on_depth f) v = Inr u" "same_streams v u" "scaled_ok u"
      "images_sent u = images_sent v @ filter (wanted E) (map ?pl
        (if sent \<or> on_depth f then filter (\<lambda>f. \<not> on_depth f) fs else one_depth fs))" unfolding al by blast
    show ?thesis
      using step u same_streams_trans [OF v(2) u(2)] v(4) False
      by (auto simp: one_depth_Cons)
  qed
qed

lemma first_frames:
  "same_streams s (fold (\<lambda>f. runFirstFrameInitialization (g f)) fs s) \<and>
    scaled_ok (fold (\<lambda>f. runFirstFrameInitialization (g f)) fs s) = scaled_ok s \<and>
    images_sent (fold (\<lambda>f. runFirstFrameInitialization (g f)) fs s) = images_sent s"
proof (induction fs arbitrary: s)
  case (Cons f fs)
  have "same_streams s (runFirstFrameInitialization (g f) s) \<and>
    scaled_ok (runFirstFrameInitialization (g f) s) = scaled_ok s \<and>
    images_sent (runFirstFrameInitialization (g f) s) = images_sent s"
    by (simp add: runFirstFrameInitialization_def Let_def scaled_ok_def)
  then show ?case using Cons.IH [of "runFirstFrameInitialization (g f) s"] same_streams_trans by auto
qed simp

lemma clip_frameset_same: "same_streams s u \<Longrightarrow> clip_frameset F u d fs = clip_frameset F s d fs"
  by (simp add: clip_frameset_def clip_depth_def same_streams_def split: option.split)

lemma count_twice: "x \<in> set xs \<Longrightarrow> P x \<Longrightarrow> 2 \<le> count_list (filter P (xs @ [x])) x"
proof -
  assume "x \<in> set xs" "P x"
  then have "x \<in> set (filter P xs)" by simp
  then have "count_list (filter P xs) x \<noteq> 0" by (simp only: count_list_0_iff) simp
  then show ?thesis using \<open>P x\<close> by simp
qed

lemma one_depth_first: "f \<in> set fs \<Longrightarrow> on_depth f \<Longrightarrow> \<exists>g \<in> set (one_depth fs). on_depth g \<and> g \<in> set fs"
  by (induction fs) (auto simp: one_depth_Cons)

text \<open>The frames that librealsense delivers and the filters leave, and the frame that is sent in addition.\<close>

definition processed :: "rt_fp \<Rightarrow> rs_frame_env \<Rightarrow> rs_frame list \<Rightarrow> rs_fr \<Rightarrow> rs_frame list \<Rightarrow> rs_frame option \<Rightarrow> bool" where
  "processed F E frames s fs original \<longleftrightarrow>
     (\<exists>clipped. clip_frameset F s (fe_get_depth E frames) frames = Inr clipped \<and>
       apply_filters E (fe_get_depth E frames \<noteq> None) (fe_get_color E frames) (rn_filters s) clipped = Inr fs \<and>
       original = map_option (\<lambda>k. clipped ! k) (fe_get_depth E frames))"

text \<open>
  Claim C29.  The images that one set of frames gives rise to, when every frame fits its stream: each frame
  left by the filters once, in order, except the depth frames after the first; with \<open>align_depth\<close> and a
  colour frame the depth goes to the topic of aligned depth, and with \<open>align_depth\<close> the original depth frame
  follows on the depth topic.  If there is no colour frame it was already sent there: the depth image is published
  twice.
\<close>

theorem frames_of_a_set:
  assumes "processed F E frames s fs original" "scaled_ok s"
    and "\<forall>f \<in> set fs. fr_kind f \<noteq> Points_Kind \<and>
      (case place (rc_align_depth s \<and> fe_get_color E frames) f of (tg, i) \<Rightarrow> fits tg s i f)"
    and "\<forall>d. original = Some d \<and> rc_align_depth s \<longrightarrow>
      (\<exists>f. (if ''colorizer'' \<in> set (rn_filters s) then fe_colorize E d else Inr d) = Inr f \<and> fits Plain s DEPTH_sip f)"
  shows "\<exists>u. frame_callback F C E ft (Frameset frames) s = Inr u \<and>
    images_sent u = images_sent s @ filter (wanted E)
      (map (place (rc_align_depth s \<and> fe_get_color E frames)) (one_depth fs) @
       (if rc_align_depth s \<and> original \<noteq> None then [(Plain, DEPTH_sip)] else [])) \<and>
    (rc_align_depth s \<and> original \<noteq> None \<and> \<not> fe_get_color E frames \<and> wanted E (Plain, DEPTH_sip) \<and>
      (\<exists>f \<in> set fs. on_depth f) \<and> (\<forall>f \<in> set fs. on_depth f \<longrightarrow> frame_sip f = DEPTH_sip) \<longrightarrow>
      2 \<le> count_list (drop (length (images_sent s)) (images_sent u)) (Plain, DEPTH_sip))"
proof -
  let ?color = "fe_get_color E frames" and ?d = "fe_get_depth E frames"
  let ?pl = "place (rc_align_depth s \<and> ?color)"
  let ?more = "if rc_align_depth s \<and> original \<noteq> None then [(Plain, DEPTH_sip)] else []"
  obtain clipped where cl: "clip_frameset F s ?d frames = Inr clipped"
    "apply_filters E (?d \<noteq> None) ?color (rn_filters s) clipped = Inr fs" "original = map_option (\<lambda>k. clipped ! k) ?d"
    using assms(1) unfolding processed_def by blast
  obtain t clock where fc: "frame_clock (rs_fp.truncate F) ft (fs_clock s) = (t, clock)" by (metis surj_pair)
  define s0 where "s0 = s\<lparr>rn_synced := Pause (rn_synced s), fs_clock := clock\<rparr>"
  define s1 where "s1 = fold (\<lambda>f. runFirstFrameInitialization (fst (frame_sip f))) frames s0"
  have s0: "same_streams s s0" "scaled_ok s0" "images_sent s0 = images_sent s"
    using assms(2) by (simp_all add: s0_def scaled_ok_def)
  have s1: "same_streams s s1" "scaled_ok s1" "images_sent s1 = images_sent s"
    using first_frames [of s0 "\<lambda>f. fst (frame_sip f)" frames] s0 same_streams_trans unfolding s1_def by auto
  have al: "rc_align_depth s1 = rc_align_depth s" "rn_filters s1 = rn_filters s"
    using s1(1) by (simp_all add: same_streams_def)
  have "\<forall>f \<in> set fs. fr_kind f \<noteq> Points_Kind \<and> fits (fst (place (rc_align_depth s1 \<and> ?color) f)) s1
      (snd (place (rc_align_depth s1 \<and> ?color) f)) f"
    using assms(3) fits_same [OF s1(1)] by (simp add: al case_prod_unfold)
  from publish_frames_result [OF this s1(2), where sent = False and F = F and C = C and E = E and t = t
      and frameset = fs] obtain u where
    u: "publish_frames F C E t fs ?color fs False s1 = Inr u" "same_streams s1 u" "scaled_ok u"
    "images_sent u = images_sent s @ filter (wanted E) (map ?pl (one_depth fs))"
    unfolding al s1(3) by auto
  have su: "same_streams s u" using s1(1) u(2) by (rule same_streams_trans)
  have "\<exists>v. publish_original F C E t original u = Inr v \<and> images_sent v = images_sent u @ filter (wanted E) ?more"
  proof (cases "rc_align_depth s \<and> original \<noteq> None")
    case False
    then show ?thesis using su by (auto simp: publish_original_def same_streams_def split: option.split)
  next
    case True
    then obtain d f where d: "original = Some d"
      "(if ''colorizer'' \<in> set (rn_filters s) then fe_colorize E d else Inr d) = Inr f" "fits Plain s DEPTH_sip f"
      using assms(4) by blast
    have "fits Plain u DEPTH_sip f" using d(3) fits_same [OF su] by simp
    from publishFrame_images [OF this u(3)] obtain v where
      "publishFrame_rs F C E f t DEPTH_sip Plain True u = Inr v"
      "images_sent v = images_sent u @ filter (wanted E) [(Plain, DEPTH_sip)]" by blast
    moreover have "rc_align_depth u = rc_align_depth s" "rn_filters u = rn_filters s"
      using su by (simp_all add: same_streams_def)
    ultimately show ?thesis using True d(1,2) by (simp add: publish_original_def)
  qed
  then obtain v where v: "publish_original F C E t original u = Inr v"
    "images_sent v = images_sent u @ filter (wanted E) ?more" by blast
  have "frameset_callback F C E t frames s0 = Inr v"
    using cl(1,2) u(1) v(1) clip_frameset_same [OF s1(1)]
    unfolding frameset_callback_def Let_def s1_def [symmetric] cl(3) al by simp
  then have cb: "frame_callback F C E ft (Frameset frames) s = Inr (v\<lparr>rn_synced := Resume (rn_synced v)\<rparr>)"
    by (simp add: frame_callback_def handle_frame_def fc s0_def)
  have im: "images_sent v = images_sent s @ filter (wanted E) (map ?pl (one_depth fs) @ ?more)"
    using u(4) v(2) by simp
  have "2 \<le> count_list (drop (length (images_sent s)) (images_sent v)) (Plain, DEPTH_sip)"
    if h: "rc_align_depth s" "original \<noteq> None" "\<not> ?color" "wanted E (Plain, DEPTH_sip)"
      "\<exists>f \<in> set fs. on_depth f" "\<forall>f \<in> set fs. on_depth f \<longrightarrow> frame_sip f = DEPTH_sip"
  proof -
    obtain g where g: "g \<in> set (one_depth fs)" "on_depth g" "g \<in> set fs" using h(5) one_depth_first by blast
    then have "?pl g = (Plain, DEPTH_sip)" using h(3,6) by (simp add: place_def)
    then have "(Plain, DEPTH_sip) \<in> set (map ?pl (one_depth fs))" using g(1) by force
    from count_twice [where P = "wanted E", OF this h(4)] show ?thesis using h(1,2) unfolding im by simp
  qed
  then show ?thesis using cb im by (intro exI [of _ "v\<lparr>rn_synced := Resume (rn_synced v)\<rparr>"]) simp
qed

section \<open>The inertial messages are always released\<close>

text \<open>An operation that leaves the inertial publisher alone and fails in two ways only.\<close>

definition mild :: "fault \<Rightarrow> bool" where
  "mild e \<longleftrightarrow> (\<exists>m. e = Thrown m \<or> e = OutOfBounds m)"

definition calm :: "rs_fr \<Rightarrow> rs_fr outcome \<Rightarrow> bool" where
  "calm s r \<longleftrightarrow> rn_synced (outcome_state r) = rn_synced s \<and> (\<forall>e u. r = Inl (e, u) \<longrightarrow> mild e)"

lemma mild_simps [simp]: "mild (Thrown m)" "mild (OutOfBounds m)"
  by (simp_all add: mild_def)

lemma calm_simps [simp]:
  "calm s (Inr t) \<longleftrightarrow> rn_synced t = rn_synced s" "calm s (Inl (e, t)) \<longleftrightarrow> rn_synced t = rn_synced s \<and> mild e"
  by (auto simp: calm_def)

lemma calm_cong: "rn_synced s = rn_synced t \<Longrightarrow> calm s r \<longleftrightarrow> calm t r"
  by (simp add: calm_def)

lemma calm_then: "calm s r \<Longrightarrow> (\<And>t. rn_synced t = rn_synced s \<Longrightarrow> calm t (k t)) \<Longrightarrow> calm s (and_then r k)"
  by (cases r) (auto simp: calm_def)

lemma synced_updates [simp]:
  "rn_synced (send ms s) = rn_synced s" "rn_synced (put_image tg i m s) = rn_synced s"
  "rn_synced (put_info tg i c s) = rn_synced s" "rn_synced (bump_seq tg i s) = rn_synced s"
  by (simp add: send_def, (cases tg; simp)+)

lemma getAProfile_mild: "getAProfile s i = Inl e \<Longrightarrow> mild e"
  by (auto simp: getAProfile_def split: option.splits)

lemma calib_synced [simp]:
  fixes s :: rs_fr
  shows "rn_synced (edit_info i g s) = rn_synced s" "rn_synced (set_intrinsics F i j s) = rn_synced s"
    "rn_synced (set_distortion F i j s) = rn_synced s" "rn_synced (set_depth_origin i s) = rn_synced s"
    "rn_synced (copy_aligned p s) = rn_synced s"
  by (simp_all add: edit_info_def set_intrinsics_def set_distortion_def set_depth_origin_def copy_aligned_def Let_def)

lemma fold_copy_synced [simp]:
  fixes s :: rs_fr
  shows "rn_synced (fold copy_aligned ps s) = rn_synced s"
  by (induction ps arbitrary: s) simp_all

lemma set_baseline_calm: "calm s (set_baseline F C i j s)"
  by (auto simp: set_baseline_def Let_def split: sum.split dest: getAProfile_mild)

lemma updateStreamCalibData_calm: "calm s (updateStreamCalibData F C p s)"
proof (cases "cb_intrinsics C p")
  case (Inr i)
  have "calm s (set_baseline F C (pf_sip p) i (set_intrinsics F (pf_sip p) i s))"
    using set_baseline_calm [of "set_intrinsics F (pf_sip p) i s" F C "pf_sip p" i] by (simp add: calm_def)
  then show ?thesis
    unfolding updateStreamCalibData_def Inr sum.case by (rule calm_then) (simp add: Let_def)
qed (simp add: updateStreamCalibData_def)

lemma publish_messages_calm: "calm s (publish_messages F C f t tg i im s)"
proof (cases "info_at tg s i")
  case (Some c0)
  obtain w h b where w: "frame_size f = (w, h, b)" by (metis prod_cases3)
  have "calm s (if ci_width c0 \<noteq> int w then updateStreamCalibData F C (fr_profile f) s else Inr s)"
    by (simp add: updateStreamCalibData_calm)
  then show ?thesis
    unfolding publish_messages_def Some option.case w prod.case
    by (rule calm_then) (simp add: Let_def split: option.split)
qed (simp add: publish_messages_def)

lemma publish_meta_calm: "calm s (publish_meta E f t tg i s)"
  by (simp add: publish_meta_def split: option.split)

lemma fix_depth_scale_calm:
  "fix_depth_scale F i m data s = Inl (e, u) \<Longrightarrow> rn_synced u = rn_synced s \<and> mild e"
  "fix_depth_scale F i m data s = Inr (m', data', u) \<Longrightarrow> rn_synced u = rn_synced s"
  by (auto simp: fix_depth_scale_def Let_def split: if_splits)

lemma publishFrame_calm: "calm s (publishFrame_rs F C E f t i tg b s)"
proof -
  obtain w h n where w: "frame_size f = (w, h, n)" by (metis prod_cases3)
  define m where "m = resized (image_at tg s i) w h"
  define s1 where "s1 = put_image tg i m s"
  show ?thesis
  proof (cases "if fr_kind f = Depth_Kind then fix_depth_scale F i m (fr_data f) s1 else Inr (m, fr_data f, s1)")
    case (Inl x)
    then obtain e u where x: "x = (e, u)" "fix_depth_scale F i m (fr_data f) s1 = Inl (e, u)"
      by (cases x) (auto split: if_splits)
    have "rn_synced u = rn_synced s \<and> mild e" using fix_depth_scale_calm(1) [OF x(2)] by (simp add: s1_def)
    then show ?thesis
      using Inl unfolding publishFrame_rs_def w prod.case Let_def m_def [symmetric] s1_def [symmetric] x(1) by simp
  next
    case (Inr y)
    then obtain m' data s2 where y: "y = (m', data, s2)" by (cases y)
    have "rn_synced s2 = rn_synced s1"
      using Inr y fix_depth_scale_calm(2) [of F i m "fr_data f" s1] by (auto split: if_splits)
    then have s3: "rn_synced (bump_seq tg i (put_image tg i m' s2)) = rn_synced s" by (simp add: s1_def)
    show ?thesis
      using Inr s3 unfolding publishFrame_rs_def w prod.case Let_def m_def [symmetric] s1_def [symmetric] y
      by (auto intro!: calm_then simp: publish_meta_calm publish_messages_calm
          calm_cong [OF s3 [symmetric]])
  qed
qed

lemma texture_loop_mild: "texture_loop F T nt ord cap junk ps out = Inl e \<Longrightarrow> mild e"
proof (induction ps arbitrary: out)
  case (Cons p ps)
  obtain v c where p: "p = (v, c)" by (cases p)
  show ?case
    using Cons by (cases "kept nt ord (v, c)"; cases "length out < cap")
      (auto simp: p texture_loop_step texture_loop_full texture_loop_skip copy_texel_def Let_def
        split: if_splits sum.splits)
qed simp

lemma plain_loop_mild: "plain_loop ord cap vs out = Inl e \<Longrightarrow> mild e"
  by (induction vs arbitrary: out) (auto split: if_splits)

lemma publish_cloud_calm: "calm s (publish_cloud F C E f t fs s)"
proof (cases "publishPointCloud F C s (fe_cloud_subs E) (fe_texture E) (fe_junk E) f t fs")
  case (Inl e)
  then have "mild e"
    by (auto simp: publishPointCloud_def Let_def and_then_def split: if_splits sum.splits option.splits
        dest: texture_loop_mild plain_loop_mild)
  then show ?thesis using Inl by (simp add: publish_cloud_def)
qed (simp add: publish_cloud_def split: option.split)

lemma publish_frames_calm: "calm s (publish_frames F C E t fs color gs sent s)"
proof (induction gs arbitrary: sent s)
  case (Cons g gs)
  then show ?case by (auto intro!: calm_then publishFrame_calm publish_cloud_calm)
qed simp

lemma publish_original_calm: "calm s (publish_original F C E t original s)"
  by (auto simp: publish_original_def publishFrame_calm split: option.split sum.split)

lemma clip_mild: "clip_depth F s f = Inl e \<Longrightarrow> mild e"
  by (auto simp: clip_depth_def Let_def split: if_splits)

lemma apply_filters_mild: "apply_filters E d c ns fs = Inl e \<Longrightarrow> mild e"
  by (induction ns arbitrary: fs) (auto split: if_splits sum.splits)

lemma first_frames_synced: "rn_synced (fold (\<lambda>f. runFirstFrameInitialization (g f)) fs s) = rn_synced s"
  by (induction fs arbitrary: s) (simp_all add: runFirstFrameInitialization_def Let_def)

lemma frameset_callback_calm: "calm s (frameset_callback F C E t frames s)"
proof -
  define s1 where "s1 = fold (\<lambda>f. runFirstFrameInitialization (fst (frame_sip f))) frames s"
  have s1: "rn_synced s1 = rn_synced s" by (simp add: s1_def first_frames_synced)
  show ?thesis
    unfolding frameset_callback_def Let_def s1_def [symmetric]
    using s1 clip_mild apply_filters_mild
    by (auto split: sum.split option.splits if_splits simp: clip_frameset_def
        intro!: calm_then publish_original_calm simp: calm_cong [OF s1 [symmetric]] publish_frames_calm)
qed

lemma video_callback_calm: "calm s (video_callback F C E t f s)"
proof -
  define s1 where "s1 = runFirstFrameInitialization (fst (frame_sip f)) s"
  have s1: "rn_synced s1 = rn_synced s" by (simp add: s1_def runFirstFrameInitialization_def Let_def)
  show ?thesis
    unfolding video_callback_def Let_def s1_def [symmetric]
    using s1 clip_mild by (auto split: sum.split if_splits simp: calm_cong [OF s1 [symmetric]] publishFrame_calm)
qed

lemma handle_frame_calm: "calm s (handle_frame F C E ft x s)"
proof -
  obtain t clock where fc: "frame_clock (rs_fp.truncate F) ft (fs_clock s) = (t, clock)" by (metis surj_pair)
  let ?s = "s\<lparr>fs_clock := clock\<rparr>"
  have "calm ?s (frameset_callback F C E t fs ?s)" "calm ?s (video_callback F C E t f ?s)" for fs f
    by (rule frameset_callback_calm) (rule video_callback_calm)
  then have "calm s (frameset_callback F C E t fs ?s)" "calm s (video_callback F C E t f ?s)" for fs f
    by (simp_all add: calm_def)
  then show ?thesis by (simp add: handle_frame_def fc Let_def split: incoming.split)
qed

lemma frame_callback_synced:
  "(\<exists>u. frame_callback F C E ft x s = Inr u \<and> \<not> sp_pause_mode (rn_synced u) \<and> sp_pending (rn_synced u) = [] \<and>
      sp_published (rn_synced u) = sp_published (rn_synced s) @ sp_pending (rn_synced s)) \<or>
   (\<exists>m u. frame_callback F C E ft x s = Inl (OutOfBounds m, u))"
proof -
  let ?s = "s\<lparr>rn_synced := Pause (rn_synced s)\<rparr>"
  have res: "\<not> sp_pause_mode (Resume p) \<and> sp_pending (Resume p) = [] \<and>
      sp_published (Resume p) = sp_published (rn_synced s) @ sp_pending (rn_synced s)" if "p = Pause (rn_synced s)" for p
    using that by (simp add: Resume_def PublishPendingMessages_eq Pause_def)
  have calm: "calm ?s (handle_frame F C E ft x ?s)" by (rule handle_frame_calm)
  show ?thesis
  proof (cases "handle_frame F C E ft x ?s")
    case (Inr u)
    then have "rn_synced u = Pause (rn_synced s)" using calm by simp
    from res [OF this] show ?thesis using Inr by (simp add: frame_callback_def)
  next
    case (Inl y)
    obtain e u where y: "y = (e, u)" by (cases y)
    then have u: "rn_synced u = Pause (rn_synced s)" "mild e" using Inl calm by simp_all
    from u(2) show ?thesis using res [OF u(1)] Inl y by (auto simp: mild_def frame_callback_def)
  qed
qed

text \<open>
  Claim C31.  Whatever arrives, and whatever goes wrong with it: the frame callback returns, with every
  inertial message that was held back published in order and the publisher open again; the only other outcome
  is an access outside a buffer.
\<close>

theorem frame_callback_releases_imu:
  "(\<exists>u. frame_callback F C E ft x s = Inr u \<and> \<not> sp_pause_mode (rn_synced u) \<and> sp_pending (rn_synced u) = [] \<and>
      sp_published (rn_synced u) = sp_published (rn_synced s) @ sp_pending (rn_synced s)) \<or>
   (\<exists>m u. frame_callback F C E ft x s = Inl (OutOfBounds m, u))"
  by (rule frame_callback_synced)

section \<open>Examples\<close>

definition depth_profile :: profile where
  "depth_profile = \<lparr>pf_stream = RS2_STREAM_DEPTH, pf_index = 0, pf_format = RS2_FORMAT_Z16, pf_width = 2,
     pf_height = 1, pf_fps = 30, pf_is_default = True\<rparr>"

definition depth_frame :: rs_frame where
  "depth_frame = \<lparr>fr_profile = depth_profile, fr_kind = Depth_Kind, fr_width = 2, fr_height = 1, fr_bpp = 2,
     fr_data = [1, 0, 2, 0], fr_meta = no_meta, fr_vertices = [], fr_texture = []\<rparr>"

definition depth_rt :: rs_rt where
  "depth_rt = rs_node.extend (blank_node\<lparr>rc_align_depth := True, rc_encoding := [RS2_STREAM_DEPTH \<mapsto> TYPE_16UC1],
       rc_image_format := (\<lambda>_. CV_16UC1), rn_image := [DEPTH_sip \<mapsto> (1, 2, CV_16UC1)],
       rn_publishers := [Image_Pub DEPTH_sip ''depth/image_rect_raw'', Info_Pub DEPTH_sip ''depth/camera_info'']\<rparr>)
     \<lparr>rt_intrinsics = Map.empty, rt_camera_info = [DEPTH_sip \<mapsto> new_info\<lparr>ci_width := 2\<rparr>], rt_aligned_info = Map.empty,
      rt_imu_infos = [], rt_static_tf = [], rt_tf_thread = False, rt_tf_sent = [], rt_extrinsics = Map.empty,
      rt_extrinsics_sent = []\<rparr>"

definition rs_depth_node :: rs_fr where
  "rs_depth_node = rs_rt.extend depth_rt
     \<lparr>fs_clock = \<lparr>tb_init = False, tb_ros = d_zero, tb_camera = d_zero, tb_previous = d_zero\<rparr>,
      fs_first = (\<lambda>_. False), fs_functions = (\<lambda>_. []), fs_threads = [], fs_seq = (\<lambda>_. 0), fs_aligned_seq = (\<lambda>_. 0),
      fs_sent = []\<rparr>"

definition depth_env :: rs_frame_env where
  "depth_env = \<lparr>fe_info_subs = (\<lambda>_ _. 0), fe_image_subs = (\<lambda>_ _. 1), fe_metadata_subs = (\<lambda>_. None), fe_cloud_subs = 0,
     fe_process = (\<lambda>_ fs. Inr fs), fe_colorize = Inr, fe_get_depth = (\<lambda>_. Some 0), fe_get_color = (\<lambda>_. False),
     fe_texture = RS2_STREAM_ANY, fe_junk = (\<lambda>_. \<lparr>rp_vertex = (0, 0, 0), rp_colour = [0, 0, 0, 0]\<rparr>)\<rparr>"

lemma rs_depth_node_fields:
  "rn_publishers rs_depth_node = [Image_Pub DEPTH_sip ''depth/image_rect_raw'', Info_Pub DEPTH_sip ''depth/camera_info'']"
  "rt_camera_info rs_depth_node = [DEPTH_sip \<mapsto> new_info\<lparr>ci_width := 2\<rparr>]"
  "rc_encoding rs_depth_node = [RS2_STREAM_DEPTH \<mapsto> TYPE_16UC1]" "rc_image_format rs_depth_node = (\<lambda>_. CV_16UC1)"
  "rn_image rs_depth_node = [DEPTH_sip \<mapsto> (1, 2, CV_16UC1)]" "rn_depth_scaled_image rs_depth_node = Map.empty"
  "rc_align_depth rs_depth_node" "rn_filters rs_depth_node = []" "rc_clipping_distance rs_depth_node = 0"
  "fs_sent rs_depth_node = []" "fs_seq rs_depth_node = (\<lambda>_. 0)"
  by (simp_all add: rs_depth_node_def depth_rt_def rs_rt.defs rs_node.defs blank_node_def)

lemma depth_frame_fits: "fits Plain rs_depth_node DEPTH_sip depth_frame" "scaled_ok rs_depth_node"
  by (simp_all add: fits_def rs_depth_node_fields has_pubs_def widths_def types_def depth_frame_def scaled_ok_def
      DEPTH_sip_def)

lemma depth_frame_place: "place (a \<and> False) depth_frame = (Plain, DEPTH_sip)" "on_depth depth_frame"
    "frame_sip depth_frame = DEPTH_sip"
  by (simp_all add: place_def on_depth_def frame_sip_def depth_frame_def depth_profile_def pf_sip_def DEPTH_sip_def)

lemma image_carries_the_frame_witness:
  "\<exists>u c img ms. publishFrame_rs unit_rt point_calib depth_env depth_frame d_one DEPTH_sip Plain True rs_depth_node = Inr u \<and>
    fs_sent u = [Sent_Info Plain DEPTH_sip c, Sent_Image Plain DEPTH_sip img] @ map Sent_Metadata ms \<and>
    im_width img = 2 \<and> ri_seq img = 1 \<and> im_encoding img = ''16UC1''"
proof -
  have "wanted depth_env (Plain, DEPTH_sip)" by (simp add: wanted_def depth_env_def)
  from image_carries_the_frame [OF depth_frame_fits this, of unit_rt point_calib d_one True] show ?thesis
    by (auto simp: rs_depth_node_fields depth_frame_def DEPTH_sip_def TYPE_16UC1_def)
qed

definition some_time :: frame_time where
  "some_time = \<lparr>ft_stamp = d_one, ft_domain = GLOBAL_TIME, ft_now = d_one\<rparr>"

lemma frames_of_a_set_witness:
  "\<exists>u. frame_callback unit_rt point_calib depth_env some_time (Frameset [depth_frame]) rs_depth_node = Inr u \<and>
    images_sent u = [(Plain, DEPTH_sip), (Plain, DEPTH_sip)]"
proof -
  have "processed unit_rt depth_env [depth_frame] rs_depth_node [depth_frame] (Some depth_frame)"
    by (simp add: processed_def depth_env_def clip_frameset_def rs_depth_node_fields unit_rt_def rs_fp.defs
        f32_less_def)
  moreover have "fe_get_color depth_env fs = False" "wanted depth_env x" "fr_kind depth_frame \<noteq> Points_Kind" for fs x
    by (simp_all add: depth_env_def wanted_def depth_frame_def)
  moreover have "images_sent rs_depth_node = []"
    by (simp add: images_sent_def rs_depth_node_fields List.map_filter_simps)
  ultimately show ?thesis
    using frames_of_a_set [of unit_rt depth_env "[depth_frame]" rs_depth_node "[depth_frame]" "Some depth_frame" point_calib some_time]
      depth_frame_fits depth_frame_place
    by (auto simp: rs_depth_node_fields one_depth_def)
qed

end
