(* ===== verification/Rs_Transforms.thy ===== *)
theory Rs_Transforms
  imports Rs_Calib
begin

text \<open>
  The transforms of the RealSense node (\<open>base_realsense_node.cpp\<close>, and the override of
  \<open>t265_realsense_node.cpp\<close>): from the base to every enabled stream, and the extrinsics topics.
\<close>

section \<open>One stream\<close>

definition quaternion_optical :: "rt_fp \<Rightarrow> quat" where
  "quaternion_optical F = setRPY F d_minus_half_pi d_zero d_minus_half_pi"

text \<open>The matrix of librealsense is column by column, that of Eigen row by row.\<close>

definition rotationMatrixToQuaternion_rs :: "rt_fp \<Rightarrow> float32 list \<Rightarrow> quat" where
  "rotationMatrixToQuaternion_rs F r =
     eigen_quat F [r ! 0, r ! 3, r ! 6, r ! 1, r ! 4, r ! 7, r ! 2, r ! 5, r ! 8]"

text \<open>The axes of the camera (right, down, forward) become those of ROS (forward, left, up).\<close>

definition static_tf_msg :: "rt_fp \<Rightarrow> float32 list \<Rightarrow> quat \<Rightarrow> string \<Rightarrow> string \<Rightarrow> tf_msg" where
  "static_tf_msg F tr q from to =
     \<lparr>tf_parent = from, tf_child = to,
      tf_translation = (fp_widen F (tr ! 2), fp_widen F (f32_neg F (tr ! 0)), fp_widen F (f32_neg F (tr ! 1))),
      tf_rotation = q\<rparr>"

definition publish_static_tf :: "rt_fp \<Rightarrow> float32 list \<Rightarrow> quat \<Rightarrow> string \<Rightarrow> string \<Rightarrow> 'a rs_rt_scheme \<Rightarrow> 'a rs_rt_scheme" where
  "publish_static_tf F tr q from to s =
     s\<lparr>rt_static_tf := rt_static_tf s @ [static_tf_msg F tr q from to]\<rparr>"

text \<open>
  The \<open>try\<close> block: one particular message means unity, any other exception is thrown again as a
  \<open>std::exception\<close>, which has lost its message.
\<close>

definition stream_extrinsics :: "calib_env \<Rightarrow> sip \<Rightarrow> profile \<Rightarrow> 'a rs_node_scheme \<Rightarrow> fault + extrinsics" where
  "stream_extrinsics C stream base_profile s =
     (case and_then (getAProfile s stream)
             (\<lambda>p. case cb_extrinsics C p base_profile of Inl e \<Rightarrow> Inl (Thrown e) | Inr ex \<Rightarrow> Inr ex) of
        Inl (Thrown e) \<Rightarrow>
          if e = ''Requested extrinsics are not available!'' then Inr unity_extrinsics
          else Inl (Thrown ''std::exception'')
      | r \<Rightarrow> r)"

definition aligned_frame :: "'a rs_config_scheme \<Rightarrow> sip \<Rightarrow> string option" where
  "aligned_frame s stream = (if rc_align_depth s then rc_depth_aligned_frame_id s stream else None)"

definition publish_pair :: "rt_fp \<Rightarrow> float32 list \<Rightarrow> quat \<Rightarrow> quat \<Rightarrow> string \<Rightarrow> sip \<Rightarrow> 'a rs_rt_scheme \<Rightarrow> 'a rs_rt_scheme" where
  "publish_pair F tr q optical frame stream s =
     publish_static_tf F [0, 0, 0] optical frame (rc_optical_frame_id s stream)
       (publish_static_tf F tr q (rc_base_frame_id s) frame s)"

definition calcAndPublishStaticTransform_rs :: "rt_fp \<Rightarrow> calib_env \<Rightarrow> profile \<Rightarrow> sip \<Rightarrow> 'a rs_rt_scheme \<Rightarrow> 'a rs_rt_scheme outcome" where
  "calcAndPublishStaticTransform_rs F C base_profile stream s =
     (case stream_extrinsics C stream base_profile s of
        Inl e \<Rightarrow> Inl (e, s)
      | Inr ex \<Rightarrow>
          let o' = quaternion_optical F;
              q = q_mul F (q_mul F o' (rotationMatrixToQuaternion_rs F (ex_rotation ex))) (q_inverse F o');
              s1 = publish_pair F (ex_translation ex) q o' (rc_frame_id s stream) stream s
          in Inr (case aligned_frame s stream of
               None \<Rightarrow> s1 | Some frame \<Rightarrow> publish_pair F (ex_translation ex) q o' frame stream s1))"

text \<open>The override of the T265: another optical rotation, and the pose stream points to the base.\<close>

definition d_half_pi :: float64 where "d_half_pi = 0x3ff921fb54442d18"

definition quaternion_pose :: "rt_fp \<Rightarrow> quat" where
  "quaternion_pose F = setRPY F d_half_pi d_zero d_minus_half_pi"

definition calcAndPublishStaticTransform_T265 :: "rt_fp \<Rightarrow> calib_env \<Rightarrow> profile \<Rightarrow> sip \<Rightarrow> 'a rs_rt_scheme \<Rightarrow> 'a rs_rt_scheme outcome" where
  "calcAndPublishStaticTransform_T265 F C base_profile stream s =
     (case stream_extrinsics C stream base_profile s of
        Inl e \<Rightarrow> Inl (e, s)
      | Inr ex \<Rightarrow>
          let o' = quaternion_pose F;
              q = q_mul F (q_mul F o' (rotationMatrixToQuaternion_rs F (ex_rotation ex))) (q_inverse F o')
          in if stream = POSE_sip
             then Inr (publish_static_tf F (ex_translation ex) (q_inverse F q) (rc_frame_id s stream)
                   (rc_base_frame_id s) s)
             else let s1 = publish_pair F (ex_translation ex) q o' (rc_frame_id s stream) stream s
               in Inr (case aligned_frame s stream of
                    None \<Rightarrow> s1 | Some frame \<Rightarrow> publish_pair F (ex_translation ex) q o' frame stream s1))"

section \<open>\<open>publishStaticTransforms\<close>\<close>

text \<open>\<open>calc\<close> is the virtual \<open>calcAndPublishStaticTransform\<close> with the base profile.\<close>

definition enabled_streams :: "'a rs_config_scheme \<Rightarrow> sip list" where
  "enabled_streams s = map fst (filter snd (rc_enable s))"

definition publish_extrinsics :: "rt_fp \<Rightarrow> calib_env \<Rightarrow> profile \<Rightarrow> sip \<times> string \<Rightarrow> 'a rs_rt_scheme \<Rightarrow> 'a rs_rt_scheme outcome" where
  "publish_extrinsics F C base_profile e s =
     (let stream = fst e; frame_id = snd e in
      if \<not> (enabled s DEPTH_sip \<and> enabled s stream) then Inr s
      else case getAProfile s stream of
        Inl err \<Rightarrow> Inl (err, s)
      | Inr p \<Rightarrow> (case cb_extrinsics C base_profile p of
          Inl err \<Rightarrow> Inl (Thrown err, s)
        | Inr ex \<Rightarrow> Inr (s\<lparr>rt_extrinsics := (rt_extrinsics s)(stream := Some ex),
            rt_extrinsics_sent := rt_extrinsics_sent s @ [(stream, rsExtrinsicsToMsg F ex frame_id)]\<rparr>)))"

definition extrinsics_topics :: "(sip \<times> string) list" where
  "extrinsics_topics = [(FISHEYE_sip, ''depth_to_fisheye_extrinsics''), (COLOR_sip, ''depth_to_color_extrinsics''),
     (INFRA1_sip, ''depth_to_infra1_extrinsics''), (INFRA2_sip, ''depth_to_infra2_extrinsics'')]"

definition send_transforms :: "'a rs_rt_scheme \<Rightarrow> 'a rs_rt_scheme" where
  "send_transforms s =
     (if 0 < rc_tf_publish_rate s then s\<lparr>rt_tf_thread := True\<rparr>
      else s\<lparr>rt_tf_sent := rt_tf_sent s @ [rt_static_tf s]\<rparr>)"

definition publishStaticTransforms_rs ::
    "(profile \<Rightarrow> sip \<Rightarrow> 'a rs_rt_scheme \<Rightarrow> 'a rs_rt_scheme outcome) \<Rightarrow> rt_fp \<Rightarrow> calib_env \<Rightarrow> 'a rs_rt_scheme \<Rightarrow> 'a rs_rt_scheme outcome" where
  "publishStaticTransforms_rs calc F C s =
     (case getAProfile s (rn_base_stream s) of
        Inl e \<Rightarrow> Inl (e, s)
      | Inr base_profile \<Rightarrow>
          and_then (if rc_publish_tf s
                    then and_then (fold_outcome (calc base_profile) (enabled_streams s) s) (\<lambda>s1. Inr (send_transforms s1))
                    else Inr s)
            (fold_outcome (publish_extrinsics F C base_profile) extrinsics_topics))"

text \<open>One round of \<open>publishDynamicTransforms\<close>, the thread that repeats the messages.\<close>

definition publishDynamicTransforms_round :: "'a rs_rt_scheme \<Rightarrow> 'a rs_rt_scheme" where
  "publishDynamicTransforms_round s = s\<lparr>rt_tf_sent := rt_tf_sent s @ [rt_static_tf s]\<rparr>"

section \<open>The edges\<close>

definition rs_edges :: "tf_msg list \<Rightarrow> (string \<times> string) list" where
  "rs_edges = map (\<lambda>t. (tf_parent t, tf_child t))"

definition stream_edges :: "'a rs_config_scheme \<Rightarrow> sip \<Rightarrow> (string \<times> string) list" where
  "stream_edges s i =
     [(rc_base_frame_id s, rc_frame_id s i), (rc_frame_id s i, rc_optical_frame_id s i)] @
     (case aligned_frame s i of
        None \<Rightarrow> [] | Some f \<Rightarrow> [(rc_base_frame_id s, f), (f, rc_optical_frame_id s i)])"

text \<open>What the transforms do not touch.\<close>

definition with_tf :: "tf_msg list \<Rightarrow> 'a rs_rt_scheme \<Rightarrow> 'a rs_rt_scheme" where
  "with_tf ts s = s\<lparr>rt_static_tf := ts\<rparr>"

lemma with_tf_simps [simp]:
  "rt_static_tf (with_tf ts s) = ts" "with_tf us (with_tf ts s) = with_tf us s" "with_tf (rt_static_tf s) s = s"
  "rc_base_frame_id (with_tf ts s) = rc_base_frame_id s" "rc_frame_id (with_tf ts s) = rc_frame_id s"
  "rc_optical_frame_id (with_tf ts s) = rc_optical_frame_id s" "aligned_frame (with_tf ts s) = aligned_frame s"
  "stream_edges (with_tf ts s) = stream_edges s" "rn_sensors (with_tf ts s) = rn_sensors s"
  "stream_extrinsics C i p (with_tf ts s) = stream_extrinsics C i p s"
  "rc_tf_publish_rate (with_tf ts s) = rc_tf_publish_rate s" "rt_tf_sent (with_tf ts s) = rt_tf_sent s"
  by (simp_all add: with_tf_def aligned_frame_def stream_edges_def fun_eq_iff stream_extrinsics_def getAProfile_def
      split: option.split)

lemma publish_with_tf:
  "publish_static_tf F t q a b s = with_tf (rt_static_tf s @ [static_tf_msg F t q a b]) s"
  by (simp add: publish_static_tf_def with_tf_def)

lemma calc_edges:
  assumes "calcAndPublishStaticTransform_rs F C p i s = Inr t"
  shows "\<exists>ts. t = with_tf (rt_static_tf s @ ts) s \<and> rs_edges ts = stream_edges s i"
proof -
  obtain ex where ex: "stream_extrinsics C i p s = Inr ex"
    using assms by (cases "stream_extrinsics C i p s") (auto simp: calcAndPublishStaticTransform_rs_def)
  show ?thesis
    using assms ex
    by (cases "aligned_frame s i")
       (auto simp: calcAndPublishStaticTransform_rs_def Let_def publish_pair_def publish_with_tf stream_edges_def
         rs_edges_def static_tf_msg_def)
qed

lemma calc_fold_edges:
  assumes "fold_outcome (calcAndPublishStaticTransform_rs F C p) is s = Inr t"
  shows "\<exists>ts. t = with_tf (rt_static_tf s @ ts) s \<and> rs_edges ts = concat (map (stream_edges s) is)"
  using assms
proof (induction "is" arbitrary: s)
  case Nil
  then show ?case by (auto simp: rs_edges_def)
next
  case (Cons i "is")
  then obtain u where u: "calcAndPublishStaticTransform_rs F C p i s = Inr u"
    "fold_outcome (calcAndPublishStaticTransform_rs F C p) is u = Inr t"
    by (auto simp: and_then_eq_Inr)
  from calc_edges [OF u(1)] obtain as where as: "u = with_tf (rt_static_tf s @ as) s" "rs_edges as = stream_edges s i"
    by blast
  from Cons.IH [OF u(2)] obtain bs where bs: "t = with_tf (rt_static_tf u @ bs) u"
    "rs_edges bs = concat (map (stream_edges u) is)" by blast
  show ?case
    using as bs by (intro exI [of _ "as @ bs"]) (simp add: rs_edges_def)
qed

lemma publish_extrinsics_tf:
  "publish_extrinsics F C p e s = Inr t \<Longrightarrow> rt_static_tf t = rt_static_tf s \<and> rt_tf_thread t = rt_tf_thread s \<and>
    rt_tf_sent t = rt_tf_sent s"
  by (auto simp: publish_extrinsics_def Let_def split: if_splits sum.splits)

lemma extrinsics_fold_tf:
  "fold_outcome (publish_extrinsics F C p) es s = Inr t \<Longrightarrow> rt_static_tf t = rt_static_tf s \<and>
    rt_tf_thread t = rt_tf_thread s \<and> rt_tf_sent t = rt_tf_sent s"
  by (induction es arbitrary: s) (auto simp: and_then_eq_Inr dest!: publish_extrinsics_tf)

text \<open>The names of the frames of the enabled streams.\<close>

definition stream_frames :: "'a rs_config_scheme \<Rightarrow> string list" where
  "stream_frames s = concat (map (\<lambda>i. [rc_frame_id s i, rc_optical_frame_id s i]) (enabled_streams s))"

lemma plain_children:
  assumes "\<not> rc_align_depth s"
  shows "map snd (concat (map (stream_edges s) is)) = concat (map (\<lambda>i. [rc_frame_id s i, rc_optical_frame_id s i]) is)"
  using assms by (induction "is") (simp_all add: stream_edges_def aligned_frame_def)

text \<open>
  Claim C26.  What \<open>publishStaticTransforms\<close> leaves to be sent (once, or again and again by the thread): for
  every enabled stream, in the order of the map, the base is the parent of the frame of the stream and that the
  parent of its optical frame.  If the configured names are distinct these edges form a tree, as tf
  requires; but with \<open>align_depth\<close> the optical frame of an enabled colour stream gets two parents, the
  frame of the stream and the frame of the aligned depth.
\<close>

theorem rs_static_frames:
  assumes "publishStaticTransforms_rs (calcAndPublishStaticTransform_rs F C) F C s = Inr t"
    and "rc_publish_tf s" "rt_static_tf s = []"
  shows "rs_edges (rt_static_tf t) = concat (map (stream_edges s) (enabled_streams s)) \<and>
    (if 0 < rc_tf_publish_rate s then rt_tf_thread t \<and> rt_tf_sent t = rt_tf_sent s
     else rt_tf_sent t = rt_tf_sent s @ [rt_static_tf t]) \<and>
    (\<not> rc_align_depth s \<and> distinct (rc_base_frame_id s # stream_frames s) \<longrightarrow>
      distinct (map snd (rs_edges (rt_static_tf t))) \<and> rc_base_frame_id s \<notin> snd ` set (rs_edges (rt_static_tf t))) \<and>
    (\<forall>f. rc_align_depth s \<and> COLOR_sip \<in> set (enabled_streams s) \<and> rc_depth_aligned_frame_id s COLOR_sip = Some f \<longrightarrow>
      {(rc_frame_id s COLOR_sip, rc_optical_frame_id s COLOR_sip), (f, rc_optical_frame_id s COLOR_sip)}
        \<subseteq> set (rs_edges (rt_static_tf t)))"
proof -
  obtain p u where p: "getAProfile s (rn_base_stream s) = Inr p"
    and u: "fold_outcome (calcAndPublishStaticTransform_rs F C p) (enabled_streams s) s = Inr u"
    and t: "fold_outcome (publish_extrinsics F C p) extrinsics_topics (send_transforms u) = Inr t"
    using assms(1,2) by (auto simp: publishStaticTransforms_rs_def and_then_eq_Inr split: sum.splits)
  from calc_fold_edges [OF u] obtain ts where ts: "u = with_tf ts s"
    "rs_edges ts = concat (map (stream_edges s) (enabled_streams s))" using assms(3) by auto
  note ext = extrinsics_fold_tf [OF t]
  have tf: "rt_static_tf t = ts" using ext ts(1) by (simp add: send_transforms_def split: if_splits)
  then have edges: "rs_edges (rt_static_tf t) = concat (map (stream_edges s) (enabled_streams s))"
    using ts(2) by simp
  have sent: "if 0 < rc_tf_publish_rate s then rt_tf_thread t \<and> rt_tf_sent t = rt_tf_sent s
     else rt_tf_sent t = rt_tf_sent s @ [rt_static_tf t]"
    using ext ts(1) tf by (simp add: send_transforms_def)
  have tree: "distinct (map snd (rs_edges (rt_static_tf t))) \<and> rc_base_frame_id s \<notin> snd ` set (rs_edges (rt_static_tf t))"
    if "\<not> rc_align_depth s" "distinct (rc_base_frame_id s # stream_frames s)"
  proof -
    have c: "map snd (rs_edges (rt_static_tf t)) = stream_frames s"
      using plain_children [OF that(1)] by (simp add: edges stream_frames_def)
    moreover have "snd ` set (rs_edges (rt_static_tf t)) = set (stream_frames s)"
      using c by (metis set_map)
    ultimately show ?thesis using that(2) by simp
  qed
  have two: "{(rc_frame_id s COLOR_sip, rc_optical_frame_id s COLOR_sip), (f, rc_optical_frame_id s COLOR_sip)}
      \<subseteq> set (rs_edges (rt_static_tf t))"
    if "rc_align_depth s" "COLOR_sip \<in> set (enabled_streams s)" "rc_depth_aligned_frame_id s COLOR_sip = Some f" for f
  proof -
    have "set (stream_edges s COLOR_sip) \<subseteq> set (rs_edges (rt_static_tf t))"
      unfolding edges using that(2) by auto
    moreover have "{(rc_frame_id s COLOR_sip, rc_optical_frame_id s COLOR_sip), (f, rc_optical_frame_id s COLOR_sip)}
        \<subseteq> set (stream_edges s COLOR_sip)"
      using that by (simp add: stream_edges_def aligned_frame_def)
    ultimately show ?thesis by blast
  qed
  show ?thesis using edges sent tree two by blast
qed

section \<open>Examples\<close>

definition calib_profile :: "sip \<Rightarrow> profile" where
  "calib_profile i = \<lparr>pf_stream = fst i, pf_index = snd i, pf_format = RS2_FORMAT_Z16, pf_width = 2, pf_height = 1,
     pf_fps = 30, pf_is_default = True\<rparr>"

definition demo_calib_sensor :: sensor where
  "demo_calib_sensor = \<lparr>sn_id = 0, sn_name = ''Stereo Module'', sn_kind = Depth_Sensor,
     sn_profiles = [calib_profile DEPTH_sip, calib_profile COLOR_sip], sn_roi = False\<rparr>"

definition demo_intrinsics :: intrinsics where
  "demo_intrinsics = \<lparr>in_width = 2, in_height = 1, in_fx = one32, in_fy = one32, in_ppx = 0, in_ppy = 0,
     in_model = Other_Distortion, in_coeffs = replicate 5 0\<rparr>"

definition demo_calib :: calib_env where
  "demo_calib = \<lparr>cb_intrinsics = (\<lambda>_. Inr demo_intrinsics), cb_extrinsics = (\<lambda>_ _. Inr unity_extrinsics),
     cb_motion = (\<lambda>_. Inl ''none'')\<rparr>"

text \<open>An arithmetic on the bits.\<close>

definition bits_rt :: rt_fp where
  "bits_rt = rs_fp.extend bits_fp \<lparr>f32_neg = uminus, f32_sub = (-), f32_mul = (*), f32_div = (\<lambda>x y. x div y),
     f32_of_u16 = ucast, f32_to_u16 = ucast, f32_of_int = word_of_int, f32_to_int = uint, f32_of_rat = (\<lambda>_. 0)\<rparr>"

definition rt_of :: "rs_node \<Rightarrow> rs_rt" where
  "rt_of s = rs_node.extend s \<lparr>rt_intrinsics = Map.empty, rt_camera_info = Map.empty, rt_aligned_info = Map.empty,
     rt_imu_infos = [], rt_static_tf = [], rt_tf_thread = False, rt_tf_sent = [], rt_extrinsics = Map.empty,
     rt_extrinsics_sent = []\<rparr>"

definition calib_node :: rs_rt where
  "calib_node = rt_of (blank_node
     \<lparr>rn_sensors := [(DEPTH_sip, demo_calib_sensor), (COLOR_sip, demo_calib_sensor)],
      rc_enable := [(DEPTH_sip, True), (COLOR_sip, True)], rc_publish_tf := True, rc_align_depth := True,
      rc_base_frame_id := ''camera_link'', rc_frame_id := FRAME_ID, rc_optical_frame_id := OPTICAL_FRAME_ID,
      rc_depth_aligned_frame_id := [COLOR_sip \<mapsto> ALIGNED_DEPTH_TO_FRAME_ID COLOR_sip]\<rparr>)"

lemma calib_node_simps [simp]:
  "rn_sensors calib_node = [(DEPTH_sip, demo_calib_sensor), (COLOR_sip, demo_calib_sensor)]"
  "rc_enable calib_node = [(DEPTH_sip, True), (COLOR_sip, True)]" "rc_publish_tf calib_node"
  "rc_align_depth calib_node" "rt_static_tf calib_node = []" "rn_base_stream calib_node = DEPTH_sip"
  "rc_frame_id calib_node = FRAME_ID" "rc_optical_frame_id calib_node = OPTICAL_FRAME_ID"
  "rc_depth_aligned_frame_id calib_node = [COLOR_sip \<mapsto> ALIGNED_DEPTH_TO_FRAME_ID COLOR_sip]"
  "rc_tf_publish_rate calib_node = 0"
  by (simp_all add: calib_node_def rt_of_def rs_node.defs blank_node_def)

lemma calib_profiles:
  "rn_sensors s = rn_sensors calib_node \<Longrightarrow> i \<in> {DEPTH_sip, COLOR_sip} \<Longrightarrow> getAProfile s i = Inr (calib_profile i)"
  by (auto simp: getAProfile_def demo_calib_sensor_def calib_profile_def pf_sip_def stream_defs)

lemma demo_extrinsics:
  "rn_sensors s = rn_sensors calib_node \<Longrightarrow> i \<in> {DEPTH_sip, COLOR_sip} \<Longrightarrow>
    stream_extrinsics demo_calib i p s = Inr unity_extrinsics"
  by (simp add: stream_extrinsics_def calib_profiles demo_calib_def)

definition like_demo :: "rs_rt \<Rightarrow> bool" where
  "like_demo s \<longleftrightarrow> rn_sensors s = rn_sensors calib_node \<and> rc_enable s = rc_enable calib_node"

lemma like_demo_updates [simp]:
  "like_demo (with_tf ts s) = like_demo s" "like_demo (send_transforms s) = like_demo s" "like_demo calib_node"
  by (simp_all add: like_demo_def with_tf_def send_transforms_def)

lemma demo_calc:
  assumes "like_demo s" "i \<in> {DEPTH_sip, COLOR_sip}"
  obtains t where "calcAndPublishStaticTransform_rs bits_rt demo_calib p i s = Inr t" "like_demo t"
proof -
  have "stream_extrinsics demo_calib i p s = Inr unity_extrinsics"
    using assms demo_extrinsics unfolding like_demo_def by blast
  then obtain t where t: "calcAndPublishStaticTransform_rs bits_rt demo_calib p i s = Inr t"
    by (simp add: calcAndPublishStaticTransform_rs_def Let_def)
  moreover from calc_edges [OF t] have "like_demo t" using assms(1) by auto
  ultimately show ?thesis by (rule that)
qed

lemma demo_publishes:
  assumes "like_demo s"
  shows "\<exists>t. fold_outcome (publish_extrinsics F demo_calib p) extrinsics_topics s = Inr t"
proof -
  have en: "enabled s i \<longleftrightarrow> i \<in> {DEPTH_sip, COLOR_sip}" for i
    using assms by (auto simp: like_demo_def enabled_def)
  have "getAProfile s COLOR_sip = Inr (calib_profile COLOR_sip)"
    using assms unfolding like_demo_def by (intro calib_profiles) auto
  moreover have "FISHEYE_sip \<notin> {DEPTH_sip, COLOR_sip}" "INFRA1_sip \<notin> {DEPTH_sip, COLOR_sip}"
    "INFRA2_sip \<notin> {DEPTH_sip, COLOR_sip}" by (simp_all add: stream_defs)
  moreover have "enabled (s\<lparr>rt_extrinsics := x, rt_extrinsics_sent := y\<rparr>) = enabled s" for x y
    by (simp add: enabled_def fun_eq_iff)
  ultimately show ?thesis
    by (simp add: extrinsics_topics_def publish_extrinsics_def en demo_calib_def)
qed

lemma rs_static_frames_witness:
  "\<exists>t. publishStaticTransforms_rs (calcAndPublishStaticTransform_rs bits_rt demo_calib) bits_rt demo_calib calib_node = Inr t \<and>
    {(''camera_color_frame'', ''camera_color_optical_frame''),
     (''camera_aligned_depth_to_color_frame'', ''camera_color_optical_frame'')} \<subseteq> set (rs_edges (rt_static_tf t))"
proof -
  let ?p = "calib_profile DEPTH_sip"
  obtain u where u: "calcAndPublishStaticTransform_rs bits_rt demo_calib ?p DEPTH_sip calib_node = Inr u" "like_demo u"
    by (rule demo_calc [of calib_node DEPTH_sip]) auto
  obtain v where v: "calcAndPublishStaticTransform_rs bits_rt demo_calib ?p COLOR_sip u = Inr v" "like_demo v"
    by (rule demo_calc [OF u(2), of COLOR_sip]) auto
  obtain t where "fold_outcome (publish_extrinsics bits_rt demo_calib ?p) extrinsics_topics (send_transforms v) = Inr t"
    using demo_publishes v(2) by (metis like_demo_updates(2))
  then have t: "publishStaticTransforms_rs (calcAndPublishStaticTransform_rs bits_rt demo_calib) bits_rt
    demo_calib calib_node = Inr t"
    using u(1) v(1) by (simp add: publishStaticTransforms_rs_def calib_profiles enabled_streams_def)
  from rs_static_frames [OF t] show ?thesis
    using t by (auto simp: enabled_streams_def FRAME_ID_def OPTICAL_FRAME_ID_def ALIGNED_DEPTH_TO_FRAME_ID_def
        STREAM_NAME_def stream_defs)
qed

end
