(* ===== verification/Rs_Options.thy ===== *)
theory Rs_Options
  imports Rs_Frames Rs_Transforms
begin

text \<open>
  Options of sensors and filters (\<open>base_realsense_node.cpp\<close>): how parameters set them when the node
  starts, what is registered for dynamic reconfiguration, the regions of interest of the automatic
  exposure, and the values of the HDR sequence.
\<close>

section \<open>Options\<close>

text \<open>
  An option is its number in librealsense.  Values are \<open>float\<close>s; the code only compares and truncates
  them and steps through small ranges, so they are rational numbers here.
\<close>

type_synonym rs2_option = nat

datatype provider = Sensor_Options nat | Filter_Options string

record option_range =
  or_min :: rat
  or_max :: rat
  or_step :: rat

datatype dyn_var =
    Bool_Var bool
  | Int_Var int int int
  | Double_Var rat rat rat
  | Enum_Var int "(string \<times> int) list" bool

record roi =
  min_x :: int
  min_y :: int
  max_x :: int
  max_y :: int

text \<open>A function in \<open>_update_functions_v\<close>: report an option of a sensor to the parameter server.\<close>

datatype update = Report string provider rs2_option

record rs_op = rs_fr +
  op_log :: "(provider \<times> rs2_option \<times> rat) list"
  op_vars :: "(string \<times> string \<times> dyn_var) list"
  op_servers :: "string list"
  op_roi :: "(string \<times> roi) list"
  op_roi_sent :: "(nat \<times> roi) list"
  op_updates :: "update list"
  op_update_thread :: bool
  op_reported :: "(string \<times> string \<times> int) list"
  op_deleted :: "string list"

text \<open>
  The library: how many options there are and their names; what a provider says of an option; the value
  it returns and the exception it throws, given the settings made before.
\<close>

record opt_env =
  oe_count :: nat
  oe_name :: "rs2_option \<Rightarrow> string"
  oe_supports :: "provider \<Rightarrow> rs2_option \<Rightarrow> bool"
  oe_read_only :: "provider \<Rightarrow> rs2_option \<Rightarrow> bool"
  oe_range :: "provider \<Rightarrow> rs2_option \<Rightarrow> option_range"
  oe_desc :: "provider \<Rightarrow> rs2_option \<Rightarrow> rat \<Rightarrow> string option"
  oe_get :: "(provider \<times> rs2_option \<times> rat) list \<Rightarrow> provider \<Rightarrow> rs2_option \<Rightarrow> string + rat"
  oe_set_error :: "(provider \<times> rs2_option \<times> rat) list \<Rightarrow> provider \<times> rs2_option \<times> rat \<Rightarrow> string option"
  oe_roi_error :: "(nat \<times> roi) list \<Rightarrow> nat \<times> roi \<Rightarrow> string option"
  oe_depth_units :: rs2_option
  oe_sequence_id :: rs2_option
  oe_sequence_size :: rs2_option
  oe_hdr_enabled :: rs2_option
  oe_exposure :: rs2_option
  oe_gain :: rs2_option

text \<open>Parameters that are read with \<open>param\<close> where its result matters: there or not, with the right type.\<close>

record opt_params =
  ap_bool :: "string \<Rightarrow> bool option"
  ap_int :: "string \<Rightarrow> int option"
  ap_double :: "string \<Rightarrow> rat option"

definition set_option :: "opt_env \<Rightarrow> provider \<Rightarrow> rs2_option \<Rightarrow> rat \<Rightarrow> rs_op \<Rightarrow> rs_op outcome" where
  "set_option E p i v s =
     (let s' = s\<lparr>op_log := op_log s @ [(p, i, v)]\<rparr>
      in case oe_set_error E (op_log s) (p, i, v) of None \<Rightarrow> Inr s' | Some e \<Rightarrow> Inl (Thrown e, s'))"

definition get_option :: "opt_env \<Rightarrow> provider \<Rightarrow> rs2_option \<Rightarrow> rs_op \<Rightarrow> (rat \<Rightarrow> rs_op outcome) \<Rightarrow> rs_op outcome" where
  "get_option E p i s k = (case oe_get E (op_log s) p i of Inl e \<Rightarrow> Inl (Thrown e, s) | Inr v \<Rightarrow> k v)"

section \<open>Kinds of options\<close>

definition trunc :: "rat \<Rightarrow> int" where
  "trunc r = (if 0 \<le> r then \<lfloor>r\<rfloor> else \<lceil>r\<rceil>)"

definition is_checkbox :: "opt_env \<Rightarrow> provider \<Rightarrow> rs2_option \<Rightarrow> bool" where
  "is_checkbox E p i = (let r = oe_range E p i in or_max r = 1 \<and> or_min r = 0 \<and> or_step r = 1)"

definition is_int_option :: "opt_env \<Rightarrow> provider \<Rightarrow> rs2_option \<Rightarrow> bool" where
  "is_int_option E p i \<longleftrightarrow> or_step (oe_range E p i) = 1"

text \<open>The loops; \<open>None\<close> is a loop that does not end.\<close>

partial_function (option) enum_scan :: "(rat \<Rightarrow> string option) \<Rightarrow> rat \<Rightarrow> rat \<Rightarrow> rat \<Rightarrow> bool option" where
  "enum_scan desc hi step i =
     (if hi < i then Some False else if desc i = None then enum_scan desc hi step (i + step) else Some True)"

definition MAX_ENUM_OPTION_VALUES :: rat where "MAX_ENUM_OPTION_VALUES = 100"
definition EPSILON :: rat where "EPSILON = 13421773 / 268435456"

definition is_enum_option :: "opt_env \<Rightarrow> provider \<Rightarrow> rs2_option \<Rightarrow> bool option" where
  "is_enum_option E p i =
     (let r = oe_range E p i in
      if EPSILON < \<bar>or_step r - 1\<bar> \<or> MAX_ENUM_OPTION_VALUES < or_max r then Some False
      else enum_scan (oe_desc E p i) (or_max r) (or_step r) (or_min r))"

partial_function (option) enum_loop ::
    "(int \<Rightarrow> string option) \<Rightarrow> int \<Rightarrow> int \<Rightarrow> int \<Rightarrow> (string \<times> int) list \<Rightarrow> (string \<times> int) list option" where
  "enum_loop desc hi step val dict =
     (if hi < val then Some dict
      else enum_loop desc hi step (val + step) (case desc val of None \<Rightarrow> dict | Some n \<Rightarrow> map_put n val dict))"

definition get_enum_method :: "opt_env \<Rightarrow> provider \<Rightarrow> rs2_option \<Rightarrow> (string \<times> int) list option" where
  "get_enum_method E p i =
     (case is_enum_option E p i of
        None \<Rightarrow> None
      | Some False \<Rightarrow> Some []
      | Some True \<Rightarrow> (let r = oe_range E p i in
          enum_loop (\<lambda>v. oe_desc E p i (of_int v)) (trunc (or_max r)) (trunc (or_step r)) (trunc (or_min r)) []))"

section \<open>\<open>registerDynamicOption\<close>\<close>

definition register_var :: "string \<Rightarrow> string \<Rightarrow> dyn_var \<Rightarrow> rs_op \<Rightarrow> rs_op" where
  "register_var m n v s = s\<lparr>op_vars := op_vars s @ [(m, n, v)]\<rparr>"

definition option_key :: "string \<Rightarrow> string \<Rightarrow> string" where
  "option_key m n = m @ ''/'' @ n"

definition register_checkbox :: "opt_env \<Rightarrow> opt_params \<Rightarrow> string \<Rightarrow> string \<Rightarrow> provider \<Rightarrow> rs2_option \<Rightarrow> rs_op \<Rightarrow> rs_op outcome" where
  "register_checkbox E P m n p i s =
     get_option E p i s (\<lambda>v0.
       case ap_bool P (option_key m n) of
         None \<Rightarrow> Inr (register_var m n (Bool_Var (v0 \<noteq> 0)) s)
       | Some b \<Rightarrow> and_then (set_option E p i (if b then 1 else 0) s) (\<lambda>s1. Inr (register_var m n (Bool_Var b) s1)))"

definition outside :: "option_range \<Rightarrow> rat \<Rightarrow> bool" where
  "outside r v \<longleftrightarrow> v < or_min r \<or> or_max r < v"

definition ROS_DEPTH_SCALE :: rat where "ROS_DEPTH_SCALE = 8589935 / 8589934592"

definition register_number :: "opt_env \<Rightarrow> opt_params \<Rightarrow> string \<Rightarrow> string \<Rightarrow> provider \<Rightarrow> rs2_option \<Rightarrow> rs_op \<Rightarrow> rs_op outcome" where
  "register_number E P m n p i s =
     (let r = oe_range E p i in
      get_option E p i s (\<lambda>v0.
        and_then
          (case ap_double P (option_key m n) of
             None \<Rightarrow> Inr s
           | Some x \<Rightarrow> if outside r x then Inr s else set_option E p i x s)
          (\<lambda>s1. let v = (case ap_double P (option_key m n) of None \<Rightarrow> v0 | Some x \<Rightarrow> if outside r x then v0 else x)
            in if outside r v then Inr s1
               else if is_int_option E p i
               then Inr (register_var m n (Int_Var (trunc v) (trunc (or_min r)) (trunc (or_max r))) s1)
               else if i = oe_depth_units E
               then (if outside r ROS_DEPTH_SCALE then Inr s1
                     else and_then (set_option E p i ROS_DEPTH_SCALE s1)
                       (\<lambda>s2. Inr (s2\<lparr>rn_depth_scale_meters := meter_to_mm\<rparr>)))
               else Inr (register_var m n (Double_Var v (or_min r) (or_max r)) s1))))"

definition register_enum :: "opt_env \<Rightarrow> opt_params \<Rightarrow> string \<Rightarrow> string \<Rightarrow> provider \<Rightarrow> rs2_option \<Rightarrow>
    (string \<times> int) list \<Rightarrow> rs_op \<Rightarrow> rs_op outcome" where
  "register_enum E P m n p i dict s =
     get_option E p i s (\<lambda>v0.
       and_then
         (case ap_int P (option_key m n) of
            None \<Rightarrow> Inr s
          | Some x \<Rightarrow> if x \<in> snd ` set dict then set_option E p i (of_int x) s else Inr s)
         (\<lambda>s1. let v = (case ap_int P (option_key m n) of
                    None \<Rightarrow> trunc v0 | Some x \<Rightarrow> if x \<in> snd ` set dict then x else trunc v0)
           in if v \<notin> snd ` set dict then Inr s1
              else Inr (register_var m n
                (Enum_Var v dict (m = ''stereo_module'' \<and> i = oe_sequence_id E)) s1)))"

text \<open>One round of the loop; what it throws is caught.  \<open>None\<close>: it does not end.\<close>

definition register_option :: "opt_env \<Rightarrow> opt_params \<Rightarrow> string \<Rightarrow> provider \<Rightarrow> rs2_option \<Rightarrow> rs_op \<Rightarrow> rs_op option" where
  "register_option E P m p i s =
     (let n = create_graph_resource_name (oe_name E i) in
      if \<not> oe_supports E p i \<or> oe_read_only E p i then Some s
      else if is_checkbox E p i then Some (outcome_state (register_checkbox E P m n p i s))
      else (case get_enum_method E p i of
          None \<Rightarrow> None
        | Some dict \<Rightarrow> Some (outcome_state
            (if dict = [] then register_number E P m n p i s else register_enum E P m n p i dict s))))"

fun register_options :: "opt_env \<Rightarrow> opt_params \<Rightarrow> string \<Rightarrow> provider \<Rightarrow> rs2_option list \<Rightarrow> rs_op \<Rightarrow> rs_op option" where
  "register_options E P m p [] s = Some s"
| "register_options E P m p (i # is) s =
     (case register_option E P m p i s of None \<Rightarrow> None | Some t \<Rightarrow> register_options E P m p is t)"

definition registerDynamicOption :: "opt_env \<Rightarrow> opt_params \<Rightarrow> provider \<Rightarrow> string \<Rightarrow> rs_op \<Rightarrow> rs_op option" where
  "registerDynamicOption E P p m s =
     (case register_options E P m p [0..<oe_count E] s of
        None \<Rightarrow> None | Some t \<Rightarrow> Some (t\<lparr>op_servers := op_servers t @ [m]\<rparr>))"

text \<open>Every sensor under the name of its module, then every filter under its own.\<close>

definition option_providers :: "'a rs_node_scheme \<Rightarrow> (provider \<times> string) list" where
  "option_providers s =
     map (\<lambda>sn. (Sensor_Options (sn_id sn), create_graph_resource_name (sn_name sn))) (rn_dev_sensors s) @
     map (\<lambda>f. (Filter_Options f, f)) (rn_filters s)"

fun register_all :: "opt_env \<Rightarrow> opt_params \<Rightarrow> (provider \<times> string) list \<Rightarrow> rs_op \<Rightarrow> rs_op option" where
  "register_all E P [] s = Some s"
| "register_all E P ((p, m) # ps) s =
     (case registerDynamicOption E P p m s of None \<Rightarrow> None | Some t \<Rightarrow> register_all E P ps t)"

definition registerDynamicReconfigCb :: "opt_env \<Rightarrow> opt_params \<Rightarrow> rs_op \<Rightarrow> rs_op option" where
  "registerDynamicReconfigCb E P s = register_all E P (option_providers s) s"

section \<open>Which loops end\<close>

lemma enum_scan_ends:
  assumes "0 < step"
  shows "hi - i < of_nat n * step \<Longrightarrow> \<exists>b. enum_scan desc hi step i = Some b"
proof (induction n arbitrary: i)
  case 0
  then show ?case by (subst enum_scan.simps) auto
next
  case (Suc n)
  have "hi - (i + step) < of_nat n * step" using Suc.prems by (simp add: algebra_simps)
  from Suc.IH [OF this] show ?case by (subst enum_scan.simps) auto
qed

lemma enum_scan_found:
  "enum_scan desc hi step i = Some b \<Longrightarrow> 0 < step \<Longrightarrow> b \<Longrightarrow> i \<le> hi"
  by (subst (asm) enum_scan.simps) (auto split: if_splits)

lemma enum_loop_zero:
  assumes "enum_loop desc hi step v d = Some y"
  shows "step = 0 \<longrightarrow> hi < v"
  by (rule enum_loop.raw_induct [where P = "\<lambda>desc hi step v d y. step = 0 \<longrightarrow> hi < v", OF _ assms])
     (auto split: if_splits)

text \<open>The dictionary that the loop collects: the described values of the range, by description.\<close>

definition described :: "(int \<Rightarrow> string option) \<Rightarrow> int list \<Rightarrow> (string \<times> int) list \<Rightarrow> (string \<times> int) list" where
  "described desc vs d = fold (\<lambda>v d. case desc v of None \<Rightarrow> d | Some n \<Rightarrow> map_put n v d) vs d"

lemma enum_loop_one: "enum_loop desc hi 1 v d = Some (described desc [v..hi] d)"
proof (induction "nat (hi + 1 - v)" arbitrary: v d)
  case 0
  then show ?case by (subst enum_loop.simps) (simp add: described_def)
next
  case (Suc n)
  then have "n = nat (hi + 1 - (v + 1))" "v \<le> hi" by linarith+
  then show ?case
    using Suc(1) [of "v + 1"] by (subst enum_loop.simps) (simp add: described_def upto_rec1 split: option.split)
qed

lemma trunc_mono: "a \<le> b \<Longrightarrow> trunc a \<le> trunc b"
  unfolding trunc_def by (auto simp: floor_mono ceiling_mono intro: order_trans [of _ "0 :: int"])

lemma enum_option_cases:
  "is_enum_option E p i \<noteq> None \<and>
    (get_enum_method E p i = None \<longleftrightarrow> is_enum_option E p i = Some True \<and> or_step (oe_range E p i) < 1) \<and>
    (is_enum_option E p i = Some True \<and> 1 \<le> or_step (oe_range E p i) \<longrightarrow>
      get_enum_method E p i = Some (described (\<lambda>v. oe_desc E p i (of_int v))
        [trunc (or_min (oe_range E p i))..trunc (or_max (oe_range E p i))] []))"
proof -
  let ?r = "oe_range E p i"
  have pos: "0 < or_step ?r" if "\<not> EPSILON < \<bar>or_step ?r - 1\<bar>"
    using that by (auto simp: EPSILON_def abs_if split: if_splits)
  have ends: "is_enum_option E p i \<noteq> None"
  proof (cases "EPSILON < \<bar>or_step ?r - 1\<bar> \<or> MAX_ENUM_OPTION_VALUES < or_max ?r")
    case False
    then obtain n where "or_max ?r - or_min ?r < of_nat n * or_step ?r"
      using pos ex_less_of_nat_mult by blast
    from enum_scan_ends [OF pos this] False show ?thesis
      by (fastforce simp: is_enum_option_def Let_def)
  qed (simp add: is_enum_option_def)
  have small: "0 < or_step ?r" "or_step ?r < 2" "or_min ?r \<le> or_max ?r" if "is_enum_option E p i = Some True"
  proof -
    have h: "\<not> EPSILON < \<bar>or_step ?r - 1\<bar>" "enum_scan (oe_desc E p i) (or_max ?r) (or_step ?r) (or_min ?r) = Some True"
      using that by (auto simp: is_enum_option_def Let_def split: if_splits)
    show "0 < or_step ?r" "or_step ?r < 2" "or_min ?r \<le> or_max ?r"
      using pos [OF h(1)] h(1) enum_scan_found [OF h(2)] by (auto simp: EPSILON_def abs_if split: if_splits)
  qed
  have one: "trunc (or_step ?r) = (if or_step ?r < 1 then 0 else 1)" if "is_enum_option E p i = Some True"
    using small [OF that] by (auto simp: trunc_def floor_eq_iff)
  have zero: "enum_loop desc (trunc (or_max ?r)) 0 (trunc (or_min ?r)) [] = None"
    if "is_enum_option E p i = Some True" for desc
    using enum_loop_zero [of desc "trunc (or_max ?r)" 0 "trunc (or_min ?r)" "[]"] trunc_mono [OF small(3) [OF that]]
    by (cases "enum_loop desc (trunc (or_max ?r)) 0 (trunc (or_min ?r)) []") auto
  consider "is_enum_option E p i = Some False" | "is_enum_option E p i = Some True"
    using ends by (metis (full_types) option.exhaust)
  then show ?thesis
    by cases (auto simp: get_enum_method_def Let_def one zero enum_loop_one)
qed


section \<open>What is set when the node starts\<close>

text \<open>A setting that the option admits: in its range, or one of the described values of an enumeration.\<close>

definition admissible :: "opt_env \<Rightarrow> provider \<times> rs2_option \<times> rat \<Rightarrow> bool" where
  "admissible E c \<longleftrightarrow> (case c of (p, i, v) \<Rightarrow> oe_supports E p i \<and> \<not> oe_read_only E p i \<and>
     (\<not> outside (oe_range E p i) v \<or> (\<exists>k. v = of_int k \<and> oe_desc E p i v \<noteq> None)))"

text \<open>The log grows by admissible settings.\<close>

definition grows :: "opt_env \<Rightarrow> rs_op \<Rightarrow> rs_op \<Rightarrow> bool" where
  "grows E s t \<longleftrightarrow> (\<exists>new. op_log t = op_log s @ new \<and> list_all (admissible E) new)"

lemma grows_same: "op_log t = op_log s \<Longrightarrow> grows E s t"
  by (simp add: grows_def)

lemma grows_trans: "grows E s t \<Longrightarrow> grows E t u \<Longrightarrow> grows E s u"
  unfolding grows_def by (metis append.assoc list_all_append)

lemma register_var_log [simp]: "op_log (register_var m n v s) = op_log s"
  by (simp add: register_var_def)

lemma set_option_grows: "admissible E (p, i, v) \<Longrightarrow> grows E s (outcome_state (set_option E p i v s))"
  by (simp add: set_option_def Let_def grows_def split: option.split)

text \<open>Setting, then finishing without touching the log.\<close>

lemma then_grows:
  assumes "grows E s (outcome_state r)" "\<And>t. grows E t (outcome_state (k t))"
  shows "grows E s (outcome_state (and_then r k))"
proof (cases r)
  case (Inl y)
  then show ?thesis using assms(1) by (cases y) simp
next
  case (Inr t)
  then show ?thesis using assms grows_trans by auto
qed

lemma get_option_grows: "(\<And>v. grows E s (outcome_state (k v))) \<Longrightarrow> grows E s (outcome_state (get_option E p i s k))"
  by (simp add: get_option_def grows_same split: sum.split)

lemma register_checkbox_grows:
  assumes "oe_supports E p i" "\<not> oe_read_only E p i" "is_checkbox E p i"
  shows "grows E s (outcome_state (register_checkbox E P m n p i s))"
proof -
  have "admissible E (p, i, 1)" "admissible E (p, i, 0)"
    using assms by (simp_all add: admissible_def outside_def is_checkbox_def Let_def)
  then show ?thesis
    unfolding register_checkbox_def
    by (intro get_option_grows) (auto intro!: then_grows set_option_grows simp: grows_same split: option.split)
qed

lemma admissible_range:
  "oe_supports E p i \<Longrightarrow> \<not> oe_read_only E p i \<Longrightarrow> \<not> outside (oe_range E p i) v \<Longrightarrow> admissible E (p, i, v)"
  by (simp add: admissible_def)

lemma register_number_grows:
  assumes "oe_supports E p i" "\<not> oe_read_only E p i"
  shows "grows E s (outcome_state (register_number E P m n p i s))"
  unfolding register_number_def Let_def
  by (intro get_option_grows then_grows)
     (use assms in \<open>auto intro!: then_grows set_option_grows admissible_range simp: grows_same split: option.split\<close>)

lemma register_enum_grows:
  assumes "oe_supports E p i" "\<not> oe_read_only E p i" "\<forall>k \<in> snd ` set dict. oe_desc E p i (of_int k) \<noteq> None"
  shows "grows E s (outcome_state (register_enum E P m n p i dict s))"
proof -
  have "k \<in> snd ` set dict \<Longrightarrow> admissible E (p, i, of_int k)" for k
    using assms by (auto simp: admissible_def)
  then show ?thesis
    unfolding register_enum_def Let_def
    by (intro get_option_grows then_grows)
       (auto intro!: set_option_grows simp: grows_same split: option.split)
qed

lemma set_map_put_subset: "set (map_put k v d) \<subseteq> insert (k, v) (set d)"
  by (induction d) (auto split: if_splits)

lemma described_values:
  "snd ` set (described desc vs d) \<subseteq> snd ` set d \<union> {v \<in> set vs. desc v \<noteq> None}"
proof (induction vs arbitrary: d)
  case (Cons v vs)
  show ?case
  proof (cases "desc v")
    case None
    then show ?thesis using Cons by (auto simp: described_def)
  next
    case (Some n)
    have "snd ` set (map_put n v d) \<subseteq> insert v (snd ` set d)"
      using set_map_put_subset [of n v d] by (metis (no_types, lifting) image_insert image_mono snd_conv)
    moreover have eq: "described desc (v # vs) d = described desc vs (map_put n v d)"
      by (simp add: described_def Some)
    ultimately have "snd ` set (described desc (v # vs) d) \<subseteq> insert v (snd ` set d) \<union> {w \<in> set vs. desc w \<noteq> None}"
      using Cons [of "map_put n v d"] unfolding eq by blast
    then show ?thesis using Some by auto
  qed
qed (simp add: described_def)

lemma enum_values_described:
  assumes "get_enum_method E p i = Some dict"
  shows "\<forall>k \<in> snd ` set dict. oe_desc E p i (of_int k) \<noteq> None"
proof -
  consider "is_enum_option E p i = Some False" | "is_enum_option E p i = Some True" "1 \<le> or_step (oe_range E p i)"
    using assms enum_option_cases [of E p i] by fastforce
  then show ?thesis
  proof cases
    case 1
    then show ?thesis using assms by (simp add: get_enum_method_def)
  next
    case 2
    then have "dict = described (\<lambda>v. oe_desc E p i (of_int v))
        [trunc (or_min (oe_range E p i))..trunc (or_max (oe_range E p i))] []"
      using assms enum_option_cases [of E p i] by auto
    then show ?thesis using described_values [of "\<lambda>v. oe_desc E p i (of_int v)" _ "[]"] by auto
  qed
qed

lemma register_option_grows:
  assumes "register_option E P m p i s = Some t"
  shows "grows E s t"
proof (cases "oe_supports E p i \<and> \<not> oe_read_only E p i")
  case False
  then show ?thesis using assms by (auto simp: register_option_def Let_def grows_same)
next
  case True
  then have op: "oe_supports E p i" "\<not> oe_read_only E p i" by blast+
  show ?thesis
  proof (cases "is_checkbox E p i")
    case True
    then show ?thesis using assms op register_checkbox_grows by (auto simp: register_option_def Let_def)
  next
    case False
    then obtain dict where dict: "get_enum_method E p i = Some dict"
      "t = outcome_state (if dict = [] then register_number E P m (create_graph_resource_name (oe_name E i)) p i s
         else register_enum E P m (create_graph_resource_name (oe_name E i)) p i dict s)"
      using assms op by (auto simp: register_option_def Let_def split: option.splits)
    show ?thesis
      unfolding dict(2)
      using register_number_grows [OF op] register_enum_grows [OF op enum_values_described [OF dict(1)]] by simp
  qed
qed

lemma register_options_grows: "register_options E P m p is s = Some t \<Longrightarrow> grows E s t"
  by (induction "is" arbitrary: s)
     (auto simp: grows_same split: option.splits intro: grows_trans register_option_grows)

lemma register_all_grows: "register_all E P ps s = Some t \<Longrightarrow> grows E s t"
proof (induction ps arbitrary: s)
  case (Cons q ps)
  then obtain p m u where "q = (p, m)" "registerDynamicOption E P p m s = Some u" "register_all E P ps u = Some t"
    by (cases q) (auto split: option.splits)
  then show ?case
    using Cons.IH grows_trans register_options_grows
    by (fastforce simp: registerDynamicOption_def grows_def split: option.splits)
qed (simp add: grows_same)


text \<open>A sensor with one option, the range 1 to 200, and a parameter that sets it to 50.\<close>

definition one_option :: opt_env where
  "one_option = \<lparr>oe_count = 1, oe_name = (\<lambda>_. ''Laser Power''), oe_supports = (\<lambda>_ _. True),
     oe_read_only = (\<lambda>_ _. False), oe_range = (\<lambda>_ _. \<lparr>or_min = 1, or_max = 200, or_step = 1\<rparr>),
     oe_desc = (\<lambda>_ _ _. None), oe_get = (\<lambda>_ _ _. Inr 7), oe_set_error = (\<lambda>_ _. None), oe_roi_error = (\<lambda>_ _. None),
     oe_depth_units = 28, oe_sequence_id = 52, oe_sequence_size = 51, oe_hdr_enabled = 53, oe_exposure = 3,
     oe_gain = 4\<rparr>"

lemma one_option_simps [simp]:
  "oe_count one_option = 1" "oe_name one_option i = ''Laser Power''" "oe_supports one_option p i"
  "\<not> oe_read_only one_option p i" "oe_range one_option p i = \<lparr>or_min = 1, or_max = 200, or_step = 1\<rparr>"
  "oe_desc one_option p i v = None" "oe_get one_option l p i = Inr 7" "oe_set_error one_option l c = None"
  by (simp_all add: one_option_def)

definition one_param :: opt_params where
  "one_param = \<lparr>ap_bool = (\<lambda>_. None), ap_int = (\<lambda>_. None), ap_double = (\<lambda>_. Some 50)\<rparr>"

definition op_of :: "rs_node \<Rightarrow> rs_op" where
  "op_of s = rs_fr.extend (rs_rt.extend (rt_of s)
     \<lparr>fs_clock = \<lparr>tb_init = False, tb_ros = d_zero, tb_camera = d_zero, tb_previous = d_zero\<rparr>,
      fs_first = (\<lambda>_. False), fs_functions = (\<lambda>_. []), fs_threads = [], fs_seq = (\<lambda>_. 0), fs_aligned_seq = (\<lambda>_. 0),
      fs_sent = []\<rparr>)
     \<lparr>op_log = [], op_vars = [], op_servers = [], op_roi = [], op_roi_sent = [], op_updates = [],
      op_update_thread = False, op_reported = [], op_deleted = []\<rparr>"

lemma op_of_simps [simp]:
  "rn_dev_sensors (op_of s) = rn_dev_sensors s" "rn_filters (op_of s) = rn_filters s"
  "rn_sensors (op_of s) = rn_sensors s" "rn_profiles (op_of s) = rn_profiles s"
  "rc_width (op_of s) = rc_width s" "rc_height (op_of s) = rc_height s"
  "op_log (op_of s) = []" "op_roi (op_of s) = []" "op_updates (op_of s) = []" "op_reported (op_of s) = []"
  by (simp_all add: op_of_def rt_of_def rs_node.defs rs_rt.defs rs_fr.defs)

definition option_node :: rs_op where
  "option_node = op_of (blank_node\<lparr>rn_dev_sensors := [demo_calib_sensor]\<rparr>)"

lemma demo_names:
  "create_graph_resource_name ''Stereo Module'' = ''stereo_module''"
  "create_graph_resource_name ''Laser Power'' = ''laser_power''"
  by code_simp+


section \<open>The HDR sequence\<close>

definition hdr_param :: "opt_env \<Rightarrow> string \<Rightarrow> rs2_option \<Rightarrow> nat \<Rightarrow> string" where
  "hdr_param E m i k = m @ ''/'' @ create_graph_resource_name (oe_name E i) @ ''/'' @ show_nat k"

text \<open>The value that the sensor has for this step of the sequence, truncated, is the default of the parameter,
  which is deleted once it is read.\<close>

definition hdr_option :: "opt_env \<Rightarrow> ros_params \<Rightarrow> string \<Rightarrow> provider \<Rightarrow> nat \<Rightarrow> rs2_option \<Rightarrow> rs_op \<Rightarrow> rs_op outcome" where
  "hdr_option E P m p k i s =
     get_option E p i s (\<lambda>x.
       let option_value = trunc x; user = p_int P (hdr_param E m i k) option_value;
           s' = s\<lparr>op_deleted := op_deleted s @ [hdr_param E m i k]\<rparr>
       in if option_value \<noteq> user then set_option E p i (of_int user) s' else Inr s')"

definition hdr_step :: "opt_env \<Rightarrow> ros_params \<Rightarrow> string \<Rightarrow> provider \<Rightarrow> nat \<Rightarrow> rs_op \<Rightarrow> rs_op outcome" where
  "hdr_step E P m p k s =
     and_then (set_option E p (oe_sequence_id E) (of_nat k) s)
       (fold_outcome (hdr_option E P m p k) [oe_exposure E, oe_gain E])"

definition hdr_sensor :: "opt_env \<Rightarrow> ros_params \<Rightarrow> sensor \<Rightarrow> rs_op \<Rightarrow> rs_op outcome" where
  "hdr_sensor E P sn s =
     (let m = create_graph_resource_name (sn_name sn); p = Sensor_Options (sn_id sn) in
      get_option E p (oe_sequence_size E) s (\<lambda>n.
        and_then (fold_outcome (hdr_step E P m p) [1..<Suc (nat (trunc n))] s)
          (\<lambda>s1. and_then (set_option E p (oe_sequence_id E) 0 s1)
          (\<lambda>s2. and_then (set_option E p (oe_hdr_enabled E) 1 s2)
          (\<lambda>s3. Inr (s3\<lparr>op_update_thread := True\<rparr>))))))"

definition registerHDRoptions :: "opt_env \<Rightarrow> ros_params \<Rightarrow> rs_op \<Rightarrow> rs_op outcome" where
  "registerHDRoptions E P s =
     (if ''hdr_merge'' \<notin> set (rn_filters s) then Inr s
      else case find (\<lambda>sn. sn_kind sn = Depth_Sensor) (rn_dev_sensors s) of
        None \<Rightarrow> Inr s | Some sn \<Rightarrow> hdr_sensor E P sn s)"

section \<open>Changes while the node runs\<close>

text \<open>
  What the callback of a registered variable does with a new value: it sets the option; for the sequence
  id of the stereo module it also leaves two reports for the update thread.
\<close>

definition changed_option :: "opt_env \<Rightarrow> string \<Rightarrow> provider \<Rightarrow> rs2_option \<Rightarrow> dyn_var \<Rightarrow> rat \<Rightarrow> rs_op \<Rightarrow> rs_op outcome" where
  "changed_option E m p i var v s =
     and_then (set_option E p i v s)
       (\<lambda>s1. case var of
          Enum_Var _ _ True \<Rightarrow>
            Inr (s1\<lparr>op_updates := op_updates s1 @ [Report m p (oe_exposure E), Report m p (oe_gain E)]\<rparr>)
        | _ \<Rightarrow> Inr s1)"

definition set_sensor_parameter_to_ros :: "opt_env \<Rightarrow> update \<Rightarrow> rs_op \<Rightarrow> rs_op outcome" where
  "set_sensor_parameter_to_ros E u s =
     (case u of Report m p i \<Rightarrow>
        get_option E p i s (\<lambda>v. Inr (s\<lparr>op_reported := op_reported s @
          [(m @ ''/set_parameters'', create_graph_resource_name (oe_name E i), trunc v)]\<rparr>)))"

text \<open>
  The thread of \<open>monitor_update_functions\<close> calls the last function and then removes the last function.  The
  vector has no lock, so a callback may append between the two.
\<close>

definition run_last_update :: "opt_env \<Rightarrow> rs_op \<Rightarrow> rs_op outcome" where
  "run_last_update E s =
     (if op_updates s = [] then Inr s else set_sensor_parameter_to_ros E (last (op_updates s)) s)"

definition pop_update :: "rs_op \<Rightarrow> rs_op" where
  "pop_update s = s\<lparr>op_updates := butlast (op_updates s)\<rparr>"

section \<open>Regions of interest\<close>

text \<open>\<open>_auto_exposure_roi[name]\<close>: an entry of zeros is inserted if there is none.\<close>

definition roi_of :: "sensor \<Rightarrow> rs_op \<Rightarrow> roi" where
  "roi_of sn s = (case map_of (op_roi s) (sn_name sn) of
     None \<Rightarrow> \<lparr>min_x = 0, min_y = 0, max_x = 0, max_y = 0\<rparr> | Some r \<Rightarrow> r)"

definition set_sensor_auto_exposure_roi :: "opt_env \<Rightarrow> sensor \<Rightarrow> rs_op \<Rightarrow> rs_op" where
  "set_sensor_auto_exposure_roi E sn s =
     (let r = roi_of sn s; s' = s\<lparr>op_roi := map_put (sn_name sn) r (op_roi s)\<rparr>
      in if oe_roi_error E (op_roi_sent s) (sn_id sn, r) = None
         then s'\<lparr>op_roi_sent := op_roi_sent s @ [(sn_id sn, r)]\<rparr> else s')"

definition set_side :: "string \<Rightarrow> int \<Rightarrow> roi \<Rightarrow> roi option" where
  "set_side n v r =
     (if n = ''left'' then Some (r\<lparr>min_x := v\<rparr>) else if n = ''right'' then Some (r\<lparr>max_x := v\<rparr>)
      else if n = ''top'' then Some (r\<lparr>min_y := v\<rparr>) else if n = ''bottom'' then Some (r\<lparr>max_y := v\<rparr>)
      else None)"

definition set_auto_exposure_roi :: "opt_env \<Rightarrow> string \<Rightarrow> sensor \<Rightarrow> int \<Rightarrow> rs_op \<Rightarrow> rs_op" where
  "set_auto_exposure_roi E n sn v s =
     (let r = roi_of sn s
      in case set_side n v r of
           None \<Rightarrow> s\<lparr>op_roi := map_put (sn_name sn) r (op_roi s)\<rparr>
         | Some r' \<Rightarrow> set_sensor_auto_exposure_roi E sn (s\<lparr>op_roi := map_put (sn_name sn) r' (op_roi s)\<rparr>))"

text \<open>\<open>readAndSetDynamicParam\<close>: the parameter, clamped; the variable is registered with the bounds.\<close>

definition clamp :: "int \<Rightarrow> int \<Rightarrow> int \<Rightarrow> int" where
  "clamp lo hi v = (let v1 = (if v < lo then lo else v) in if hi < v1 then hi else v1)"

definition readAndSetDynamicParam :: "ros_params \<Rightarrow> string \<Rightarrow> string \<Rightarrow> int \<Rightarrow> int \<Rightarrow> int \<Rightarrow> rs_op \<Rightarrow> int \<times> rs_op" where
  "readAndSetDynamicParam P m n lo hi v s =
     (let v' = clamp lo hi (p_int P (option_key m n) v) in (v', register_var m n (Int_Var v' lo hi) s))"

definition register_roi :: "ros_params \<Rightarrow> sip \<Rightarrow> sensor \<Rightarrow> rs_op \<Rightarrow> rs_op" where
  "register_roi P i sn s =
     (let mx = rc_width s i - 1; my = rc_height s i - 1;
          m = create_graph_resource_name (sn_name sn) @ ''/auto_exposure_roi'';
          (l, s1) = readAndSetDynamicParam P m ''left'' 0 mx 0 s;
          (r, s2) = readAndSetDynamicParam P m ''right'' 0 mx mx s1;
          (t, s3) = readAndSetDynamicParam P m ''top'' 0 my 0 s2;
          (b, s4) = readAndSetDynamicParam P m ''bottom'' 0 my my s3
      in s4\<lparr>op_roi := map_put (sn_name sn) \<lparr>min_x = l, min_y = t, max_x = r, max_y = b\<rparr> (op_roi s4),
            op_servers := op_servers s4 @ [m],
            fs_functions := (fs_functions s4)(fst i := fs_functions s4 (fst i) @ [sn]),
            fs_first := (fs_first s4)(fst i := True)\<rparr>)"

definition roi_stream :: "ros_params \<Rightarrow> sip \<times> profile list \<Rightarrow> rs_op \<Rightarrow> rs_op outcome" where
  "roi_stream P e s =
     (case map_of (rn_sensors s) (fst e) of
        None \<Rightarrow> Inl (Thrown ''null pointer passed for argument sensor'', s)
      | Some sn \<Rightarrow>
          if sn_roi sn \<and> map_of (op_roi s) (sn_name sn) = None then Inr (register_roi P (fst e) sn s) else Inr s)"

definition registerAutoExposureROIOptions :: "ros_params \<Rightarrow> rs_op \<Rightarrow> rs_op outcome" where
  "registerAutoExposureROIOptions P s = fold_outcome (roi_stream P) (rn_profiles s) s"

text \<open>One round of the thread that the first frame of a stream starts: the last function, then remove it.\<close>

definition run_video_function :: "opt_env \<Rightarrow> rs2_stream \<Rightarrow> rs_op \<Rightarrow> rs_op" where
  "run_video_function E st s =
     (if fs_functions s st = [] then s
      else let s1 = set_sensor_auto_exposure_roi E (last (fs_functions s st)) s
        in s1\<lparr>fs_functions := (fs_functions s1)(st := butlast (fs_functions s1 st))\<rparr>)"

section \<open>The update thread\<close>

definition report :: "opt_env \<Rightarrow> (provider \<times> rs2_option \<times> rat) list \<Rightarrow> update \<Rightarrow> string \<times> string \<times> int" where
  "report E l u = (case u of Report m p i \<Rightarrow>
     (m @ ''/set_parameters'', create_graph_resource_name (oe_name E i),
      trunc (case oe_get E l p i of Inl _ \<Rightarrow> 0 | Inr v \<Rightarrow> v)))"

fun drain :: "opt_env \<Rightarrow> nat \<Rightarrow> rs_op \<Rightarrow> rs_op outcome" where
  "drain E 0 s = Inr s"
| "drain E (Suc n) s = and_then (run_last_update E s) (\<lambda>t. drain E n (pop_update t))"

lemma run_last_update_eq:
  assumes "\<forall>l p i. \<exists>v. oe_get E l p i = Inr v" "op_updates s = us @ [u]"
  shows "run_last_update E s = Inr (s\<lparr>op_reported := op_reported s @ [report E (op_log s) u]\<rparr>)"
proof -
  obtain m p i where u: "u = Report m p i" by (cases u)
  obtain v where "oe_get E (op_log s) p i = Inr v" using assms(1) by blast
  then show ?thesis
    using assms(2) by (simp add: run_last_update_def set_sensor_parameter_to_ros_def get_option_def report_def u)
qed

lemma drain_all:
  assumes "\<forall>l p i. \<exists>v. oe_get E l p i = Inr v"
  shows "drain E (length (op_updates s)) s = Inr (s\<lparr>op_updates := [], op_reported := op_reported s @
    map (report E (op_log s)) (rev (op_updates s))\<rparr>)"
proof (induction "op_updates s" arbitrary: s rule: rev_induct)
  case Nil
  then show ?case by (simp add: Nil [symmetric])
next
  case (snoc u us)
  have us: "op_updates s = us @ [u]" using snoc(2) by simp
  let ?t = "s\<lparr>op_reported := op_reported s @ [report E (op_log s) u]\<rparr>"
  have run: "run_last_update E s = Inr ?t"
    by (rule run_last_update_eq [OF assms us])
  have "us = op_updates (pop_update ?t)" by (simp add: pop_update_def us)
  from snoc(1) [OF this] show ?case
    unfolding us by (simp add: run pop_update_def us)
qed

text \<open>
  Claim C34.  The update thread reports everything: if nothing interferes, as many rounds as there are
  functions call each of them once, the last one first, and leave none.  But a callback that changes the sequence
  id between the call and the removal loses a report: its last one is removed without having been called, and the
  function that was just called is called again.
\<close>

theorem reports_are_made:
  assumes "\<forall>l p i. \<exists>v. oe_get E l p i = Inr v"
  shows "drain E (length (op_updates s)) s = Inr (s\<lparr>op_updates := [], op_reported := op_reported s @
      map (report E (op_log s)) (rev (op_updates s))\<rparr>) \<and>
    (\<forall>us u t w. op_updates s = us @ [u] \<and> run_last_update E s = Inr t \<and>
        changed_option E m p i (Enum_Var k dict True) v t = Inr w \<longrightarrow>
      (\<exists>x. drain E (length us + 2) (pop_update w) = Inr x \<and> op_updates x = [] \<and>
        op_reported x = op_reported s @ [report E (op_log s) u, report E (op_log w) (Report m p (oe_exposure E)),
          report E (op_log w) u] @ map (report E (op_log w)) (rev us)))"
proof (intro conjI allI impI)
  show "drain E (length (op_updates s)) s = Inr (s\<lparr>op_updates := [], op_reported := op_reported s @
      map (report E (op_log s)) (rev (op_updates s))\<rparr>)"
    by (rule drain_all [OF assms])
next
  fix us u t w
  assume h: "op_updates s = us @ [u] \<and> run_last_update E s = Inr t \<and>
        changed_option E m p i (Enum_Var k dict True) v t = Inr w"
  then have t: "t = s\<lparr>op_reported := op_reported s @ [report E (op_log s) u]\<rparr>"
    using run_last_update_eq [OF assms, of s us u] by simp
  have w: "op_updates w = us @ [u, Report m p (oe_exposure E), Report m p (oe_gain E)]"
    "op_reported w = op_reported s @ [report E (op_log s) u]"
    using h by (auto simp: changed_option_def and_then_eq_Inr set_option_def t Let_def split: option.splits)
  have "op_updates (pop_update w) = us @ [u, Report m p (oe_exposure E)]" by (simp add: pop_update_def w butlast_append)
  then show "\<exists>x. drain E (length us + 2) (pop_update w) = Inr x \<and> op_updates x = [] \<and>
        op_reported x = op_reported s @ [report E (op_log s) u, report E (op_log w) (Report m p (oe_exposure E)),
          report E (op_log w) u] @ map (report E (op_log w)) (rev us)"
    using drain_all [OF assms, of "pop_update w"] w(2) by (simp add: pop_update_def)
qed

lemma reports_are_made_witness:
  "\<exists>x. drain one_option 1 ((op_of blank_node)\<lparr>op_updates := [Report ''stereo_module'' (Sensor_Options 0) 3]\<rparr>) = Inr x \<and>
    op_updates x = [] \<and> op_reported x = [(''stereo_module/set_parameters'', ''laser_power'', 7)]"
proof -
  have "\<forall>l p i. \<exists>v. oe_get one_option l p i = Inr v" by simp
  note h = conjunct1 [OF reports_are_made [OF this, of "(op_of blank_node)\<lparr>op_updates := [Report ''stereo_module'' (Sensor_Options 0) 3]\<rparr>"
    undefined undefined undefined undefined undefined undefined]]
  then show ?thesis
    by (simp add: report_def trunc_def demo_names)
qed

section \<open>Regions lie in the image\<close>

definition roi_within :: "rs_op \<Rightarrow> string \<Rightarrow> roi \<Rightarrow> bool" where
  "roi_within s n r \<longleftrightarrow> (\<exists>i sn. i \<in> fst ` set (rn_profiles s) \<and> map_of (rn_sensors s) i = Some sn \<and> sn_name sn = n \<and>
     0 \<le> min_x r \<and> min_x r < rc_width s i \<and> 0 \<le> max_x r \<and> max_x r < rc_width s i \<and>
     0 \<le> min_y r \<and> min_y r < rc_height s i \<and> 0 \<le> max_y r \<and> max_y r < rc_height s i)"

lemma clamp_bounds: "lo \<le> hi \<Longrightarrow> lo \<le> clamp lo hi v \<and> clamp lo hi v \<le> hi"
  by (simp add: clamp_def Let_def)

lemma register_roi_fields:
  "rn_profiles (register_roi P i sn s) = rn_profiles s" "rn_sensors (register_roi P i sn s) = rn_sensors s"
  "rc_width (register_roi P i sn s) = rc_width s" "rc_height (register_roi P i sn s) = rc_height s"
  by (simp_all add: register_roi_def Let_def readAndSetDynamicParam_def register_var_def)

lemma register_roi_entry:
  obtains r where "op_roi (register_roi P i sn s) = map_put (sn_name sn) r (op_roi s)"
    "1 \<le> rc_width s i \<longrightarrow> 0 \<le> min_x r \<and> min_x r < rc_width s i \<and> 0 \<le> max_x r \<and> max_x r < rc_width s i"
    "1 \<le> rc_height s i \<longrightarrow> 0 \<le> min_y r \<and> min_y r < rc_height s i \<and> 0 \<le> max_y r \<and> max_y r < rc_height s i"
    "min_x r = clamp 0 (rc_width s i - 1)
      (p_int P (option_key (create_graph_resource_name (sn_name sn) @ ''/auto_exposure_roi'') ''left'') 0)"
    "max_x r = clamp 0 (rc_width s i - 1)
      (p_int P (option_key (create_graph_resource_name (sn_name sn) @ ''/auto_exposure_roi'') ''right'') (rc_width s i - 1))"
proof -
  let ?m = "create_graph_resource_name (sn_name sn) @ ''/auto_exposure_roi''"
  let ?mx = "rc_width s i - 1" and ?my = "rc_height s i - 1"
  let ?r = "\<lparr>min_x = clamp 0 ?mx (p_int P (option_key ?m ''left'') 0),
     min_y = clamp 0 ?my (p_int P (option_key ?m ''top'') 0),
     max_x = clamp 0 ?mx (p_int P (option_key ?m ''right'') ?mx),
     max_y = clamp 0 ?my (p_int P (option_key ?m ''bottom'') ?my)\<rparr>"
  have "op_roi (register_roi P i sn s) = map_put (sn_name sn) ?r (op_roi s)"
    by (simp add: register_roi_def Let_def readAndSetDynamicParam_def register_var_def)
  moreover have "0 \<le> clamp 0 ?mx v \<and> clamp 0 ?mx v < rc_width s i" if "1 \<le> rc_width s i" for v
    using clamp_bounds [of 0 ?mx v] that by linarith
  moreover have "0 \<le> clamp 0 ?my v \<and> clamp 0 ?my v < rc_height s i" if "1 \<le> rc_height s i" for v
    using clamp_bounds [of 0 ?my v] that by linarith
  ultimately show ?thesis by (intro that [of ?r]) auto
qed

lemma roi_stream_step:
  assumes "roi_stream P e s = Inr t" "map_ok (op_roi s)" "e \<in> set (rn_profiles s)"
    and "\<forall>sn. map_of (rn_sensors s) (fst e) = Some sn \<and> sn_roi sn \<longrightarrow> 1 \<le> rc_width s (fst e) \<and> 1 \<le> rc_height s (fst e)"
  shows "rn_profiles t = rn_profiles s \<and> rn_sensors t = rn_sensors s \<and> rc_width t = rc_width s \<and> rc_height t = rc_height s \<and>
    map_ok (op_roi t) \<and> (\<forall>n r. map_of (op_roi t) n = Some r \<longrightarrow> map_of (op_roi s) n = Some r \<or> roi_within s n r) \<and>
    (\<forall>n. map_of (op_roi s) n \<noteq> None \<longrightarrow> map_of (op_roi t) n \<noteq> None) \<and>
    (\<forall>sn. map_of (rn_sensors s) (fst e) = Some sn \<and> sn_roi sn \<longrightarrow> map_of (op_roi t) (sn_name sn) \<noteq> None)"
proof -
  obtain sn where sn: "map_of (rn_sensors s) (fst e) = Some sn"
    using assms(1) by (cases "map_of (rn_sensors s) (fst e)") (auto simp: roi_stream_def)
  show ?thesis
  proof (cases "sn_roi sn \<and> map_of (op_roi s) (sn_name sn) = None")
    case False
    then show ?thesis using assms(1,2) sn by (auto simp: roi_stream_def)
  next
    case True
    then have t: "t = register_roi P (fst e) sn s" using assms(1) sn by (simp add: roi_stream_def)
    have size: "1 \<le> rc_width s (fst e)" "1 \<le> rc_height s (fst e)" using assms(4) sn True by blast+
    obtain r where h: "op_roi t = map_put (sn_name sn) r (op_roi s)"
      "1 \<le> rc_width s (fst e) \<longrightarrow> 0 \<le> min_x r \<and> min_x r < rc_width s (fst e) \<and> 0 \<le> max_x r \<and> max_x r < rc_width s (fst e)"
      "1 \<le> rc_height s (fst e) \<longrightarrow> 0 \<le> min_y r \<and> min_y r < rc_height s (fst e) \<and> 0 \<le> max_y r \<and> max_y r < rc_height s (fst e)"
      unfolding t using register_roi_entry [of P "fst e" sn s] by blast
    have "fst e \<in> fst ` set (rn_profiles s)" using assms(3) by force
    then have r: "op_roi t = map_put (sn_name sn) r (op_roi s)" "roi_within s (sn_name sn) r"
      unfolding roi_within_def using h size sn by blast+
    have "map_of (op_roi t) n = (if n = sn_name sn then Some r else map_of (op_roi s) n)" for n
      using assms(2) unfolding r(1) by (simp add: map_of_put)
    then show ?thesis
      using r sn assms(2) by (simp add: register_roi_fields t [symmetric] map_ok_put) (simp add: t register_roi_fields)
  qed
qed

lemma roi_streams:
  assumes "fold_outcome (roi_stream P) es s = Inr t" "map_ok (op_roi s)" "set es \<subseteq> set (rn_profiles s)"
    and "\<forall>i sn. map_of (rn_sensors s) i = Some sn \<and> sn_roi sn \<and> i \<in> fst ` set es \<longrightarrow> 1 \<le> rc_width s i \<and> 1 \<le> rc_height s i"
  shows "(\<forall>n r. map_of (op_roi t) n = Some r \<longrightarrow> map_of (op_roi s) n = Some r \<or> roi_within s n r) \<and>
    (\<forall>n. map_of (op_roi s) n \<noteq> None \<longrightarrow> map_of (op_roi t) n \<noteq> None) \<and>
    (\<forall>i sn. i \<in> fst ` set es \<and> map_of (rn_sensors s) i = Some sn \<and> sn_roi sn \<longrightarrow> map_of (op_roi t) (sn_name sn) \<noteq> None)"
  using assms
proof (induction es arbitrary: s)
  case (Cons e es)
  then obtain u where u: "roi_stream P e s = Inr u" "fold_outcome (roi_stream P) es u = Inr t"
    by (auto simp: and_then_eq_Inr)
  have size: "\<forall>sn. map_of (rn_sensors s) (fst e) = Some sn \<and> sn_roi sn \<longrightarrow> 1 \<le> rc_width s (fst e) \<and> 1 \<le> rc_height s (fst e)"
    using Cons.prems(4) by (metis image_eqI list.set_intros(1))
  have "e \<in> set (rn_profiles s)" using Cons.prems(3) by simp
  note st = roi_stream_step [OF u(1) Cons.prems(2) this size]
  have same: "rn_profiles u = rn_profiles s" "rn_sensors u = rn_sensors s" "rc_width u = rc_width s" "rc_height u = rc_height s"
    and ok: "map_ok (op_roi u)" using st by blast+
  have within: "roi_within u = roi_within s"
    by (intro ext) (simp only: roi_within_def same)
  have sub: "set es \<subseteq> set (rn_profiles u)" using Cons.prems(3) same by simp
  have sizes: "\<forall>i sn. map_of (rn_sensors u) i = Some sn \<and> sn_roi sn \<and> i \<in> fst ` set es \<longrightarrow> 1 \<le> rc_width u i \<and> 1 \<le> rc_height u i"
    unfolding same using Cons.prems(4) by (metis image_insert insertI2 list.simps(15))
  note ih = Cons.IH [OF u(2) ok sub sizes, unfolded within same]
  have a: "map_of (op_roi s) n = Some r \<or> roi_within s n r" if "map_of (op_roi t) n = Some r" for n r
    using ih st that by blast
  have b: "map_of (op_roi t) n \<noteq> None" if "map_of (op_roi s) n \<noteq> None" for n
    using ih st that by blast
  have c: "map_of (op_roi t) (sn_name sn) \<noteq> None"
    if "i \<in> fst ` set (e # es)" "map_of (rn_sensors s) i = Some sn" "sn_roi sn" for i sn
  proof (cases "i = fst e")
    case True
    then have "map_of (op_roi u) (sn_name sn) \<noteq> None" using st that by blast
    then show ?thesis using ih by blast
  next
    case False
    then have "i \<in> fst ` set es" using that(1) by auto
    then show ?thesis using ih that by blast
  qed
  show ?case using a b c by blast
qed simp

text \<open>
  Claim C35.  \<open>registerAutoExposureROIOptions\<close> gives every sensor with a region of interest exactly one region
  whose sides, whatever the parameters say, lie in the image of one of its enabled streams.  (The sides
  are clamped one by one: left may end up right of right.)
\<close>

theorem regions_lie_in_the_image:
  assumes "registerAutoExposureROIOptions P s = Inr t" "op_roi s = []"
    and "\<forall>i sn. map_of (rn_sensors s) i = Some sn \<and> sn_roi sn \<and> i \<in> fst ` set (rn_profiles s) \<longrightarrow>
      1 \<le> rc_width s i \<and> 1 \<le> rc_height s i"
  shows "(\<forall>n r. map_of (op_roi t) n = Some r \<longrightarrow> (\<exists>i sn. i \<in> fst ` set (rn_profiles s) \<and>
      map_of (rn_sensors s) i = Some sn \<and> sn_name sn = n \<and>
      {min_x r, max_x r} \<subseteq> {0..<rc_width s i} \<and> {min_y r, max_y r} \<subseteq> {0..<rc_height s i})) \<and>
    (\<forall>i sn. i \<in> fst ` set (rn_profiles s) \<and> map_of (rn_sensors s) i = Some sn \<and> sn_roi sn \<longrightarrow>
      map_of (op_roi t) (sn_name sn) \<noteq> None)"
proof -
  have ok: "map_ok (op_roi s)" using assms(2) by (simp add: map_ok_def)
  have sz: "\<forall>i sn. map_of (rn_sensors s) i = Some sn \<and> sn_roi sn \<and> i \<in> fst ` set (rn_profiles s) \<longrightarrow>
      1 \<le> rc_width s i \<and> 1 \<le> rc_height s i" by (rule assms(3))
  note h = roi_streams [OF assms(1) [unfolded registerAutoExposureROIOptions_def] ok order_refl sz]
  have a: "roi_within s n r" if "map_of (op_roi t) n = Some r" for n r
    using h that assms(2) by (metis map_of.simps(1) option.distinct(1))
  show ?thesis
  proof (intro conjI allI impI)
    fix n r assume "map_of (op_roi t) n = Some r"
    from a [OF this] obtain i sn where "i \<in> fst ` set (rn_profiles s)" "map_of (rn_sensors s) i = Some sn" "sn_name sn = n"
     "0 \<le> min_x r" "min_x r < rc_width s i" "0 \<le> max_x r" "max_x r < rc_width s i"
     "0 \<le> min_y r" "min_y r < rc_height s i" "0 \<le> max_y r" "max_y r < rc_height s i"
      unfolding roi_within_def by blast
    then show "\<exists>i sn. i \<in> fst ` set (rn_profiles s) \<and> map_of (rn_sensors s) i = Some sn \<and> sn_name sn = n \<and>
      {min_x r, max_x r} \<subseteq> {0..<rc_width s i} \<and> {min_y r, max_y r} \<subseteq> {0..<rc_height s i}"
      by (intro exI [of _ i] exI [of _ sn]) simp
  next
    fix i sn assume "i \<in> fst ` set (rn_profiles s) \<and> map_of (rn_sensors s) i = Some sn \<and> sn_roi sn"
    then show "map_of (op_roi t) (sn_name sn) \<noteq> None" using h by blast
  qed
qed

text \<open>Parameters that put the left side right of the right one are taken as they are.\<close>

definition roi_node :: rs_op where
  "roi_node = op_of (blank_node\<lparr>rn_sensors := [(DEPTH_sip, demo_calib_sensor\<lparr>sn_roi := True\<rparr>)],
     rn_profiles := [(DEPTH_sip, [])], rc_width := (\<lambda>_. 640), rc_height := (\<lambda>_. 480)\<rparr>)"

definition crossed :: ros_params where
  "crossed = empty_params\<lparr>p_int := (\<lambda>n v. if v = 0 then 9000 else if v = 639 then -5 else v)\<rparr>"

lemma regions_lie_in_the_image_witness:
  "\<exists>t r. registerAutoExposureROIOptions crossed roi_node = Inr t \<and>
    map_of (op_roi t) ''Stereo Module'' = Some r \<and> min_x r = 639 \<and> max_x r = 0 \<and> {min_x r, max_x r} \<subseteq> {0..<640}"
proof -
  let ?t = "register_roi crossed DEPTH_sip (demo_calib_sensor\<lparr>sn_roi := True\<rparr>) roi_node"
  have t: "registerAutoExposureROIOptions crossed roi_node = Inr ?t"
    by (simp add: registerAutoExposureROIOptions_def roi_stream_def roi_node_def blank_node_def)
  obtain r where r: "op_roi ?t = [(''Stereo Module'', r)]" "min_x r = 639" "max_x r = 0"
    by (rule register_roi_entry [of crossed DEPTH_sip "demo_calib_sensor\<lparr>sn_roi := True\<rparr>" roi_node])
       (simp add: roi_node_def crossed_def clamp_def demo_calib_sensor_def)
  have "op_roi roi_node = []" "\<forall>i sn. map_of (rn_sensors roi_node) i = Some sn \<and> sn_roi sn \<and>
      i \<in> fst ` set (rn_profiles roi_node) \<longrightarrow> 1 \<le> rc_width roi_node i \<and> 1 \<le> rc_height roi_node i"
    by (simp_all add: roi_node_def)
  from regions_lie_in_the_image [OF t this] r t show ?thesis
    by (fastforce simp: roi_node_def)
qed

end
