(* ===== verification/Rs_Services.thy ===== *)
theory Rs_Services
  imports Rs_Options
begin

text \<open>
  What runs beside the images (\<open>base_realsense_node.cpp\<close>): the pose of the tracking camera, which callback
  a frame of a tracking sensor goes to, hardware notifications, the monitoring thread, the service
  \<open>device_info\<close>.
\<close>

section \<open>State\<close>

record Odometry =
  od_seq :: int
  od_stamp :: float64
  od_frame_id :: string
  od_child_frame_id :: string
  od_position :: vec3
  od_orientation :: quat
  od_pose_cov :: "float64 list"
  od_linear :: vec3
  od_angular :: vec3
  od_twist_cov :: "float64 list"

text \<open>
  \<open>up_locked\<close>, \<open>up_sync_seq\<close>, \<open>up_history\<close> and \<open>up_accel\<close> are the \<open>static\<close> variables of the inertial callbacks,
  \<open>up_single\<close>, \<open>up_tf\<close> and \<open>up_odom\<close> what has been published or broadcast, oldest first.
\<close>

record rs_up = rs_op +
  up_notified :: "nat list"
  up_resets :: nat
  up_monitor_options :: "rs2_option list"
  up_temperature :: "(rs2_option \<times> rat option) list"
  up_frequency :: "sip list"
  up_monitoring :: bool
  up_services :: "string list"
  up_locked :: bool
  up_sync_seq :: int
  up_history :: "CimuData list"
  up_accel :: CimuData
  up_single :: "(sip \<times> Imu) list"
  up_tf :: "(float64 \<times> tf_msg) list"
  up_odom :: "Odometry list"

text \<open>The subscribers of the topics that are there.\<close>

record up_env =
  ue_united_subs :: nat
  ue_single_subs :: "sip \<Rightarrow> nat"
  ue_metadata_subs :: "sip \<Rightarrow> nat option"

definition united_subs :: "up_env \<Rightarrow> 'a rs_node_scheme \<Rightarrow> nat" where
  "united_subs E s = (if United_Imu_Pub \<in> set (rn_publishers s) then ue_united_subs E else 0)"

definition single_subs :: "up_env \<Rightarrow> 'a rs_node_scheme \<Rightarrow> sip \<Rightarrow> nat" where
  "single_subs E s i = (if list_ex (\<lambda>p. case p of Single_Imu_Pub j _ \<Rightarrow> i = j | _ \<Rightarrow> False) (rn_publishers s)
     then ue_single_subs E i else 0)"

text \<open>The arithmetic of the pose: \<open>tf::quatRotate\<close>, powers of ten, parameters as \<open>double\<close>s.\<close>

record pose_fp = rt_fp +
  quat_rotate :: "quat \<Rightarrow> vec3 \<Rightarrow> vec3"
  pow10 :: "int \<Rightarrow> float64"
  f64_of_rat :: "rat \<Rightarrow> float64"

section \<open>\<open>pose_callback\<close>\<close>

record rs_pose =
  po_translation :: "float32 \<times> float32 \<times> float32"
  po_rotation :: "float32 \<times> float32 \<times> float32 \<times> float32"
  po_velocity :: "float32 \<times> float32 \<times> float32"
  po_angular_velocity :: "float32 \<times> float32 \<times> float32"
  po_tracker_confidence :: nat

text \<open>From the axes of the camera to those of ROS.\<close>

fun ros_axes :: "pose_fp \<Rightarrow> float32 \<times> float32 \<times> float32 \<Rightarrow> vec3" where
  "ros_axes F (x, y, z) = (fp_widen F (f32_neg F z), fp_widen F (f32_neg F x), fp_widen F y)"

fun ros_rotation :: "pose_fp \<Rightarrow> float32 \<times> float32 \<times> float32 \<times> float32 \<Rightarrow> quat" where
  "ros_rotation F (x, y, z, w) = (fp_widen F (f32_neg F z), fp_widen F (f32_neg F x), fp_widen F y, fp_widen F w)"

fun turned_back :: "pose_fp \<Rightarrow> quat \<Rightarrow> quat" where
  "turned_back F (x, y, z, w) = (fp_neg F x, fp_neg F y, fp_neg F z, w)"

definition covariance6 :: "float64 \<Rightarrow> float64 \<Rightarrow> float64 list" where
  "covariance6 a b = concat (map (\<lambda>i. map (\<lambda>j. if i \<noteq> j then d_zero else if i < 3 then a else b) [0..<6]) [0..<6::nat])"

definition pose_transform :: "pose_fp \<Rightarrow> rs_pose \<Rightarrow> 'a rs_config_scheme \<Rightarrow> tf_msg" where
  "pose_transform F p s = \<lparr>tf_parent = rc_odom_frame_id s, tf_child = rc_frame_id s POSE_sip,
     tf_translation = ros_axes F (po_translation p), tf_rotation = ros_rotation F (po_rotation p)\<rparr>"

definition odometry :: "pose_fp \<Rightarrow> rs_pose \<Rightarrow> float64 \<Rightarrow> int \<Rightarrow> 'a rs_config_scheme \<Rightarrow> Odometry" where
  "odometry F p t seq s =
     (let m = pose_transform F p s;
          k = int (po_tracker_confidence p);
          cov_pose = fp_mul F (f64_of_rat F (rc_linear_accel_cov s)) (pow10 F (3 - k));
          cov_twist = fp_mul F (f64_of_rat F (rc_angular_velocity_cov s)) (pow10 F (1 - k));
          q = turned_back F (tf_rotation m)
      in \<lparr>od_seq = seq, od_stamp = t, od_frame_id = rc_odom_frame_id s, od_child_frame_id = rc_frame_id s POSE_sip,
          od_position = tf_translation m, od_orientation = tf_rotation m, od_pose_cov = covariance6 cov_pose cov_twist,
          od_linear = quat_rotate F q (ros_axes F (po_velocity p)),
          od_angular = quat_rotate F q (ros_axes F (po_angular_velocity p)),
          od_twist_cov = covariance6 cov_pose cov_twist\<rparr>)"

definition send_odometry :: "pose_fp \<Rightarrow> up_env \<Rightarrow> rs_pose \<Rightarrow> float64 \<Rightarrow> rs_up \<Rightarrow> rs_up" where
  "send_odometry F E p t s =
     (if single_subs E s POSE_sip = 0 then s
      else let n = fs_seq s POSE_sip + 1
        in s\<lparr>fs_seq := (fs_seq s)(POSE_sip := n), up_odom := up_odom s @ [odometry F p t n s]\<rparr>)"

definition pose_callback :: "pose_fp \<Rightarrow> up_env \<Rightarrow> frame_time \<Rightarrow> rs_pose \<Rightarrow> frame_meta \<Rightarrow> rs_up \<Rightarrow> rs_up" where
  "pose_callback F E ft p g s =
     (case frame_clock (rs_fp.truncate F) ft (fs_clock s) of (t, clock) \<Rightarrow>
      let s1 = s\<lparr>fs_clock := clock\<rparr>;
          s2 = (if rc_publish_odom_tf s1 then s1\<lparr>up_tf := up_tf s1 @ [(t, pose_transform F p s1)]\<rparr> else s1);
          s3 = send_odometry F E p t s2
      in s3\<lparr>fs_sent := fs_sent s3 @ map Sent_Metadata
            (publishMetadata (ue_metadata_subs E) g t (rc_frame_id s3 POSE_sip))\<rparr>)"

section \<open>Dispatch\<close>

text \<open>The members and variables that the inertial callbacks use, and what they leave.\<close>

definition imu_view :: "pose_fp \<Rightarrow> rs_up \<Rightarrow> imu_node" where
  "imu_view F s = \<lparr>in_locked = up_locked s, in_sync_seq = up_sync_seq s, in_history = up_history s,
     in_accel = up_accel s, in_base = fs_clock s, in_publisher = rn_synced s, in_seq = fs_seq s,
     in_single = up_single s, in_optical_frame_id = rc_optical_frame_id s,
     in_linear_accel_cov = f64_of_rat F (rc_linear_accel_cov s),
     in_angular_velocity_cov = f64_of_rat F (rc_angular_velocity_cov s)\<rparr>"

definition put_imu :: "imu_node \<Rightarrow> rs_up \<Rightarrow> rs_up" where
  "put_imu n s = s\<lparr>up_locked := in_locked n, up_sync_seq := in_sync_seq n, up_history := in_history n,
     up_accel := in_accel n, fs_clock := in_base n, rn_synced := in_publisher n, fs_seq := in_seq n,
     up_single := in_single n\<rparr>"

text \<open>The frame callback works on the members of \<open>rs_fr\<close>.\<close>

definition lift_fr :: "(rs_fr \<Rightarrow> rs_fr outcome) \<Rightarrow> 'a rs_fr_scheme \<Rightarrow> 'a rs_fr_scheme outcome" where
  "lift_fr f s = (case f (rs_fr.truncate s) of
     Inl (e, t) \<Rightarrow> Inl (e, rs_fr.extend t (rs_fr.more s)) | Inr t \<Rightarrow> Inr (rs_fr.extend t (rs_fr.more s)))"

text \<open>A frame, as it arrives at a callback.\<close>

datatype arrival =
    Images frame_time incoming
  | Inertial imu_frame frame_meta
  | Pose frame_time rs_pose frame_meta

definition sync_callback :: "pose_fp \<Rightarrow> up_env \<Rightarrow> imu_sync_method \<Rightarrow> imu_frame \<Rightarrow> rs_up \<Rightarrow> rs_up outcome" where
  "sync_callback F E m f s =
     (case imu_callback_sync (rs_fp.truncate F) m (united_subs E s) f (imu_view F s) of
        Inl (e, n) \<Rightarrow> Inl (e, put_imu n s) | Inr n \<Rightarrow> Inr (put_imu n s))"

definition single_callback :: "pose_fp \<Rightarrow> up_env \<Rightarrow> imu_frame \<Rightarrow> frame_meta \<Rightarrow> rs_up \<Rightarrow> rs_up" where
  "single_callback F E f g s =
     (case imu_callback (rs_fp.truncate F) (single_subs E s (imu_stream_index f)) (ue_metadata_subs E) f g (imu_view F s) of
        (n, ms) \<Rightarrow> (put_imu n s)\<lparr>fs_sent := fs_sent s @ map Sent_Metadata ms\<rparr>)"

definition multiple_message_callback ::
    "pose_fp \<Rightarrow> calib_env \<Rightarrow> rs_frame_env \<Rightarrow> up_env \<Rightarrow> imu_sync_method \<Rightarrow> arrival \<Rightarrow> rs_up \<Rightarrow> rs_up outcome" where
  "multiple_message_callback F C E U m x s =
     (case x of
        Inertial f g \<Rightarrow> if m \<noteq> NONE then sync_callback F U m f s else Inr (single_callback F U f g s)
      | Pose ft p g \<Rightarrow> Inr (pose_callback F U ft p g s)
      | Images ft y \<Rightarrow> lift_fr (frame_callback (rt_fp.truncate F) C E ft y) s)"

section \<open>Notifications\<close>

definition error_strings :: "string list" where
  "error_strings = [''RT IC2 Config error'', ''Left IC2 Config error'']"

definition on_notification :: "string \<Rightarrow> rs_up \<Rightarrow> rs_up" where
  "on_notification description s =
     (if list_ex (\<lambda>e. sublist e description) error_strings then s\<lparr>up_resets := up_resets s + 1\<rparr> else s)"

definition setupErrorCallback :: "rs_device \<Rightarrow> rs_up \<Rightarrow> rs_up" where
  "setupErrorCallback D s = s\<lparr>up_notified := up_notified s @ map sn_id (dv_sensors D)\<rparr>"

section \<open>Monitoring\<close>

definition startMonitoring :: "rs_up \<Rightarrow> rs_up" where
  "startMonitoring s = s\<lparr>up_temperature := up_temperature s @ map (\<lambda>i. (i, None)) (up_monitor_options s),
     up_monitoring := True\<rparr>"

definition measured :: "opt_env \<Rightarrow> provider \<Rightarrow> (provider \<times> rs2_option \<times> rat) list \<Rightarrow> rs2_option \<times> rat option \<Rightarrow> rs2_option \<times> rat option" where
  "measured Op p l e = (if \<not> oe_supports Op p (fst e) then e
     else case oe_get Op l p (fst e) of Inl _ \<Rightarrow> e | Inr v \<Rightarrow> (fst e, Some v))"

definition publish_temperature :: "opt_env \<Rightarrow> rs_up \<Rightarrow> rs_up outcome" where
  "publish_temperature Op s =
     (if up_temperature s = [] then Inr s
      else case map_of (rn_sensors s) (rn_base_stream s) of
        None \<Rightarrow> Inl (Thrown ''null pointer passed for argument options'', s)
      | Some sn \<Rightarrow> Inr (s\<lparr>up_temperature := map (measured Op (Sensor_Options (sn_id sn)) (op_log s)) (up_temperature s)\<rparr>))"

definition image_streams_of :: "publisher list \<Rightarrow> sip list" where
  "image_streams_of ps = sort (remdups (List.map_filter (\<lambda>p. case p of Image_Pub i _ \<Rightarrow> Some i | _ \<Rightarrow> None) ps))"

definition publish_frequency_update :: "rs_up \<Rightarrow> rs_up" where
  "publish_frequency_update s = s\<lparr>up_frequency := up_frequency s @ image_streams_of (rn_publishers s)\<rparr>"

text \<open>One round of the thread, while the node is running.\<close>

definition monitoring_round :: "opt_env \<Rightarrow> rs_up \<Rightarrow> rs_up outcome" where
  "monitoring_round Op s = and_then (publish_temperature Op s) (\<lambda>t. Inr (publish_frequency_update t))"

section \<open>\<open>device_info\<close>\<close>

datatype camera_info_field = CI_NAME | CI_SERIAL_NUMBER | CI_FIRMWARE_VERSION | CI_USB_TYPE_DESCRIPTOR | CI_FIRMWARE_UPDATE_ID

record DeviceInfo_rs =
  di_device_name :: string
  di_serial_number :: string
  di_firmware_version :: string
  di_usb_type_descriptor :: string
  di_firmware_update_id :: string
  di_sensors :: string

text \<open>\<open>info\<close> is what the device says; an attribute that it does not support is empty.\<close>

definition info_or_empty :: "string option \<Rightarrow> string" where
  "info_or_empty x = (case x of None \<Rightarrow> [] | Some v \<Rightarrow> v)"

text \<open>Every name is followed by a comma and the last comma is cut off.\<close>

definition sensors_names :: "sensor list \<Rightarrow> string" where
  "sensors_names sns = butlast (concat (map (\<lambda>sn. create_graph_resource_name (sn_name sn) @ '','') sns))"

definition getDeviceInfo :: "(camera_info_field \<Rightarrow> string option) \<Rightarrow> 'a rs_node_scheme \<Rightarrow> DeviceInfo_rs" where
  "getDeviceInfo info s =
     \<lparr>di_device_name = create_graph_resource_name (info_or_empty (info CI_NAME)),
      di_serial_number = info_or_empty (info CI_SERIAL_NUMBER),
      di_firmware_version = info_or_empty (info CI_FIRMWARE_VERSION),
      di_usb_type_descriptor = info_or_empty (info CI_USB_TYPE_DESCRIPTOR),
      di_firmware_update_id = info_or_empty (info CI_FIRMWARE_UPDATE_ID),
      di_sensors = sensors_names (rn_dev_sensors s)\<rparr>"

definition publishServices :: "rs_up \<Rightarrow> rs_up" where
  "publishServices s = s\<lparr>up_services := up_services s @ [''device_info'']\<rparr>"

section \<open>Names of the sensors\<close>

lemma comma_invalid: "\<not> isValidCharInName (CHR '','')"
  by code_simp

lemma resource_name_no_comma: "CHR '','' \<notin> set (create_graph_resource_name n)"
  using resource_name_valid comma_invalid by blast

lemma sensors_names_Cons:
  "sensors_names (sn # sns) = create_graph_resource_name (sn_name sn) @
    (if sns = [] then [] else CHR '','' # sensors_names sns)"
  by (cases sns) (auto simp: sensors_names_def butlast_append)

lemma split_at_word: "c \<notin> set w \<Longrightarrow> split_at c w = [w]"
  by (induction w) auto

lemma split_at_words: "c \<notin> set w \<Longrightarrow> split_at c (w @ c # r) = w # split_at c r"
  by (induction w) auto



section \<open>Poses\<close>

lemma pose_callback_sends:
  fixes F :: pose_fp
  assumes "s' = pose_callback F E ft p g s"
  obtains t where
    "t = fst (frame_clock (rs_fp.truncate F) ft (fs_clock s))"
    "up_tf s' = up_tf s @ (if rc_publish_odom_tf s then [(t, pose_transform F p s)] else [])"
    "up_odom s' = up_odom s @ (if single_subs E s POSE_sip = 0 then [] else [odometry F p t (fs_seq s POSE_sip + 1) s])"
    "fs_seq s' POSE_sip = fs_seq s POSE_sip + (if single_subs E s POSE_sip = 0 then 0 else 1)"
    "rs_config.truncate s' = rs_config.truncate s" "rn_publishers s' = rn_publishers s"
proof -
  obtain t clock where c: "frame_clock (rs_fp.truncate F) ft (fs_clock s) = (t, clock)" by (metis surj_pair)
  have cfg: "rs_config.truncate (send_odometry F E p t u) = rs_config.truncate u"
    "rn_publishers (send_odometry F E p t u) = rn_publishers u" "up_tf (send_odometry F E p t u) = up_tf u" for u
    by (simp_all add: send_odometry_def Let_def rs_config.defs)
  show ?thesis
    by (rule that [of t], unfold assms pose_callback_def c)
       (simp_all add: send_odometry_def Let_def single_subs_def pose_transform_def odometry_def rs_config.defs)
qed

text \<open>A run of pose frames.\<close>

definition pose_run :: "pose_fp \<Rightarrow> up_env \<Rightarrow> (frame_time \<times> rs_pose \<times> frame_meta) list \<Rightarrow> rs_up \<Rightarrow> rs_up" where
  "pose_run F E xs s = fold (\<lambda>x s. pose_callback F E (fst x) (fst (snd x)) (snd (snd x)) s) xs s"

lemma same_config:
  assumes "rs_config.truncate t = rs_config.truncate s"
  shows "rc_publish_odom_tf t = rc_publish_odom_tf s" "pose_transform F p t = pose_transform F p s"
    "odometry F p x n t = odometry F p x n s"
  using assms by (simp_all add: rs_config.defs pose_transform_def odometry_def Let_def)

lemma same_subs: "rn_publishers t = rn_publishers s \<Longrightarrow> single_subs E t = single_subs E s"
  by (simp add: single_subs_def fun_eq_iff)

lemma odometry_fields:
  "od_seq (odometry F p x n s) = n" "od_stamp (odometry F p x n s) = x"
  "od_position (odometry F p x n s) = tf_translation (pose_transform F p s)"
  "od_orientation (odometry F p x n s) = tf_rotation (pose_transform F p s)"
  by (simp_all add: odometry_def Let_def)

text \<open>
  With a subscriber and \<open>publish_odom_tf\<close>, every pose gives rise to one transform and one odometry message with the
  same stamp, place and orientation, and the messages are numbered without a gap.
\<close>

lemma poses_are_published_in_order:
  assumes "single_subs E s POSE_sip \<noteq> 0" "rc_publish_odom_tf s"
  shows "\<exists>ms os. up_tf (pose_run F E xs s) = up_tf s @ ms \<and> up_odom (pose_run F E xs s) = up_odom s @ os \<and>
    map snd ms = map (\<lambda>x. pose_transform F (fst (snd x)) s) xs \<and>
    map od_seq os = map (\<lambda>k. fs_seq s POSE_sip + 1 + int k) [0..<length xs] \<and>
    map (\<lambda>o'. (od_stamp o', od_position o', od_orientation o')) os =
      map (\<lambda>m. (fst m, tf_translation (snd m), tf_rotation (snd m))) ms"
  using assms
proof (induction xs arbitrary: s)
  case Nil
  then show ?case by (simp add: pose_run_def)
next
  case (Cons x xs)
  let ?u = "pose_callback F E (fst x) (fst (snd x)) (snd (snd x)) s"
  obtain t where t: "up_tf ?u = up_tf s @ [(t, pose_transform F (fst (snd x)) s)]"
    "up_odom ?u = up_odom s @ [odometry F (fst (snd x)) t (fs_seq s POSE_sip + 1) s]"
    "fs_seq ?u POSE_sip = fs_seq s POSE_sip + 1"
    "rs_config.truncate ?u = rs_config.truncate s" "rn_publishers ?u = rn_publishers s"
    by (rule pose_callback_sends [OF refl, where s = s and F = F and E = E and ft = "fst x" and p = "fst (snd x)" and g = "snd (snd x)"]) (use Cons.prems in auto)
  have "single_subs E ?u POSE_sip \<noteq> 0" "rc_publish_odom_tf ?u"
    using Cons.prems same_subs [OF t(5)] same_config(1) [OF t(4)] by simp_all
  from Cons.IH [OF this] obtain ms os where ih:
    "up_tf (pose_run F E xs ?u) = up_tf ?u @ ms" "up_odom (pose_run F E xs ?u) = up_odom ?u @ os"
    "map snd ms = map (\<lambda>x. pose_transform F (fst (snd x)) s) xs"
    "map od_seq os = map (\<lambda>k. fs_seq s POSE_sip + 1 + 1 + int k) [0..<length xs]"
    "map (\<lambda>o'. (od_stamp o', od_position o', od_orientation o')) os =
      map (\<lambda>m. (fst m, tf_translation (snd m), tf_rotation (snd m))) ms"
    by (auto simp: t(3) same_config [OF t(4)])
  have run: "pose_run F E (x # xs) s = pose_run F E xs ?u" by (simp add: pose_run_def)
  have up: "[0..<length (x # xs)] = 0 # map Suc [0..<length xs]" by (simp add: map_Suc_upt upt_conv_Cons del: upt_Suc)
  show ?case
    unfolding run up
    by (rule exI [of _ "(t, pose_transform F (fst (snd x)) s) # ms"],
        rule exI [of _ "odometry F (fst (snd x)) t (fs_seq s POSE_sip + 1) s # os"])
       (simp add: ih t(1,2) odometry_fields comp_def algebra_simps)
qed

section \<open>The order of the inertial messages\<close>

text \<open>The messages that a frame at the callback of a tracking sensor gives rise to, and those of a run.\<close>

definition produced_by :: "pose_fp \<Rightarrow> up_env \<Rightarrow> imu_sync_method \<Rightarrow> arrival \<Rightarrow> rs_up \<Rightarrow> Imu list" where
  "produced_by F U m x s = (case x of
     Inertial f g \<Rightarrow> fst (unite_frame (rs_fp.truncate F) m (united_subs U s) f (imu_view F s)) | _ \<Rightarrow> [])"

fun produced_run :: "pose_fp \<Rightarrow> calib_env \<Rightarrow> rs_frame_env \<Rightarrow> up_env \<Rightarrow> imu_sync_method \<Rightarrow> arrival list \<Rightarrow> rs_up \<Rightarrow> Imu list" where
  "produced_run F C E U m [] s = []"
| "produced_run F C E U m (x # xs) s = produced_by F U m x s @
     produced_run F C E U m xs (outcome_state (multiple_message_callback F C E U m x s))"

lemma lift_fr_Inr:
  assumes "lift_fr f s = Inr t"
  obtains u where "f (rs_fr.truncate s) = Inr u" "t = rs_fr.extend u (rs_fr.more s)"
  using assms by (auto simp: lift_fr_def split: sum.splits)

lemma fr_synced:
  "rn_synced (rs_fr.truncate s) = rn_synced s" "rn_synced (rs_fr.extend u m) = rn_synced u"
  by (simp_all add: rs_fr.defs)

text \<open>One frame: the stream grows by what the frame gives rise to, and an image releases what waits.\<close>

lemma arrival_step:
  assumes "multiple_message_callback F C E U m x s = Inr t" "sp_ok (rn_synced s)" "m \<noteq> NONE"
  shows "sp_ok (rn_synced t) \<and> imu.stream (rn_synced t) = imu.stream (rn_synced s) @ produced_by F U m x s \<and>
    (\<forall>ft y. x = Images ft y \<longrightarrow> sp_pending (rn_synced t) = [])"
proof (cases x)
  case (Inertial f g)
  then obtain n where n: "imu_callback_sync (rs_fp.truncate F) m (united_subs U s) f (imu_view F s) = Inr n" "t = put_imu n s"
    using assms(1,3) by (auto simp: multiple_message_callback_def sync_callback_def split: sum.splits)
  let ?v = "imu_view F s"
  obtain ms s1 where u: "unite_frame (rs_fp.truncate F) m (united_subs U s) f ?v = (ms, s1)" by (metis surj_pair)
  have unlocked: "\<not> in_locked ?v" using n(1) by (auto simp: imu_callback_sync_def)
  have "\<not> faulted (imu_callback_sync (rs_fp.truncate F) m (united_subs U s) f ?v)"
    "outcome_state (imu_callback_sync (rs_fp.truncate F) m (united_subs U s) f ?v) = n" by (simp_all add: n(1))
  then have r: "\<not> faulted (fold_outcome Publish ms (in_publisher ?v))"
    "in_publisher n = outcome_state (fold_outcome Publish ms (in_publisher ?v))"
    using imu_callback_sync_eq [OF unlocked, of "rs_fp.truncate F" m "united_subs U s" f] u by (auto simp: Let_def)
  have pub: "in_publisher ?v = rn_synced s" "rn_synced t = in_publisher n" by (simp_all add: imu_view_def n(2) put_imu_def)
  have ok: "sp_ok (in_publisher ?v)" using assms(2) pub by simp
  obtain ms' where "imu.stream (in_publisher n) = imu.stream (rn_synced s) @ ms'" "sp_ok (in_publisher n)" "ms' = ms"
    by (rule imu.send_all_prefix [OF ok, of ms]) (use r pub in auto)
  then show ?thesis by (simp add: pub(2) produced_by_def Inertial u)
next
  case (Images ft y)
  then obtain u where u: "frame_callback (rt_fp.truncate F) C E ft y (rs_fr.truncate s) = Inr u" "t = rs_fr.extend u (rs_fr.more s)"
    using assms(1) lift_fr_Inr [of "frame_callback (rt_fp.truncate F) C E ft y" s t]
    by (simp add: multiple_message_callback_def) blast
  then have "\<not> sp_pause_mode (rn_synced u) \<and> sp_pending (rn_synced u) = [] \<and>
      sp_published (rn_synced u) = sp_published (rn_synced s) @ sp_pending (rn_synced s)"
    using frame_callback_synced [of "rt_fp.truncate F" C E ft y "rs_fr.truncate s"] by (simp add: fr_synced)
  then show ?thesis by (simp add: u(2) fr_synced sp_ok_def imu.stream_def produced_by_def Images)
next
  case (Pose ft p g)
  then have "rn_synced t = rn_synced s"
    using assms(1) by (auto simp: multiple_message_callback_def pose_callback_def send_odometry_def Let_def split: prod.splits)
  then show ?thesis using assms(2) by (simp add: produced_by_def Pose)
qed

lemma arrivals_in_order:
  assumes "fold_outcome (multiple_message_callback F C E U m) xs s = Inr t" "sp_ok (rn_synced s)" "m \<noteq> NONE"
  shows "sp_ok (rn_synced t) \<and> imu.stream (rn_synced t) = imu.stream (rn_synced s) @ produced_run F C E U m xs s"
  using assms
proof (induction xs arbitrary: s)
  case (Cons x xs)
  then obtain u where u: "multiple_message_callback F C E U m x s = Inr u"
    "fold_outcome (multiple_message_callback F C E U m) xs u = Inr t" by (auto simp: and_then_eq_Inr)
  note st = arrival_step [OF u(1) Cons.prems(2,3)]
  show ?case using Cons.IH [OF u(2) _ Cons.prems(3)] st u(1) by simp
qed simp

text \<open>
  Claim C36.  A tracking sensor, whose inertial, pose and image frames all go to one callback: whatever frames arrive
  and in which order, as long as no callback fails, what has been published followed by what is held back
  is what the inertial frames gave rise to, in their order; when an image frame comes last nothing is held back.
\<close>

theorem tracking_sensor_keeps_imu_order:
  assumes "fold_outcome (multiple_message_callback F C E U m) xs s = Inr t" "sp_ok (rn_synced s)" "m \<noteq> NONE"
  shows "sp_published (rn_synced t) @ sp_pending (rn_synced t) =
      sp_published (rn_synced s) @ sp_pending (rn_synced s) @ produced_run F C E U m xs s \<and>
    (\<forall>ys ft y. xs = ys @ [Images ft y] \<longrightarrow> sp_pending (rn_synced t) = [])"
proof (intro conjI allI impI)
  show "sp_published (rn_synced t) @ sp_pending (rn_synced t) =
      sp_published (rn_synced s) @ sp_pending (rn_synced s) @ produced_run F C E U m xs s"
    using arrivals_in_order [OF assms] by (simp add: imu.stream_def)
next
  fix ys ft y assume xs: "xs = ys @ [Images ft y]"
  then obtain u where u: "fold_outcome (multiple_message_callback F C E U m) ys s = Inr u"
    "multiple_message_callback F C E U m (Images ft y) u = Inr t"
    using assms(1) by (auto simp: fold_outcome_append and_then_eq_Inr)
  have "sp_ok (rn_synced u)" using arrivals_in_order [OF u(1) assms(2,3)] by blast
  from arrival_step [OF u(2) this assms(3)] show "sp_pending (rn_synced t) = []" by blast
qed

text \<open>A node with a subscriber to the united topic, and one reading of the gyroscope while an acceleration is known.\<close>

definition bits_pose :: pose_fp where
  "bits_pose = rt_fp.extend bits_rt \<lparr>quat_rotate = (\<lambda>_ v. v), pow10 = (\<lambda>_. d_one), f64_of_rat = (\<lambda>_. d_zero)\<rparr>"

lemma bits_pose_base [simp]: "rs_fp.truncate bits_pose = bits_fp"
  by (simp add: bits_pose_def bits_rt_def rs_fp.defs rt_fp.defs bits_fp_def)

definition up_of :: "rs_node \<Rightarrow> rs_up" where
  "up_of s = rs_op.extend (op_of s) \<lparr>up_notified = [], up_resets = 0, up_monitor_options = [], up_temperature = [],
     up_frequency = [], up_monitoring = False, up_services = [], up_locked = False, up_sync_seq = 0, up_history = [],
     up_accel = no_accel, up_single = [], up_tf = [], up_odom = []\<rparr>"

definition demo_up :: rs_up where
  "demo_up = put_imu demo_imu_node (up_of (blank_node\<lparr>rn_publishers := [United_Imu_Pub]\<rparr>))"

definition one_subscriber :: up_env where
  "one_subscriber = \<lparr>ue_united_subs = 1, ue_single_subs = (\<lambda>_. 1), ue_metadata_subs = (\<lambda>_. None)\<rparr>"

lemma demo_up_fields:
  "united_subs one_subscriber demo_up = 1" "rn_synced demo_up = in_publisher demo_imu_node"
  "imu_view bits_pose demo_up = demo_imu_node\<lparr>in_optical_frame_id := rc_optical_frame_id demo_up,
     in_linear_accel_cov := d_zero, in_angular_velocity_cov := d_zero\<rparr>"
  by (simp_all add: demo_up_def put_imu_def up_of_def op_of_def rt_of_def blank_node_def rs_node.defs rs_rt.defs rs_fr.defs
      rs_op.defs united_subs_def one_subscriber_def imu_view_def demo_imu_node_def bits_pose_def rt_fp.defs)

lemma demo_up_produces:
  "\<exists>i n. unite_frame bits_fp COPY 1 demo_gyro_frame (imu_view bits_pose demo_up) = ([i], n)"
  unfolding demo_up_fields
  by (simp add: unite_frame_def demo_gyro_frame_def demo_imu_node_def Let_def frame_time.defs
      frameSystemTimeSec_def init_time_base_def FillImuData_Copy_def imu_stream_index_def
      fp_less_def fp_key_def d_one_def d_zero_def GYRO_sip_def ACCEL_sip_def)

lemma tracking_sensor_keeps_imu_order_witness:
  "\<exists>i t. multiple_message_callback bits_pose demo_calib depth_env one_subscriber COPY (Inertial demo_gyro_frame no_meta) demo_up = Inr t \<and>
    sp_published (rn_synced t) @ sp_pending (rn_synced t) = [i]"
proof -
  let ?v = "imu_view bits_pose demo_up"
  obtain i n where u: "unite_frame bits_fp COPY 1 demo_gyro_frame ?v = ([i], n)" using demo_up_produces by blast
  have p: "in_publisher ?v = in_publisher demo_imu_node" "\<not> in_locked ?v" by (simp_all add: demo_up_fields)
  have "\<not> faulted (fold_outcome Publish [i] (in_publisher demo_imu_node))"
    by (simp add: demo_imu_node_def Publish_def Enable_def new_publisher_def)
  then have "\<not> faulted (imu_callback_sync bits_fp COPY 1 demo_gyro_frame ?v)"
    using imu_callback_sync_eq(2) [OF p(2), of bits_fp COPY 1 demo_gyro_frame]
    unfolding u p fst_conv by blast
  then obtain w where "imu_callback_sync bits_fp COPY 1 demo_gyro_frame ?v = Inr w"
    by (cases "imu_callback_sync bits_fp COPY 1 demo_gyro_frame ?v") auto
  then have t: "multiple_message_callback bits_pose demo_calib depth_env one_subscriber COPY (Inertial demo_gyro_frame no_meta) demo_up =
      Inr (put_imu w demo_up)"
    by (simp add: multiple_message_callback_def sync_callback_def demo_up_fields(1) del: One_nat_def)
  have ok: "sp_ok (rn_synced demo_up)" "sp_published (rn_synced demo_up) @ sp_pending (rn_synced demo_up) = []"
    by (simp_all add: demo_up_fields(2) demo_imu_node_def Enable_def new_publisher_def sp_ok_def)
  have "fold_outcome (multiple_message_callback bits_pose demo_calib depth_env one_subscriber COPY) [Inertial demo_gyro_frame no_meta] demo_up =
      Inr (put_imu w demo_up)" using t by simp
  from tracking_sensor_keeps_imu_order [OF this ok(1)] show ?thesis
    using t ok(2) u by (auto simp: produced_by_def demo_up_fields(1) simp del: One_nat_def)
qed

end
