(* ===== verification/Rs_Launch.thy ===== *)
theory Rs_Launch
  imports Rs_Setup_Props Rs_Streams Rs_Services
begin

text \<open>
  \<open>publishTopics\<close>: the steps of the set-up of a RealSense node composed as the code composes them
  (\<open>base_realsense_node.cpp\<close>), the node of the tracking camera (\<open>t265_realsense_node.cpp\<close>), and what holds when the
  set-up succeeds or fails.
\<close>

section \<open>The composition\<close>

text \<open>Steps that work on fewer members than a node has.\<close>

definition lift_node :: "(rs_node \<Rightarrow> rs_node outcome) \<Rightarrow> 'a rs_node_scheme \<Rightarrow> 'a rs_node_scheme outcome" where
  "lift_node f s = (case f (rs_node.truncate s) of
     Inl (e, t) \<Rightarrow> Inl (e, rs_node.extend t (rs_node.more s)) | Inr t \<Rightarrow> Inr (rs_node.extend t (rs_node.more s)))"

definition lift_op :: "(rs_op \<Rightarrow> rs_op outcome) \<Rightarrow> 'a rs_op_scheme \<Rightarrow> 'a rs_op_scheme outcome" where
  "lift_op f s = (case f (rs_op.truncate s) of
     Inl (e, t) \<Rightarrow> Inl (e, rs_op.extend t (rs_op.more s)) | Inr t \<Rightarrow> Inr (rs_op.extend t (rs_op.more s)))"

text \<open>A step that may not end.\<close>

definition ends :: "('s \<Rightarrow> 's option) \<Rightarrow> 's \<Rightarrow> 's outcome" where
  "ends f s = (case f s of None \<Rightarrow> Inl (Blocked ''get_enum_method'', s) | Some t \<Rightarrow> Inr t)"

text \<open>What surrounds the set-up: parameters, device, arithmetic, calibration, options, uninitialised memory.\<close>

record launch =
  la_params :: ros_params
  la_option_params :: opt_params
  la_device :: rs_device
  la_fp :: rt_fp
  la_calib :: calib_env
  la_options :: opt_env
  la_junk :: "bool \<times> nat"

definition setupStreams_rs :: "launch \<Rightarrow> rs_up \<Rightarrow> rs_up outcome" where
  "setupStreams_rs L s =
     and_then (calibrate_streams (la_fp L) (la_calib L) s) (lift_node (start_streams (la_device L)))"

text \<open>\<open>calc\<close> is the virtual method \<open>calcAndPublishStaticTransform\<close>.\<close>

type_synonym calc_tf = "rt_fp \<Rightarrow> calib_env \<Rightarrow> profile \<Rightarrow> sip \<Rightarrow> rs_up \<Rightarrow> rs_up outcome"

definition first_steps :: "launch \<Rightarrow> (rs_up \<Rightarrow> rs_up outcome) list" where
  "first_steps L =
     [lift_node (getParameters_rs (la_params L)),
      lift_node (setupDevice_rs (la_device L)),
      lift_node setupFilters,
      lift_op (registerHDRoptions (la_options L) (la_params L)),
      lift_op (ends (registerDynamicReconfigCb (la_options L) (la_option_params L))),
      \<lambda>s. Inr (setupErrorCallback (la_device L) s),
      lift_node enable_devices,
      lift_node (\<lambda>s. Inr (setupPublishers_rs (la_junk L) s))]"

definition last_steps :: "calc_tf \<Rightarrow> launch \<Rightarrow> (rs_up \<Rightarrow> rs_up outcome) list" where
  "last_steps calc L =
     [lift_node SetBaseStream,
      lift_op (registerAutoExposureROIOptions (la_params L)),
      publishStaticTransforms_rs (calc (la_fp L) (la_calib L)) (la_fp L) (la_calib L),
      publishIntrinsics (la_fp L) (la_calib L),
      \<lambda>s. Inr (startMonitoring s),
      \<lambda>s. Inr (publishServices s)]"

definition publishTopics :: "calc_tf \<Rightarrow> launch \<Rightarrow> rs_up \<Rightarrow> rs_up outcome" where
  "publishTopics calc L s =
     fold_outcome (\<lambda>step. step) (first_steps L @ [setupStreams_rs L] @ last_steps calc L) s"

text \<open>
  A new node; \<open>options\<close> are the numbers of the temperatures it watches, which depend on the constructor.
\<close>

definition new_node :: "rs2_option list \<Rightarrow> rs_node \<Rightarrow> rs_up" where
  "new_node options junk = (up_of (BaseRealSenseNode junk))\<lparr>up_monitor_options := options\<rparr>"

definition destroy_up :: "rs_device \<Rightarrow> rs_up \<Rightarrow> rs_up" where
  "destroy_up D s = rs_node.extend (destroy_node D (rs_node.truncate s)) (rs_node.more s)"

section \<open>The tracking camera\<close>

text \<open>
  The members of \<open>T265RealsenseNode\<close>: \<open>tn_tasks\<close> counts the tasks of its diagnostics, \<open>tn_reports\<close> holds what they have
  reported, \<open>tn_sent\<close> the velocities for the wheel odometer.
\<close>

record t265_node =
  tn_base :: rs_up
  tn_use_odom_in :: bool
  tn_fault :: string
  tn_tasks :: nat
  tn_reports :: "string list"
  tn_odom_topic :: "string option"
  tn_sent :: "(float32 \<times> float32 \<times> float32) list"

text \<open>\<open>accepted\<close> is \<open>load_wheel_odometery_config\<close>, the odometer's own check of the file.\<close>

definition initializeOdometryInput :: "launch \<Rightarrow> (string \<Rightarrow> bool) \<Rightarrow> t265_node \<Rightarrow> t265_node outcome" where
  "initializeOdometryInput L accepted s =
     (let calib_odom_file = p_str (la_params L) ''calib_odom_file'' '''' in
      if calib_odom_file = '''' then Inr s
      else case dv_file (la_device L) calib_odom_file of
        None \<Rightarrow> Inl (Thrown ''calibration_odometry file not found'', s)
      | Some json \<Rightarrow>
          if \<not> accepted json then Inl (Thrown ''Format error in calibration_odometry file'', s)
          else Inr (s\<lparr>tn_use_odom_in := True\<rparr>))"

definition T265RealsenseNode :: "launch \<Rightarrow> (string \<Rightarrow> bool) \<Rightarrow> rs2_option list \<Rightarrow> rs_node \<Rightarrow> t265_node outcome" where
  "T265RealsenseNode L accepted options junk =
     initializeOdometryInput L accepted
       \<lparr>tn_base = new_node options junk, tn_use_odom_in = False, tn_fault = [], tn_tasks = 0, tn_reports = [],
        tn_odom_topic = None, tn_sent = []\<rparr>"

definition setupSubscribers :: "launch \<Rightarrow> t265_node \<Rightarrow> t265_node" where
  "setupSubscribers L s =
     (if \<not> tn_use_odom_in s then s
      else s\<lparr>tn_odom_topic := Some (p_str (la_params L) ''topic_odom_in'' '''')\<rparr>)"

definition publishTopics_T265 :: "launch \<Rightarrow> t265_node \<Rightarrow> t265_node outcome" where
  "publishTopics_T265 L s =
     (case publishTopics calcAndPublishStaticTransform_T265 L (tn_base s) of
        Inl (e, b) \<Rightarrow> Inl (e, s\<lparr>tn_base := b\<rparr>)
      | Inr b \<Rightarrow> Inr (setupSubscribers L (s\<lparr>tn_base := b\<rparr>)))"

definition toggleSensors_T265 :: "bool \<Rightarrow> t265_node \<Rightarrow> t265_node" where
  "toggleSensors_T265 on s = s"

definition list_of_fault :: "string list" where
  "list_of_fault = [''SLAM_ERROR'', ''Stream transfer failed, exiting'']"

text \<open>
  What \<open>handleWarning\<close> does with a message of the log: a known fault adds one more task, and every task
  reports the latest message.
\<close>

definition on_warning :: "string \<Rightarrow> t265_node \<Rightarrow> t265_node" where
  "on_warning msg s =
     (let s1 = s\<lparr>tn_fault := msg\<rparr> in
      if list_ex (\<lambda>f. sublist f msg) list_of_fault
      then s1\<lparr>tn_tasks := tn_tasks s1 + 1, tn_reports := tn_reports s1 @ replicate (tn_tasks s1 + 1) (tn_fault s1)\<rparr>
      else s1)"

text \<open>\<open>narrow\<close> is the conversion of a \<open>double\<close> to \<open>float\<close>.\<close>

fun odom_in_callback :: "rt_fp \<Rightarrow> (float64 \<Rightarrow> float32) \<Rightarrow> vec3 \<Rightarrow> t265_node \<Rightarrow> t265_node" where
  "odom_in_callback F narrow (x, y, z) s =
     s\<lparr>tn_sent := tn_sent s @ [(f32_neg F (narrow y), narrow z, f32_neg F (narrow x))]\<rparr>"

section \<open>What the steps leave alone\<close>

text \<open>Which stream has which profiles and sensor, and the calls to the device.\<close>

definition wires :: "'a rs_node_scheme \<Rightarrow> (sip \<times> profile list) list \<times> (sip \<times> sensor) list \<times> rs_call list" where
  "wires s = (rn_profiles s, rn_sensors s, rn_calls s)"

lemma node_views [simp]:
  "wires (rs_node.truncate s) = wires s" "wires (rs_node.extend t m) = wires t"
  "wires (rs_op.truncate u) = wires u" "wires (rs_op.extend v k) = wires v"
  "rs_node.truncate (rs_node.extend t m) = t"
  by (simp_all add: wires_def rs_node.defs rs_op.defs)

lemma lift_node_state: "outcome_state (lift_node f s) =
    rs_node.extend (outcome_state (f (rs_node.truncate s))) (rs_node.more s)"
  by (auto simp: lift_node_def split: sum.split)

lemma lift_op_state: "outcome_state (lift_op f s) =
    rs_op.extend (outcome_state (f (rs_op.truncate s))) (rs_op.more s)"
  by (auto simp: lift_op_def split: sum.split)

lemma and_then_wires:
  assumes "w (outcome_state r) = w s" "\<And>t. w (outcome_state (k t)) = w t"
  shows "w (outcome_state (and_then r k)) = w s"
  using assms by (cases r) auto

lemma fold_outcome_wires:
  assumes "\<And>x s. w (outcome_state (f x s)) = w s"
  shows "w (outcome_state (fold_outcome f xs s)) = w s"
  by (rule fold_outcome_invariant [where I = "\<lambda>t. w t = w s"]) (auto simp: assms)

lemma frames_wires [simp]: "wires (s\<lparr>rc_base_frame_id := a, rc_odom_frame_id := b\<rparr>) = wires s"
  by (simp add: wires_def)

lemma parameters_wires: "wires (outcome_state (getParameters_rs P s)) = wires s"
  for s :: "'a rs_node_scheme"
proof -
  have one: "wires (read_infra_rgb P s) = wires s" "wires (read_filters P s) = wires s"
    "wires (read_image_stream P i s) = wires s" "wires (read_hid_stream P i s) = wires s"
    "wires (read_frame_id P i s) = wires s" "wires (read_imu P s) = wires s" "wires (read_rest P s) = wires s"
    for s :: "'a rs_node_scheme" and i
    by (simp_all add: wires_def read_infra_rgb_def read_filters_def read_image_stream_def read_hid_stream_def
        read_frame_id_def read_imu_def read_rest_def set_enable_def Let_def)
  have "wires (read_rest P (read_imu P (read_frames P (read_streams P (read_filters P s))))) = wires s"
    for s :: "'a rs_node_scheme"
    by (simp add: one read_frames_def read_streams_def fold_keeps [of wires])
  moreover have "wires (outcome_state (read_pointcloud P s)) = wires s" for s :: "'a rs_node_scheme"
    by (simp add: read_pointcloud_def wires_def Let_def split: sum.split)
  ultimately show ?thesis
    unfolding getParameters_rs_def by (intro and_then_wires) (simp_all add: one)
qed

lemma filters_wires: "wires (outcome_state (setupFilters s)) = wires s"
proof -
  have "wires (snd (outcome_state (read_filter f u))) = wires (snd u)" for f u
    by (simp add: read_filter_def wires_def Let_def split: prod.split)
  then have fold: "wires (snd (outcome_state (fold_outcome read_filter fs u))) = wires (snd u)" for fs u
    by (rule fold_outcome_wires)
  have fin: "wires (finish_filters u) = wires (snd u)" for u
    by (simp add: finish_filters_def add_disparity_def add_hdr_def add_decimation_def add_align_def add_colorizer_def
        add_pointcloud_def wires_def Let_def split: prod.split)
  show ?thesis
    using fold [of "split_at (CHR '','') (rc_filters_str s)" "(no_flags, s)"]
    by (auto simp: setupFilters_def fin split: sum.split prod.split)
qed

text \<open>What only the choice of streams and publishers changes.\<close>

definition base :: "'a rs_node_scheme \<Rightarrow> rs_config \<times> (sip \<times> profile list) list \<times> (sip \<times> sensor) list \<times> rs_call list \<times>
    string list \<times> (sip \<Rightarrow> mat option) \<times> publisher list" where
  "base s = (rs_config.truncate s, rn_profiles s, rn_sensors s, rn_calls s, rn_filters s, rn_image s, rn_publishers s)"

lemma base_views:
  "base (rs_node.truncate s) = base s" "base (rs_node.extend t m) = base t"
  "base (rs_op.truncate u) = base u" "base (rs_op.extend v k) = base v"
  by (simp_all add: base_def rs_node.defs rs_op.defs rs_config.defs)

lemma base_wiring: "base t = base s \<Longrightarrow> wires t = wires s"
  by (simp add: base_def wires_def)

lemma update_base [simp]:
  "base (s\<lparr>op_deleted := d\<rparr>) = base s" "base (s\<lparr>op_update_thread := b\<rparr>) = base s" "base (s\<lparr>op_log := l\<rparr>) = base s"
  "base (u\<lparr>rn_depth_scale_meters := x\<rparr>) = base u" "base (register_var m n v s) = base s"
  "base (s\<lparr>op_servers := k\<rparr>) = base s"
  by (simp_all add: base_def register_var_def rs_config.defs)

lemma option_base:
  "base (outcome_state (set_option E p i v s)) = base s"
  "(\<And>v. base (outcome_state (k v)) = base s) \<Longrightarrow> base (outcome_state (get_option E p i s k)) = base s"
  by (simp_all add: set_option_def get_option_def wires_def Let_def split: option.split sum.split)

lemma hdr_base: "base (outcome_state (registerHDRoptions E P s)) = base s"
proof -
  have "base (outcome_state (hdr_option E P m p k i s)) = base s" for m p k i s
    by (auto simp: hdr_option_def Let_def option_base intro!: option_base)
  then have "base (outcome_state (hdr_step E P m p k s)) = base s" for m p k s
    unfolding hdr_step_def by (intro and_then_wires fold_outcome_wires option_base)
  then have "base (outcome_state (hdr_sensor E P sn s)) = base s" for sn s
    unfolding hdr_sensor_def Let_def
    by (intro option_base(2) and_then_wires fold_outcome_wires) (simp_all add: option_base)
  then show ?thesis by (simp add: registerHDRoptions_def split: option.split)
qed

lemma register_option_base:
  assumes "register_option E P m p i s = Some t"
  shows "base t = base s"
proof -
  have "base (outcome_state (register_checkbox E P m n p i s)) = base s" for n
    unfolding register_checkbox_def
    by (intro option_base(2)) (auto simp: option_base intro!: and_then_wires split: option.split)
  moreover have "base (outcome_state (register_enum E P m n p i d s)) = base s" for n d
    unfolding register_enum_def Let_def
    by (intro option_base(2) and_then_wires) (auto simp: option_base split: option.split)
  moreover have "base (outcome_state (register_number E P m n p i s)) = base s" for n
    unfolding register_number_def Let_def
    by (intro option_base(2) and_then_wires) (auto simp: option_base intro!: and_then_wires split: option.split)
  ultimately show ?thesis
    using assms by (auto simp: register_option_def Let_def split: if_splits option.splits)
qed

lemma register_options_base: "register_options E P m p is s = Some t \<Longrightarrow> base t = base s"
  by (induction "is" arbitrary: s) (auto dest!: register_option_base split: option.splits)

lemma register_all_base: "register_all E P ps s = Some t \<Longrightarrow> base t = base s"
proof (induction ps arbitrary: s)
  case (Cons q ps)
  then obtain p m u where "registerDynamicOption E P p m s = Some u" "register_all E P ps u = Some t"
    by (cases q) (auto split: option.splits)
  then show ?case
    using Cons.IH register_options_base by (fastforce simp: registerDynamicOption_def split: option.splits)
qed simp

lemma reconfig_base: "base (outcome_state (ends (registerDynamicReconfigCb E P) s)) = base s"
  by (auto simp: ends_def registerDynamicReconfigCb_def dest: register_all_base split: option.split)

section \<open>What the other steps do to the wiring\<close>

lemma setup_sensors_wires:
  "rn_profiles (outcome_state (fold_outcome setup_sensor sns s)) = rn_profiles s \<and>
   rn_calls (outcome_state (fold_outcome setup_sensor sns s)) = rn_calls s \<and>
   snd ` set (rn_sensors (outcome_state (fold_outcome setup_sensor sns s))) \<subseteq> snd ` set (rn_sensors s) \<union> set sns"
proof (induction sns arbitrary: s)
  case (Cons sn sns)
  have add: "snd ` set (fold (add_stream sn) ps m) \<subseteq> insert sn (snd ` set m)" for ps m
  proof (induction ps arbitrary: m)
    case (Cons p ps)
    have "snd ` set (add_stream sn p m) \<subseteq> insert sn (snd ` set m)"
      using set_map_put_subset [of "pf_sip p" sn m] by (auto simp: add_stream_def)
    then show ?case using Cons.IH [of "add_stream sn p m"] by simp blast
  qed auto
  have one: "rn_profiles (outcome_state (setup_sensor sn s)) = rn_profiles s \<and>
      rn_calls (outcome_state (setup_sensor sn s)) = rn_calls s \<and>
      snd ` set (rn_sensors (outcome_state (setup_sensor sn s))) \<subseteq> insert sn (snd ` set (rn_sensors s))" for s
    using add by (simp add: setup_sensor_def Let_def split: option.split)
  show ?case
  proof (cases "setup_sensor sn s")
    case (Inl y)
    then show ?thesis using one [of s] by (cases y) auto
  next
    case (Inr t)
    then have "rn_profiles t = rn_profiles s" "rn_calls t = rn_calls s" "snd ` set (rn_sensors t) \<subseteq> insert sn (snd ` set (rn_sensors s))"
      using one [of s] by simp_all
    then show ?thesis using Inr Cons.IH [of t] by simp blast
  qed
qed simp

text \<open>Loading the configuration and starting the syncer do not touch the sensors.\<close>

lemma rs_do_quiet:
  assumes "\<And>f. settle c f = f"
  shows "sensors_now (outcome_state (rs_do D c s)) = sensors_now s \<and> rn_profiles (outcome_state (rs_do D c s)) = rn_profiles s \<and>
    rn_sensors (outcome_state (rs_do D c s)) = rn_sensors s"
  using assms by (simp add: rs_do_def Let_def sensors_now_def sensors_after_snoc split: option.split)

definition early :: "rs_device \<Rightarrow> rs_node \<Rightarrow> bool" where
  "early D s \<longleftrightarrow> sensors_now s = (\<lambda>_. Closed) \<and> snd ` set (rn_sensors s) \<subseteq> set (dv_sensors D) \<and> rn_profiles s = []"

lemma early_and_then:
  assumes "early D (outcome_state r)" "\<And>t. r = Inr t \<Longrightarrow> early D t \<Longrightarrow> early D (outcome_state (k t))"
  shows "early D (outcome_state (and_then r k))"
  using assms by (cases r) auto

lemma early_wires: "wires t = wires s \<Longrightarrow> early D t = early D s"
  by (simp add: wires_def early_def sensors_now_def)

lemma disable_wires: "wires (fold disable_unsupported es s) = wires s"
  by (rule fold_keeps) (simp add: disable_unsupported_def set_enable_def wires_def)

lemma setupDevice_early: "early D s \<Longrightarrow> early D (outcome_state (setupDevice_rs D s))"
proof -
  assume s: "early D s"
  have quiet: "early D (outcome_state (rs_do D c u))" if "early D u" "c = Syncer_Start \<or> (\<exists>x. c = Load_Json x)" for c u
  proof -
    have "settle c f = f" for f using that(2) by (auto simp: settle_def)
    then show ?thesis using that(1) rs_do_quiet [of c D u] by (simp add: early_def)
  qed
  have "early D (outcome_state (load_json_file D s))"
    using s quiet by (auto simp: load_json_file_def split: option.split)
  then show ?thesis
    unfolding setupDevice_rs_def Let_def
  proof (intro early_and_then)
    fix t assume t: "early D t"
    then have t': "early D (t\<lparr>rn_dev_sensors := dv_sensors D\<rparr>)" by (simp add: early_def sensors_now_def)
    then show "early D (outcome_state (if rc_sync_frames (t\<lparr>rn_dev_sensors := dv_sensors D\<rparr>)
        then rs_do D Syncer_Start (t\<lparr>rn_dev_sensors := dv_sensors D\<rparr>) else Inr (t\<lparr>rn_dev_sensors := dv_sensors D\<rparr>)))"
      using quiet [OF t'] by simp
  next
    fix t assume "early D t"
    then show "early D (outcome_state (fold_outcome setup_sensor (dv_sensors D) t))"
      using setup_sensors_wires [of "dv_sensors D" t] unfolding early_def sensors_now_def by simp blast
  next
    fix t assume "early D t"
    then show "early D (outcome_state (Inr (fold disable_unsupported (rc_enable t) t)))"
      using early_wires [OF disable_wires] by simp
  qed
qed

text \<open>\<open>enable_devices\<close> gives profiles to streams that have a sensor, and calls nothing.\<close>

definition plugged :: "rs_device \<Rightarrow> rs_node \<Rightarrow> bool" where
  "plugged D s \<longleftrightarrow> sensors_now s = (\<lambda>_. Closed) \<and> snd ` set (rn_sensors s) \<subseteq> set (dv_sensors D) \<and>
     (\<forall>e \<in> set (rn_profiles s). map_of (rn_sensors s) (fst e) \<noteq> None)"

lemma plugged_wires: "wires t = wires s \<Longrightarrow> plugged D t = plugged D s"
  by (simp add: wires_def plugged_def sensors_now_def)

lemma early_connected: "early D s \<Longrightarrow> plugged D s"
  by (simp add: early_def plugged_def)

lemma push_connected:
  assumes "plugged D s" "map_of (rn_sensors s) i \<noteq> None"
  shows "plugged D (push_profile i p s)"
proof -
  have "map_of (rn_sensors s) (fst e) \<noteq> None" if "e \<in> set (map_put i ps (rn_profiles s))" for e ps
  proof -
    have "e = (i, ps) \<or> e \<in> set (rn_profiles s)"
      using that set_map_put_subset [of i ps "rn_profiles s"] by blast
    then show ?thesis using assms unfolding plugged_def by (metis fst_conv)
  qed
  then show ?thesis using assms(1) by (simp only: push_profile_def plugged_def sensors_now_def rs_node.simps) simp
qed

lemma enable_connected:
  assumes "plugged D s"
  shows "plugged D (outcome_state (enable_image_stream i s))" "plugged D (outcome_state (enable_hid_stream i s))"
proof -
  have same: "wires t = wires s \<Longrightarrow> plugged D t" for t using assms plugged_wires by blast
  have off: "plugged D (set_enable i False s)" by (rule same) (simp add: wires_def set_enable_def)
  have img: "plugged D (u\<lparr>rn_image := m\<rparr>) = plugged D u" for u m
    by (rule plugged_wires) (simp add: wires_def)
  have push: "plugged D (push_profile i p t)" if "wires t = wires s" "map_of (rn_sensors s) i \<noteq> None" for p t
    using push_connected [OF same [OF that(1)]] that by (simp add: wires_def)
  have "plugged D (use_image_profile i p s)" if "map_of (rn_sensors s) i \<noteq> None" for p
    unfolding use_image_profile_def Let_def img by (rule push) (use that in \<open>simp_all add: wires_def\<close>)
  then show "plugged D (outcome_state (enable_image_stream i s))"
    using assms off by (simp add: enable_image_stream_def split: option.split)
  have "plugged D (push_profile i p (s\<lparr>rc_fps := f\<rparr>))" if "map_of (rn_sensors s) i \<noteq> None" for p f
    by (rule push) (use that in \<open>simp_all add: wires_def\<close>)
  then show "plugged D (outcome_state (enable_hid_stream i s))"
    using assms off by (simp add: enable_hid_stream_def split: option.split)
qed

lemma enable_devices_connected:
  assumes "plugged D s"
  shows "plugged D (outcome_state (enable_devices s))"
proof -
  have 1: "plugged D (outcome_state (fold_outcome enable_image_stream is u))" if "plugged D u" for "is" u
    by (rule fold_outcome_invariant) (auto simp: that enable_connected)
  have 2: "plugged D (outcome_state (fold_outcome enable_hid_stream is u))" if "plugged D u" for "is" u
    by (rule fold_outcome_invariant) (auto simp: that enable_connected)
  have 3: "plugged D (aligned_images u) = plugged D u" for u
    by (rule plugged_wires) (simp add: aligned_images_def Let_def wires_def)
  show ?thesis
    using 1 [OF assms, of IMAGE_STREAMS_rs] 2 3
    by (cases "fold_outcome enable_image_stream IMAGE_STREAMS_rs s") (auto simp: enable_devices_def)
qed

lemma publishers_wires: "wires (setupPublishers_rs junk s) = wires s"
proof -
  have "wires (fold image_publishers is s) = wires s" for "is"
    by (rule fold_keeps) (simp add: image_publishers_def add_pubs_def wires_def)
  then show ?thesis
    by (simp add: setupPublishers_rs_def other_publishers_def imu_publishers_def add_pubs_def wires_def Let_def)
qed

section \<open>The steps after the streams are chosen\<close>

lemma rt_base [simp]:
  "base (edit_info i f s) = base s" "base (s\<lparr>rt_intrinsics := a\<rparr>) = base s"
  "base (copy_aligned p s) = base s" "base (publish_static_tf F tr q x y s) = base s"
  "base (s\<lparr>rt_extrinsics := b, rt_extrinsics_sent := c\<rparr>) = base s"
  by (simp_all add: edit_info_def copy_aligned_def publish_static_tf_def Let_def base_def rs_config.defs)

lemma update_base_calib: "base (outcome_state (updateStreamCalibData F C p s)) = base s"
  for s :: "'a rs_rt_scheme"
proof -
  have base: "base (outcome_state (set_baseline F C i k s)) = base s" for i k and s :: "'a rs_rt_scheme"
    by (auto simp: set_baseline_def Let_def split: sum.split)
  show ?thesis
    by (auto simp: updateStreamCalibData_def Let_def base set_intrinsics_def set_distortion_def set_depth_origin_def
        fold_keeps [of base] intro!: and_then_wires split: sum.split)
qed

lemma calibration_base: "base (outcome_state (calibrate_streams F C s)) = base s"
  for s :: "'a rs_rt_scheme"
  unfolding calibrate_streams_def by (intro fold_outcome_wires) (simp add: update_base_calib)

lemma roi_wires: "wires (outcome_state (registerAutoExposureROIOptions P s)) = wires s"
proof -
  have "wires (register_roi P i sn s) = wires s" for i sn s
    by (simp add: register_roi_def readAndSetDynamicParam_def register_var_def wires_def Let_def)
  then have "wires (outcome_state (roi_stream P e s)) = wires s" for e s
    by (simp add: roi_stream_def split: option.split)
  then show ?thesis unfolding registerAutoExposureROIOptions_def by (rule fold_outcome_wires)
qed

text \<open>Both versions of the virtual method only add transforms.\<close>

definition look :: "'a rs_rt_scheme \<Rightarrow> (rs_config \<times> (sip \<times> profile list) list \<times> (sip \<times> sensor) list \<times> rs_call list \<times>
    string list \<times> (sip \<Rightarrow> mat option) \<times> publisher list) \<times> (sip \<Rightarrow> rs_info option)" where
  "look s = (base s, rt_camera_info s)"

lemma look_wiring: "look t = look s \<Longrightarrow> wires t = wires s"
  unfolding look_def prod.inject by (blast intro: base_wiring)

lemma look_updates [simp]:
  "look (publish_static_tf F tr q x y s) = look s"
  "look (s\<lparr>rt_extrinsics := b, rt_extrinsics_sent := c\<rparr>) = look s"
  by (simp_all add: look_def) (simp_all add: publish_static_tf_def)

lemma calc_look:
  assumes "calc \<in> {calcAndPublishStaticTransform_rs, calcAndPublishStaticTransform_T265}"
  shows "look (outcome_state (calc F C p i s)) = look s"
  using assms
  by (auto simp: calcAndPublishStaticTransform_rs_def calcAndPublishStaticTransform_T265_def publish_pair_def Let_def
      split: sum.split option.split)

lemma transforms_look:
  assumes "calc \<in> {calcAndPublishStaticTransform_rs, calcAndPublishStaticTransform_T265}"
  shows "look (outcome_state (publishStaticTransforms_rs (calc F C) F C s)) = look (s :: 'a rs_rt_scheme)"
proof -
  have "look (outcome_state (publish_extrinsics F C p e s)) = look s" for p e and s :: "'a rs_rt_scheme"
    by (simp add: publish_extrinsics_def Let_def split: sum.split)
  then have ext: "look (outcome_state (fold_outcome (publish_extrinsics F C p) es s)) = look s" for p es and s :: "'a rs_rt_scheme"
    by (rule fold_outcome_wires)
  have tfs: "look (outcome_state (fold_outcome (calc F C p) is s)) = look s" for p "is" and s :: "'a rs_rt_scheme"
    by (rule fold_outcome_wires) (rule calc_look [OF assms])
  have "look (send_transforms s) = look s" for s :: "'a rs_rt_scheme" by (simp add: send_transforms_def look_def base_def rs_config.defs)
  then show ?thesis
    by (auto simp: publishStaticTransforms_rs_def tfs ext intro!: and_then_wires split: sum.split)
qed

lemma intrinsics_wires: "wires (outcome_state (publishIntrinsics F C s)) = wires s"
  for s :: "'a rs_rt_scheme"
proof -
  have "wires (outcome_state (publish_imu_info F C i s)) = wires s" for i and s :: "'a rs_rt_scheme"
    by (simp add: publish_imu_info_def Let_def wires_def split: sum.split)
  then show ?thesis unfolding publishIntrinsics_def by (intro and_then_wires)
qed

lemma base_wires: "wires (outcome_state (SetBaseStream s)) = wires s"
  by (simp add: SetBaseStream_def wires_def split: option.split)

lemma up_wires:
  "wires (setupErrorCallback D s) = wires s" "wires (startMonitoring s) = wires s" "wires (publishServices s) = wires s"
  by (simp_all add: setupErrorCallback_def startMonitoring_def publishServices_def wires_def)

lemma last_steps_wires:
  assumes "calc \<in> {calcAndPublishStaticTransform_rs, calcAndPublishStaticTransform_T265}"
  shows "wires (outcome_state (fold_outcome (\<lambda>step. step) (last_steps calc L) s)) = wires s"
proof (rule fold_outcome_invariant [where I = "\<lambda>t. wires t = wires s"])
  fix f and t :: rs_up assume "f \<in> set (last_steps calc L)" "wires t = wires s"
  then show "wires (outcome_state (f t)) = wires s"
    unfolding last_steps_def
    by (auto simp: lift_node_state lift_op_state base_wires roi_wires look_wiring [OF transforms_look [OF assms]] intrinsics_wires
        up_wires)
qed simp

section \<open>A set-up that fails\<close>

text \<open>The sensors of a device are told apart by their names.\<close>

definition named_apart :: "rs_device \<Rightarrow> bool" where
  "named_apart D \<longleftrightarrow> (\<forall>a \<in> set (dv_sensors D). \<forall>b \<in> set (dv_sensors D). sn_name a = sn_name b \<longleftrightarrow> sn_id a = sn_id b)"

lemma plugged_running:
  assumes "plugged D s" "named_apart D"
  shows "running False s"
proof -
  have "used_sensor s (fst e) \<in> set (dv_sensors D)" if "e \<in> set (rn_profiles s)" for e
  proof -
    have "map_of (rn_sensors s) (fst e) \<noteq> None" using assms(1) that unfolding plugged_def by blast
    then obtain sn where "map_of (rn_sensors s) (fst e) = Some sn" by blast
    moreover from this have "sn \<in> snd ` set (rn_sensors s)" by (metis map_of_SomeD image_eqI snd_conv)
    ultimately show ?thesis using assms(1) by (auto simp: plugged_def used_sensor_def)
  qed
  then have "set (used s) \<subseteq> set (dv_sensors D)" by (auto simp: used_def)
  then show ?thesis
    using assms unfolding running_def streams_ok_def plugged_def named_apart_def by (simp add: subset_iff)
qed

lemma running_wires:
  assumes "wires t = wires s"
  shows "running on t = running on s"
proof -
  have "wiring t = wiring s" "sensors_now t = sensors_now s"
    using assms by (simp_all add: wires_def wiring_def sensors_now_def)
  then show ?thesis using wiring_cong [of t s] by (simp add: running_def)
qed

lemma first_steps_connected:
  assumes "early (la_device L) (rs_node.truncate s)"
  shows "plugged (la_device L) (rs_node.truncate (outcome_state (fold_outcome (\<lambda>step. step) (first_steps L) s)))"
proof -
  let ?D = "la_device L" and ?steps = "take 6 (first_steps L)"
  have w: "early ?D (rs_node.truncate t) = early ?D (rs_node.truncate u)" if "wires t = wires u" for t u :: rs_up
    by (rule early_wires) (simp add: that)
  have one: "early ?D (rs_node.truncate (outcome_state (f t)))"
    if "f \<in> set ?steps" "early ?D (rs_node.truncate t)" for f t
  proof -
    have "f = lift_node (setupDevice_rs ?D) \<or> (\<forall>t. wires (outcome_state (f t)) = wires t)"
      using that(1) unfolding first_steps_def
      by (auto simp: lift_node_state lift_op_state parameters_wires filters_wires base_wiring [OF hdr_base] base_wiring [OF reconfig_base]
          up_wires)
    then show ?thesis
      using that(2) w [of "outcome_state (f t)" t] setupDevice_early by (auto simp: lift_node_state)
  qed
  let ?r = "fold_outcome (\<lambda>step. step) ?steps s"
  have early: "early ?D (rs_node.truncate (outcome_state ?r))"
    by (rule fold_outcome_invariant [where I = "\<lambda>t. early ?D (rs_node.truncate t)"]) (use assms one in auto)
  have split: "first_steps L = ?steps @ [lift_node enable_devices, lift_node (\<lambda>s. Inr (setupPublishers_rs (la_junk L) s))]"
    by (simp add: first_steps_def)
  have last: "plugged ?D (rs_node.truncate (outcome_state (fold_outcome (\<lambda>step. step)
      [lift_node enable_devices, lift_node (\<lambda>s. Inr (setupPublishers_rs (la_junk L) s))] t)))"
    if "early ?D (rs_node.truncate t)" for t :: rs_up
  proof (rule fold_outcome_invariant [where I = "\<lambda>t. plugged ?D (rs_node.truncate t)"])
    show "plugged ?D (rs_node.truncate t)" by (rule early_connected [OF that])
    show "plugged ?D (rs_node.truncate (outcome_state (f u)))"
      if "f \<in> set [lift_node enable_devices, lift_node (\<lambda>s. Inr (setupPublishers_rs (la_junk L) s))]"
        "plugged ?D (rs_node.truncate u)" for f and u :: rs_up
      using that enable_devices_connected plugged_wires [OF publishers_wires [of "la_junk L"]]
      by (auto simp: lift_node_state simp del: split_paired_All)
  qed
  show ?thesis
  proof (cases ?r)
    case (Inl y)
    then show ?thesis using early early_connected by (subst split) (cases y, simp add: fold_outcome_append)
  next
    case (Inr t)
    then show ?thesis using early last by (subst split) (simp add: fold_outcome_append)
  qed
qed

lemma setup_streams_running:
  assumes "strict_device (la_device L)" "named_apart (la_device L)" "plugged (la_device L) (rs_node.truncate s)"
  shows "(\<exists>on. running on (rs_node.truncate (outcome_state (setupStreams_rs L s)))) \<and>
    (\<forall>t. setupStreams_rs L s = Inr t \<longrightarrow> running True (rs_node.truncate t))"
proof -
  let ?D = "la_device L" and ?c = "calibrate_streams (la_fp L) (la_calib L) s"
  have "wires (rs_node.truncate (outcome_state ?c)) = wires (rs_node.truncate s)"
    using base_wiring [OF calibration_base [of "la_fp L" "la_calib L" s]] by simp
  then have off: "running False (rs_node.truncate (outcome_state ?c))"
    using running_wires plugged_running [OF assms(3,2)] by blast
  show ?thesis
  proof (cases ?c)
    case (Inl y)
    then show ?thesis using off by (cases y) (auto simp: setupStreams_rs_def)
  next
    case (Inr u)
    then have "streams_ok (rs_node.truncate u)" "sensors_now (rs_node.truncate u) = (\<lambda>_. Closed)"
      using off by (simp_all add: running_def)
    then obtain t where t: "start_streams ?D (rs_node.truncate u) = Inr t" "wiring t = wiring (rs_node.truncate u)"
      "sensors_now t = streaming (module_ids (rs_node.truncate u))"
      by (rule start_from_closed [OF assms(1)])
    have "running True t"
      using t(3) wiring_cong [OF t(2)] \<open>streams_ok (rs_node.truncate u)\<close> by (simp add: running_def)
    then show ?thesis using Inr t(1) by (auto simp: setupStreams_rs_def lift_node_def)
  qed
qed

lemma new_node_early: "early D (rs_node.truncate (new_node options junk))"
  by (simp add: early_def sensors_now_def new_node_def up_of_def op_of_def rt_of_def rs_node.defs rs_rt.defs rs_fr.defs
      rs_op.defs BaseRealSenseNode_def sensors_after_def)

lemma set_up_running:
  assumes "strict_device (la_device L)" "named_apart (la_device L)"
    and "calc \<in> {calcAndPublishStaticTransform_rs, calcAndPublishStaticTransform_T265}"
  shows "(\<exists>on. running on (rs_node.truncate (outcome_state (publishTopics calc L (new_node options junk))))) \<and>
    (\<forall>t. publishTopics calc L (new_node options junk) = Inr t \<longrightarrow> running True (rs_node.truncate t))"
proof -
  let ?D = "la_device L" and ?s = "new_node options junk"
  let ?a = "fold_outcome (\<lambda>step. step) (first_steps L) ?s"
  have a: "plugged ?D (rs_node.truncate (outcome_state ?a))"
    by (rule first_steps_connected) (rule new_node_early)
  have Cons: "fold_outcome (\<lambda>step. step) (f # fs) = (\<lambda>t. and_then (f t) (fold_outcome (\<lambda>step. step) fs))"
    for f and fs :: "(rs_up \<Rightarrow> rs_up outcome) list" by (rule ext) simp
  have eq: "publishTopics calc L ?s = and_then ?a (\<lambda>t. and_then (setupStreams_rs L t)
      (fold_outcome (\<lambda>step. step) (last_steps calc L)))"
    by (simp add: publishTopics_def fold_outcome_append Cons)
  show ?thesis
  proof (cases ?a)
    case (Inl y)
    then show ?thesis using plugged_running [OF a assms(2)] unfolding eq by (cases y) auto
  next
    case (Inr t)
    then have st: "plugged ?D (rs_node.truncate t)" using a by simp
    note b = setup_streams_running [OF assms(1,2) st]
    show ?thesis
    proof (cases "setupStreams_rs L t")
      case Inl': (Inl y)
      then show ?thesis using b Inr unfolding eq by (cases y) auto
    next
      case Inr': (Inr u)
      let ?r = "fold_outcome (\<lambda>step. step) (last_steps calc L) u"
      have r: "publishTopics calc L ?s = ?r" using Inr Inr' eq by simp
      have "wires (rs_node.truncate (outcome_state ?r)) = wires (rs_node.truncate u)"
        using last_steps_wires [OF assms(3), of L u] by simp
      then have "running True (rs_node.truncate (outcome_state ?r))"
        using running_wires b Inr' by blast
      then show ?thesis unfolding r by (cases ?r) auto
    qed
  qed
qed

text \<open>
  Claim C39.  Whatever the parameters, the options and the calibration say, and whichever step of \<open>publishTopics\<close> ends
  the set-up: destroying the node closes every sensor that it has opened; and when the set-up succeeds exactly the
  sensors that serve an enabled stream are streaming.
\<close>

theorem set_up_can_be_undone:
  assumes "strict_device (la_device L)" "named_apart (la_device L)"
    and "calc \<in> {calcAndPublishStaticTransform_rs, calcAndPublishStaticTransform_T265}"
  shows "sensors_now (rs_node.truncate (destroy_up (la_device L)
      (outcome_state (publishTopics calc L (new_node options junk))))) = (\<lambda>_. Closed) \<and>
    (\<forall>t. publishTopics calc L (new_node options junk) = Inr t \<longrightarrow>
      sensors_now (rs_node.truncate t) = streaming (module_ids (rs_node.truncate t)))"
  using set_up_running [OF assms, of options junk] destroy_running [OF assms(1)]
  by (auto simp: destroy_up_def running_def)

definition demo_launch :: launch where
  "demo_launch = \<lparr>la_params = empty_params, la_option_params = one_param, la_device = strict_demo, la_fp = bits_rt,
     la_calib = demo_calib, la_options = one_option, la_junk = (False, 0)\<rparr>"

lemma strict_demo_ok: "strict_device strict_demo" "named_apart strict_demo"
  by (auto simp: strict_device_def strict_demo_def named_apart_def demo_device_def)

lemma set_up_can_be_undone_witness:
  "sensors_now (rs_node.truncate (destroy_up strict_demo (outcome_state
    (publishTopics calcAndPublishStaticTransform_rs demo_launch (new_node [21, 22] blank_node))))) = (\<lambda>_. Closed)"
  using set_up_can_be_undone [of demo_launch calcAndPublishStaticTransform_rs "[21, 22]" blank_node] strict_demo_ok
  by (simp add: demo_launch_def)

section \<open>Odometry for the tracking camera\<close>



text \<open>The reports of the diagnostics: every known fault adds a task, so the \<open>n\<close>-th fault is reported \<open>n\<close> times.\<close>

lemma faults_are_reported_again:
  assumes "list_all (\<lambda>m. list_ex (\<lambda>f. sublist f m) list_of_fault) ms"
  shows "tn_tasks (fold on_warning ms s) = tn_tasks s + length ms \<and>
    tn_reports (fold on_warning ms s) =
      tn_reports s @ concat (map (\<lambda>(k, m). replicate (tn_tasks s + k + 1) m) (zip [0..<length ms] ms))"
  using assms
proof (induction ms rule: rev_induct)
  case (snoc m ms)
  then show ?case by (simp add: on_warning_def Let_def)
qed simp

end
