(* ===== verification/Rs_Alive.thy ===== *)
theory Rs_Alive
  imports Rs_Launch
begin

text \<open>
  A node that comes up: the set-up of \<open>Rs_Launch\<close> succeeds for a device, parameters and a calibration that fit together,
  and then every image stream that is still enabled is ready for the frames of its sensor.
\<close>

section \<open>The formats\<close>

text \<open>Every image stream has an encoding, and depth is 16 bits unless the colorizer is in the chain.\<close>

definition formats :: "'a rs_node_scheme \<Rightarrow> bool" where
  "formats s \<longleftrightarrow> (''colorizer'' \<notin> set (rn_filters s) \<longrightarrow> rc_image_format s RS2_STREAM_DEPTH = CV_16UC1) \<and>
     (\<forall>i \<in> set IMAGE_STREAMS_rs. rc_encoding s (fst i) \<noteq> None)"

definition fmt :: "'a rs_node_scheme \<Rightarrow> (rs2_stream \<Rightarrow> int) \<times> (rs2_stream \<Rightarrow> string option) \<times> string list" where
  "fmt s = (rc_image_format s, rc_encoding s, rn_filters s)"

lemma formats_cong: "fmt t = fmt s \<Longrightarrow> formats t = formats s"
  by (simp add: fmt_def formats_def)

lemma new_node_formats: "formats (rs_node.truncate (new_node options junk))"
  by (auto simp: formats_def new_node_def up_of_def op_of_def rt_of_def rs_node.defs rs_rt.defs rs_fr.defs rs_op.defs
      BaseRealSenseNode_def init_image_format_def init_encoding_def IMAGE_STREAMS_rs_def stream_defs CV_16UC1_def)

lemma parameters_formats:
  fixes s t :: rs_node
  assumes "getParameters_rs P s = Inr t" "formats s"
  shows "formats t"
proof -
  have infra: "formats (read_infra_rgb P s)"
    using assms(2) by (auto simp: formats_def read_infra_rgb_def)
  obtain u where u: "read_pointcloud P (read_infra_rgb P s) = Inr u"
    "t = read_rest P (read_imu P (read_frames P (read_streams P (read_filters P u))))"
    using assms(1) by (auto simp: getParameters_rs_def and_then_eq_Inr)
  have "fmt (read_filters P v) = fmt v" "fmt (read_image_stream P i v) = fmt v" "fmt (read_hid_stream P i v) = fmt v"
    "fmt (read_frame_id P i v) = fmt v" "fmt (read_imu P v) = fmt v" "fmt (read_rest P v) = fmt v"
    "fmt (v\<lparr>rc_base_frame_id := a, rc_odom_frame_id := b\<rparr>) = fmt v"
    for i a b and v :: rs_node
    by (simp_all add: fmt_def read_filters_def read_image_stream_def read_hid_stream_def read_frame_id_def read_imu_def
        read_rest_def set_enable_def Let_def)
  then have "fmt t = fmt u"
    by (simp add: u(2) read_frames_def read_streams_def fold_keeps [of fmt])
  also have "\<dots> = fmt (read_infra_rgb P s)"
    using u(1) by (auto simp: read_pointcloud_def Let_def fmt_def split: sum.splits)
  finally show ?thesis using infra formats_cong by blast
qed

lemma setupDevice_fmt: "fmt (outcome_state (setupDevice_rs D s)) = fmt s"
proof -
  have do: "fmt (outcome_state (rs_do D c s)) = fmt s" for c s
    by (simp add: rs_do_def Let_def fmt_def split: option.split)
  have load: "fmt (outcome_state (load_json_file D s)) = fmt s" for s
    by (simp add: load_json_file_def do split: option.split)
  have "fmt (outcome_state (setup_sensor sn s)) = fmt s" for sn s
    by (simp add: setup_sensor_def Let_def fmt_def split: option.split)
  then have sens: "fmt (outcome_state (fold_outcome setup_sensor sns s)) = fmt s" for sns s
    by (rule fold_outcome_wires)
  have dis: "fmt (fold disable_unsupported es s) = fmt s" for es s
    by (rule fold_keeps) (simp add: disable_unsupported_def set_enable_def fmt_def)
  have dev: "fmt (s\<lparr>rn_dev_sensors := x\<rparr>) = fmt s" for x and s :: rs_node by (simp add: fmt_def)
  show ?thesis
    unfolding setupDevice_rs_def Let_def by (intro and_then_wires) (simp_all add: load do sens dis dev)
qed

lemma filters_formats:
  assumes "setupFilters s = Inr t" "rn_filters s = []" "formats s"
  shows "formats t"
proof -
  have c: "COLOR_sip \<in> set IMAGE_STREAMS_rs" by (simp add: IMAGE_STREAMS_rs_def)
  have steps: "formats u \<Longrightarrow> formats (add_disparity g u)" "formats u \<Longrightarrow> formats (add_hdr g u)"
    "formats u \<Longrightarrow> formats (add_decimation g u)" "formats u \<Longrightarrow> formats (add_align u)" "formats u \<Longrightarrow> formats (add_pointcloud u)"
    for g u
    by (simp_all add: formats_def add_disparity_def add_hdr_def add_decimation_def add_align_def add_pointcloud_def)
  have colour: "formats (add_colorizer g u)" if "formats u" for g u
  proof -
    have "rc_encoding u (fst COLOR_sip) \<noteq> None" using that c unfolding formats_def by blast
    then obtain y where "rc_encoding u (fst COLOR_sip) = Some y" by blast
    then show ?thesis using that by (simp add: formats_def add_colorizer_def Let_def)
  qed
  have "formats (s\<lparr>rn_filters := x\<rparr>)" for x using assms(2,3) by (simp add: formats_def)
  then show ?thesis
    unfolding setupFilters_Inr [OF assms(1,2)] finish_filters_def by (simp add: steps colour)
qed

section \<open>The profiles\<close>

text \<open>Every profile belongs to its stream, and the matrix of an image stream has the size of its last profile.\<close>

definition ours :: "sip \<Rightarrow> profile \<Rightarrow> bool" where
  "ours i q \<longleftrightarrow> i \<in> set IMAGE_STREAMS_rs \<and> pf_sip q = i \<or> i \<in> set HID_STREAMS \<and> pf_stream q = fst i"

definition own_at :: "rs_node \<Rightarrow> sip \<Rightarrow> profile list \<Rightarrow> bool" where
  "own_at s i ps \<longleftrightarrow> ps \<noteq> [] \<and> list_all (ours i) ps \<and> (i \<in> set IMAGE_STREAMS_rs \<longrightarrow>
     rn_image s i = Some (pf_height (last ps), pf_width (last ps), rc_image_format s (fst i)))"

definition own :: "rs_node \<Rightarrow> bool" where
  "own s \<longleftrightarrow> map_ok (rn_profiles s) \<and> (\<forall>i ps. map_of (rn_profiles s) i = Some ps \<longrightarrow> own_at s i ps)"

lemma own_cong:
  "rn_profiles t = rn_profiles s \<Longrightarrow> rn_image t = rn_image s \<Longrightarrow> rc_image_format t = rc_image_format s \<Longrightarrow> own t = own s"
  by (simp add: own_def own_at_def)

lemma own_push:
  assumes "own s" "ours i p" "rc_image_format t = rc_image_format s" "\<And>j. j \<noteq> i \<Longrightarrow> rn_image t j = rn_image s j"
    and "i \<in> set IMAGE_STREAMS_rs \<Longrightarrow> rn_image t i = Some (pf_height p, pf_width p, rc_image_format s (fst i))"
    and t: "rn_profiles t = map_put i ((case map_of (rn_profiles s) i of None \<Rightarrow> [] | Some ps \<Rightarrow> ps) @ [p]) (rn_profiles s)"
  shows "own t"
proof -
  have ok: "map_ok (rn_profiles s)" using assms(1) by (simp add: own_def)
  have old: "own_at s j ps" if "map_of (rn_profiles s) j = Some ps" for j ps
    using assms(1) that unfolding own_def by blast
  have "own_at t j ps" if "map_of (rn_profiles t) j = Some ps" for j ps
  proof (cases "j = i")
    case True
    then have "ps = (case map_of (rn_profiles s) i of None \<Rightarrow> [] | Some ps \<Rightarrow> ps) @ [p]"
      using that by (simp add: t map_of_put [OF ok])
    moreover have "list_all (ours i) (case map_of (rn_profiles s) i of None \<Rightarrow> [] | Some ps \<Rightarrow> ps)"
      using old [of i] by (simp add: own_at_def split: option.split)
    ultimately show ?thesis using assms(2,3,5) True by (simp add: own_at_def)
  next
    case False
    then have "map_of (rn_profiles s) j = Some ps" using that by (simp add: t map_of_put [OF ok])
    from old [OF this] show ?thesis using assms(3) assms(4) [OF False] by (simp add: own_at_def)
  qed
  then show ?thesis using ok by (simp add: own_def t map_ok_put)
qed

lemma own_image:
  assumes "own s" "i \<in> set IMAGE_STREAMS_rs" "pf_sip p = i"
  shows "own (use_image_profile i p s)"
  by (rule own_push [OF assms(1), of i p])
     (use assms in \<open>simp_all add: ours_def use_image_profile_def push_profile_def Let_def\<close>)

lemma own_hid:
  assumes "own s" "i \<in> set HID_STREAMS" "pf_stream p = fst i"
  shows "own (push_profile i p s)"
  by (rule own_push [OF assms(1), of i p])
     (use assms hid_not_image in \<open>simp_all add: ours_def push_profile_def\<close>)

lemma enable_own:
  assumes "own s"
  shows "own (outcome_state (enable_devices s))"
proof -
  have off: "own (set_enable i False u) = own u" for i u by (rule own_cong) (simp_all add: set_enable_def)
  have img: "own (outcome_state (enable_image_stream i u))" if "own u" "i \<in> set IMAGE_STREAMS_rs" for i u
    using that own_image [OF that] best_profile_mem
    by (fastforce simp: enable_image_stream_def select_profile_eq off split: option.split)
  have hid: "own (outcome_state (enable_hid_stream i u))" if "own u" "i \<in> set HID_STREAMS" for i u
  proof -
    have "own (u\<lparr>rc_fps := x\<rparr>)" for x using that(1) own_cong [of "u\<lparr>rc_fps := x\<rparr>" u] by simp
    then have "own (push_profile i p (u\<lparr>rc_fps := x\<rparr>))"
      if "best_profile (\<lambda>p. pf_stream p = fst i) g ps = Some p" for p x g ps
      by (rule own_hid) (use \<open>i \<in> set HID_STREAMS\<close> best_profile_mem [OF that] in simp_all)
    then show ?thesis
      using that by (simp add: enable_hid_stream_def select_profile_eq off split: option.split)
  qed
  have al: "own (aligned_images u) = own u" for u
    by (rule own_cong) (simp_all add: aligned_images_def Let_def)
  have 1: "own (outcome_state (fold_outcome enable_image_stream IMAGE_STREAMS_rs s))"
    by (rule fold_outcome_invariant [where I = own]) (use assms img in auto)
  have 2: "own (outcome_state (fold_outcome enable_hid_stream HID_STREAMS u))" if "own u" for u
    by (rule fold_outcome_invariant [where I = own]) (use that hid in auto)
  show ?thesis
    using 1 2 al by (cases "fold_outcome enable_image_stream IMAGE_STREAMS_rs s") (auto simp: enable_devices_def)
qed

lemma enable_fmt: "fmt (outcome_state (enable_devices s)) = fmt s"
proof -
  have "fmt (outcome_state (enable_image_stream i s)) = fmt s" "fmt (outcome_state (enable_hid_stream i s)) = fmt s" for i s
    by (simp_all add: enable_image_stream_def enable_hid_stream_def use_image_profile_def push_profile_def set_enable_def
        Let_def fmt_def split: option.split)
  then have "fmt (outcome_state (fold_outcome enable_image_stream is s)) = fmt s"
    "fmt (outcome_state (fold_outcome enable_hid_stream is s)) = fmt s" for "is" s
    by (simp_all add: fold_outcome_wires)
  moreover have "fmt (aligned_images s) = fmt s" for s by (simp add: aligned_images_def Let_def fmt_def)
  ultimately show ?thesis unfolding enable_devices_def by (intro and_then_wires) simp_all
qed

section \<open>The camera information\<close>

definition width_of :: "'a rs_rt_scheme \<Rightarrow> sip \<Rightarrow> int option" where
  "width_of s i = map_option ci_width (rt_camera_info s i)"

lemma width_edit:
  assumes "\<And>c. ci_width (f c) = ci_width c" "width_of s j = Some w"
  shows "width_of (edit_info i f s) j = Some w"
  using assms by (auto simp: width_of_def edit_info_def info_or_new_def)

lemma width_copy: "width_of s j = Some w \<Longrightarrow> width_of (copy_aligned p s) j = Some w"
  by (auto simp: width_of_def copy_aligned_def info_or_new_def Let_def)

lemma width_copies: "width_of s j = Some w \<Longrightarrow> width_of (fold copy_aligned ps s) j = Some w"
  by (induction ps arbitrary: s) (auto simp: width_copy)

lemma update_width:
  assumes "updateStreamCalibData F C q s = Inr t"
  obtains k where "cb_intrinsics C q = Inr k"
    "\<And>j w. (if j = pf_sip q then w = int (in_width k) else width_of s j = Some w) \<Longrightarrow> width_of t j = Some w"
proof -
  obtain k where k: "cb_intrinsics C q = Inr k"
    using assms by (auto simp: updateStreamCalibData_def split: sum.splits)
  then obtain u where u: "set_baseline F C (pf_sip q) k (set_intrinsics F (pf_sip q) k s) = Inr u"
    "t = (let v = set_depth_origin (pf_sip q) (set_distortion F (pf_sip q) k u)
          in if rc_align_depth v then fold copy_aligned (concat (map snd (rn_profiles v))) v else v)"
    using assms by (auto simp: updateStreamCalibData_def and_then_eq_Inr Let_def)
  show ?thesis
  proof (rule that [OF k])
    fix j w assume h: "if j = pf_sip q then w = int (in_width k) else width_of s j = Some w"
    have "width_of (set_intrinsics F (pf_sip q) k s) j = Some w"
      using h by (auto simp: width_of_def set_intrinsics_def edit_info_def Let_def split: if_splits)
    then have "width_of u j = Some w"
      using u(1) by (auto simp: set_baseline_def Let_def width_edit split: if_splits sum.splits)
    then have "width_of (set_depth_origin (pf_sip q) (set_distortion F (pf_sip q) k u)) j = Some w"
      by (simp add: set_depth_origin_def set_distortion_def width_edit)
    then show "width_of t j = Some w" by (simp add: u(2) Let_def width_copies)
  qed
qed

lemma calibration_widths:
  assumes "fold_outcome (\<lambda>p s. if is_video p then updateStreamCalibData F C p s else Inr s) ps s = Inr t"
    and "\<forall>q k. cb_intrinsics C q = Inr k \<longrightarrow> int (in_width k) = pf_width q"
    and "\<forall>q \<in> set ps. pf_sip q = i \<longrightarrow> pf_width q = w"
    and "(\<exists>q \<in> set ps. is_video q \<and> pf_sip q = i) \<or> width_of s i = Some w"
  shows "width_of t i = Some w"
  using assms(1,3,4)
proof (induction ps arbitrary: s)
  case (Cons q ps)
  obtain u where u: "(if is_video q then updateStreamCalibData F C q s else Inr s) = Inr u"
    "fold_outcome (\<lambda>p s. if is_video p then updateStreamCalibData F C p s else Inr s) ps u = Inr t"
    using Cons.prems(1) by (auto simp: and_then_eq_Inr)
  have "(\<exists>q \<in> set ps. is_video q \<and> pf_sip q = i) \<or> width_of u i = Some w"
  proof (cases "is_video q")
    case False
    then show ?thesis using u(1) Cons.prems(3) by auto
  next
    case True
    then obtain k where k: "cb_intrinsics C q = Inr k"
      "\<And>j w. (if j = pf_sip q then w = int (in_width k) else width_of s j = Some w) \<Longrightarrow> width_of u j = Some w"
      using u(1) by (auto elim: update_width)
    have "int (in_width k) = pf_width q" using assms(2) k(1) by blast
    then show ?thesis using k(2) [of i w] Cons.prems(2,3) by (cases "pf_sip q = i") auto
  qed
  then show ?case using Cons.IH [OF u(2)] Cons.prems(2) by simp
qed simp

section \<open>What the last steps keep\<close>

definition kept :: "'a rs_rt_scheme \<Rightarrow> rs_config \<times> (sip \<times> profile list) list \<times> (sip \<times> sensor) list \<times> string list \<times>
    (sip \<Rightarrow> mat option) \<times> (sip \<Rightarrow> rs_info option)" where
  "kept s = (rs_config.truncate s, rn_profiles s, rn_sensors s, rn_filters s, rn_image s, rt_camera_info s)"

definition grown :: "rs_up \<Rightarrow> rs_up \<Rightarrow> bool" where
  "grown s t \<longleftrightarrow> kept t = kept s \<and> set (rn_publishers s) \<subseteq> set (rn_publishers t)"

lemma grown_trans: "grown s t \<Longrightarrow> grown t u \<Longrightarrow> grown s u"
  by (auto simp: grown_def)

lemma look_grown: "look t = look s \<Longrightarrow> grown s t"
  by (simp add: look_def base_def grown_def kept_def)

lemma kept_views:
  "kept (rs_op.extend v k) = kept v" "kept (rs_op.truncate s) = kept s"
  "rn_publishers (rs_op.extend v k) = rn_publishers v" "rn_publishers (rs_op.truncate s) = rn_publishers s"
  by (simp_all add: kept_def rs_op.defs rs_config.defs)

lemma info_extend: "rt_camera_info (rs_node.extend t (rs_node.more s)) = rt_camera_info (s :: rs_up)"
  by (cases s) (simp add: rs_node.defs)

text \<open>What a step on the members of \<open>rs_node\<close> keeps.\<close>

definition quiet :: "'a rs_node_scheme \<Rightarrow> rs_config \<times> (sip \<times> profile list) list \<times> (sip \<times> sensor) list \<times> string list \<times>
    (sip \<Rightarrow> mat option) \<times> publisher list" where
  "quiet s = (rs_config.truncate s, rn_profiles s, rn_sensors s, rn_filters s, rn_image s, rn_publishers s)"

lemma quiet_views [simp]: "quiet (rs_node.truncate s) = quiet s" "quiet (rs_node.extend t m) = quiet t"
  by (simp_all add: quiet_def rs_node.defs rs_config.defs)

lemma quiet_grown:
  "quiet t = quiet s \<Longrightarrow> rt_camera_info t = rt_camera_info s \<Longrightarrow> grown s t"
  by (simp add: quiet_def grown_def kept_def)

lemma lifted_grown:
  assumes "quiet (outcome_state (f (rs_node.truncate s))) = quiet (rs_node.truncate s)"
  shows "grown s (outcome_state (lift_node f s))"
  by (rule quiet_grown) (use assms in \<open>simp_all add: lift_node_state info_extend\<close>)

lemma base_stream_grown: "grown s (outcome_state (lift_node SetBaseStream s))"
  by (rule lifted_grown) (simp add: SetBaseStream_def quiet_def rs_config.defs split: option.split)

lemma roi_grown: "grown s (outcome_state (lift_op (registerAutoExposureROIOptions P) s))"
proof -
  define v where "v = (\<lambda>s :: rs_op. (kept s, rn_publishers s))"
  have "v (register_roi P i sn s) = v s" for i sn s
    by (simp add: v_def register_roi_def readAndSetDynamicParam_def register_var_def kept_def rs_config.defs Let_def)
  then have "v (outcome_state (roi_stream P e s)) = v s" for e s
    by (simp add: roi_stream_def split: option.split)
  then have "v (outcome_state (registerAutoExposureROIOptions P s)) = v s" for s
    unfolding registerAutoExposureROIOptions_def by (rule fold_outcome_wires)
  from this [of "rs_op.truncate s"] show ?thesis
    by (simp add: grown_def lift_op_state kept_views v_def)
qed

lemma intrinsics_grown: "grown s (outcome_state (publishIntrinsics F C s))"
proof -
  have one: "grown s (outcome_state (publish_imu_info F C i s))" for i s
    by (auto simp: publish_imu_info_def Let_def grown_def kept_def rs_config.defs split: sum.split)
  show ?thesis
  proof (cases "publish_imu_info F C GYRO_sip s")
    case (Inl y)
    then show ?thesis using one [of s GYRO_sip] by (cases y) (simp add: publishIntrinsics_def)
  next
    case (Inr u)
    then show ?thesis
      using one [of s GYRO_sip] one [of u ACCEL_sip] grown_trans by (simp add: publishIntrinsics_def)
  qed
qed

lemma up_grown: "grown s (startMonitoring s)" "grown s (publishServices s)"
  by (simp_all add: grown_def kept_def startMonitoring_def publishServices_def rs_config.defs)

lemma last_steps_grown:
  assumes "calc \<in> {calcAndPublishStaticTransform_rs, calcAndPublishStaticTransform_T265}"
  shows "grown s (outcome_state (fold_outcome (\<lambda>step. step) (last_steps calc L) s))"
proof (rule fold_outcome_invariant [where I = "grown s"])
  show "grown s s" by (simp add: grown_def)
  fix f and t :: rs_up assume f: "f \<in> set (last_steps calc L)" and t: "grown s t"
  have "grown t (outcome_state (f t))"
    using f look_grown [OF transforms_look [OF assms]] base_stream_grown roi_grown intrinsics_grown up_grown
    unfolding last_steps_def by auto
  then show "grown s (outcome_state (f t))" by (rule grown_trans [OF t])
qed

section \<open>The node after the set-up\<close>

text \<open>What \<open>setupPublishers\<close> keeps, and the publishers that it makes.\<close>

definition chosen :: "'a rs_node_scheme \<Rightarrow> rs_config \<times> (sip \<times> profile list) list \<times> (sip \<times> sensor) list \<times> string list \<times>
    (sip \<Rightarrow> mat option)" where
  "chosen s = (rs_config.truncate s, rn_profiles s, rn_sensors s, rn_filters s, rn_image s)"

lemma publishers_chosen: "chosen (setupPublishers_rs junk s) = chosen s"
proof -
  have "chosen (fold image_publishers is s) = chosen s" for "is"
    by (rule fold_keeps) (simp add: image_publishers_def add_pubs_def chosen_def rs_config.defs)
  then show ?thesis
    by (simp add: setupPublishers_rs_def other_publishers_def imu_publishers_def add_pubs_def chosen_def rs_config.defs Let_def)
qed

definition advertised :: "sip \<Rightarrow> publisher list \<Rightarrow> bool" where
  "advertised i ps \<longleftrightarrow> (\<exists>x. Image_Pub i x \<in> set ps) \<and> (\<exists>y. Info_Pub i y \<in> set ps)"

lemma advertised_more: "advertised i ps \<Longrightarrow> set ps \<subseteq> set qs \<Longrightarrow> advertised i qs"
  by (auto simp: advertised_def)

lemma publishers_advertise:
  assumes "i \<in> set IMAGE_STREAMS_rs" "enabled s i"
  shows "advertised i (rn_publishers (setupPublishers_rs junk s))"
proof -
  have more: "set (rn_publishers s) \<subseteq> set (rn_publishers (fold image_publishers is s))" for "is" s
  proof (induction "is" arbitrary: s)
    case (Cons i "is")
    have "set (rn_publishers s) \<subseteq> set (rn_publishers (image_publishers i s))"
      by (auto simp: image_publishers_def add_pubs_def)
    then show ?case using Cons [of "image_publishers i s"] by simp
  qed simp
  have "advertised i (rn_publishers (fold image_publishers is u))" if "i \<in> set is" "enabled u i" for "is" u
    using that
  proof (induction "is" arbitrary: u)
    case (Cons j "is")
    have en: "enabled (image_publishers j u) i" using Cons.prems(2) by (simp add: image_publishers_def add_pubs_def enabled_def)
    show ?case
    proof (cases "j = i")
      case True
      then have "advertised i (rn_publishers (image_publishers j u))"
        using Cons.prems(2) by (auto simp: image_publishers_def add_pubs_def advertised_def)
      then show ?thesis using advertised_more more by simp
    next
      case False
      then show ?thesis using Cons.IH [OF _ en] Cons.prems(1) by simp
    qed
  qed simp
  from this [OF assms] have "advertised i (rn_publishers (fold image_publishers IMAGE_STREAMS_rs s))" .
  then show ?thesis
    by (rule advertised_more) (auto simp: setupPublishers_rs_def other_publishers_def imu_publishers_def add_pubs_def Let_def)
qed

lemma start_quiet: "quiet (outcome_state (start_streams D s)) = quiet s"
proof -
  have do: "quiet (outcome_state (rs_do D c s)) = quiet s" for c s
    by (simp add: rs_do_def Let_def quiet_def rs_config.defs split: option.split)
  have scale: "quiet (s\<lparr>rn_depth_scale_meters := x\<rparr>) = quiet s" for x and s :: rs_node
    by (simp add: quiet_def rs_config.defs)
  have "quiet (outcome_state (start_module D active e s)) = quiet s" for active e s
    by (auto simp: start_module_def do scale intro!: and_then_wires split: option.split)
  then show ?thesis
    by (auto simp: start_streams_def fold_outcome_wires split: sum.split prod.split)
qed

lemma lift_node_Inr:
  assumes "lift_node f s = Inr t"
  obtains "f (rs_node.truncate s) = Inr (rs_node.truncate t)" "rs_node.more t = rs_node.more s"
  using assms by (cases "f (rs_node.truncate s)") (auto simp: lift_node_def rs_node.defs)

lemma new_node_base: "rs_node.truncate (new_node options junk) = BaseRealSenseNode junk"
  by (cases junk) (simp add: new_node_def up_of_def op_of_def rt_of_def rs_node.defs rs_rt.defs rs_fr.defs rs_op.defs
      BaseRealSenseNode_def)

lemma chosen_cong:
  assumes "chosen t = chosen s"
  shows "own (rs_node.truncate t) = own (rs_node.truncate s)" "formats t = formats s" "enabled t = enabled s"
    "rn_profiles t = rn_profiles s" "rn_sensors t = rn_sensors s"
    "request (rs_node.truncate t) i = request (rs_node.truncate s) i" "rc_enable t = rc_enable s"
proof -
  have f: "rn_profiles t = rn_profiles s" "rn_image t = rn_image s" "rc_image_format t = rc_image_format s"
    "rc_encoding t = rc_encoding s" "rn_filters t = rn_filters s" "rc_enable t = rc_enable s" "rn_sensors t = rn_sensors s"
    "rc_width t = rc_width s" "rc_height t = rc_height s" "rc_fps t = rc_fps s" "rc_format t = rc_format s"
    using assms by (simp_all add: chosen_def rs_config.defs)
  show "own (rs_node.truncate t) = own (rs_node.truncate s)" by (rule own_cong) (simp_all add: rs_node.defs f)
  show "formats t = formats s" by (rule formats_cong) (simp add: fmt_def f)
  show "enabled t = enabled s" by (simp add: enabled_def fun_eq_iff f)
  show "rn_profiles t = rn_profiles s" "rn_sensors t = rn_sensors s" "rc_enable t = rc_enable s" by (simp_all add: f)
  show "request (rs_node.truncate t) i = request (rs_node.truncate s) i"
    by (simp add: request_def enabled_def rs_node.defs f)
qed

lemma base_chosen: "base t = base s \<Longrightarrow> chosen t = chosen s"
  by (simp add: base_def chosen_def)

lemma image_not_hid_stream: "i \<in> set IMAGE_STREAMS_rs \<Longrightarrow> j \<in> set HID_STREAMS \<Longrightarrow> fst i \<noteq> fst j"
  by (auto simp: IMAGE_STREAMS_rs_def HID_STREAMS_def stream_defs)

lemma image_is_video: "pf_sip p \<in> set IMAGE_STREAMS_rs \<Longrightarrow> is_video p"
  by (auto simp: is_video_def pf_sip_def IMAGE_STREAMS_rs_def stream_defs)

text \<open>Each stream that the device offers is served by the first sensor that offers it.\<close>

definition supplied :: "rs_device \<Rightarrow> 'a rs_node_scheme \<Rightarrow> bool" where
  "supplied D s \<longleftrightarrow> (\<forall>i. map_of (rn_sensors s) i = find (offers i) (dv_sensors D))"

text \<open>Before \<open>enable_devices\<close> every stream that is still enabled has a sensor, and no stream has a profile.\<close>

lemma before_enabling:
  assumes "fold_outcome (\<lambda>step. step) (take 6 (first_steps L)) (new_node options junk) = Inr s"
  shows "maps_ok (rs_node.truncate s) \<and> (\<forall>i. servable (rs_node.truncate s) i) \<and> own (rs_node.truncate s) \<and> formats s \<and>
    supplied (la_device L) (rs_node.truncate s)"
proof -
  obtain s1 s2 s3 s4 s5 where s1: "lift_node (getParameters_rs (la_params L)) (new_node options junk) = Inr s1"
    and s2: "lift_node (setupDevice_rs (la_device L)) s1 = Inr s2" and s3: "lift_node setupFilters s2 = Inr s3"
    and s4: "lift_op (registerHDRoptions (la_options L) (la_params L)) s3 = Inr s4"
    and s5: "lift_op (ends (registerDynamicReconfigCb (la_options L) (la_option_params L))) s4 = Inr s5"
    and s: "s = setupErrorCallback (la_device L) s5"
    using assms by (auto simp: first_steps_def and_then_eq_Inr)
  let ?n1 = "rs_node.truncate s1" and ?n2 = "rs_node.truncate s2" and ?n3 = "rs_node.truncate s3"
  have n1: "getParameters_rs (la_params L) (BaseRealSenseNode junk) = Inr ?n1"
    using s1 by (rule lift_node_Inr) (simp add: new_node_base)
  have n2: "setupDevice_rs (la_device L) ?n1 = Inr ?n2" using s2 by (rule lift_node_Inr)
  have n3: "setupFilters ?n2 = Inr ?n3" using s3 by (rule lift_node_Inr)
  note dev = setupDevice_result [OF started_node_fresh [OF n1] n2]
  have empty: "rn_filters ?n2 = []" using dev by simp
  note f3 = setupFilters_Inr [OF n3 empty]
  have f: "rc_enable ?n3 = rc_enable ?n2" "rn_sensors ?n3 = rn_sensors ?n2" "rn_profiles ?n3 = rn_profiles ?n2"
    unfolding f3 by (simp_all add: finish_filters_rest)
  have "formats (rs_node.truncate (new_node options junk))" by (rule new_node_formats)
  then have "formats ?n1" using n1 parameters_formats unfolding new_node_base by blast
  then have "formats ?n2" using setupDevice_fmt [of "la_device L" ?n1] formats_cong [of ?n2 ?n1] by (simp add: n2)
  then have fm: "formats ?n3" by (rule filters_formats [OF n3 empty])
  have maps: "maps_ok ?n3" "\<forall>i. servable ?n3 i" and own: "own ?n3"
    using dev by (simp_all add: maps_ok_def servable_def f enabled_def map_ok_def own_def)
  have "base s4 = base s3"
    using hdr_base [of "la_options L" "la_params L" "rs_op.truncate s3"] s4 lift_op_state [of _ s3]
    by (metis outcome_state.simps(2) base_views(3,4))
  moreover have "base s5 = base s4"
    using reconfig_base [of "la_options L" "la_option_params L" "rs_op.truncate s4"] s5 lift_op_state [of _ s4]
    by (metis outcome_state.simps(2) base_views(3,4))
  moreover have "base s = base s5" by (simp add: s base_def setupErrorCallback_def rs_config.defs)
  ultimately have c: "chosen s = chosen s3" using base_chosen by metis
  have c': "chosen (rs_node.truncate s) = chosen ?n3"
    using c by (simp add: chosen_def rs_node.defs rs_config.defs)
  have same: "maps_ok (rs_node.truncate s) = maps_ok ?n3" "own (rs_node.truncate s) = own ?n3"
    using chosen_cong [OF c'] chosen_cong(1) [OF c] by (simp_all add: maps_ok_def)
  have sup: "supplied (la_device L) ?n3" using dev by (simp add: supplied_def f)
  have "rn_sensors (rs_node.truncate s) = rn_sensors ?n3" by (rule chosen_cong(5) [OF c'])
  then have "supplied (la_device L) (rs_node.truncate s)" using sup by (simp add: supplied_def)
  moreover have "formats s = formats s3" by (rule chosen_cong(2) [OF c])
  moreover have "formats s3 = formats ?n3" by (rule formats_cong) (simp add: fmt_def rs_node.defs)
  moreover have "servable (rs_node.truncate s) i = servable ?n3 i" for i
    by (rule servable_request) (rule chosen_cong(6) [OF c])
  ultimately show ?thesis using maps own fm unfolding same by blast
qed

text \<open>The set-up, its calls one after the other.\<close>

lemma publishTopics_Inr:
  assumes "publishTopics calc L s = Inr t"
  obtains a n b u c where "fold_outcome (\<lambda>step. step) (take 6 (first_steps L)) s = Inr a"
    "enable_devices (rs_node.truncate a) = Inr n" "b = rs_node.extend (setupPublishers_rs (la_junk L) n) (rs_node.more a)"
    "calibrate_streams (la_fp L) (la_calib L) b = Inr u" "lift_node (start_streams (la_device L)) u = Inr c"
    "fold_outcome (\<lambda>step. step) (last_steps calc L) c = Inr t"
proof -
  have split: "first_steps L = take 6 (first_steps L) @
      [lift_node enable_devices, lift_node (\<lambda>s. Inr (setupPublishers_rs (la_junk L) s))]"
    by (simp add: first_steps_def)
  have "fold_outcome (\<lambda>step. step) (take 6 (first_steps L) @ lift_node enable_devices #
      lift_node (\<lambda>s. Inr (setupPublishers_rs (la_junk L) s)) # setupStreams_rs L # last_steps calc L) s = Inr t"
    using assms unfolding publishTopics_def by (subst (asm) split) simp
  then obtain a d b c where a: "fold_outcome (\<lambda>step. step) (take 6 (first_steps L)) s = Inr a"
    and d: "lift_node enable_devices a = Inr d" and b: "lift_node (\<lambda>s. Inr (setupPublishers_rs (la_junk L) s)) d = Inr b"
    and c: "setupStreams_rs L b = Inr c" and t: "fold_outcome (\<lambda>step. step) (last_steps calc L) c = Inr t"
    by (auto simp: fold_outcome_append and_then_eq_Inr)
  obtain u where u: "calibrate_streams (la_fp L) (la_calib L) b = Inr u" "lift_node (start_streams (la_device L)) u = Inr c"
    using c by (auto simp: setupStreams_rs_def and_then_eq_Inr)
  have n: "enable_devices (rs_node.truncate a) = Inr (rs_node.truncate d)" "rs_node.more d = rs_node.more a"
    using d by (auto elim: lift_node_Inr)
  have "b = rs_node.extend (setupPublishers_rs (la_junk L) (rs_node.truncate d)) (rs_node.more a)"
    using b n(2) by (simp add: lift_node_def)
  then show ?thesis using that a n(1) u t by blast
qed

lemma enabled_profile:
  assumes "maps_ok m \<and> (\<forall>i. servable m i) \<and> own m \<and> formats m" "enable_devices m = Inr n"
  shows "own n" "formats n"
    "i \<in> set IMAGE_STREAMS_rs \<Longrightarrow> enabled n i \<Longrightarrow> \<exists>p. map_of (rn_profiles n) i = Some [p] \<and> pf_sip p = i"
proof -
  show own: "own n" using enable_own [of m] assms by simp
  show "formats n" using enable_fmt [of m] formats_cong [of n m] assms by simp
  assume i: "i \<in> set IMAGE_STREAMS_rs" "enabled n i"
  have "\<forall>i \<in> set IMAGE_STREAMS_rs. image_result i m n"
    using enable_devices_result [of m] assms by fastforce
  then have "image_result i m n" using i(1) by blast
  then obtain p where p: "map_of (rn_profiles n) i = Some [p]"
    using i(2) by (auto simp: image_result_def served_def split: option.splits if_splits)
  then have "own_at n i [p]" using own unfolding own_def by blast
  then have "pf_sip p = i" using i(1) hid_not_image [of i] by (auto simp: own_at_def ours_def simp del: split_paired_All)
  then show "\<exists>p. map_of (rn_profiles n) i = Some [p] \<and> pf_sip p = i" using p by blast
qed

text \<open>A frame that the device delivers for a profile: complete, of the size of the profile, with pixels of the stream's format.\<close>

definition delivered :: "rs_config \<Rightarrow> string list \<Rightarrow> profile \<Rightarrow> rs_frame \<Rightarrow> bool" where
  "delivered c fs p f \<longleftrightarrow> fr_kind f \<in> {Depth_Kind, Video_Kind} \<and> int (fr_width f) = pf_width p \<and>
     length (fr_data f) = fr_width f * fr_height f * fr_bpp f \<and> elem_size (rc_image_format c (pf_stream p)) = fr_bpp f \<and>
     (fr_kind f = Depth_Kind \<longrightarrow> pf_stream p = RS2_STREAM_DEPTH \<and> ''colorizer'' \<notin> set fs \<and> 0 < fr_width f)"

lemma delivered_fits:
  fixes t :: rs_up
  assumes "formats t" "own_at (rs_node.truncate t) i [p]" "i \<in> set IMAGE_STREAMS_rs" "pf_sip p = i"
    and "advertised i (rn_publishers t)" "width_of t i = Some (pf_width p)"
    and "delivered (rs_config.truncate t) (rn_filters t) p f"
  shows "fits Plain (rs_fr.truncate t) i f"
proof -
  let ?s = "rs_fr.truncate t"
  have views: "rn_publishers ?s = rn_publishers t" "rt_camera_info ?s = rt_camera_info t" "rn_image ?s = rn_image t"
    "rc_image_format ?s = rc_image_format t" "rc_encoding ?s = rc_encoding t"
    "rn_image (rs_node.truncate t) = rn_image t" "rc_image_format (rs_node.truncate t) = rc_image_format t"
    "rc_image_format (rs_config.truncate t) = rc_image_format t"
    by (simp_all add: rs_fr.defs rs_node.defs rs_config.defs)
  have i: "fst i = pf_stream p" using assms(4) by (auto simp: pf_sip_def)
  have "types ?s Plain i = rc_image_format t (pf_stream p)"
    using assms(2,3) by (simp add: types_def own_at_def views mat_type_def i)
  moreover have "has_pubs Plain ?s i"
    using assms(5) by (force simp: has_pubs_def advertised_def list_ex_iff views)
  moreover have "widths ?s Plain i = Some (pf_width p)" using assms(6) by (simp add: widths_def width_of_def views)
  moreover have "rc_encoding t (pf_stream p) \<noteq> None" using assms(1,3) i unfolding formats_def by metis
  ultimately show ?thesis
    using assms(1,7) by (auto simp: fits_def delivered_def formats_def views i)
qed

lemma up_views:
  "formats (rs_node.extend n m) = formats n" "chosen (rs_node.extend n m) = chosen n"
  "rn_publishers (rs_node.extend n m) = rn_publishers n" "rn_profiles (rs_node.extend n m) = rn_profiles n"
  by (simp_all add: formats_def chosen_def rs_node.defs rs_config.defs)

lemma one_of_stream:
  assumes "own n" "i \<in> set IMAGE_STREAMS_rs" "map_of (rn_profiles n) i = Some [p]"
  shows "p \<in> set (concat (map snd (rn_profiles n)))"
    "\<forall>q \<in> set (concat (map snd (rn_profiles n))). pf_sip q = i \<longrightarrow> pf_width q = pf_width p"
proof -
  show "p \<in> set (concat (map snd (rn_profiles n)))" using map_of_SomeD [OF assms(3)] by force
  have "q = p" if "(j, qs) \<in> set (rn_profiles n)" "q \<in> set qs" "pf_sip q = i" for j qs q
  proof -
    have "distinct (map fst (rn_profiles n))"
      using assms(1) unfolding own_def map_ok_def by (simp add: strict_sorted_iff)
    then have j: "map_of (rn_profiles n) j = Some qs" using that(1) by simp
    then have "own_at n j qs" using assms(1) unfolding own_def by blast
    then have "ours j q" using that(2) by (auto simp: own_at_def list_all_iff)
    then have "j = i" using that(3) image_not_hid_stream [OF assms(2), of j] by (auto simp: ours_def pf_sip_def simp del: split_paired_All)
    then show ?thesis using j assms(3) that(2) by auto
  qed
  then show "\<forall>q \<in> set (concat (map snd (rn_profiles n))). pf_sip q = i \<longrightarrow> pf_width q = pf_width p" by force
qed

lemma launched:
  assumes "publishTopics calc L (new_node options junk) = Inr t"
    and "calc \<in> {calcAndPublishStaticTransform_rs, calcAndPublishStaticTransform_T265}"
    and "\<forall>q k. cb_intrinsics (la_calib L) q = Inr k \<longrightarrow> int (in_width k) = pf_width q"
    and "i \<in> set IMAGE_STREAMS_rs" "enabled t i"
  shows "\<exists>p. map_of (rn_profiles t) i = Some [p] \<and> pf_sip p = i \<and> formats t \<and> own_at (rs_node.truncate t) i [p] \<and>
    advertised i (rn_publishers t) \<and> width_of t i = Some (pf_width p)"
proof -
  obtain a n b u c where a: "fold_outcome (\<lambda>step. step) (take 6 (first_steps L)) (new_node options junk) = Inr a"
    and n: "enable_devices (rs_node.truncate a) = Inr n"
    and b: "b = rs_node.extend (setupPublishers_rs (la_junk L) n) (rs_node.more a)"
    and u: "calibrate_streams (la_fp L) (la_calib L) b = Inr u"
    and c: "lift_node (start_streams (la_device L)) u = Inr c"
    and t: "fold_outcome (\<lambda>step. step) (last_steps calc L) c = Inr t"
    by (rule publishTopics_Inr [OF assms(1)])
  have "formats (rs_node.truncate a) = formats a" by (rule formats_cong) (simp add: fmt_def rs_node.defs)
  then have en: "own n" "formats n" "i \<in> set IMAGE_STREAMS_rs \<Longrightarrow> enabled n i \<Longrightarrow> \<exists>p. map_of (rn_profiles n) i = Some [p] \<and> pf_sip p = i"
    using enabled_profile [OF _ n] before_enabling [OF a] by blast+
  have bn: "chosen b = chosen n" by (simp add: b up_views publishers_chosen)
  have ub: "base u = base b" using calibration_base [of "la_fp L" "la_calib L" b] by (simp add: u)
  have uc: "grown u c"
    using lifted_grown [where f = "start_streams (la_device L)" and s = u] c start_quiet by simp
  have ct: "grown c t" using last_steps_grown [OF assms(2), of c L] by (simp add: t)
  have ut: "grown u t" by (rule grown_trans [OF uc ct])
  have tn: "chosen t = chosen n"
    using ut base_chosen [OF ub] bn by (simp add: grown_def kept_def chosen_def)
  have "enabled n i" using assms(5) chosen_cong(3) [OF tn] by simp
  then obtain p where p: "map_of (rn_profiles n) i = Some [p]" "pf_sip p = i" using en(3) [OF assms(4)] by blast
  have whole: "rs_node.truncate n = n" by (cases n) (simp add: rs_node.defs)
  have f: "formats t"
    using en(2) formats_cong [of t n] tn by (auto simp: fmt_def chosen_def rs_config.defs)
  have "own n" by (rule en(1))
  then have own: "own (rs_node.truncate t)" using chosen_cong(1) [OF tn] unfolding whole by simp
  have rn_truncate: "rn_profiles (rs_node.truncate t) = rn_profiles t" by (simp add: rs_node.defs)
  have prof: "rn_profiles t = rn_profiles n" by (rule chosen_cong(4) [OF tn])
  have "own_at (rs_node.truncate t) i [p]"
    using own p(1) prof unfolding own_def by (metis rn_truncate)
  moreover have "advertised i (rn_publishers t)"
  proof -
    have "advertised i (rn_publishers b)"
      unfolding b up_views by (rule publishers_advertise [OF assms(4) \<open>enabled n i\<close>])
    moreover have "rn_publishers u = rn_publishers b" using ub by (simp add: base_def)
    ultimately show ?thesis using advertised_more ut unfolding grown_def by metis
  qed
  moreover have "width_of t i = Some (pf_width p)"
  proof -
    have "rn_profiles b = rn_profiles n" by (rule chosen_cong(4) [OF bn])
    then have "width_of u i = Some (pf_width p)"
      using calibration_widths [OF u [unfolded calibrate_streams_def] assms(3)]
        one_of_stream [OF en(1) assms(4) p(1)] image_is_video [of p] p(2) assms(4) by metis
    then show ?thesis using ut by (simp add: grown_def kept_def width_of_def)
  qed
  ultimately show ?thesis using p prof f by auto
qed

section \<open>The steps that cannot fail\<close>

lemma supplied_profile:
  assumes "supplied D s" "sn \<in> set (dv_sensors D)" "offers i sn"
  obtains p where "getAProfile s i = Inr p"
proof -
  have "find (offers i) (dv_sensors D) \<noteq> None" using assms(2,3) by (auto simp: find_None_iff)
  then obtain sn' where sn': "map_of (rn_sensors s) i = Some sn'" "offers i sn'"
    using assms(1) unfolding supplied_def by (metis find_Some_iff not_Some_eq)
  then have "find (\<lambda>p. pf_sip p = i) (sn_profiles sn') \<noteq> None" by (auto simp: offers_def find_None_iff)
  then show ?thesis using that sn'(1) by (auto simp: getAProfile_def)
qed

lemma supplied_sensor:
  assumes "supplied D s" "map_of (rn_sensors s) i \<noteq> None"
  obtains p where "getAProfile s i = Inr p"
proof -
  obtain sn where "find (offers i) (dv_sensors D) = Some sn" using assms unfolding supplied_def by (metis not_Some_eq)
  then have "sn \<in> set (dv_sensors D)" "offers i sn" by (auto simp: find_Some_iff)
  then show ?thesis by (rule supplied_profile [OF assms(1)]) (rule that)
qed

text \<open>What the later steps rely on.\<close>

definition live :: "rs_device \<Rightarrow> 'a rs_node_scheme \<Rightarrow> bool" where
  "live D s \<longleftrightarrow> supplied D s \<and> list_all (\<lambda>i. map_of (rn_sensors s) i \<noteq> None) (enabled_streams s @ map fst (rn_profiles s)) \<and>
     list_all (\<lambda>p. \<exists>sn \<in> set (dv_sensors D). p \<in> set (sn_profiles sn)) (concat (map snd (rn_profiles s))) \<and>
     list_all (\<lambda>i. enabled s i \<longrightarrow> (\<exists>p. map_of (rn_profiles s) i = Some [p])) HID_STREAMS"

lemma live_cong:
  assumes "rn_sensors t = rn_sensors s" "rc_enable t = rc_enable s" "rn_profiles t = rn_profiles s"
  shows "live D t = live D s"
  by (simp add: live_def supplied_def enabled_streams_def enabled_def assms)

lemma live_enabled:
  assumes "live D s" "enabled s i"
  shows "map_of (rn_sensors s) i \<noteq> None" "i \<in> set (enabled_streams s)"
proof -
  show i: "i \<in> set (enabled_streams s)"
    using map_of_SomeD assms(2) unfolding enabled_def enabled_streams_def by force
  show "map_of (rn_sensors s) i \<noteq> None" using assms(1) i unfolding live_def list_all_iff by simp
qed

lemma setupDevice_strict:
  assumes "strict_device D" "\<forall>sn \<in> set (dv_sensors D). sn_kind sn \<noteq> Other_Sensor"
  shows "\<exists>t. setupDevice_rs D s = Inr t"
proof -
  have do: "\<exists>t. rs_do D c u = Inr t" if "c = Syncer_Start \<or> (\<exists>x. c = Load_Json x)" for c u
  proof -
    have "allowed c (sensors_after (rn_calls u)) \<noteq> None" using that by auto
    then have "dv_error D (rn_calls u) c = None" using assms(1) by (simp add: strict_device_def)
    then show ?thesis by (simp add: rs_do_def Let_def)
  qed
  have "\<exists>s1. load_json_file D s = Inr s1"
    using do [of _ s] by (auto simp: load_json_file_def split: option.split)
  then obtain s1 where 1: "load_json_file D s = Inr s1" by blast
  let ?u = "s1\<lparr>rn_dev_sensors := dv_sensors D\<rparr>"
  obtain s3 where 3: "(if rc_sync_frames ?u then rs_do D Syncer_Start ?u else Inr ?u) = Inr s3"
    using do [of Syncer_Start ?u] by (cases "rc_sync_frames ?u") auto
  obtain s4 where 4: "fold_outcome setup_sensor (dv_sensors D) s3 = Inr s4"
    using setup_sensors_total [OF assms(2)] by blast
  show ?thesis
    unfolding setupDevice_rs_def 1 and_then_Inr Let_def 3 4 by blast
qed

lemma fold_outcome_returns:
  assumes "\<And>x s. x \<in> set xs \<Longrightarrow> I s \<Longrightarrow> \<exists>t. f x s = Inr t \<and> I t" "I s"
  shows "\<exists>t. fold_outcome f xs s = Inr t \<and> I t"
  using assms
proof (induction xs arbitrary: s)
  case (Cons x xs)
  then obtain u where "f x s = Inr u" "I u" by (meson list.set_intros(1))
  moreover from this Cons obtain t where "fold_outcome f xs u = Inr t" "I t" by (meson list.set_intros(2))
  ultimately show ?case by simp
qed simp

lemma reconfig_total:
  assumes "\<forall>p i. get_enum_method E p i \<noteq> None"
  shows "\<exists>t. ends (registerDynamicReconfigCb E P) s = Inr t"
proof -
  have one: "register_option E P m p i s \<noteq> None" for m p i s
    using spec [OF spec [OF assms, of p], of i] by (auto simp: register_option_def Let_def split: option.split)
  have "\<exists>t. register_options E P m p is s = Some t" for m p "is" s
    by (induction "is" arbitrary: s) (use one in \<open>auto split: option.split\<close>)
  then have two: "\<exists>t. registerDynamicOption E P p m s = Some t" for p m s
    by (auto simp: registerDynamicOption_def split: option.split)
  have "\<exists>t. register_all E P ps s = Some t" for ps s
  proof (induction ps arbitrary: s)
    case (Cons q ps)
    obtain u where "registerDynamicOption E P (fst q) (snd q) s = Some u" using two by blast
    then show ?case using Cons [of u] by (cases q) simp
  qed simp
  then show ?thesis by (auto simp: ends_def registerDynamicReconfigCb_def split: option.split)
qed

section \<open>Calibration and transforms\<close>

text \<open>A calibration without gaps, for the profiles of the device.\<close>

definition calibrated :: "rs_device \<Rightarrow> calib_env \<Rightarrow> bool" where
  "calibrated D C \<longleftrightarrow> (\<forall>p q. \<exists>ex. cb_extrinsics C p q = Inr ex) \<and>
     (\<forall>sn \<in> set (dv_sensors D). \<forall>p \<in> set (sn_profiles sn). is_video p \<longrightarrow> (\<exists>k. cb_intrinsics C p = Inr k)) \<and>
     (\<forall>q k. cb_intrinsics C q = Inr k \<longrightarrow> int (in_width k) = pf_width q)"

lemma live_base: "base t = base s \<Longrightarrow> live D t = live D s"
  by (rule live_cong) (auto simp: base_def rs_config.defs)

lemma set_baseline_total:
  assumes "live D s" "calibrated D C" "sn \<in> set (dv_sensors D)" "offers i sn"
  shows "\<exists>t. set_baseline F C i k s = Inr t"
proof (cases "snd i \<noteq> 2 \<or> \<not> enabled s (fst i, 1)")
  case True
  then show ?thesis by (simp add: set_baseline_def Let_def)
next
  case False
  have sup: "supplied D s" using assms(1) by (simp add: live_def)
  obtain p where p: "getAProfile s i = Inr p" by (rule supplied_profile [OF sup assms(3,4)])
  have "map_of (rn_sensors s) (fst i, 1) \<noteq> None" using False live_enabled(1) [OF assms(1)] by blast
  then obtain p1 where p1: "getAProfile s (fst i, 1) = Inr p1" by (rule supplied_sensor [OF sup])
  obtain ex where "cb_extrinsics C p p1 = Inr ex" using assms(2) unfolding calibrated_def by blast
  then show ?thesis using False p p1 by (simp add: set_baseline_def Let_def)
qed

lemma calibration_total:
  fixes s :: rs_up
  assumes "live D s" "calibrated D C"
  shows "\<exists>t. calibrate_streams F C s = Inr t"
proof -
  let ?ps = "concat (map snd (rn_profiles s))"
  have one: "\<exists>t. (if is_video q then updateStreamCalibData F C q u else Inr u) = Inr t \<and> base t = base s"
    if q: "q \<in> set ?ps" and u: "base u = base s" for q u
  proof (cases "is_video q")
    case True
    obtain sn where sn: "sn \<in> set (dv_sensors D)" "q \<in> set (sn_profiles sn)"
      using assms(1) q unfolding live_def list_all_iff by blast
    obtain k where k: "cb_intrinsics C q = Inr k"
      using assms(2) sn True unfolding calibrated_def by blast
    have "live D (set_intrinsics F (pf_sip q) k u)"
      using assms(1) live_base [OF u] live_base [of "set_intrinsics F (pf_sip q) k u" u] by (simp add: set_intrinsics_def)
    then obtain v where "set_baseline F C (pf_sip q) k (set_intrinsics F (pf_sip q) k u) = Inr v"
      using set_baseline_total [OF _ assms(2) sn(1)] sn(2) unfolding offers_def by blast
    then obtain t where t: "updateStreamCalibData F C q u = Inr t" using k by (auto simp: updateStreamCalibData_def Let_def)
    have "base (outcome_state (updateStreamCalibData F C q u)) = base u" by (rule update_base_calib)
    then show ?thesis using t True u by simp
  qed (use u in simp)
  have "\<exists>t. calibrate_streams F C s = Inr t \<and> base t = base s"
    unfolding calibrate_streams_def by (rule fold_outcome_returns) (rule one, assumption+, rule refl)
  then show ?thesis by blast
qed

lemma stream_extrinsics_total:
  assumes "live D s" "calibrated D C" "map_of (rn_sensors s) i \<noteq> None"
  shows "\<exists>ex. stream_extrinsics C i p s = Inr ex"
proof -
  have "supplied D s" using assms(1) by (simp add: live_def)
  then obtain q where q: "getAProfile s i = Inr q" by (rule supplied_sensor) (rule assms(3))
  obtain ex where "cb_extrinsics C q p = Inr ex" using assms(2) unfolding calibrated_def by blast
  then show ?thesis by (simp add: stream_extrinsics_def q)
qed

lemma look_base: "look t = look s \<Longrightarrow> base t = base s"
  by (simp add: look_def)

lemma transforms_total:
  fixes s :: rs_up
  assumes "live D s" "calibrated D C" "map_of (rn_sensors s) (rn_base_stream s) \<noteq> None"
    and "calc \<in> {calcAndPublishStaticTransform_rs, calcAndPublishStaticTransform_T265}"
  shows "\<exists>t. publishStaticTransforms_rs (calc F C) F C s = Inr t"
proof -
  have "supplied D s" using assms(1) by (simp add: live_def)
  then obtain b where b: "getAProfile s (rn_base_stream s) = Inr b" by (rule supplied_sensor) (rule assms(3))
  let ?I = "\<lambda>u. base u = base s"
  have lv: "live D u" if "?I u" for u :: rs_up using live_base [OF that] assms(1) by simp
  have sens: "map_of (rn_sensors u) i \<noteq> None" if "?I u" "i \<in> set (enabled_streams s)" for i and u :: rs_up
  proof -
    have "rn_sensors u = rn_sensors s" using that(1) by (simp add: base_def)
    then show ?thesis using assms(1) that(2) unfolding live_def list_all_iff by simp
  qed
  have "\<exists>t. calc F C b i u = Inr t \<and> ?I t" if i: "i \<in> set (enabled_streams s)" and u: "?I u" for i u
  proof -
    obtain ex where "stream_extrinsics C i b u = Inr ex"
      using stream_extrinsics_total [OF lv [OF u] assms(2) sens [OF u i]] by blast
    then have "\<exists>t. calc F C b i u = Inr t"
      using assms(4) by (cases "i = POSE_sip")
        (auto simp: calcAndPublishStaticTransform_rs_def calcAndPublishStaticTransform_T265_def Let_def)
    then obtain t where t: "calc F C b i u = Inr t" by blast
    then show ?thesis using look_base [OF calc_look [OF assms(4), of F C b i u]] u by simp
  qed
  then obtain u where u: "fold_outcome (calc F C b) (enabled_streams s) s = Inr u" "?I u"
    using fold_outcome_returns [where I = ?I and xs = "enabled_streams s"] by blast
  have ext: "\<exists>t. publish_extrinsics F C b e v = Inr t \<and> ?I t" if v: "?I v" for e and v :: rs_up
  proof (cases "enabled v DEPTH_sip \<and> enabled v (fst e)")
    case True
    have "supplied D v" using lv [OF v] by (simp add: live_def)
    then obtain p where "getAProfile v (fst e) = Inr p"
      by (rule supplied_sensor) (use live_enabled(1) [OF lv [OF v]] True in blast)
    moreover obtain ex where "cb_extrinsics C b p = Inr ex" using assms(2) unfolding calibrated_def by blast
    ultimately show ?thesis using v by (simp add: publish_extrinsics_def Let_def)
  qed (use v in \<open>auto simp: publish_extrinsics_def Let_def\<close>)
  have "\<exists>t. fold_outcome (publish_extrinsics F C b) extrinsics_topics v = Inr t \<and> ?I t" if "?I v" for v :: rs_up
    by (rule fold_outcome_returns) (rule ext, assumption, rule that)
  moreover have "?I (send_transforms u)"
    using u(2) by (simp add: send_transforms_def base_def rs_config.defs)
  moreover have "\<exists>t. fold_outcome (publish_extrinsics F C b) extrinsics_topics s = Inr t \<and> ?I t"
    by (rule fold_outcome_returns) (rule ext, assumption, rule refl)
  ultimately show ?thesis using b u(1) by (cases "rc_publish_tf s") (auto simp: publishStaticTransforms_rs_def)
qed

section \<open>The streams after \<open>enable_devices\<close>\<close>

text \<open>\<open>enable_devices\<close> only switches streams off.\<close>

definition narrowed :: "rs_node \<Rightarrow> rs_node \<Rightarrow> bool" where
  "narrowed m u \<longleftrightarrow> map_ok (rc_enable u) \<and> rn_sensors u = rn_sensors m \<and> (\<forall>i. enabled u i \<longrightarrow> enabled m i)"

lemma narrowed_off: "narrowed m u \<Longrightarrow> narrowed m (set_enable i False u)"
  by (auto simp: narrowed_def set_enable_def enabled_def map_of_put map_ok_put split: if_splits)

lemma narrowed_cong: "rc_enable t = rc_enable u \<Longrightarrow> rn_sensors t = rn_sensors u \<Longrightarrow> narrowed m t = narrowed m u"
  by (simp add: narrowed_def enabled_def)

lemma enable_narrowed:
  assumes "map_ok (rc_enable m)"
  shows "narrowed m (outcome_state (enable_devices m))"
proof -
  have img: "narrowed m (outcome_state (enable_image_stream i u))" and hid: "narrowed m (outcome_state (enable_hid_stream i u))"
    if u: "narrowed m u" for i u
  proof -
    have push: "narrowed m (push_profile i p v) = narrowed m v" for p v by (rule narrowed_cong) (simp_all add: push_profile_def)
    have use: "narrowed m (use_image_profile i p v) = narrowed m v" for p v
      by (rule narrowed_cong) (simp_all add: use_image_profile_def push_profile_def Let_def)
    have fps: "narrowed m (v\<lparr>rc_fps := x\<rparr>) = narrowed m v" for v x by (rule narrowed_cong) simp_all
    show "narrowed m (outcome_state (enable_image_stream i u))" "narrowed m (outcome_state (enable_hid_stream i u))"
      using u narrowed_off [OF u, of i]
      by (simp_all add: enable_image_stream_def enable_hid_stream_def push use fps split: option.split)
  qed
  have al: "narrowed m (aligned_images u) = narrowed m u" for u
    by (rule narrowed_cong) (simp_all add: aligned_images_def Let_def)
  have "narrowed m m" using assms by (simp add: narrowed_def)
  then have 1: "narrowed m (outcome_state (fold_outcome enable_image_stream IMAGE_STREAMS_rs m))"
    using fold_outcome_invariant [where I = "narrowed m" and f = enable_image_stream] img by blast
  have 2: "narrowed m (outcome_state (fold_outcome enable_hid_stream HID_STREAMS u))" if "narrowed m u" for u
    by (rule fold_outcome_invariant [where I = "narrowed m"]) (use that hid in auto)
  show ?thesis
    using 1 2 al by (cases "fold_outcome enable_image_stream IMAGE_STREAMS_rs m") (auto simp: enable_devices_def)
qed

lemma profile_origin:
  assumes m: "maps_ok m \<and> (\<forall>i. servable m i) \<and> own m \<and> formats m" and n: "enable_devices m = Inr n"
    and i: "map_of (rn_profiles n) i = Some ps"
  shows "\<exists>sn p. map_of (rn_sensors m) i = Some sn \<and> p \<in> set (sn_profiles sn) \<and> ps = [p]"
proof -
  have "own_at n i ps" using enabled_profile(1) [OF m n] i unfolding own_def by blast
  then have "i \<in> set IMAGE_STREAMS_rs \<or> i \<in> set HID_STREAMS" by (cases ps) (auto simp: own_at_def ours_def)
  moreover have r: "\<forall>i \<in> set IMAGE_STREAMS_rs. image_result i m n" "\<forall>i \<in> set HID_STREAMS. hid_result i m n"
    using enable_devices_result [of m] m n by fastforce+
  ultimately have "served n i (if enabled m i then image_choice m i else None) \<or>
      served n i (if enabled m i then hid_choice m i else None)"
    unfolding image_result_def hid_result_def by blast
  then obtain p where "ps = [p]" "image_choice m i = Some p \<or> hid_choice m i = Some p"
    using i by (auto simp: served_def split: option.splits if_splits)
  then show ?thesis
    using best_profile_mem by (fastforce simp: image_choice_def hid_choice_def split: option.splits)
qed

lemma enable_live:
  assumes m: "maps_ok m \<and> (\<forall>i. servable m i) \<and> own m \<and> formats m" and sup: "supplied D m"
    and n: "enable_devices m = Inr n"
  shows "live D n"
proof -
  have nar: "narrowed m n" using enable_narrowed [of m] m n by (simp add: maps_ok_def)
  then have sens: "rn_sensors n = rn_sensors m" by (simp add: narrowed_def)
  have "enabled n i" if "i \<in> set (enabled_streams n)" for i
  proof -
    have "distinct (map fst (rc_enable n))" using nar unfolding narrowed_def map_ok_def by (simp add: strict_sorted_iff)
    then show ?thesis using that by (auto simp: enabled_streams_def enabled_def)
  qed
  then have on: "map_of (rn_sensors n) i \<noteq> None" if "i \<in> set (enabled_streams n)" for i
    using nar m that unfolding narrowed_def servable_def by metis
  have dist: "map_of (rn_profiles n) (fst e) = Some (snd e)" if "e \<in> set (rn_profiles n)" for e
  proof -
    have "distinct (map fst (rn_profiles n))"
      using enabled_profile(1) [OF m n] unfolding own_def map_ok_def by (simp add: strict_sorted_iff)
    then show ?thesis using that by (cases e) simp
  qed
  have "\<exists>sn p. map_of (rn_sensors n) (fst e) = Some sn \<and> sn \<in> set (dv_sensors D) \<and> p \<in> set (sn_profiles sn) \<and> snd e = [p]"
    if e: "e \<in> set (rn_profiles n)" for e
  proof -
    obtain sn p where sn: "map_of (rn_sensors m) (fst e) = Some sn" "p \<in> set (sn_profiles sn)" "snd e = [p]"
      using profile_origin [OF m n dist [OF e]] by blast
    have "find (offers (fst e)) (dv_sensors D) = Some sn"
      using spec [OF sup [unfolded supplied_def], of "fst e"] sn(1) by simp
    then have "sn \<in> set (dv_sensors D)" by (auto simp: find_Some_iff)
    then show ?thesis unfolding sens using sn by blast
  qed
  then have "list_all (\<lambda>i. map_of (rn_sensors n) i \<noteq> None) (map fst (rn_profiles n))"
    "list_all (\<lambda>p. \<exists>sn \<in> set (dv_sensors D). p \<in> set (sn_profiles sn)) (concat (map snd (rn_profiles n)))"
    by (fastforce simp: list_all_iff)+
  moreover have "list_all (\<lambda>i. enabled n i \<longrightarrow> (\<exists>p. map_of (rn_profiles n) i = Some [p])) HID_STREAMS"
  proof -
    have "\<forall>i \<in> set HID_STREAMS. hid_result i m n" using enable_devices_result [of m] m n by fastforce
    then show ?thesis
      unfolding hid_result_def list_all_iff by (auto simp: served_def split: option.splits if_splits simp del: split_paired_All)
  qed
  moreover have "supplied D n" using sup sens by (simp add: supplied_def)
  moreover have "list_all (\<lambda>i. map_of (rn_sensors n) i \<noteq> None) (enabled_streams n)"
    unfolding list_all_iff using on by blast
  ultimately show ?thesis unfolding live_def list_all_append by blast
qed

section \<open>A node that comes up\<close>

text \<open>
  Parameters, device, options and calibration that fit together: the texture stream and the filters have known names (HDR
  merging aside), the device offers depth or a pose, the descriptions of the options can be read, and the
  calibration has no gaps.
\<close>

definition launch_ok :: "launch \<Rightarrow> bool" where
  "launch_ok L \<longleftrightarrow> strict_device (la_device L) \<and> named_apart (la_device L) \<and> calibrated (la_device L) (la_calib L) \<and>
     (\<exists>st. rs2_string_to_stream (p_str (la_params L) ''pointcloud_texture_stream'' ''RS2_STREAM_COLOR'') = Inr st) \<and>
     set (filter_names (p_str (la_params L) ''filters'' '''')) \<subseteq> known_filters - {''hdr_merge''} \<and>
     list_all (\<lambda>sn. sn_kind sn \<noteq> Other_Sensor) (dv_sensors (la_device L)) \<and>
     list_ex (\<lambda>sn. offers DEPTH_sip sn \<or> offers POSE_sip sn) (dv_sensors (la_device L)) \<and>
     (\<forall>p i. get_enum_method (la_options L) p i \<noteq> None)"

lemma filters_without_hdr:
  assumes "setupFilters s = Inr t" "rn_filters s = []" "''hdr_merge'' \<notin> set (filter_names (rc_filters_str s))"
  shows "''hdr_merge'' \<notin> set (rn_filters t)"
  unfolding setupFilters_Inr [OF assms(1,2)] using assms(3)
  by (simp add: finish_filters_fields filter_chain_def user_filters_def)

lemma first_steps_total:
  assumes "launch_ok L"
  shows "\<exists>a. fold_outcome (\<lambda>step. step) (take 6 (first_steps L)) (new_node options junk) = Inr a"
proof -
  let ?P = "la_params L" and ?D = "la_device L"
  have ok: "strict_device ?D" "\<forall>sn \<in> set (dv_sensors ?D). sn_kind sn \<noteq> Other_Sensor"
    "\<exists>st. rs2_string_to_stream (p_str ?P ''pointcloud_texture_stream'' ''RS2_STREAM_COLOR'') = Inr st"
    "set (filter_names (p_str ?P ''filters'' '''')) \<subseteq> known_filters - {''hdr_merge''}"
    "\<forall>p i. get_enum_method (la_options L) p i \<noteq> None"
    using assms unfolding launch_ok_def list_all_iff by blast+
  obtain n1 where n1: "getParameters_rs ?P (BaseRealSenseNode junk) = Inr n1"
    using ok(3) by (auto simp: getParameters_rs_def read_pointcloud_def Let_def)
  obtain n2 where n2: "setupDevice_rs ?D n1 = Inr n2" using setupDevice_strict [OF ok(1,2)] by blast
  have empty: "rn_filters n2 = []" using setupDevice_result [OF started_node_fresh [OF n1] n2] by simp
  have "DEPTH_sip \<in> set IMAGE_STREAMS_rs" by (simp add: IMAGE_STREAMS_rs_def)
  then have str: "rc_filters_str n2 = p_str ?P ''filters'' ''''"
    using setupDevice_sizes [OF n2] getParameters_sizes [OF n1] by (simp add: sizes_def)
  have known: "set (map (filter (\<lambda>c. \<not> isspace c)) (split_at (CHR '','') (rc_filters_str n2))) \<subseteq> known_filters"
    using ok(4) str unfolding filter_names_def by auto
  then have "\<exists>n3. setupFilters n2 = Inr n3"
    using read_filters_known [OF known, of no_flags n2] by (simp add: setupFilters_def)
  then obtain n3 where n3: "setupFilters n2 = Inr n3" by blast
  have hdr: "''hdr_merge'' \<notin> set (rn_filters n3)"
    by (rule filters_without_hdr [OF n3 empty]) (use ok(4) str in auto)
  define s3 where "s3 = rs_node.extend n3 (rs_node.more (new_node options junk))"
  have "rn_filters (rs_op.truncate s3) = rn_filters n3" by (simp add: s3_def rs_op.defs rs_node.defs)
  then have s4: "lift_op (registerHDRoptions (la_options L) ?P) s3 = Inr s3"
    using hdr by (cases s3) (simp add: lift_op_def registerHDRoptions_def rs_op.defs)
  obtain t where t: "ends (registerDynamicReconfigCb (la_options L) (la_option_params L)) (rs_op.truncate s3) = Inr t"
    using reconfig_total [OF ok(5)] by blast
  have w: "rs_node.truncate (rs_node.extend n m) = n" "rs_node.extend n (rs_node.more (rs_node.extend n' m)) = rs_node.extend n m"
    for n n' :: rs_node and m by (simp_all add: rs_node.defs)
  show ?thesis
    using n1 n2 n3 s4 t
    by (simp add: first_steps_def lift_node_def new_node_base w s3_def lift_op_def)
qed

text \<open>The steps after the streams have started.\<close>

definition anchored :: "rs_device \<Rightarrow> 'a rs_node_scheme \<Rightarrow> bool" where
  "anchored D s \<longleftrightarrow> live D s \<and> map_of (rn_sensors s) (rn_base_stream s) \<noteq> None"

lemma anchored_cong:
  assumes "rn_sensors t = rn_sensors s" "rc_enable t = rc_enable s" "rn_profiles t = rn_profiles s"
    "rn_base_stream t = rn_base_stream s"
  shows "anchored D t = anchored D s"
  using live_cong [OF assms(1-3)] assms by (simp add: anchored_def)

lemma base_stream_anchors:
  fixes s :: rs_up
  assumes "live D s" "list_ex (\<lambda>sn. offers DEPTH_sip sn \<or> offers POSE_sip sn) (dv_sensors D)"
  shows "\<exists>t. lift_node SetBaseStream s = Inr t \<and> anchored D t"
proof -
  let ?n = "rs_node.truncate s"
  have sup: "supplied D s" using assms(1) by (simp add: live_def)
  have "map_of (rn_sensors s) DEPTH_sip \<noteq> None \<or> map_of (rn_sensors s) POSE_sip \<noteq> None"
  proof -
    have "find (offers DEPTH_sip) (dv_sensors D) \<noteq> None \<or> find (offers POSE_sip) (dv_sensors D) \<noteq> None"
      using assms(2) by (auto simp: find_None_iff list_ex_iff)
    then show ?thesis using sup unfolding supplied_def by metis
  qed
  then obtain i where i: "find_base [DEPTH_sip, POSE_sip] (rn_sensors s) = Some i" "map_of (rn_sensors s) i \<noteq> None"
    by (cases "map_of (rn_sensors s) DEPTH_sip = None") auto
  have "rn_sensors ?n = rn_sensors s" by (simp add: rs_node.defs)
  then have "lift_node SetBaseStream s = Inr (rs_node.extend (?n\<lparr>rn_base_stream := i\<rparr>) (rs_node.more s))"
    using i(1) by (simp add: lift_node_def SetBaseStream_def)
  moreover have "anchored D (rs_node.extend (?n\<lparr>rn_base_stream := i\<rparr>) (rs_node.more s))"
  proof -
    have "live D (rs_node.extend (?n\<lparr>rn_base_stream := i\<rparr>) (rs_node.more s)) = live D s"
      by (rule live_cong) (simp_all add: rs_node.defs)
    then show ?thesis using assms(1) i(2) by (simp add: anchored_def rs_node.defs)
  qed
  ultimately show ?thesis by blast
qed

lemma roi_total:
  fixes s :: rs_up
  assumes "anchored D s"
  shows "\<exists>t. lift_op (registerAutoExposureROIOptions P) s = Inr t \<and> anchored D t"
proof -
  define v where "v = (\<lambda>s :: rs_op. (rn_sensors s, rc_enable s, rn_profiles s, rn_base_stream s))"
  let ?o = "rs_op.truncate s"
  have reg: "v (register_roi P i sn u) = v u" for i sn u
    by (simp add: v_def register_roi_def readAndSetDynamicParam_def register_var_def Let_def)
  have keys: "map_of (rn_sensors ?o) (fst e) \<noteq> None" if "e \<in> set (rn_profiles ?o)" for e
  proof -
    have "fst e \<in> set (map fst (rn_profiles s))" using that by (simp add: rs_op.defs)
    then have "map_of (rn_sensors s) (fst e) \<noteq> None"
      using assms unfolding anchored_def live_def list_all_iff by (metis Un_iff set_append)
    then show ?thesis by (simp add: rs_op.defs)
  qed
  have "\<exists>t. roi_stream P e u = Inr t \<and> v t = v ?o" if e: "e \<in> set (rn_profiles ?o)" and u: "v u = v ?o" for e u
  proof -
    have "map_of (rn_sensors u) (fst e) \<noteq> None" using keys [OF e] u by (simp add: v_def)
    then show ?thesis using reg [of "fst e" _ u] u by (auto simp: roi_stream_def)
  qed
  then obtain t where t: "registerAutoExposureROIOptions P ?o = Inr t" "v t = v ?o"
    using fold_outcome_returns [where I = "\<lambda>u. v u = v ?o" and f = "roi_stream P"]
    unfolding registerAutoExposureROIOptions_def by blast
  have "anchored D (rs_op.extend t (rs_op.more s)) = anchored D s"
    by (rule anchored_cong) (use t(2) in \<open>simp_all add: v_def rs_op.defs\<close>)
  then show ?thesis using t(1) assms by (auto simp: lift_op_def)
qed

lemma intrinsics_total:
  fixes s :: rs_up
  assumes "live D s"
  shows "\<exists>t. publishIntrinsics F C s = Inr t"
proof -
  have one: "\<exists>t. publish_imu_info F C i u = Inr t \<and> live D t" if i: "i \<in> set HID_STREAMS" and u: "live D u" for i and u :: rs_up
  proof (cases "enabled u i")
    case True
    then obtain p where p: "map_of (rn_profiles u) i = Some [p]" using u i unfolding live_def list_all_iff by blast
    have "live D (u\<lparr>rn_publishers := x, rt_imu_infos := y\<rparr>) = live D u" for x y by (rule live_cong) simp_all
    then show ?thesis using True p u by (auto simp: publish_imu_info_def getImuInfo_def Let_def)
  qed (use u in \<open>simp add: publish_imu_info_def\<close>)
  obtain u where u: "publish_imu_info F C GYRO_sip s = Inr u" "live D u"
    using one [OF _ assms, of GYRO_sip] by (auto simp: HID_STREAMS_def)
  have "\<exists>t. publish_imu_info F C ACCEL_sip u = Inr t"
    using one [OF _ u(2), of ACCEL_sip] by (auto simp: HID_STREAMS_def)
  then show ?thesis using u(1) by (simp add: publishIntrinsics_def)
qed

lemma last_steps_total:
  assumes "live (la_device L) c" "launch_ok L"
    and "calc \<in> {calcAndPublishStaticTransform_rs, calcAndPublishStaticTransform_T265}"
  shows "\<exists>t. fold_outcome (\<lambda>step. step) (last_steps calc L) c = Inr t"
proof -
  let ?D = "la_device L"
  have ok: "list_ex (\<lambda>sn. offers DEPTH_sip sn \<or> offers POSE_sip sn) (dv_sensors ?D)" "calibrated ?D (la_calib L)"
    using assms(2) unfolding launch_ok_def by blast+
  obtain c1 where c1: "lift_node SetBaseStream c = Inr c1" "anchored ?D c1" using base_stream_anchors [OF assms(1) ok(1)] by blast
  obtain c2 where c2: "lift_op (registerAutoExposureROIOptions (la_params L)) c1 = Inr c2" "anchored ?D c2"
    using roi_total [OF c1(2)] by blast
  then have lv: "live ?D c2" and b: "map_of (rn_sensors c2) (rn_base_stream c2) \<noteq> None"
    unfolding anchored_def by blast+
  obtain c3 where c3: "publishStaticTransforms_rs (calc (la_fp L) (la_calib L)) (la_fp L) (la_calib L) c2 = Inr c3"
    using transforms_total [OF lv ok(2) b assms(3)] by blast
  have "base c3 = base c2"
    using look_base [OF transforms_look [OF assms(3), of "la_fp L" "la_calib L" c2]] by (simp add: c3)
  then have "live ?D c3" using live_base lv by blast
  then obtain c4 where "publishIntrinsics (la_fp L) (la_calib L) c3 = Inr c4" using intrinsics_total by blast
  then show ?thesis using c1(1) c2(1) c3 by (simp add: last_steps_def)
qed

lemma more_extend: "rs_node.more (rs_node.extend n m) = m"
  by (simp add: rs_node.defs)

lemma set_up_succeeds:
  assumes "launch_ok L" "calc \<in> {calcAndPublishStaticTransform_rs, calcAndPublishStaticTransform_T265}"
  shows "\<exists>t. publishTopics calc L (new_node options junk) = Inr t"
proof -
  let ?D = "la_device L"
  have ok: "strict_device ?D" "named_apart ?D" "calibrated ?D (la_calib L)"
    using assms(1) unfolding launch_ok_def by blast+
  obtain a where a: "fold_outcome (\<lambda>step. step) (take 6 (first_steps L)) (new_node options junk) = Inr a"
    using first_steps_total [OF assms(1)] by blast
  let ?m = "rs_node.truncate a"
  have "formats ?m = formats a" by (rule formats_cong) (simp add: fmt_def rs_node.defs)
  then have m: "maps_ok ?m \<and> (\<forall>i. servable ?m i) \<and> own ?m \<and> formats ?m" and sup: "supplied ?D ?m"
    using before_enabling [OF a] by blast+
  obtain n where n: "enable_devices ?m = Inr n" using enable_devices_result [of ?m] m by blast
  define b where "b = rs_node.extend (setupPublishers_rs (la_junk L) n) (rs_node.more a)"
  have split: "first_steps L = take 6 (first_steps L) @
      [lift_node enable_devices, lift_node (\<lambda>s. Inr (setupPublishers_rs (la_junk L) s))]"
    by (simp add: first_steps_def)
  have fb: "fold_outcome (\<lambda>step. step) (first_steps L) (new_node options junk) = Inr b"
    by (subst split) (use a n in \<open>simp add: fold_outcome_append lift_node_def b_def more_extend\<close>)
  have "chosen b = chosen n" by (simp add: b_def up_views publishers_chosen)
  then have "live ?D b = live ?D n" by (intro live_cong) (auto simp: chosen_def rs_config.defs)
  then have lb: "live ?D b" using enable_live [OF m sup n] by simp
  obtain u where u: "calibrate_streams (la_fp L) (la_calib L) b = Inr u" using calibration_total [OF lb ok(3)] by blast
  have "plugged ?D (rs_node.truncate b)"
    using first_steps_connected [OF new_node_early, of L options junk] by (simp add: fb)
  moreover have "wires (rs_node.truncate u) = wires (rs_node.truncate b)"
    using base_wiring [OF calibration_base [of "la_fp L" "la_calib L" b]] u by simp
  ultimately have "plugged ?D (rs_node.truncate u)" using plugged_wires by blast
  then have off: "running False (rs_node.truncate u)" by (rule plugged_running) (rule ok(2))
  obtain r where r: "start_streams ?D (rs_node.truncate u) = Inr r"
    by (rule start_from_closed [OF ok(1), of "rs_node.truncate u"]) (use off in \<open>simp_all add: running_def\<close>)
  define c where "c = rs_node.extend r (rs_node.more u)"
  have c: "setupStreams_rs L b = Inr c" using u r by (simp add: setupStreams_rs_def lift_node_def c_def)
  have "quiet r = quiet (rs_node.truncate u)" using start_quiet [of ?D "rs_node.truncate u"] by (simp add: r)
  then have "quiet c = quiet u" by (simp add: c_def)
  then have "live ?D c = live ?D u" by (intro live_cong) (auto simp: quiet_def rs_config.defs)
  moreover have "live ?D u = live ?D b" using live_base calibration_base [of "la_fp L" "la_calib L" b] u by simp
  ultimately have "live ?D c" using lb by simp
  then obtain t where "fold_outcome (\<lambda>step. step) (last_steps calc L) c = Inr t"
    using last_steps_total [OF _ assms] by blast
  then show ?thesis using fb c by (simp add: publishTopics_def fold_outcome_append)
qed

lemma launched_stream:
  assumes "publishTopics calc L (new_node options junk) = Inr t"
    and "calc \<in> {calcAndPublishStaticTransform_rs, calcAndPublishStaticTransform_T265}"
    and "strict_device (la_device L)" "named_apart (la_device L)"
    and "\<forall>q k. cb_intrinsics (la_calib L) q = Inr k \<longrightarrow> int (in_width k) = pf_width q"
    and "i \<in> set IMAGE_STREAMS_rs" "enabled t i"
  shows "\<exists>p. map_of (rn_profiles t) i = Some [p] \<and> pf_sip p = i \<and>
    sensors_now (rs_node.truncate t) (sn_id (used_sensor (rs_node.truncate t) i)) = Streaming \<and>
    (\<forall>f. delivered (rs_config.truncate t) (rn_filters t) p f \<longrightarrow> fits Plain (rs_fr.truncate t) i f)"
proof -
  let ?n = "rs_node.truncate t"
  obtain p where p: "map_of (rn_profiles t) i = Some [p]" "pf_sip p = i" "formats t" "own_at ?n i [p]"
    "advertised i (rn_publishers t)" "width_of t i = Some (pf_width p)"
    using launched [OF assms(1,2,5,6,7)] by blast
  have "rn_profiles ?n = rn_profiles t" by (simp add: rs_node.defs)
  then have "used_sensor ?n i \<in> set (used ?n)"
    using map_of_SomeD [OF p(1)] unfolding used_def by force
  then have "sensors_now ?n (sn_id (used_sensor ?n i)) = Streaming"
    using set_up_running [OF assms(3,4,2), of options junk] assms(1)
    by (simp add: running_def streaming_def module_ids_def)
  then show ?thesis using p assms(6) delivered_fits by blast
qed


definition sized_calib :: calib_env where
  "sized_calib = demo_calib\<lparr>cb_intrinsics :=
     (\<lambda>q. if pf_width q < 0 then Inl ''none'' else Inr (demo_intrinsics\<lparr>in_width := nat (pf_width q)\<rparr>))\<rparr>"

definition live_launch :: launch where
  "live_launch = demo_launch\<lparr>la_calib := sized_calib\<rparr>"

lemma live_launch_ok: "launch_ok live_launch"
proof -
  have "get_enum_method one_option p i \<noteq> None" for p i
    using enum_option_cases [of one_option p i] by simp
  moreover have "calibrated strict_demo sized_calib"
    by (auto simp: calibrated_def sized_calib_def demo_calib_def strict_demo_def demo_device_def demo_profile_def)
  moreover have "set (filter_names '''') \<subseteq> known_filters - {''hdr_merge''}" by (simp add: filter_names_def known_filters_def)
  moreover have "rs2_string_to_stream ''RS2_STREAM_COLOR'' = Inr RS2_STREAM_COLOR" by (simp add: rs2_string_to_stream_def)
  moreover have "list_all (\<lambda>sn. sn_kind sn \<noteq> Other_Sensor) (dv_sensors strict_demo)"
    "list_ex (\<lambda>sn. offers DEPTH_sip sn \<or> offers POSE_sip sn) (dv_sensors strict_demo)"
    by (simp_all add: strict_demo_def demo_device_def offers_def pf_sip_def demo_profile_def stream_defs)
  moreover have l: "la_device live_launch = strict_demo" "la_calib live_launch = sized_calib" "la_options live_launch = one_option"
    "p_str (la_params live_launch) n d = d" for n d
    by (simp_all add: live_launch_def demo_launch_def)
  ultimately show ?thesis using strict_demo_ok unfolding launch_ok_def l by blast
qed


end
