(* ===== verification/Rs_Factory.thy ===== *)
theory Rs_Factory
  imports Prelude
begin

text \<open>
  \<open>RealSenseNodeFactory\<close> (\<open>realsense_node_factory.cpp\<close>): finding the requested camera, resetting it,
  creating the node for its product, and losing it again.
\<close>

section \<open>Versions and ports\<close>

definition api_version_to_string :: "nat \<Rightarrow> string" where
  "api_version_to_string version =
     (if version div 10000 = 0 then show_nat version
      else show_nat (version div 10000) @ ''.'' @ show_nat ((version mod 10000) div 100) @ ''.'' @
        show_nat (version mod 100))"

text \<open>
  The regular expressions of \<open>parse_usb_port\<close> as the matcher explores them: \<open>runs p s\<close> are the ways in
  which a greedy \<open>[p]*\<close> can match a prefix, longest first; the first complete match counts.
\<close>

fun runs :: "(char \<Rightarrow> bool) \<Rightarrow> string \<Rightarrow> (string \<times> string) list" where
  "runs p [] = [([], [])]"
| "runs p (c # cs) = (if p c then map (\<lambda>(a, b). (c # a, b)) (runs p cs) @ [([], c # cs)] else [([], c # cs)])"

definition runs1 :: "(char \<Rightarrow> bool) \<Rightarrow> string \<Rightarrow> (string \<times> string) list" where
  "runs1 p s = filter (\<lambda>(a, b). a \<noteq> []) (runs p s)"

definition strip :: "string \<Rightarrow> string \<Rightarrow> string list" where
  "strip pre s = (if take (length pre) s = pre then [drop (length pre) s] else [])"

definition port_digit :: "char \<Rightarrow> bool" where
  "port_digit c \<longleftrightarrow> 48 \<le> (of_char c :: nat) \<and> (of_char c :: nat) \<le> 57"

definition port_char :: "char \<Rightarrow> bool" where
  "port_char c \<longleftrightarrow> port_digit c \<or> c = CHR ''.'' \<or> c = CHR ''-''"

definition not_space :: "char \<Rightarrow> bool" where
  "not_space c \<longleftrightarrow> c \<noteq> CHR '' ''"

text \<open>\<open>(?:[^ ]+/usb[0-9]+[0-9./-]*/){0,1}\<close>: what is left of the string, the group tried first.\<close>

definition usb_prefix :: "string \<Rightarrow> string list" where
  "usb_prefix line =
     concat (map (\<lambda>(_, r). concat (map (\<lambda>r1. concat (map (\<lambda>(_, r2).
       concat (map (\<lambda>(_, r3). strip ''/'' r3) (runs (\<lambda>c. port_char c \<or> c = CHR ''/'') r2)))
         (runs1 port_digit r1))) (strip ''/usb'' r))) (runs1 not_space line)) @ [line]"

text \<open>\<open>([0-9.-]+)(:){0,1}[^ ]*\<close>: the port, whether a colon follows, to the end of the line.\<close>

definition port_matches :: "string \<Rightarrow> (string \<times> bool) list" where
  "port_matches line =
     concat (map (\<lambda>r. concat (map (\<lambda>(port, r').
       map (\<lambda>(colon, _). (port, colon))
         (filter (\<lambda>(_, r''). list_all not_space r'')
           (map (\<lambda>r''. (True, r'')) (strip '':'' r') @ [(False, r')])))
       (runs1 port_char r))) (usb_prefix line))"

text \<open>\<open>.+(-[0-9]+$)\<close>: the greedy \<open>.+\<close> leaves the last such suffix; it is removed.\<close>

definition counter_matches :: "string \<Rightarrow> string list" where
  "counter_matches port =
     concat (map (\<lambda>(a, r). concat (map (\<lambda>r1. map (\<lambda>_. a)
       (filter (\<lambda>(_, r2). r2 = []) (runs1 port_digit r1))) (strip ''-'' r)))
       (runs1 (\<lambda>_. True) port))"

definition parse_usb_port :: "string \<Rightarrow> string" where
  "parse_usb_port line =
     (case port_matches line of
        [] \<Rightarrow> []
      | (port, colon) # _ \<Rightarrow>
          if colon then port else (case counter_matches port of [] \<Rightarrow> port | a # _ \<Rightarrow> a))"

section \<open>Product identifiers\<close>

fun hex_digit :: "char \<Rightarrow> nat option" where
  "hex_digit c = (let n = of_char c :: nat in
     if 48 \<le> n \<and> n \<le> 57 then Some (n - 48)
     else if 65 \<le> n \<and> n \<le> 70 then Some (n - 55)
     else if 97 \<le> n \<and> n \<le> 102 then Some (n - 87) else None)"

text \<open>
  \<open>std::stoi(s, 0, 16)\<close> on a product id, which has no blank or sign in front: an optional \<open>0x\<close>, then the
  longest prefix of digits; no digit, or a value beyond \<open>int\<close>, is an exception.
\<close>

fun hex_prefix :: "string \<Rightarrow> nat \<Rightarrow> nat" where
  "hex_prefix [] acc = acc"
| "hex_prefix (c # cs) acc = (case hex_digit c of None \<Rightarrow> acc | Some d \<Rightarrow> hex_prefix cs (16 * acc + d))"

fun skip_0x :: "string \<Rightarrow> string" where
  "skip_0x (a # b # c # cs) =
     (if a = CHR ''0'' \<and> (b = CHR ''x'' \<or> b = CHR ''X'') \<and> hex_digit c \<noteq> None then c # cs else a # b # c # cs)"
| "skip_0x s = s"

definition stoi16 :: "string \<Rightarrow> nat option" where
  "stoi16 s = (case skip_0x s of
     [] \<Rightarrow> None
   | c # cs \<Rightarrow>
       if hex_digit c = None then None
       else let n = hex_prefix (c # cs) 0 in if n < 2 ^ 31 then Some n else None)"

definition RS_T265_PID :: nat where "RS_T265_PID = 0x0b37"

text \<open>The cases of the switch in \<open>StartDevice\<close> that create a \<open>BaseRealSenseNode\<close>.\<close>

definition base_pids :: "nat list" where
  "base_pids = [0x0aa5, 0x0B48, 0x0ad1, 0x0B5B, 0x0ad2, 0x0b03, 0x0ad3, 0x0af6, 0x0afe, 0x1155, 0x0ad4,
     0x0ad5, 0x0b01, 0x0b07, 0x0B3A, 0x0B5C, 0x0b4d, 0x0ad6, 0x0B3D, 0x0B64, 0x0b68]"

section \<open>State\<close>

record camera =
  cm_serial :: string
  cm_port :: string
  cm_name :: string
  cm_pid :: string

datatype node_kind = Base_Node | T265_Node

datatype factory_call =
    Unload_Tracking_Module
  | Hardware_Reset string
  | Set_Changed_Callback
  | Create_Node node_kind string
  | Publish_Topics
  | Destroy_Node
  | Advertise_Toggle
  | Advertise_Reset
  | Toggle_Sensors bool

text \<open>
  \<open>f_device\<close> is empty for the null device.  \<open>f_thread\<close> tells whether \<open>_query_thread\<close> is joinable,
  \<open>f_timer\<close> whether a one-shot timer for \<open>initialize\<close> is set.
\<close>

record factory =
  f_device :: "camera option"
  f_node :: "(node_kind \<times> string) option"
  f_serial_no :: string
  f_usb_port_id :: string
  f_device_type :: string
  f_initial_reset :: bool
  f_thread :: bool
  f_alive :: bool
  f_toggle_srv :: bool
  f_reset_srv :: bool
  f_timer :: bool
  f_calls :: "factory_call list"

text \<open>
  Outside the code: whether a regular expression is found in a name (ignoring case), whether
  \<open>hardware_reset\<close> throws, and how \<open>publishTopics\<close> of a new node ends.
\<close>

datatype start_result = Started | Rs2_Error string | Std_Exception string

record factory_env =
  fe_regex :: "string \<Rightarrow> string \<Rightarrow> bool"
  fe_reset_error :: "factory_call list \<Rightarrow> string option"
  fe_publish :: "factory_call list \<Rightarrow> start_result"

definition f_log :: "factory_call list \<Rightarrow> factory \<Rightarrow> factory" where
  "f_log cs s = s\<lparr>f_calls := f_calls s @ cs\<rparr>"

section \<open>\<open>getDevice\<close>\<close>

text \<open>An element of the device list, or the failure to read it, which skips it.\<close>

type_synonym device_list = "camera option list"

definition matches :: "factory_env \<Rightarrow> factory \<Rightarrow> camera \<Rightarrow> bool" where
  "matches E s d \<longleftrightarrow>
     (f_serial_no s = [] \<or> cm_serial d = f_serial_no s) \<and>
     (f_usb_port_id s = [] \<or> parse_usb_port (cm_port d) = f_usb_port_id s) \<and>
     (f_device_type s = [] \<or> fe_regex E (f_device_type s) (cm_name d))"

fun search_list :: "factory_env \<Rightarrow> device_list \<Rightarrow> factory \<Rightarrow> factory" where
  "search_list E [] s = s"
| "search_list E (None # ds) s = search_list E ds s"
| "search_list E (Some d # ds) s =
     (if matches E s d then s\<lparr>f_device := Some d, f_serial_no := cm_serial d\<rparr> else search_list E ds s)"

definition unload_tracking :: "factory \<Rightarrow> factory outcome" where
  "unload_tracking s =
     (case f_device s of
        None \<Rightarrow> Inr s
      | Some d \<Rightarrow> (case stoi16 (cm_pid d) of
          None \<Rightarrow> Inl (Thrown ''stoi'', s)
        | Some p \<Rightarrow> Inr (if p \<noteq> RS_T265_PID then f_log [Unload_Tracking_Module] s else s)))"

definition initial_reset :: "factory_env \<Rightarrow> factory \<Rightarrow> factory" where
  "initial_reset E s =
     (case f_device s of
        None \<Rightarrow> s
      | Some d \<Rightarrow>
          if \<not> f_initial_reset s then s
          else let s1 = f_log [Hardware_Reset (cm_serial d)] (s\<lparr>f_initial_reset := False\<rparr>)
            in if fe_reset_error E (f_calls s) = None then s1\<lparr>f_device := None\<rparr> else s1)"

definition getDevice :: "factory_env \<Rightarrow> device_list \<Rightarrow> factory \<Rightarrow> factory outcome" where
  "getDevice E ds s =
     and_then (unload_tracking (if f_device s = None then search_list E ds s else s))
       (\<lambda>s1. Inr (initial_reset E s1))"

section \<open>\<open>StartDevice\<close>\<close>

definition drop_node :: "factory \<Rightarrow> factory" where
  "drop_node s = (if f_node s = None then s else f_log [Destroy_Node] (s\<lparr>f_node := None\<rparr>))"

text \<open>A \<open>uint16_t\<close> keeps the low 16 bits.\<close>

definition kind_of_pid :: "nat \<Rightarrow> node_kind option" where
  "kind_of_pid n = (let pid = n mod 2 ^ 16 in
     if pid \<in> set base_pids then Some Base_Node
     else if pid = RS_T265_PID then Some T265_Node else None)"

definition StartDevice :: "factory_env \<Rightarrow> factory \<Rightarrow> factory outcome" where
  "StartDevice E s =
     (let s1 = drop_node s in
      case f_device s1 of
        None \<Rightarrow> Inl (NullDeref ''_device'', s1)
      | Some d \<Rightarrow> (case stoi16 (cm_pid d) of
          None \<Rightarrow> Inl (Thrown ''stoi'', s1)
        | Some n \<Rightarrow> (case kind_of_pid n of
            None \<Rightarrow> Inl (Exited 1, s1)
          | Some k \<Rightarrow>
              let s2 = f_log [Create_Node k (f_serial_no s1), Publish_Topics]
                    (s1\<lparr>f_node := Some (k, f_serial_no s1)\<rparr>)
              in (case fe_publish E (f_calls s1) of
                    Started \<Rightarrow> Inr s2
                  | Rs2_Error e \<Rightarrow> Inr s2
                  | Std_Exception e \<Rightarrow> Inl (Thrown e, s2)))))"

section \<open>The query thread\<close>

text \<open>
  One round of the loop, when \<open>_is_alive && !_device\<close>.  \<open>left\<close> is the time left until
  \<open>wait_for_device_timeout\<close> expires (\<open>None\<close>: no timeout), read after a round without device.
\<close>

definition rs_query_round :: "factory_env \<Rightarrow> device_list \<Rightarrow> rat option \<Rightarrow> factory \<Rightarrow> factory outcome" where
  "rs_query_round E ds left s =
     (if \<not> (f_thread s \<and> f_alive s \<and> f_device s = None) then Inr s
      else and_then (getDevice E ds s)
       (\<lambda>s1. if f_device s1 \<noteq> None then StartDevice E (f_log [Set_Changed_Callback] s1)
              else (case left of None \<Rightarrow> Inr s1 | Some t \<Rightarrow> if t < 0 then Inl (Exited 1, s1) else Inr s1)))"

section \<open>\<open>initialize\<close>, \<open>reset\<close> and the callbacks\<close>

text \<open>
  \<open>initialize\<close> for a live camera (no \<open>rosbag_filename\<close>), as the timer calls it.  Assigning to a joinable
  \<open>std::thread\<close> would end the process.
\<close>

definition initialize_live :: "ros_params \<Rightarrow> factory \<Rightarrow> factory outcome" where
  "initialize_live P s =
     (if \<not> f_timer s then Inr s
      else let s1 = s\<lparr>f_timer := False, f_device := None, f_serial_no := p_str P ''serial_no'' '''',
             f_usb_port_id := p_str P ''usb_port_id'' '''', f_device_type := p_str P ''device_type'' ''''\<rparr>;
           s2 = (if f_toggle_srv s1 then s1 else f_log [Advertise_Toggle] (s1\<lparr>f_toggle_srv := True\<rparr>));
           s3 = s2\<lparr>f_initial_reset := p_bool P ''initial_reset'' False, f_alive := True\<rparr>
      in if f_thread s3 then Inl (CheckFailed ''std::terminate'', s3)
         else let s4 = s3\<lparr>f_thread := True\<rparr>
           in Inr (if f_reset_srv s4 then s4 else f_log [Advertise_Reset] (s4\<lparr>f_reset_srv := True\<rparr>)))"

text \<open>
  \<open>initialize\<close> from a recording: the pipeline delivers the device; an exception of the start that is not
  the library's ends the process, as \<open>catch\<close> calls \<open>exit(1)\<close>.
\<close>

definition initialize_bag :: "factory_env \<Rightarrow> ros_params \<Rightarrow> camera \<Rightarrow> factory \<Rightarrow> factory outcome" where
  "initialize_bag E P d s =
     (if \<not> f_timer s then Inr s
      else let s1 = s\<lparr>f_timer := False, f_device := Some d, f_serial_no := cm_serial d,
             f_usb_port_id := p_str P ''usb_port_id'' '''', f_device_type := p_str P ''device_type'' ''''\<rparr>;
           s2 = (if f_toggle_srv s1 then s1 else f_log [Advertise_Toggle] (s1\<lparr>f_toggle_srv := True\<rparr>))
      in (case StartDevice E s2 of Inl (Thrown _, t) \<Rightarrow> Inl (Exited 1, t) | r \<Rightarrow> r))"

definition factory_reset :: "factory_env \<Rightarrow> factory \<Rightarrow> factory" where
  "factory_reset E s =
     (let s1 = drop_node (s\<lparr>f_alive := False, f_thread := False\<rparr>);
          s2 = (case f_device s1 of
                  None \<Rightarrow> s1
                | Some d \<Rightarrow>
                    let s' = f_log [Hardware_Reset (cm_serial d)] s1
                    in if fe_reset_error E (f_calls s1) = None then s'\<lparr>f_device := None\<rparr> else s')
      in s2\<lparr>f_timer := True\<rparr>)"

definition change_device_callback :: "factory_env \<Rightarrow> (camera option \<Rightarrow> bool) \<Rightarrow> factory \<Rightarrow> factory" where
  "change_device_callback E was_removed s = (if was_removed (f_device s) then factory_reset E s else s)"

definition handleReset :: "factory_env \<Rightarrow> factory \<Rightarrow> factory" where
  "handleReset E s = factory_reset E s"

definition toggle_sensor_callback :: "bool \<Rightarrow> factory \<Rightarrow> factory outcome" where
  "toggle_sensor_callback on s =
     (if f_node s = None then Inl (NullDeref ''_realSenseNode'', s) else Inr (f_log [Toggle_Sensors on] s))"

definition new_factory :: "bool \<Rightarrow> factory" where
  "new_factory junk = \<lparr>f_device = None, f_node = None, f_serial_no = [], f_usb_port_id = [],
     f_device_type = [], f_initial_reset = junk, f_thread = False, f_alive = True, f_toggle_srv = False,
     f_reset_srv = False, f_timer = False, f_calls = []\<rparr>"

definition onInit_rs :: "factory \<Rightarrow> factory" where
  "onInit_rs s = s\<lparr>f_timer := True\<rparr>"

definition destroy_factory :: "factory \<Rightarrow> factory" where
  "destroy_factory s = drop_node (s\<lparr>f_alive := False, f_thread := False\<rparr>)"

section \<open>Ports: what the expressions extract\<close>

lemma runs_eq:
  "runs p s = map (\<lambda>n. (take n s, drop n s)) (rev [0..<Suc (length (takeWhile p s))])"
proof (induction s)
  case (Cons c cs)
  show ?case
  proof (cases "p c")
    case True
    have "rev [0..<Suc (Suc n)] = map Suc (rev [0..<Suc n]) @ [0]" for n
      by (metis map_Suc_upt rev.simps(2) rev_map upt_conv_Cons zero_less_Suc)
    with True Cons show ?thesis by (simp add: o_def del: upt_Suc)
  qed simp
qed simp

lemma runs_suffix: "(a, r) \<in> set (runs p s) \<Longrightarrow> s = a @ r"
  by (auto simp: runs_eq)

lemma runs1_suffix: "(a, r) \<in> set (runs1 p s) \<Longrightarrow> s = a @ r"
  by (auto simp: runs1_def dest: runs_suffix)

lemma runs1_first:
  assumes "list_all p xs" "xs \<noteq> []" "ys = [] \<or> \<not> p (hd ys)"
  shows "\<exists>rest. runs1 p (xs @ ys) = (xs, ys) # rest"
proof -
  have "takeWhile p (xs @ ys) = xs"
    using assms(1,3) by (cases ys) (auto simp: takeWhile_append list_all_iff)
  then show ?thesis using assms(2) by (simp add: runs1_def runs_eq)
qed

lemma strip_Some: "strip pre s \<noteq> [] \<Longrightarrow> \<exists>t. s = pre @ t"
  by (metis append_take_drop_id strip_def)

lemma no_usb_prefix:
  assumes "\<not> sublist ''/usb'' line"
  shows "usb_prefix line = [line]"
proof -
  have "strip ''/usb'' r = []" if "(a, r) \<in> set (runs1 not_space line)" for a r
  proof (rule ccontr)
    assume "strip ''/usb'' r \<noteq> []"
    then obtain t where "r = ''/usb'' @ t" using strip_Some by blast
    with runs1_suffix [OF that] assms show False by (auto simp: sublist_def)
  qed
  then show ?thesis by (fastforce simp: usb_prefix_def)
qed

lemma no_slash: "list_all port_char s \<Longrightarrow> \<not> sublist ''/usb'' s"
  by (auto simp: sublist_def list_all_iff port_char_def port_digit_def)

lemma runs_all_append:
  "\<exists>ws. runs (\<lambda>_. True) (p @ r) = map (\<lambda>(a, b). (p @ a, b)) (runs (\<lambda>_. True) r) @ ws"
proof (induction p)
  case (Cons c p)
  then obtain ws where "runs (\<lambda>_. True) (p @ r) = map (\<lambda>(a, b). (p @ a, b)) (runs (\<lambda>_. True) r) @ ws" ..
  then show ?case by (simp add: o_def case_prod_beta)
qed simp

lemma runs_last: "\<exists>us. runs p s = us @ [([], s)] \<and> (\<forall>u \<in> set us. fst u \<noteq> [])"
  by (cases s) auto

lemma concat_map_first:
  "(\<And>u. u \<in> set us \<Longrightarrow> f u = []) \<Longrightarrow> f x = y # ys \<Longrightarrow> \<exists>zs. concat (map f (us @ x # vs)) = y # zs"
  by (induction us) auto

text \<open>The counter of a libuvc name.\<close>

lemma counter_removed:
  assumes p: "p \<noteq> []" and ds: "list_all port_digit ds" "ds \<noteq> []"
  shows "\<exists>rest. counter_matches (p @ CHR ''-'' # ds) = p # rest"
proof -
  define f where "f = (\<lambda>(a :: string, r). concat (map (\<lambda>r1. map (\<lambda>_. a)
       (filter (\<lambda>(_ :: string, r2). r2 = ([] :: string)) (runs1 port_digit r1))) (strip ''-'' r)))"
  let ?r = "CHR ''-'' # ds"
  obtain us where us: "runs (\<lambda>_. True) ?r = us @ [([], ?r)]" "\<forall>u \<in> set us. fst u \<noteq> []"
    using runs_last by blast
  obtain ws where "runs (\<lambda>_. True) (p @ ?r) = map (\<lambda>(a, b). (p @ a, b)) (runs (\<lambda>_. True) ?r) @ ws"
    using runs_all_append by blast
  then have "runs (\<lambda>_. True) (p @ ?r) = map (\<lambda>(a, b). (p @ a, b)) us @ (p, ?r) # ws"
    unfolding us(1) by simp
  then have r: "runs1 (\<lambda>_. True) (p @ ?r) =
      filter (\<lambda>(a, b). a \<noteq> []) (map (\<lambda>(a, b). (p @ a, b)) us) @ (p, ?r) # filter (\<lambda>(a, b). a \<noteq> []) ws"
    using p by (simp add: runs1_def)
  have "f u = []" if u: "u \<in> set (filter (\<lambda>(a, b). a \<noteq> []) (map (\<lambda>(a, b). (p @ a, b)) us))" for u
  proof -
    obtain a b where ab: "(a, b) \<in> set us" "u = (p @ a, b)" using u by auto
    then have "?r = a @ b" using us(1) by (intro runs_suffix [of a b "\<lambda>_. True"]) simp
    moreover have "a \<noteq> []" using ab(1) us(2) by auto
    ultimately have "set b \<subseteq> set ds" by (cases a) auto
    then have "b = [] \<or> hd b \<noteq> CHR ''-''"
      using ds(1) by (cases b) (auto simp: list_all_iff port_digit_def)
    then show ?thesis by (cases b) (auto simp: f_def ab(2) strip_def)
  qed
  moreover have "\<exists>rest. f (p, ?r) = p # rest"
    using runs1_first [OF ds, of "[]"] by (auto simp: f_def strip_def)
  ultimately show ?thesis
    unfolding counter_matches_def r f_def [symmetric] using concat_map_first [of _ f] by metis
qed

text \<open>
  \<open>parse_usb_port\<close> recovers the port from both spellings of librealsense: a port followed by a
  colon and anything without spaces, and a port followed by a hyphen and a counter.
\<close>

theorem usb_port_recovered:
  assumes "port \<noteq> []" "list_all port_char port"
  shows "(list_all not_space rest \<and> \<not> sublist ''/usb'' (port @ CHR '':'' # rest) \<longrightarrow>
      parse_usb_port (port @ CHR '':'' # rest) = port) \<and>
    (list_all port_digit counter \<and> counter \<noteq> [] \<longrightarrow> parse_usb_port (port @ CHR ''-'' # counter) = port)"
proof (intro conjI impI)
  assume r: "list_all not_space rest \<and> \<not> sublist ''/usb'' (port @ CHR '':'' # rest)"
  have "\<not> port_char (CHR '':'')" by (simp add: port_char_def port_digit_def)
  then obtain ms where "runs1 port_char (port @ CHR '':'' # rest) = (port, CHR '':'' # rest) # ms"
    using runs1_first [OF assms(2,1), of "CHR '':'' # rest"] by auto
  then have "\<exists>zs. port_matches (port @ CHR '':'' # rest) = (port, True) # zs"
    using r by (simp add: port_matches_def no_usb_prefix strip_def)
  then show "parse_usb_port (port @ CHR '':'' # rest) = port" by (auto simp: parse_usb_port_def)
next
  assume c: "list_all port_digit counter \<and> counter \<noteq> []"
  let ?line = "port @ CHR ''-'' # counter"
  have pc: "list_all port_char ?line" using assms(2) c by (auto simp: list_all_iff port_char_def)
  then obtain ms where "runs1 port_char ?line = (?line, []) # ms"
    using runs1_first [OF pc, of "[]"] by auto
  then have "\<exists>zs. port_matches ?line = (?line, False) # zs"
    using no_slash [OF pc] by (simp add: port_matches_def no_usb_prefix strip_def)
  moreover obtain ks where "counter_matches ?line = port # ks"
    using counter_removed [OF assms(1)] c by blast
  ultimately show "parse_usb_port ?line = port" by (auto simp: parse_usb_port_def)
qed

lemma usb_port_recovered_witness: "parse_usb_port ''2-3.1-15'' = ''2-3.1''"
  using usb_port_recovered [of "''2-3.1''" _ "''15''"] by (simp add: port_char_def port_digit_def)

section \<open>Histories\<close>

datatype factory_event =
    Timer ros_params
  | Query device_list "rat option"
  | Devices_Changed "camera option \<Rightarrow> bool"
  | Reset_Service
  | Toggle bool

fun factory_step :: "factory_env \<Rightarrow> factory_event \<Rightarrow> factory \<Rightarrow> factory outcome" where
  "factory_step E (Timer P) s = initialize_live P s"
| "factory_step E (Query ds left) s = rs_query_round E ds left s"
| "factory_step E (Devices_Changed r) s = Inr (change_device_callback E r s)"
| "factory_step E Reset_Service s = Inr (handleReset E s)"
| "factory_step E (Toggle on) s = toggle_sensor_callback on s"

definition factory_run :: "factory_env \<Rightarrow> bool \<Rightarrow> factory_event list \<Rightarrow> factory outcome" where
  "factory_run E junk es = fold_outcome (factory_step E) es (onInit_rs (new_factory junk))"

text \<open>
  A pending \<open>initialize\<close> finds neither a node nor a query thread; a node belongs to the device that is
  held, has its serial number, and its kind is the one of the product.
\<close>

definition factory_inv :: "factory \<Rightarrow> bool" where
  "factory_inv s \<longleftrightarrow> (f_timer s \<longrightarrow> f_node s = None \<and> \<not> f_thread s) \<and>
     (\<forall>k sn. f_node s = Some (k, sn) \<longrightarrow> (\<exists>d n. f_device s = Some d \<and> cm_serial d = sn \<and>
        stoi16 (cm_pid d) = Some n \<and> kind_of_pid n = Some k)) \<and>
     (\<forall>d. f_device s = Some d \<longrightarrow> f_timer s \<or> f_serial_no s = cm_serial d)"

lemma f_log_fields [simp]:
  "f_device (f_log cs s) = f_device s" "f_node (f_log cs s) = f_node s" "f_serial_no (f_log cs s) = f_serial_no s"
  "f_usb_port_id (f_log cs s) = f_usb_port_id s" "f_device_type (f_log cs s) = f_device_type s"
  "f_initial_reset (f_log cs s) = f_initial_reset s" "f_thread (f_log cs s) = f_thread s"
  "f_alive (f_log cs s) = f_alive s" "f_toggle_srv (f_log cs s) = f_toggle_srv s"
  "f_reset_srv (f_log cs s) = f_reset_srv s" "f_timer (f_log cs s) = f_timer s"
  "f_calls (f_log cs s) = f_calls s @ cs"
  by (simp_all add: f_log_def)

lemma drop_node_fields [simp]:
  "f_device (drop_node s) = f_device s" "f_node (drop_node s) = None" "f_serial_no (drop_node s) = f_serial_no s"
  "f_usb_port_id (drop_node s) = f_usb_port_id s" "f_device_type (drop_node s) = f_device_type s"
  "f_initial_reset (drop_node s) = f_initial_reset s" "f_thread (drop_node s) = f_thread s"
  "f_alive (drop_node s) = f_alive s" "f_toggle_srv (drop_node s) = f_toggle_srv s"
  "f_reset_srv (drop_node s) = f_reset_srv s" "f_timer (drop_node s) = f_timer s"
  by (simp_all add: drop_node_def)

text \<open>The search: the first device of the list that meets every criterion that is set.\<close>

lemma search_list_eq:
  "search_list E ds s = (case find (matches E s) (List.map_filter (\<lambda>x. x) ds) of
     None \<Rightarrow> s | Some d \<Rightarrow> s\<lparr>f_device := Some d, f_serial_no := cm_serial d\<rparr>)"
  by (induction E ds s rule: search_list.induct) (auto simp: List.map_filter_simps)

definition search_result :: "factory_env \<Rightarrow> device_list \<Rightarrow> factory \<Rightarrow> camera option" where
  "search_result E ds s = find (matches E s) (List.map_filter (\<lambda>x. x) ds)"

text \<open>\<open>StartDevice\<close> on a device whose serial number is known.\<close>

lemma StartDevice_inv:
  assumes "f_device s = Some d" "f_serial_no s = cm_serial d" "\<not> f_timer s"
  shows "factory_inv (outcome_state (StartDevice E s))"
    and "StartDevice E s = Inl (e, t) \<Longrightarrow> e = Exited 1 \<or> (\<exists>m. e = Thrown m)"
    and "f_device (outcome_state (StartDevice E s)) = Some d"
    and "f_serial_no (outcome_state (StartDevice E s)) = cm_serial d"
    and "\<not> f_timer (outcome_state (StartDevice E s))"
  using assms
  by (auto simp: StartDevice_def Let_def factory_inv_def split: option.splits start_result.splits)

lemma StartDevice_returns:
  assumes "StartDevice E s = Inr t"
  obtains k where "f_node t = Some (k, f_serial_no s)" "f_device t = f_device s" "f_thread t = f_thread s"
    "f_alive t = f_alive s" "f_serial_no t = f_serial_no s" "f_initial_reset t = f_initial_reset s"
    "f_device s \<noteq> None"
  using assms that
  by (auto simp: StartDevice_def Let_def split: option.splits start_result.splits)

lemma getDevice_inv:
  assumes "factory_inv s" "f_node s = None" "f_device s = None" "\<not> f_timer s"
  shows "factory_inv (outcome_state (getDevice E ds s)) \<and> f_node (outcome_state (getDevice E ds s)) = None \<and>
    \<not> f_timer (outcome_state (getDevice E ds s)) \<and>
    (\<forall>d. f_device (outcome_state (getDevice E ds s)) = Some d \<longrightarrow>
      f_serial_no (outcome_state (getDevice E ds s)) = cm_serial d) \<and>
    (\<forall>e t. getDevice E ds s = Inl (e, t) \<longrightarrow> (\<exists>m. e = Thrown m))"
  using assms
  by (auto simp: getDevice_def search_list_eq unload_tracking_def initial_reset_def factory_inv_def Let_def
      split: option.splits)

lemma rs_query_round_inv:
  assumes "factory_inv s"
  shows "factory_inv (outcome_state (rs_query_round E ds left s)) \<and>
    (\<forall>e t. rs_query_round E ds left s = Inl (e, t) \<longrightarrow> e = Exited 1 \<or> (\<exists>m. e = Thrown m))"
proof (cases "f_thread s \<and> f_alive s \<and> f_device s = None")
  case False
  then show ?thesis using assms by (simp add: rs_query_round_def)
next
  case True
  have n: "f_node s = None" using assms True by (cases "f_node s") (auto simp: factory_inv_def)
  have tm: "\<not> f_timer s" using assms True by (auto simp: factory_inv_def)
  have d: "f_device s = None" using True by simp
  note g = getDevice_inv [OF assms n d tm, of E ds]
  show ?thesis
  proof (cases "getDevice E ds s")
    case (Inl x)
    then show ?thesis using g True by (cases x) (auto simp: rs_query_round_def)
  next
    case (Inr s1)
    show ?thesis
    proof (cases "f_device s1")
      case None
      then show ?thesis using g True Inr by (auto simp: rs_query_round_def split: option.split)
    next
      case (Some d)
      let ?u = "f_log [Set_Changed_Callback] s1"
      have u: "f_device ?u = Some d" "f_serial_no ?u = cm_serial d" "\<not> f_timer ?u"
        using g Inr Some by auto
      have "rs_query_round E ds left s = StartDevice E ?u"
        using True Inr Some by (simp add: rs_query_round_def)
      then show ?thesis using StartDevice_inv(1, 2) [OF u] by metis
    qed
  qed
qed

lemma factory_step_inv:
  assumes "factory_inv s"
  shows "factory_inv (outcome_state (factory_step E ev s)) \<and>
    (\<forall>e t. factory_step E ev s = Inl (e, t) \<longrightarrow> e = Exited 1 \<or> (\<exists>m. e = Thrown m) \<or>
      (\<exists>on. ev = Toggle on \<and> e = NullDeref ''_realSenseNode'' \<and> f_node s = None))"
proof (cases ev)
  case (Timer P)
  then show ?thesis using assms by (auto simp: initialize_live_def Let_def factory_inv_def)
next
  case (Query ds left)
  then show ?thesis using rs_query_round_inv [OF assms, of E ds left] by auto
next
  case (Devices_Changed r)
  then show ?thesis
    using assms by (auto simp: change_device_callback_def factory_reset_def Let_def factory_inv_def split: option.split)
next
  case Reset_Service
  then show ?thesis
    using assms by (auto simp: handleReset_def factory_reset_def Let_def factory_inv_def split: option.split)
next
  case (Toggle on)
  then show ?thesis using assms by (auto simp: toggle_sensor_callback_def factory_inv_def)
qed

lemma factory_fold_inv:
  assumes "factory_inv s"
  shows "factory_inv (outcome_state (fold_outcome (factory_step E) es s)) \<and>
    (\<forall>e t. fold_outcome (factory_step E) es s = Inl (e, t) \<longrightarrow>
      e \<in> {Exited 1, NullDeref ''_realSenseNode''} \<or> (\<exists>m. e = Thrown m))"
  using assms
proof (induction es arbitrary: s)
  case (Cons ev es)
  note st = factory_step_inv [OF Cons.prems, of E ev]
  show ?case
  proof (cases "factory_step E ev s")
    case (Inl x)
    then show ?thesis using st by (cases x) auto
  next
    case (Inr t)
    then show ?thesis using st Cons.IH [of t] by simp
  qed
qed simp

text \<open>
  Claim C24.  Over every history of timer calls, query rounds, disconnections, resets and toggles: a
  pending \<open>initialize\<close> never meets a running query thread or a node (so the assignment of the thread never
  ends the process), a node always belongs to the device that is held, with its serial number and the
  kind of its product id, and the only ways to fail are an unsupported product or an expired timeout,
  an exception, and the toggle service while there is no node.
\<close>

theorem rs_factory_invariant:
  "factory_inv (outcome_state (factory_run E junk es)) \<and>
    (case factory_run E junk es of
       Inr _ \<Rightarrow> True
     | Inl (e, _) \<Rightarrow> e \<in> {Exited 1, NullDeref ''_realSenseNode''} \<or> (\<exists>m. e = Thrown m))"
proof -
  have "factory_inv (onInit_rs (new_factory junk))"
    by (simp add: factory_inv_def onInit_rs_def new_factory_def)
  from factory_fold_inv [OF this, of E es] show ?thesis
    by (cases "factory_run E junk es") (auto simp: factory_run_def)
qed

section \<open>A start that fails, a reset, a toggle\<close>

definition rounds :: "factory_env \<Rightarrow> (device_list \<times> rat option) list \<Rightarrow> factory \<Rightarrow> factory outcome" where
  "rounds E qs s = fold_outcome (\<lambda>q. rs_query_round E (fst q) (snd q)) qs s"

text \<open>
  \<open>publishTopics\<close> of a new node throws an error of the library: \<open>StartDevice\<close> logs it and returns
  with the half-configured node in place and the device held, so the query loop is over; whatever
  devices appear later, no further round retries the start.
\<close>

theorem failed_start_is_not_retried:
  assumes "rs_query_round E ds left s = Inr t" "f_device s = None" "f_device t = Some d"
    and "\<forall>cs. \<exists>e. fe_publish E cs = Rs2_Error e"
  shows "\<exists>k. f_node t = Some (k, f_serial_no t) \<and> last (f_calls t) = Publish_Topics \<and> rounds E qs t = Inr t"
proof -
  have act: "f_thread s \<and> f_alive s \<and> f_device s = None"
    using assms(1-3) by (cases "f_thread s \<and> f_alive s") (auto simp: rs_query_round_def)
  then obtain s1 where s1: "getDevice E ds s = Inr s1"
    "(if f_device s1 \<noteq> None then StartDevice E (f_log [Set_Changed_Callback] s1)
      else (case left of None \<Rightarrow> Inr s1 | Some t \<Rightarrow> if t < 0 then Inl (Exited 1, s1) else Inr s1)) = Inr t"
    using assms(1) by (auto simp: rs_query_round_def and_then_eq_Inr)
  have "f_device s1 \<noteq> None" using s1(2) assms(3) by (auto split: option.splits if_splits)
  with s1(2) have st: "StartDevice E (f_log [Set_Changed_Callback] s1) = Inr t" by simp
  then obtain k where "f_node t = Some (k, f_serial_no t)" by (rule StartDevice_returns) auto
  moreover have "last (f_calls t) = Publish_Topics"
    using st by (auto simp: StartDevice_def Let_def split: option.splits start_result.splits)
  moreover have "rounds E qs t = Inr t"
    using assms(3) by (induction qs) (simp_all add: rounds_def rs_query_round_def)
  ultimately show ?thesis by blast
qed

text \<open>Resets of the hardware in a history of calls.\<close>

definition resets :: "factory_call list \<Rightarrow> string list" where
  "resets cs = List.map_filter (\<lambda>c. case c of Hardware_Reset sn \<Rightarrow> Some sn | _ \<Rightarrow> None) cs"

lemma resets_append: "resets (cs @ ds) = resets cs @ resets ds"
  by (simp add: resets_def map_filter_def)

lemma resets_simps [simp]:
  "resets [] = []"
  "resets (c # cs) = (case c of Hardware_Reset sn \<Rightarrow> sn # resets cs | _ \<Rightarrow> resets cs)"
  by (simp_all add: resets_def map_filter_def split: factory_call.split)

lemma search_keeps_serial:
  assumes "f_serial_no s \<noteq> []" "f_device s = None"
  shows "f_serial_no (search_list E ds s) = f_serial_no s \<and>
    (\<forall>d. f_device (search_list E ds s) = Some d \<longrightarrow> cm_serial d = f_serial_no s)"
proof (cases "search_result E ds s")
  case None
  then show ?thesis using assms(2) by (simp add: search_list_eq search_result_def)
next
  case (Some d)
  then have "matches E s d" by (auto simp: search_result_def find_Some_iff)
  then have "cm_serial d = f_serial_no s" using assms(1) unfolding matches_def by blast
  with Some show ?thesis by (simp add: search_list_eq search_result_def)
qed

text \<open>Once the reset has been done and the serial number is known.\<close>

definition pinned :: "string \<Rightarrow> string list \<Rightarrow> factory \<Rightarrow> bool" where
  "pinned sn rs s \<longleftrightarrow> \<not> f_initial_reset s \<and> f_serial_no s = sn \<and> resets (f_calls s) = rs \<and>
     (\<forall>d. f_device s = Some d \<longrightarrow> cm_serial d = sn)"

lemma search_list_keeps [simp]:
  "f_calls (search_list E ds s) = f_calls s" "f_initial_reset (search_list E ds s) = f_initial_reset s"
  by (induction E ds s rule: search_list.induct) simp_all

lemma StartDevice_pinned:
  "pinned sn rs s \<Longrightarrow> pinned sn rs (outcome_state (StartDevice E s))"
  by (auto simp: StartDevice_def drop_node_def pinned_def Let_def resets_append
      split: option.splits start_result.splits)

lemma getDevice_pinned:
  assumes "pinned sn rs s" "sn \<noteq> []" "f_device s = None"
  shows "pinned sn rs (outcome_state (getDevice E ds s))"
  using assms search_keeps_serial [of s E ds]
  by (auto simp: getDevice_def unload_tracking_def initial_reset_def pinned_def resets_append
      split: option.splits)

lemma rs_query_round_pinned:
  assumes "pinned sn rs s" "sn \<noteq> []"
  shows "pinned sn rs (outcome_state (rs_query_round E ds left s))"
proof (cases "f_thread s \<and> f_alive s \<and> f_device s = None")
  case False
  then show ?thesis using assms by (simp add: rs_query_round_def)
next
  case True
  then have g: "pinned sn rs (outcome_state (getDevice E ds s))" using getDevice_pinned [OF assms] by simp
  show ?thesis
  proof (cases "getDevice E ds s")
    case (Inl x)
    then show ?thesis using g True by (cases x) (simp add: rs_query_round_def)
  next
    case (Inr s1)
    have "pinned sn rs (f_log [Set_Changed_Callback] s1)"
      using g Inr by (simp add: pinned_def resets_append)
    then show ?thesis
      using g True Inr StartDevice_pinned by (auto simp: rs_query_round_def split: option.split)
  qed
qed

text \<open>
  Claim C25.  \<open>initial_reset\<close>: the round that first finds a matching camera resets it, once, and starts
  nothing; from then on only a camera with the same serial number is ever accepted, even if the parameters
  named none, and no round resets anything again.
\<close>

theorem initial_reset_then_same_camera:
  assumes "f_thread s \<and> f_alive s" "f_device s = None" "f_initial_reset s"
    and "search_result E ds s = Some d" "stoi16 (cm_pid d) \<noteq> None" "cm_serial d \<noteq> []"
    and "\<forall>cs. fe_reset_error E cs = None" "left = None \<or> (\<exists>t \<ge> 0. left = Some t)"
  shows "\<exists>t. rs_query_round E ds left s = Inr t \<and> f_device t = None \<and> f_node t = f_node s \<and>
    resets (f_calls t) = resets (f_calls s) @ [cm_serial d] \<and>
    (let u = outcome_state (rounds E qs t) in resets (f_calls u) = resets (f_calls t) \<and>
      (\<forall>d'. f_device u = Some d' \<longrightarrow> cm_serial d' = cm_serial d))"
proof -
  have sl: "search_list E ds s = s\<lparr>f_device := Some d, f_serial_no := cm_serial d\<rparr>"
    using assms(4) by (simp add: search_list_eq search_result_def)
  obtain p where p: "stoi16 (cm_pid d) = Some p" using assms(5) by auto
  have "\<exists>t. getDevice E ds s = Inr t \<and> f_device t = None \<and> f_node t = f_node s \<and>
    f_serial_no t = cm_serial d \<and> \<not> f_initial_reset t \<and> resets (f_calls t) = resets (f_calls s) @ [cm_serial d]"
    using assms(2,3,7) p
    by (simp add: getDevice_def sl unload_tracking_def initial_reset_def Let_def resets_append)
  then obtain t where g: "getDevice E ds s = Inr t" "f_device t = None" "f_node t = f_node s"
    "f_serial_no t = cm_serial d" "\<not> f_initial_reset t" "resets (f_calls t) = resets (f_calls s) @ [cm_serial d]"
    by blast
  have q: "rs_query_round E ds left s = Inr t"
    using assms(1,2,8) g(1,2) by (auto simp: rs_query_round_def)
  have "pinned (cm_serial d) (resets (f_calls t)) t" using g(2,4,5) by (simp add: pinned_def)
  then have "pinned (cm_serial d) (resets (f_calls t)) (outcome_state (rounds E qs t))"
    unfolding rounds_def by (rule fold_outcome_invariant) (rule rs_query_round_pinned [OF _ assms(6)])
  then have "resets (f_calls (outcome_state (rounds E qs t))) = resets (f_calls t)"
    "\<forall>d'. f_device (outcome_state (rounds E qs t)) = Some d' \<longrightarrow> cm_serial d' = cm_serial d"
    unfolding pinned_def by blast+
  with q g(2,3,6) show ?thesis unfolding Let_def by (intro exI [of _ t] conjI)
qed

text \<open>
  The service \<open>enable\<close> is advertised by \<open>initialize\<close>, before any camera is known: as long as
  none has been found, and again after every reset or disconnection, calling it dereferences a null
  pointer.
\<close>

theorem toggle_service_faults_without_camera:
  assumes "s = onInit_rs (new_factory junk)" "\<forall>q \<in> set qs. q = ([], None)"
  shows "\<exists>t u. initialize_live P s = Inr t \<and> rounds E qs t = Inr u \<and> Advertise_Toggle \<in> set (f_calls u) \<and>
    toggle_sensor_callback on u = Inl (NullDeref ''_realSenseNode'', u) \<and>
    (\<forall>v. toggle_sensor_callback on (factory_reset E v) =
      Inl (NullDeref ''_realSenseNode'', factory_reset E v))"
proof -
  let ?t = "outcome_state (initialize_live P s)"
  have t: "initialize_live P s = Inr ?t" "f_device ?t = None" "f_node ?t = None"
    "Advertise_Toggle \<in> set (f_calls ?t)"
    by (simp_all add: assms(1) onInit_rs_def new_factory_def initialize_live_def Let_def)
  have idle: "rs_query_round E [] None v = Inr v" if "f_device v = None" for v
    using that by (simp add: rs_query_round_def getDevice_def unload_tracking_def initial_reset_def)
  have "rounds E qs ?t = Inr ?t"
    using assms(2) t(2) by (induction qs) (simp_all add: rounds_def idle)
  moreover have "f_node (factory_reset E v) = None" for v
    by (simp add: factory_reset_def Let_def split: option.split)
  ultimately show ?thesis
    using t by (intro exI [of _ ?t]) (simp add: toggle_sensor_callback_def)
qed

section \<open>Examples\<close>

definition demo_camera :: camera where
  "demo_camera = \<lparr>cm_serial = ''123'', cm_port = ''2-1-4'', cm_name = ''D435'', cm_pid = ''0B07''\<rparr>"

definition demo_env :: "start_result \<Rightarrow> factory_env" where
  "demo_env r = \<lparr>fe_regex = (\<lambda>_ _. True), fe_reset_error = (\<lambda>_. None), fe_publish = (\<lambda>_. r)\<rparr>"

definition querying :: "bool \<Rightarrow> factory" where
  "querying r = (new_factory r)\<lparr>f_thread := True\<rparr>"

lemma demo_pid: "stoi16 (cm_pid demo_camera) = Some 0x0b07" "kind_of_pid 0x0b07 = Some Base_Node"
  by (simp_all add: stoi16_def demo_camera_def kind_of_pid_def base_pids_def)

lemma demo_found:
  "search_result E [None, Some demo_camera] (querying r) = Some demo_camera"
  by (simp add: search_result_def List.map_filter_simps matches_def querying_def new_factory_def)

lemma failed_start_is_not_retried_witness:
  "\<exists>t. rs_query_round (demo_env (Rs2_Error ''busy'')) [Some demo_camera] None (querying False) = Inr t \<and>
    rounds (demo_env (Rs2_Error ''busy'')) [([Some demo_camera], None)] t = Inr t"
proof -
  let ?E = "demo_env (Rs2_Error ''busy'')"
  let ?t = "outcome_state (rs_query_round ?E [Some demo_camera] None (querying False))"
  have q: "rs_query_round ?E [Some demo_camera] None (querying False) = Inr ?t" "f_device ?t = Some demo_camera"
    by (simp_all add: rs_query_round_def getDevice_def unload_tracking_def initial_reset_def StartDevice_def
        demo_pid matches_def querying_def new_factory_def demo_env_def RS_T265_PID_def Let_def drop_node_def)
  have "f_device (querying False) = None" by (simp add: querying_def new_factory_def)
  moreover have "\<forall>cs. \<exists>e. fe_publish ?E cs = Rs2_Error e" by (simp add: demo_env_def)
  ultimately show ?thesis using failed_start_is_not_retried [OF q(1) _ q(2)] q(1) by blast
qed

lemma initial_reset_then_same_camera_witness:
  "\<exists>t. rs_query_round (demo_env Started) [None, Some demo_camera] None (querying True) = Inr t \<and>
    resets (f_calls t) = [''123'']"
  using initial_reset_then_same_camera [of "querying True" "demo_env Started" "[None, Some demo_camera]"
      demo_camera None "[]"] demo_found [of "demo_env Started" True] demo_pid(1)
  by (auto simp: querying_def new_factory_def demo_camera_def demo_env_def)

lemma toggle_service_faults_without_camera_witness:
  "\<exists>t. initialize_live empty_params (onInit_rs (new_factory False)) = Inr t \<and>
    faulted (toggle_sensor_callback True t)"
  using toggle_service_faults_without_camera [OF refl, where junk = False and qs = "[]" and P = empty_params
      and E = "demo_env Started" and on = True]
  by (auto simp: rounds_def)

end
