(* ===== verification/Spec2Isabelle.thy ===== *)
theory Spec2Isabelle
  imports Hik_Startup Hik_Exchange Node_Factory Node_Init Node_Frames Uvc_Service Point_Cloud Rs_Alive
    Rs_Factory
begin

text \<open>
  A verification library for the camera drivers of this repository: the HIKROBOT camera node
  (\<open>src/hikrobot_camera\<close>), the Orbbec/Astra driver (\<open>src/ros_astra_camera\<close>) and the RealSense node
  (\<open>src/realsense-ros/realsense2_camera\<close>), C++ nodes for ROS that sit between a vendor library and the
  topics and services of ROS.

  \<^bold>\<open>How the code is modelled.\<close>  A class is a record of its members, a method a function that takes the
  record and returns it updated.  A method that can fail returns the sum \<open>outcome\<close> of \<open>Prelude\<close>:
  \<open>Inl (fault, state)\<close> for a failed \<open>CHECK\<close>, a \<open>throw\<close>, \<open>exit\<close>, a null pointer or an access out of
  bounds, \<open>Inr state\<close> otherwise; \<open>and_then\<close> is the sequencing of statements.  The vendor libraries
  (MVS, OpenNI2, libuvc, librealsense) and the numeric parts of OpenCV are parameters: every call the code makes is
  appended to a log in the state, and the answer to a call is an arbitrary function of the log and
  the call, so a device may answer the same question differently each time.  The theorems are about
  the resulting state and about the exact sequence of calls.  Threads are interleavings of the
  critical sections that the code protects by its mutexes.

  \<^bold>\<open>The theories.\<close>
  \<^item> \<open>Prelude\<close>: faults, outcomes, runs of events (\<open>fold_outcome\<close>), bounded retry loops, ROS parameters,
    decimal rendering, integer/float conversion.
  \<^item> \<open>Hik_Camera\<close>, \<open>Hik_Startup\<close>, \<open>Hik_Exchange\<close> (\<open>hikrobot_camera.hpp\<close>, \<open>hikrobot_camera.cpp\<close>): the
    property setters and \<open>reset\<close>; constructor and destructor with every exit; the grabbing thread and
    the publishing loop that exchange one frame under a mutex.
  \<^item> \<open>Std_Map\<close>: \<open>std::map\<close> as a locale, interpreted on ordered association lists.
  \<^item> \<open>Astra_Types\<close> (\<open>types.h\<close>, \<open>constants.h\<close>, \<open>utils.cpp\<close>), \<open>Ob_Context\<close> (\<open>ob_context.cpp\<close>): the vocabulary
    of the Astra driver, and the list of connected devices, a client of \<open>Std_Map\<close> that refines the map
    from URI to device.
  \<^item> \<open>Node_Factory\<close> (\<open>ob_camera_node_factory.cpp\<close>): opening, starting and losing a device under the
    inter-process lock, with the life time of every device object.
  \<^item> \<open>Stream_Switch\<close>: the contract between a subscription callback and what it switches, a locale with
    two interpretations: the image streams of \<open>Node_Streams\<close> and the UVC camera of \<open>Uvc_Driver\<close>.
    \<open>On_Demand\<close> extends it with the callbacks of subscribers that come and go, and is interpreted by the
    two point cloud nodes of \<open>Point_Cloud\<close>.
  \<^item> \<open>Camera_Types\<close>, \<open>Node_State\<close>: the structures of the OpenNI driver that the node reads, and the
    state of \<open>OBCameraNode\<close> (\<open>ob_camera_node.h\<close>) with its conversation with the device.
  \<^item> \<open>Node_Streams\<close> (\<open>ob_camera_node.cpp\<close>): starting, stopping and destroying streams, subscriptions,
    toggling, one round of the polling thread.
  \<^item> \<open>Camera_Info\<close> (\<open>ob_camera_info.cpp\<close>): reading and caching the calibration, the \<open>CameraInfo\<close> messages.
  \<^item> \<open>Node_Setup\<close>, \<open>Node_Init\<close> (\<open>ob_camera_node.cpp\<close>): the parameters, the steps of \<open>init\<close> in their order,
    the dynamic reconfiguration.
  \<^item> \<open>Static_TF\<close> (\<open>ob_camera_node.cpp\<close>): the transforms that the node computes from the calibration and
    hands to the static broadcaster; \<open>Node_Init\<close> runs them as the step of \<open>init\<close> they are.
  \<^item> \<open>Node_Frames\<close> (\<open>ob_camera_node.cpp\<close>): the frame callback, with the software alignment of depth to
    colour for the cameras that need it.
  \<^item> \<open>Depth_Cloud\<close>, \<open>Point_Cloud\<close> (\<open>point_cloud_proc\<close>, \<open>d2c_viewer.cpp\<close>): the conversion of depth
    images to clouds, pixel by pixel, the two nodes that publish clouds on demand and save them to disk,
    the overlay of depth on colour.
  \<^item> \<open>Ros_Service\<close> (\<open>ros_service.cpp\<close>): the services advertised and every callback.
  \<^item> \<open>Uvc_Driver\<close>, \<open>Uvc_Service\<close> (\<open>uvc_camera_driver.cpp\<close>): opening, configuring, streaming and closing the
    colour camera, its control services, the frame callback.

  \<^item> \<open>Floats\<close>: floating-point numbers as bits, their order, and the record of arithmetic operations.
  \<^item> \<open>Rs_Types\<close>, \<open>Rs_Imu\<close> (\<open>base_realsense_node.cpp\<close>): streams, names, clock and metadata of the RealSense
    node; its inertial path, with the locale \<open>holding_channel\<close> interpreted by \<open>SyncedImuPublisher\<close>.
  \<^item> \<open>Rs_Node\<close>, \<open>Rs_Setup\<close>, \<open>Rs_Setup_Props\<close> (\<open>base_realsense_node.cpp\<close>): the members of the node, its
    parameters, and how sensors, profiles, filters and publishers are set up; the properties of the set-up.

  \<^bold>\<open>What the lemmas show.\<close>  Invariants over every history of events (the factory's connection state,
  streams run only for subscribers, the frames published are a subsequence of those captured, the
  device and its handle live and die together); the exact call sequences of constructors, destructors,
  \<open>init\<close> and the start and stop of streams; which faults are possible and why; round trips and
  refinements; and, where the code does not do what it means to, the theorem that shows what it does.

  \<^bold>\<open>Bounds.\<close>  Loops over containers are structural recursions and folds.  The retry loops of the code
  are bounded by a literal (5) or a parameter (\<open>uvc_retry_count\<close>) and are modelled with exactly that
  many rounds, so no fuel is invented.  Endless loops (the grabbing thread, the polling and query
  threads, \<open>main\<close>) are modelled by their single iteration; the theorems quantify over any sequence
  of iterations.  Integers are kept at the width the code converts them to where it converts.

  \<^bold>\<open>Not modelled.\<close>  Logging and \<open>printf\<close>; time stamps; the thread that repeats
  the dynamic transforms (only whether it exists is kept); the JSON text of
  \<open>getSDKVersionCallback\<close> (built by the vendored library \<open>json.hpp\<close>); the Rockchip decoder behind
  \<open>USE_RK_MPP\<close>; the crash handler; the vendor headers of OpenNI2 beyond the structures that are read;
  the rest of \<open>realsense-ros\<close> (frames, transforms, options, factory) and everything that is not C++ (Python nodes, launch files, robot descriptions).
\<close>

end
